(* ===== verification/Prelude.thy ===== *)
theory Prelude
  imports Main "HOL-Library.Multiset"
begin

text \<open>
  What every component of the library shares: the exceptions of the Python code as one
  datatype, results as sums (\<open>Inl\<close> the exception, \<open>Inr\<close> the value), the two collections of
  facts the component proofs run on, and the generic lemmas on results, association lists and
  sums over lists that carry them.
\<close>

section \<open>Exceptions and results\<close>

text \<open>
  One constructor per exception class the modelled code raises or catches, each with its
  message. \<open>ValidationError\<close> is what pydantic raises when a field constraint of a model class
  is violated (the message is the name of the class).
\<close>

datatype exn =
    ValueError string
  | TypeError string
  | KeyError string
  | OverflowError string
  | AttributeError string
  | InvalidOperation
  | ValidationError string
  | LedgerProtocolConflict string
  | LedgerAdmissionDenied string
  | LedgerUnavailable string
  | LedgerCompareFailed string
  | TransportError
  | HTTPStatusError int
  | TableBatchUnavailable string
  | TableBatchConflict string
  | RuntimeError string
  | BillableBudgetExceeded string
  | BillableOutcomeUncertain string
  | RetryablePublicationError string

type_synonym 'a res = "exn + 'a"

text \<open>\<open>except ValueError\<close> also catches the subclasses of \<open>ValueError\<close>.\<close>

fun is_ValueError :: "exn \<Rightarrow> bool" where
  "is_ValueError (ValueError _) = True"
| "is_ValueError (ValidationError _) = True"
| "is_ValueError (LedgerProtocolConflict _) = True"
| "is_ValueError (LedgerAdmissionDenied _) = True"
| "is_ValueError (BillableBudgetExceeded _) = True"
| "is_ValueError (BillableOutcomeUncertain _) = True"
| "is_ValueError _ = False"

definition bindR :: "'a res \<Rightarrow> ('a \<Rightarrow> 'b res) \<Rightarrow> 'b res" where
  "bindR m f = (case m of Inl e \<Rightarrow> Inl e | Inr x \<Rightarrow> f x)"

definition guardR :: "bool \<Rightarrow> exn \<Rightarrow> 'a res \<Rightarrow> 'a res" where
  "guardR bad e k = (if bad then Inl e else k)"

definition is_ok :: "'a res \<Rightarrow> bool" where
  "is_ok m = (case m of Inl _ \<Rightarrow> False | Inr _ \<Rightarrow> True)"

fun mapR :: "('a \<Rightarrow> 'b res) \<Rightarrow> 'a list \<Rightarrow> 'b list res" where
  "mapR f [] = Inr []"
| "mapR f (x # xs) = bindR (f x) (\<lambda>y. bindR (mapR f xs) (\<lambda>ys. Inr (y # ys)))"

named_theorems res_simps \<open>equations that turn a successful result into its guards\<close>
named_theorems step_intro \<open>preservation facts of single operations\<close>

lemma bindR_simps [simp]: "bindR (Inl e) f = Inl e" "bindR (Inr x) f = f x"
  by (simp_all add: bindR_def)

lemma bindR_eq_Inr [res_simps]: "bindR m f = Inr y \<longleftrightarrow> (\<exists>x. m = Inr x \<and> f x = Inr y)"
  by (cases m) auto

lemma bindR_eq_Inl [res_simps]:
  "bindR m f = Inl e \<longleftrightarrow> m = Inl e \<or> (\<exists>x. m = Inr x \<and> f x = Inl e)"
  by (cases m) auto

lemma guardR_eq_Inr [res_simps]: "guardR bad e k = Inr y \<longleftrightarrow> \<not> bad \<and> k = Inr y"
  by (simp add: guardR_def)

lemma guardR_eq_Inl [res_simps]:
  "guardR bad e k = Inl x \<longleftrightarrow> (bad \<and> x = e) \<or> (\<not> bad \<and> k = Inl x)"
  by (auto simp: guardR_def)

lemma guardR_simps [simp]: "guardR True e k = Inl e" "guardR False e k = k"
  by (simp_all add: guardR_def)

lemma is_ok_simps [simp]: "is_ok (Inl e) = False" "is_ok (Inr x) = True"
  by (simp_all add: is_ok_def)

lemma is_ok_iff [res_simps]: "is_ok m \<longleftrightarrow> (\<exists>x. m = Inr x)"
  by (cases m) auto

lemma is_ok_bindR: "is_ok (bindR m f) \<longleftrightarrow> (\<exists>x. m = Inr x \<and> is_ok (f x))"
  by (cases m) auto

lemma mapR_length: "mapR f xs = Inr ys \<Longrightarrow> length ys = length xs"
  by (induction xs arbitrary: ys) (auto simp: res_simps)

section \<open>Outcomes that may keep the object they were given\<close>

text \<open>
  The ledger functions return a pair; when nothing changes they return the very objects they
  were given, and the caller tests this with \<open>is\<close>. \<open>Kept\<close> is that case, \<open>Advanced\<close> a new pair.
\<close>

datatype ('s, 'a) outcome = Kept | Advanced 's 'a

fun outcome_state :: "'s \<Rightarrow> 'a \<Rightarrow> ('s, 'a) outcome \<Rightarrow> 's \<times> 'a" where
  "outcome_state s a Kept = (s, a)"
| "outcome_state s a (Advanced s' a') = (s', a')"

section \<open>Lists, association lists and sums\<close>

definition opt_or :: "'a option \<Rightarrow> 'a \<Rightarrow> 'a" where
  "opt_or x d = (case x of None \<Rightarrow> d | Some v \<Rightarrow> v)"

lemma opt_or_simps [simp]: "opt_or None d = d" "opt_or (Some v) d = v"
  by (simp_all add: opt_or_def)

text \<open>\<open>next((x for x in xs if p(x)), None)\<close> is the library's \<open>find\<close>.\<close>

lemma find_Some_iff_mem: "find p xs = Some x \<Longrightarrow> x \<in> set xs \<and> p x"
  by (metis find_Some_iff nth_mem)

lemma find_None_all: "find p xs = None \<longleftrightarrow> (\<forall>x \<in> set xs. \<not> p x)"
  by (auto simp: find_None_iff)

definition sum_by :: "('a \<Rightarrow> int) \<Rightarrow> 'a list \<Rightarrow> int" where
  "sum_by f xs = sum_list (map f xs)"

lemma sum_by_simps [simp]:
  "sum_by f [] = 0" "sum_by f (x # xs) = f x + sum_by f xs"
  "sum_by f (xs @ ys) = sum_by f xs + sum_by f ys"
  by (simp_all add: sum_by_def)

lemma sum_by_nonneg: "(\<And>x. x \<in> set xs \<Longrightarrow> 0 \<le> f x) \<Longrightarrow> 0 \<le> sum_by f xs"
  by (induction xs) force+

lemma sum_by_mem_le: "(\<And>y. y \<in> set xs \<Longrightarrow> 0 \<le> f y) \<Longrightarrow> x \<in> set xs \<Longrightarrow> f x \<le> sum_by f xs"
proof (induction xs)
  case (Cons y ys)
  then have "0 \<le> sum_by f ys" by (intro sum_by_nonneg) simp
  with Cons show ?case by (cases "x = y") force+
qed simp

lemma sum_by_update:
  "i < length xs \<Longrightarrow> sum_by f (xs[i := y]) = sum_by f xs - f (xs ! i) + f y"
  by (induction xs arbitrary: i) (auto split: nat.splits)

lemma sum_by_cong: "(\<And>x. x \<in> set xs \<Longrightarrow> f x = g x) \<Longrightarrow> sum_by f xs = sum_by g xs"
  by (induction xs) auto

end
