(* ===== verification/Py_Values.thy ===== *)
theory Py_Values
  imports Prelude "HOL-Library.List_Lexorder" "HOL-Library.Char_ord"
begin

text \<open>
  The part of Python's value model the budget code uses: text, UUIDs, calendar dates, aware
  datetimes and their ISO form, decimals with a context precision, and the untyped JSON values
  that \<open>budget_completion.py\<close> works on (\<open>dict[str, Any]\<close>), with Python's equality and
  \<open>json.dumps\<close>. Text is modelled over the 256 characters of \<^typ>\<open>char\<close> (Latin-1).
\<close>

section \<open>Text\<close>

definition code_of :: "char \<Rightarrow> nat" where
  "code_of c = of_char c"

definition is_space :: "char \<Rightarrow> bool" where
  "is_space c = (code_of c \<in> set [9, 10, 11, 12, 13, 28, 29, 30, 31, 32, 133, 160])"

definition py_strip :: "string \<Rightarrow> string" where
  "py_strip s = rev (dropWhile is_space (rev (dropWhile is_space s)))"

text \<open>\<open>not s.strip()\<close>: the text is empty or blank.\<close>

definition is_blank :: "string \<Rightarrow> bool" where
  "is_blank s = list_all is_space s"

lemma py_strip_blank: "py_strip s = [] \<longleftrightarrow> is_blank s"
proof
  assume "py_strip s = []"
  then have "dropWhile is_space (rev (dropWhile is_space s)) = []"
    by (simp only: py_strip_def rev_is_Nil_conv)
  then have "\<forall>c \<in> set (rev (dropWhile is_space s)). is_space c"
    by (simp only: dropWhile_eq_Nil_conv)
  then have "dropWhile is_space s = []"
    by (metis hd_dropWhile list.set_sel(1) set_rev)
  then show "is_blank s"
    by (simp only: is_blank_def list_all_iff dropWhile_eq_Nil_conv)
next
  assume "is_blank s"
  then have "dropWhile is_space s = []"
    by (simp only: is_blank_def list_all_iff dropWhile_eq_Nil_conv)
  then show "py_strip s = []" by (simp only: py_strip_def rev.simps dropWhile.simps)
qed

definition lower_char :: "char \<Rightarrow> char" where
  "lower_char c = (let n = code_of c in
     if (65 \<le> n \<and> n \<le> 90) \<or> (192 \<le> n \<and> n \<le> 222 \<and> n \<noteq> 215) then char_of (n + 32) else c)"

definition py_lower :: "string \<Rightarrow> string" where
  "py_lower s = map lower_char s"

definition is_printable :: "char \<Rightarrow> bool" where
  "is_printable c = (let n = code_of c in (32 \<le> n \<and> n < 127) \<or> (160 < n \<and> n \<noteq> 173))"

definition prefix_of :: "string \<Rightarrow> string \<Rightarrow> bool" where
  "prefix_of p s = (take (length p) s = p)"

definition digits10 :: string where "digits10 = ''0123456789''"
definition hex_lower :: string where "hex_lower = ''0123456789abcdef''"
definition letters :: string where
  "letters = ''ABCDEFGHIJKLMNOPQRSTUVWXYZabcdefghijklmnopqrstuvwxyz''"

text \<open>\<open>re.fullmatch(r"[...]{lo,hi}", s)\<close> for a character class given as its characters.\<close>

definition match_class :: "string \<Rightarrow> nat \<Rightarrow> nat \<Rightarrow> string \<Rightarrow> bool" where
  "match_class cls lo hi s = (lo \<le> length s \<and> length s \<le> hi \<and> list_all (\<lambda>c. c \<in> set cls) s)"

text \<open>The pattern \<open>^[0-9a-f]{64}$\<close> of every digest field.\<close>

definition is_sha256_hex :: "string \<Rightarrow> bool" where
  "is_sha256_hex s = match_class hex_lower 64 64 s"

definition rule_chars :: string where "rule_chars = letters @ digits10 @ ''_.-''"
definition field_chars :: string where "field_chars = letters @ digits10 @ ''_.[]-''"

subsection \<open>Decimal numerals\<close>

definition digit_char :: "int \<Rightarrow> char" where
  "digit_char d = digits10 ! nat d"

fun digit_val :: "char \<Rightarrow> int option" where
  "digit_val c = map_of (zip digits10 [0, 1, 2, 3, 4, 5, 6, 7, 8, 9]) c"

text \<open>\<open>f"{n:0wd}"\<close>: the last \<open>w\<close> decimal digits of \<open>n\<close>, with leading zeros.\<close>

fun pad_dec :: "nat \<Rightarrow> int \<Rightarrow> string" where
  "pad_dec 0 n = []"
| "pad_dec (Suc w) n = pad_dec w (n div 10) @ [digit_char (n mod 10)]"

fun parse_dec :: "int \<Rightarrow> string \<Rightarrow> int option" where
  "parse_dec acc [] = Some acc"
| "parse_dec acc (c # cs) =
     (case digit_val c of None \<Rightarrow> None | Some d \<Rightarrow> parse_dec (10 * acc + d) cs)"

text \<open>\<open>str(n)\<close> of an integer.\<close>

function show_pos :: "int \<Rightarrow> string" where
  "show_pos n = (if n < 10 then [digit_char n] else show_pos (n div 10) @ [digit_char (n mod 10)])"
  by pat_completeness auto
termination by (relation "measure nat") auto

declare show_pos.simps [simp del]

definition show_int :: "int \<Rightarrow> string" where
  "show_int n = (if n < 0 then CHR ''-'' # show_pos (- n) else show_pos n)"

lemma digit_val_char: "0 \<le> d \<Longrightarrow> d < 10 \<Longrightarrow> digit_val (digit_char d) = Some d"
proof -
  assume "0 \<le> d" "d < 10"
  then have "d = 0 \<or> d = 1 \<or> d = 2 \<or> d = 3 \<or> d = 4 \<or> d = 5 \<or> d = 6 \<or> d = 7 \<or> d = 8 \<or> d = 9"
    by arith
  then show ?thesis by (auto simp: digit_char_def digits10_def nat_numeral)
qed

lemma parse_dec_append:
  "parse_dec acc (xs @ ys) = (case parse_dec acc xs of None \<Rightarrow> None | Some a \<Rightarrow> parse_dec a ys)"
  by (induction xs arbitrary: acc) (auto split: option.splits simp del: digit_val.simps)

lemma length_pad_dec [simp]: "length (pad_dec w n) = w"
  by (induction w arbitrary: n) simp_all

lemma parse_pad_dec:
  "0 \<le> n \<Longrightarrow> n < 10 ^ w \<Longrightarrow> parse_dec a (pad_dec w n) = Some (a * 10 ^ w + n)"
proof (induction w arbitrary: n a)
  case 0
  then show ?case by simp
next
  case (Suc w)
  then have "n div 10 < 10 ^ w" by (simp add: div_less_iff_less_mult)
  with Suc have "parse_dec a (pad_dec w (n div 10)) = Some (a * 10 ^ w + n div 10)" by simp
  moreover have "digit_val (digit_char (n mod 10)) = Some (n mod 10)"
    by (rule digit_val_char) simp_all
  ultimately show ?case
    by (simp add: parse_dec_append del: digit_val.simps)
qed


section \<open>UUIDs\<close>

text \<open>
  A UUID is its canonical text (lower case, 8-4-4-4-12), which is what \<open>str(UUID(x))\<close> returns
  and what equality of UUIDs compares. \<open>uuid_canon\<close> is the constructor \<open>UUID(text)\<close>: it drops
  \<open>urn:\<close>, \<open>uuid:\<close>, braces and hyphens and needs 32 hexadecimal digits.
\<close>

type_synonym uuid = string

function remove_text :: "string \<Rightarrow> string \<Rightarrow> string" where
  "remove_text p [] = []"
| "remove_text p (c # cs) =
     (if p \<noteq> [] \<and> prefix_of p (c # cs) then remove_text p (drop (length p) (c # cs))
      else c # remove_text p cs)"
  by pat_completeness auto
termination
  by (relation "measure (\<lambda>(p, s). length s)") (auto simp: length_greater_0_conv [symmetric] simp del: length_greater_0_conv)

definition strip_chars :: "string \<Rightarrow> string \<Rightarrow> string" where
  "strip_chars cls s =
     rev (dropWhile (\<lambda>c. c \<in> set cls) (rev (dropWhile (\<lambda>c. c \<in> set cls) s)))"

definition uuid_canon :: "string \<Rightarrow> uuid option" where
  "uuid_canon s =
     (let h = py_lower (filter (\<lambda>c. c \<noteq> CHR ''-'')
                 (strip_chars ''{}'' (remove_text ''uuid:'' (remove_text ''urn:'' s))))
      in if match_class hex_lower 32 32 h
         then Some (take 8 h @ ''-'' @ take 4 (drop 8 h) @ ''-'' @ take 4 (drop 12 h) @ ''-''
                    @ take 4 (drop 16 h) @ ''-'' @ drop 20 h)
         else None)"

section \<open>Dates and times\<close>

text \<open>
  An aware datetime is identified with its UTC instant in microseconds since 1970-01-01: the
  code only compares aware datetimes or converts them to UTC. A naive datetime keeps its wall
  clock reading. Calendar conversion is the proleptic Gregorian calendar of \<open>datetime.date\<close>.
\<close>

type_synonym instant = int

datatype pydt = Naive int | Aware instant

datatype date = Date (d_year: int) (d_month: int) (d_day: int)

definition day_us :: int where "day_us = 86400000000"

definition is_leap :: "int \<Rightarrow> bool" where
  "is_leap y = (y mod 4 = 0 \<and> (y mod 100 \<noteq> 0 \<or> y mod 400 = 0))"

definition days_in_month :: "int \<Rightarrow> int \<Rightarrow> int" where
  "days_in_month y m =
     (if m = 2 then (if is_leap y then 29 else 28) else if m \<in> {4, 6, 9, 11} then 30 else 31)"

definition days_before_month :: "bool \<Rightarrow> int \<Rightarrow> int" where
  "days_before_month leap m =
     (if m = 1 then 0 else if m = 2 then 31
      else (if leap then 1 else 0) +
        (if m = 3 then 59 else if m = 4 then 90 else if m = 5 then 120 else if m = 6 then 151
         else if m = 7 then 181 else if m = 8 then 212 else if m = 9 then 243
         else if m = 10 then 273 else if m = 11 then 304 else 334))"

text \<open>Days since 1970-01-01 of a calendar date (\<open>date.toordinal\<close>, shifted).\<close>

definition days_from_civil :: "int \<Rightarrow> int \<Rightarrow> int \<Rightarrow> int" where
  "days_from_civil y m d =
     (y - 1) * 365 + (y - 1) div 4 - (y - 1) div 100 + (y - 1) div 400
     + days_before_month (is_leap y) m + d - 719163"

definition month_of_yday :: "bool \<Rightarrow> int \<Rightarrow> int" where
  "month_of_yday leap n =
     (let k = (if leap then 1 else 0) in
      if n < 31 then 1 else if n < 59 + k then 2 else if n < 90 + k then 3 else if n < 120 + k then 4
      else if n < 151 + k then 5 else if n < 181 + k then 6 else if n < 212 + k then 7
      else if n < 243 + k then 8 else if n < 273 + k then 9 else if n < 304 + k then 10
      else if n < 334 + k then 11 else 12)"

text \<open>\<open>date.fromordinal\<close>, shifted: cycles of 400, 100, 4 and 1 years, then the month.\<close>

definition civil_from_days :: "int \<Rightarrow> date" where
  "civil_from_days z =
     (let n = z + 719162; n400 = n div 146097; r400 = n mod 146097;
          n100 = r400 div 36524; r100 = r400 mod 36524;
          n4 = r100 div 1461; r4 = r100 mod 1461; n1 = r4 div 365; r1 = r4 mod 365;
          y = n400 * 400 + n100 * 100 + n4 * 4 + n1 + 1
      in if n1 = 4 \<or> n100 = 4 then Date (y - 1) 12 31
         else let leap = (n1 = 3 \<and> (n4 \<noteq> 24 \<or> n100 = 3)); m = month_of_yday leap r1
              in Date y m (r1 - days_before_month leap m + 1))"

definition utc_date :: "instant \<Rightarrow> date" where
  "utc_date t = civil_from_days (t div day_us)"

text \<open>\<open>date(moment.year, moment.month, 1)\<close> of a UTC moment.\<close>

definition utc_month :: "instant \<Rightarrow> date" where
  "utc_month t = (case utc_date t of Date y m d \<Rightarrow> Date y m 1)"

definition valid_date :: "date \<Rightarrow> bool" where
  "valid_date dt = (case dt of Date y m d \<Rightarrow>
     1 \<le> y \<and> y \<le> 9999 \<and> 1 \<le> m \<and> m \<le> 12 \<and> 1 \<le> d \<and> d \<le> days_in_month y m)"

text \<open>The instants of the years 1 to 9999, the range of \<open>datetime\<close>.\<close>

definition in_range :: "instant \<Rightarrow> bool" where
  "in_range t = (- 719162 \<le> t div day_us \<and> t div day_us < 2932897)"

fun date_less :: "date \<Rightarrow> date \<Rightarrow> bool" where
  "date_less (Date y m d) (Date y' m' d') =
     (y < y' \<or> (y = y' \<and> (m < m' \<or> (m = m' \<and> d < d'))))"

subsection \<open>ISO text\<close>

fun iso_date :: "date \<Rightarrow> string" where
  "iso_date (Date y m d) = pad_dec 4 y @ ''-'' @ pad_dec 2 m @ ''-'' @ pad_dec 2 d"

text \<open>\<open>moment.isoformat()\<close> of a UTC moment.\<close>

definition iso_utc :: "instant \<Rightarrow> string" where
  "iso_utc t =
     (let u = t mod day_us; us = u mod 1000000; s = u div 1000000
      in iso_date (utc_date t) @ ''T'' @ pad_dec 2 (s div 3600) @ '':''
         @ pad_dec 2 (s div 60 mod 60) @ '':'' @ pad_dec 2 (s mod 60)
         @ (if us = 0 then [] else CHR ''.'' # pad_dec 6 us) @ ''+00:00'')"

fun split_iso_date :: "string \<Rightarrow> (date \<times> string) option" where
  "split_iso_date (a # b # c # d # h # e # f # k # g # i # rest) =
     (if h = CHR ''-'' \<and> k = CHR ''-'' then
        (case (parse_dec 0 [a, b, c, d], parse_dec 0 [e, f], parse_dec 0 [g, i]) of
           (Some y, Some m, Some n) \<Rightarrow>
             if valid_date (Date y m n) then Some (Date y m n, rest) else None
         | _ \<Rightarrow> None)
      else None)"
| "split_iso_date _ = None"

definition parse_iso_date :: "string \<Rightarrow> date option" where
  "parse_iso_date s = (case split_iso_date s of Some (d, []) \<Rightarrow> Some d | _ \<Rightarrow> None)"

text \<open>Seconds of a clock text \<open>HH\<close>, \<open>HH:MM\<close> or \<open>HH:MM:SS\<close>, with what follows it.\<close>

definition clock_secs :: "int option \<Rightarrow> int option \<Rightarrow> int option \<Rightarrow> int option" where
  "clock_secs h m s =
     (case (h, m, s) of
        (Some h, Some m, Some s) \<Rightarrow>
          if h < 24 \<and> m < 60 \<and> s < 60 then Some (h * 3600 + m * 60 + s) else None
      | _ \<Rightarrow> None)"

fun parse_clock :: "string \<Rightarrow> (int \<times> string) option" where
  "parse_clock (a # b # c # d # e # f # g # h # rest) =
     (if c = CHR '':'' \<and> f = CHR '':''
      then map_option (\<lambda>x. (x, rest))
             (clock_secs (parse_dec 0 [a, b]) (parse_dec 0 [d, e]) (parse_dec 0 [g, h]))
      else None)"
| "parse_clock [a, b, c, d, e] =
     (if c = CHR '':''
      then map_option (\<lambda>x. (x, [])) (clock_secs (parse_dec 0 [a, b]) (parse_dec 0 [d, e]) (Some 0))
      else None)"
| "parse_clock [a, b] =
     map_option (\<lambda>x. (x, [])) (clock_secs (parse_dec 0 [a, b]) (Some 0) (Some 0))"
| "parse_clock _ = None"

text \<open>The fraction of a second: at most six digits count, shorter ones are filled with zeros.\<close>

definition parse_fraction :: "string \<Rightarrow> int option" where
  "parse_fraction s =
     (case s of
        [] \<Rightarrow> Some 0
      | c # ds \<Rightarrow>
          if (c = CHR ''.'' \<or> c = CHR '','') \<and> ds \<noteq> [] \<and> list_all (\<lambda>x. x \<in> set digits10) ds
          then parse_dec 0 (take 6 (ds @ ''000000'')) else None)"

definition parse_offset :: "string \<Rightarrow> int option" where
  "parse_offset z =
     (case z of
        [] \<Rightarrow> None
      | sg # off \<Rightarrow>
          (case parse_clock off of
             Some (secs, []) \<Rightarrow> Some (if sg = CHR ''-'' then - secs else secs)
           | _ \<Rightarrow> None))"

text \<open>
  \<open>datetime.fromisoformat\<close> on the extended format (date, one separator, clock, optional
  fraction, optional offset), the only one the program's writers produce. The basic and the week
  formats Python also reads are refused here.
\<close>

definition from_iso :: "string \<Rightarrow> pydt option" where
  "from_iso s =
     (case split_iso_date s of
        None \<Rightarrow> None
      | Some (Date y m d, rest) \<Rightarrow>
          (let day = days_from_civil y m d * day_us in
           if rest = [] then Some (Naive day)
           else let body = tl rest;
                    clock = takeWhile (\<lambda>c. c \<notin> set ''+-'') body;
                    zone = dropWhile (\<lambda>c. c \<notin> set ''+-'') body
                in (case parse_clock clock of
                      None \<Rightarrow> None
                    | Some (secs, frac) \<Rightarrow>
                        (case parse_fraction frac of
                           None \<Rightarrow> None
                         | Some us \<Rightarrow>
                             let local = day + secs * 1000000 + us
                             in if zone = [] then Some (Naive local)
                                else map_option (\<lambda>off. Aware (local - off * 1000000))
                                       (parse_offset zone)))))"

definition replace_Z :: "string \<Rightarrow> string" where
  "replace_Z s = concat (map (\<lambda>c. if c = CHR ''Z'' then ''+00:00'' else [c]) s)"

end
