(* ===== verification/Json_Values.thy ===== *)
theory Json_Values
  imports Py_Values
begin

text \<open>
  \<open>decimal.Decimal\<close> with its coefficient, exponent and context precision, and the untyped values
  of \<open>dict[str, Any]\<close> documents with Python's equality and \<open>json.dumps\<close>.
\<close>

section \<open>Decimals\<close>

text \<open>\<open>Dec c e\<close> is the finite value \<open>c * 10 ^ e\<close>; the sign of a zero is not modelled.\<close>

datatype decimal = Dec int int | DNaN | DInf bool

text \<open>The coefficient at a smaller exponent.\<close>

definition coeff_at :: "int \<Rightarrow> int \<Rightarrow> int \<Rightarrow> int" where
  "coeff_at e0 c e = c * 10 ^ nat (e - e0)"

definition dec_cmp :: "(int \<Rightarrow> int \<Rightarrow> bool) \<Rightarrow> decimal \<Rightarrow> decimal \<Rightarrow> bool" where
  "dec_cmp r x y =
     (case (x, y) of
        (Dec c e, Dec c' e') \<Rightarrow> r (coeff_at (min e e') c e) (coeff_at (min e e') c' e')
      | _ \<Rightarrow> False)"

definition dec_eq :: "decimal \<Rightarrow> decimal \<Rightarrow> bool" where "dec_eq = dec_cmp (=)"
definition dec_le :: "decimal \<Rightarrow> decimal \<Rightarrow> bool" where "dec_le = dec_cmp (\<le>)"
definition dec_lt :: "decimal \<Rightarrow> decimal \<Rightarrow> bool" where "dec_lt = dec_cmp (<)"

definition num_digits :: "int \<Rightarrow> nat" where
  "num_digits n = length (show_pos \<bar>n\<bar>)"

text \<open>Division of a nonnegative number rounding half to even, the context's default rounding.\<close>

definition div_half_even :: "int \<Rightarrow> int \<Rightarrow> int" where
  "div_half_even n d =
     (let q = n div d; r = n mod d
      in if 2 * r < d then q else if 2 * r > d then q + 1 else if even q then q else q + 1)"

definition signed_half_even :: "int \<Rightarrow> int \<Rightarrow> int" where
  "signed_half_even n d = (if n < 0 then - div_half_even (- n) d else div_half_even n d)"

text \<open>Rounding a result to the \<open>p\<close> significant digits of the context.\<close>

fun ctx_round :: "nat \<Rightarrow> decimal \<Rightarrow> decimal" where
  "ctx_round p (Dec c e) =
     (if \<bar>c\<bar> < 10 ^ p then Dec c e
      else let k = num_digits c - p; c' = signed_half_even c (10 ^ k)
           in if \<bar>c'\<bar> = 10 ^ p then Dec (c' div 10) (e + int k + 1) else Dec c' (e + int k))"
| "ctx_round p d = d"

fun dec_add :: "nat \<Rightarrow> decimal \<Rightarrow> decimal \<Rightarrow> decimal" where
  "dec_add p (Dec c e) (Dec c' e') =
     (let m = min e e' in ctx_round p (Dec (coeff_at m c e + coeff_at m c' e') m))"
| "dec_add p _ _ = DNaN"

fun dec_neg :: "decimal \<Rightarrow> decimal" where
  "dec_neg (Dec c e) = Dec (- c) e"
| "dec_neg DNaN = DNaN"
| "dec_neg (DInf b) = DInf (\<not> b)"

definition dec_sub :: "nat \<Rightarrow> decimal \<Rightarrow> decimal \<Rightarrow> decimal" where
  "dec_sub p x y = dec_add p x (dec_neg y)"

fun dec_mul :: "nat \<Rightarrow> decimal \<Rightarrow> decimal \<Rightarrow> decimal" where
  "dec_mul p (Dec c e) (Dec c' e') = ctx_round p (Dec (c * c') (e + e'))"
| "dec_mul p _ _ = DNaN"

text \<open>
  Exact division of an integer by \<open>10 ^ k\<close>: Python keeps as few fraction digits as the quotient
  needs (the ideal exponent is 0), and rounds to the context precision.
\<close>

fun strip_zeros :: "nat \<Rightarrow> int \<Rightarrow> int \<Rightarrow> decimal" where
  "strip_zeros 0 c e = Dec c e"
| "strip_zeros (Suc k) c e =
     (if c mod 10 = 0 then strip_zeros k (c div 10) (e + 1) else Dec c e)"

definition dec_div_pow10 :: "nat \<Rightarrow> int \<Rightarrow> nat \<Rightarrow> decimal" where
  "dec_div_pow10 p c k = ctx_round p (strip_zeros k c (- int k))"

text \<open>
  Whether the value has at most 14 decimal places: \<open>amount.quantize(Decimal("1e-14")) == amount\<close>.
\<close>

fun has_scale14 :: "decimal \<Rightarrow> bool" where
  "has_scale14 (Dec c e) = (e \<ge> - 14 \<or> c mod 10 ^ nat (- 14 - e) = 0)"
| "has_scale14 _ = False"

text \<open>A decimal of at most 14 places as a whole number of 1e-14 units.\<close>

fun units14 :: "decimal \<Rightarrow> int" where
  "units14 (Dec c e) = (if e \<ge> - 14 then c * 10 ^ nat (e + 14) else c div 10 ^ nat (- 14 - e))"
| "units14 _ = 0"

text \<open>\<open>format(x, "f")\<close> and \<open>format(x, ".14f")\<close>.\<close>

definition point_text :: "int \<Rightarrow> nat \<Rightarrow> string" where
  "point_text c k =
     (let s = show_pos \<bar>c\<bar>; s = replicate (Suc k - length s) CHR ''0'' @ s; n = length s - k
      in (if c < 0 then ''-'' else '''') @ take n s @ ''.'' @ drop n s)"

fun format_f :: "decimal \<Rightarrow> string" where
  "format_f (Dec c e) =
     (if e \<ge> 0 then show_int (if c = 0 then 0 else c * 10 ^ nat e) else point_text c (nat (- e)))"
| "format_f DNaN = ''NaN''"
| "format_f (DInf b) = (if b then ''-Infinity'' else ''Infinity'')"

definition format_14f :: "decimal \<Rightarrow> string" where
  "format_14f x =
     (case x of
        Dec c e \<Rightarrow>
          point_text (if e \<ge> - 14 then c * 10 ^ nat (e + 14)
                      else signed_half_even c (10 ^ nat (- 14 - e))) 14
      | _ \<Rightarrow> format_f x)"

subsection \<open>Reading decimals\<close>

definition is_digits :: "string \<Rightarrow> bool" where
  "is_digits s = list_all (\<lambda>c. c \<in> set digits10) s"

definition parse_sign :: "string \<Rightarrow> bool \<times> string" where
  "parse_sign s =
     (case s of
        [] \<Rightarrow> (False, [])
      | c # cs \<Rightarrow> if c = CHR ''-'' then (True, cs) else if c = CHR ''+'' then (False, cs) else (False, s))"

definition parse_exp :: "string \<Rightarrow> int option" where
  "parse_exp s =
     (case s of
        [] \<Rightarrow> Some 0
      | _ # ds \<Rightarrow>
          (case parse_sign ds of (neg, ns) \<Rightarrow>
             if ns = [] \<or> \<not> is_digits ns then None
             else map_option (\<lambda>n. if neg then - n else n) (parse_dec 0 ns)))"

definition parse_finite :: "bool \<Rightarrow> string \<Rightarrow> decimal option" where
  "parse_finite neg s =
     (let mant = takeWhile (\<lambda>c. c \<notin> set ''eE'') s; ex = dropWhile (\<lambda>c. c \<notin> set ''eE'') s;
          ip = takeWhile (\<lambda>c. c \<noteq> CHR ''.'') mant; fp = drop (Suc (length ip)) mant
      in if ip @ fp = [] \<or> \<not> is_digits (ip @ fp) then None
         else (case (parse_dec 0 (ip @ fp), parse_exp ex) of
                 (Some c, Some e) \<Rightarrow> Some (Dec (if neg then - c else c) (e - int (length fp)))
               | _ \<Rightarrow> None))"

text \<open>\<open>Decimal(text)\<close>; \<open>None\<close> is \<open>InvalidOperation\<close>.\<close>

definition dec_of_text :: "string \<Rightarrow> decimal option" where
  "dec_of_text s =
     (case parse_sign (filter (\<lambda>c. c \<noteq> CHR ''_'') (py_strip s)) of
        (neg, body) \<Rightarrow>
          (let low = py_lower body in
           if low = ''inf'' \<or> low = ''infinity'' then Some (DInf neg)
           else if prefix_of ''nan'' low \<and> is_digits (drop 3 low)
                   \<or> prefix_of ''snan'' low \<and> is_digits (drop 4 low) then Some DNaN
           else parse_finite neg body))"

section \<open>Untyped values\<close>

text \<open>
  \<open>Any\<close>: None, booleans, integers, floats (given by the digits and exponent of their shortest
  representation, which is what \<open>str\<close> and \<open>json.dumps\<close> print), text, decimals, datetimes, lists
  and dictionaries. A dictionary is the list of its items in insertion order, keys distinct.
\<close>

datatype pv =
    PNone
  | PBool bool
  | PInt int
  | PFloat int int
  | PStr string
  | PDec decimal
  | PDt pydt
  | PList "pv list"
  | PDict "(string \<times> pv) list"

type_synonym dict = "(string \<times> pv) list"

fun as_number :: "pv \<Rightarrow> decimal option" where
  "as_number (PBool b) = Some (Dec (of_bool b) 0)"
| "as_number (PInt n) = Some (Dec n 0)"
| "as_number (PFloat c e) = Some (Dec c e)"
| "as_number (PDec d) = Some d"
| "as_number _ = None"

definition scalar_eq :: "pv \<Rightarrow> pv \<Rightarrow> bool" where
  "scalar_eq x y =
     (case (as_number x, as_number y) of
        (Some a, Some b) \<Rightarrow> dec_eq a b
      | (None, None) \<Rightarrow> x = y
      | _ \<Rightarrow> False)"

text \<open>Python's \<open>==\<close>: numbers compare by value, dictionaries without regard to the order of keys.\<close>

fun py_eq :: "pv \<Rightarrow> pv \<Rightarrow> bool" where
  "py_eq (PList xs) w =
     (case w of
        PList ys \<Rightarrow> length xs = length ys \<and> list_all (\<lambda>(f, y). f y) (zip (map py_eq xs) ys)
      | _ \<Rightarrow> False)"
| "py_eq (PDict xs) w =
     (case w of
        PDict ys \<Rightarrow>
          length xs = length ys \<and>
          list_all (\<lambda>(k, x). case map_of ys k of None \<Rightarrow> False | Some y \<Rightarrow> py_eq x y) xs
      | _ \<Rightarrow> False)"
| "py_eq v w = scalar_eq v w"

fun is_dict :: "pv \<Rightarrow> bool" where "is_dict (PDict _) = True" | "is_dict _ = False"
fun is_str :: "pv \<Rightarrow> bool" where "is_str (PStr _) = True" | "is_str _ = False"
fun is_int :: "pv \<Rightarrow> bool" where "is_int (PInt _) = True" | "is_int _ = False"
fun is_bool :: "pv \<Rightarrow> bool" where "is_bool (PBool _) = True" | "is_bool _ = False"

fun items :: "pv \<Rightarrow> dict" where "items (PDict d) = d" | "items _ = []"
fun text_of :: "pv \<Rightarrow> string" where "text_of (PStr s) = s" | "text_of _ = []"
fun int_of :: "pv \<Rightarrow> int" where
  "int_of (PInt n) = n" | "int_of (PBool b) = of_bool b" | "int_of _ = 0"

text \<open>\<open>d[k]\<close> on a key that is present, \<open>d.get(k)\<close>, \<open>set(d) == {...}\<close>, and \<open>{**d, k: v}\<close>.\<close>

definition dfield :: "dict \<Rightarrow> string \<Rightarrow> pv" where
  "dfield d k = (case map_of d k of None \<Rightarrow> PNone | Some v \<Rightarrow> v)"

definition has_key :: "dict \<Rightarrow> string \<Rightarrow> bool" where
  "has_key d k = (k \<in> set (map fst d))"

definition keys_are :: "dict \<Rightarrow> string list \<Rightarrow> bool" where
  "keys_are d ks = (list_all (has_key d) ks \<and> list_all (\<lambda>(k, _). k \<in> set ks) d)"

fun dput :: "string \<Rightarrow> pv \<Rightarrow> dict \<Rightarrow> dict" where
  "dput k v [] = [(k, v)]"
| "dput k v ((k', v') # d) = (if k = k' then (k, v) # d else (k', v') # dput k v d)"

definition dputs :: "dict \<Rightarrow> dict \<Rightarrow> dict" where
  "dputs d new = fold (\<lambda>(k, v). dput k v) new d"

definition restrict_keys :: "dict \<Rightarrow> string list \<Rightarrow> dict" where
  "restrict_keys d ks = map (\<lambda>k. (k, dfield d k)) ks"

lemma dfield_dput: "dfield (dput k v d) k' = (if k' = k then v else dfield d k')"
  by (induction d) (auto simp: dfield_def)

lemma keys_dput: "set (map fst (dput k v d)) = insert k (set (map fst d))"
proof (induction d)
  case (Cons x d)
  then show ?case by (cases x) (simp add: insert_commute)
qed simp

lemma has_key_dput: "has_key (dput k v d) k' \<longleftrightarrow> k' = k \<or> has_key d k'"
  by (simp only: has_key_def keys_dput insert_iff)

lemma dputs_simps [simp]: "dputs d [] = d" "dputs d ((k, v) # new) = dputs (dput k v d) new"
  by (simp_all add: dputs_def)

lemma dfield_restrict: "k \<in> set ks \<Longrightarrow> dfield (restrict_keys d ks) k = dfield d k"
  by (induction ks) (auto simp: restrict_keys_def dfield_def)

subsection \<open>JSON text\<close>

definition hex_char :: "nat \<Rightarrow> char" where
  "hex_char n = hex_lower ! n"

definition json_char :: "char \<Rightarrow> string" where
  "json_char c = (let n = code_of c; bs = char_of (92::nat) in
     if n = 34 then [bs, c] else if n = 92 then [bs, c]
     else if n = 10 then bs # ''n'' else if n = 13 then bs # ''r'' else if n = 9 then bs # ''t''
     else if n = 8 then bs # ''b'' else if n = 12 then bs # ''f''
     else if n < 32 \<or> 126 < n then bs # ''u00'' @ [hex_char (n div 16), hex_char (n mod 16)]
     else [c])"

definition json_text :: "string \<Rightarrow> string" where
  "json_text s = [char_of (34::nat)] @ concat (map json_char s) @ [char_of (34::nat)]"

text \<open>\<open>float.__repr__\<close> of the float whose shortest digits are \<open>c\<close> and exponent \<open>e\<close>.\<close>

definition float_repr :: "int \<Rightarrow> int \<Rightarrow> string" where
  "float_repr c e =
     (let s = show_pos \<bar>c\<bar>; p = int (length s) + e; sg = (if c < 0 then ''-'' else [])
      in if c = 0 then ''0.0''
         else if - 4 < p \<and> p \<le> 16 then
           sg @ (if p \<le> 0 then ''0.'' @ replicate (nat (- p)) CHR ''0'' @ s
                 else if e \<ge> 0 then s @ replicate (nat e) CHR ''0'' @ ''.0''
                 else take (nat p) s @ ''.'' @ drop (nat p) s)
         else sg @ take 1 s @ (if length s = 1 then [] else CHR ''.'' # drop 1 s) @ ''e''
              @ (if p - 1 < 0 then ''-'' else ''+'')
              @ (if \<bar>p - 1\<bar> < 10 then ''0'' else []) @ show_pos \<bar>p - 1\<bar>)"

fun join_with :: "string \<Rightarrow> string list \<Rightarrow> string" where
  "join_with sep [] = []"
| "join_with sep [x] = x"
| "join_with sep (x # y # zs) = x @ sep @ join_with sep (y # zs)"

text \<open>\<open>json.dumps\<close> fails on datetimes and decimals.\<close>

fun json_able :: "pv \<Rightarrow> bool" where
  "json_able (PDec _) = False"
| "json_able (PDt _) = False"
| "json_able (PList xs) = list_all json_able xs"
| "json_able (PDict d) = list_all (\<lambda>(k, v). json_able v) d"
| "json_able _ = True"

text \<open>\<open>json.dumps(v, sort_keys=srt, separators=(isep, ksep))\<close> of a value it accepts.\<close>

fun json_render :: "bool \<Rightarrow> string \<Rightarrow> string \<Rightarrow> pv \<Rightarrow> string" where
  "json_render srt isep ksep PNone = ''null''"
| "json_render srt isep ksep (PBool b) = (if b then ''true'' else ''false'')"
| "json_render srt isep ksep (PInt n) = show_int n"
| "json_render srt isep ksep (PFloat c e) = float_repr c e"
| "json_render srt isep ksep (PStr s) = json_text s"
| "json_render srt isep ksep (PDec d) = []"
| "json_render srt isep ksep (PDt d) = []"
| "json_render srt isep ksep (PList xs) =
     ''['' @ join_with isep (map (json_render srt isep ksep) xs) @ '']''"
| "json_render srt isep ksep (PDict d) =
     (let rendered = map (\<lambda>(k, v). (k, json_render srt isep ksep v)) d;
          ordered = (if srt then sort_key fst rendered else rendered)
      in ''{'' @ join_with isep (map (\<lambda>(k, s). json_text k @ ksep @ s) ordered) @ ''}'')"

definition json_dumps :: "bool \<Rightarrow> string \<Rightarrow> string \<Rightarrow> pv \<Rightarrow> string res" where
  "json_dumps srt isep ksep v =
     (if json_able v then Inr (json_render srt isep ksep v)
      else Inl (TypeError ''Object is not JSON serializable''))"

text \<open>
  \<open>hashlib.sha256(text.encode()).hexdigest()\<close> is a parameter of the definitions that use it
  (\<open>sha\<close>): nothing here depends on which digest it is, only on comparing digests.
\<close>

type_synonym digest = "string \<Rightarrow> string"

end
