(* ===== verification/Rejection.thy ===== *)
theory Rejection
  imports Json_Values
begin

text \<open>
  \<open>turnstile_core/domain/budget_completion.py\<close>, first half: the normal form of a provider's
  terminal rejection, the policies that declare which rejections cost nothing, and the validation
  of completion receipts.
\<close>

section \<open>Constants\<close>

definition COUNTERS :: "string list" where
  "COUNTERS = [''input_tokens'', ''cached_tokens'', ''cache_write_tokens'', ''output_tokens'',
     ''total_tokens'']"

definition MAX_TOKENS :: int where "MAX_TOKENS = 2 ^ 63 - 1"

definition REJECTION_OPERATIONS :: "string list" where
  "REJECTION_OPERATIONS = [''responses'', ''responses-compact'', ''chat-completions'',
     ''anthropic-messages'', ''images-generations'', ''microsoft-decision'']"

definition REJECTION_FIELDS :: "string list" where
  "REJECTION_FIELDS = [''error_type'', ''error_code'', ''error_param'']"

definition as_dict :: "pv \<Rightarrow> dict res" where
  "as_dict v = (case v of PDict d \<Rightarrow> Inr d | _ \<Rightarrow> Inl (TypeError ''mapping expected''))"

section \<open>Error fields and rules\<close>

definition error_field :: "pv \<Rightarrow> bool" where
  "error_field v =
     (case v of
        PDict d \<Rightarrow>
          (if dfield d ''state'' \<in> {PStr ''absent'', PStr ''null''} then keys_are d [''state'']
           else keys_are d [''state'', ''value''] \<and> dfield d ''state'' = PStr ''value''
                \<and> is_str (dfield d ''value'')
                \<and> match_class field_chars 1 255 (text_of (dfield d ''value'')))
      | _ \<Rightarrow> False)"

definition rejection_digest :: "digest \<Rightarrow> dict \<Rightarrow> string" where
  "rejection_digest sha value =
     sha (json_render False '','' '':'' (PList ([dfield value ''operation'', dfield value ''status_code'']
       @ concat (map (\<lambda>name. let f = items (dfield value name)
                             in [dfield f ''state'', dfield f ''value'']) REJECTION_FIELDS))))"

definition rejection_rule :: "int \<Rightarrow> pv \<Rightarrow> bool" where
  "rejection_rule version v =
     (case v of
        PDict d \<Rightarrow>
          (if version = 2 then
             keys_are d (''status_code'' # REJECTION_FIELDS) \<and> is_int (dfield d ''status_code'')
             \<and> 400 \<le> int_of (dfield d ''status_code'') \<and> int_of (dfield d ''status_code'') < 500
             \<and> int_of (dfield d ''status_code'') \<notin> {408, 499}
             \<and> list_all (\<lambda>name. error_field (dfield d name)) REJECTION_FIELDS
             \<and> list_ex (\<lambda>name. dfield (items (dfield d name)) ''state'' = PStr ''value'')
                  [''error_type'', ''error_code'']
           else
             keys_are d [''status_code'', ''error_type'', ''error_code'']
             \<and> is_int (dfield d ''status_code'') \<and> int_of (dfield d ''status_code'') \<in> {400, 422}
             \<and> list_all (\<lambda>k. is_str (dfield d k) \<and> match_class rule_chars 1 128 (text_of (dfield d k)))
                  [''error_type'', ''error_code''])
      | _ \<Rightarrow> False)"

text \<open>One normalised error field of a response body: absent, null, or the provider's value.\<close>

definition observed_field :: "dict \<Rightarrow> string \<Rightarrow> pv" where
  "observed_field err field =
     (if \<not> has_key err field then PDict [(''state'', PStr ''absent'')]
      else if dfield err field = PNone then PDict [(''state'', PStr ''null'')]
      else PDict [(''state'', PStr ''value''), (''value'', dfield err field)])"

definition media_type :: "string \<Rightarrow> string" where
  "media_type content_type = py_lower (py_strip (takeWhile (\<lambda>c. c \<noteq> CHR '';'') content_type))"

definition normalize_terminal_rejection ::
  "digest \<Rightarrow> pv \<Rightarrow> pv \<Rightarrow> pv \<Rightarrow> pv \<Rightarrow> dict option" where
  "normalize_terminal_rejection sha operation status_code content_type body =
     (let b = items body; err = items (dfield b ''error'') in
      if \<not> is_str operation \<or> text_of operation \<notin> set REJECTION_OPERATIONS
         \<or> \<not> is_int status_code
         \<or> \<not> (400 \<le> int_of status_code \<and> int_of status_code < 500)
         \<or> int_of status_code \<in> {408, 499}
         \<or> \<not> is_str content_type \<or> media_type (text_of content_type) \<noteq> ''application/json''
         \<or> \<not> is_dict body \<or> \<not> is_dict (dfield b ''error'')
         \<or> \<not> list_all (\<lambda>(k, _). k \<in> {''error'', ''type'', ''request_id''}) b
         \<or> (has_key b ''type'' \<and> dfield b ''type'' \<noteq> PStr ''error'')
         \<or> (has_key b ''request_id'' \<and> \<not> is_str (dfield b ''request_id''))
      then None
      else if list_ex (has_key err) [''usage'', ''output'', ''content'', ''partial_response'']
      then None
      else
        let observation =
              [(''version'', PInt 2), (''operation'', operation), (''status_code'', status_code),
               (''error_type'', observed_field err ''type''),
               (''error_code'', observed_field err ''code''),
               (''error_param'', observed_field err ''param'')];
            rule = PDict (restrict_keys observation (''status_code'' # REJECTION_FIELDS))
        in if \<not> rejection_rule 2 rule then None
           else Some (dput ''observation_sha256'' (PStr (rejection_digest sha observation))
                  observation))"

definition terminal_keys :: "string list" where
  "terminal_keys = [''version'', ''operation'', ''status_code''] @ REJECTION_FIELDS
     @ [''observation_sha256'']"

definition validate_terminal_rejection :: "digest \<Rightarrow> dict \<Rightarrow> dict res" where
  "validate_terminal_rejection sha value =
     guardR (\<not> keys_are value terminal_keys
        \<or> \<not> is_int (dfield value ''version'') \<or> int_of (dfield value ''version'') \<noteq> 2
        \<or> \<not> is_str (dfield value ''operation'')
        \<or> text_of (dfield value ''operation'') \<notin> set REJECTION_OPERATIONS
        \<or> \<not> rejection_rule 2 (PDict (restrict_keys value (''status_code'' # REJECTION_FIELDS)))
        \<or> dfield value ''observation_sha256'' \<noteq> PStr (rejection_digest sha value))
       (ValueError ''Terminal response evidence has an invalid protocol or field shape'')
       (Inr value)"

section \<open>Exact integers and times\<close>

definition exact_integer :: "pv \<Rightarrow> int res" where
  "exact_integer v =
     guardR (\<not> is_int v \<or> \<not> (0 \<le> int_of v \<and> int_of v \<le> MAX_TOKENS))
       (ValueError ''Execution accounting requires an exact nonnegative int64'') (Inr (int_of v))"

text \<open>
  \<open>astimezone(UTC)\<close> fails outside the years 1 to 9999. The substitution in the source only brings
  a fraction of a second to six digits before \<open>fromisoformat\<close>, which \<open>parse_fraction\<close> does.
\<close>

definition to_utc :: "instant \<Rightarrow> instant res" where
  "to_utc t = guardR (\<not> in_range t) (OverflowError ''date value out of range'') (Inr t)"

definition utc_time :: "pv \<Rightarrow> instant res" where
  "utc_time v =
     (case v of
        PStr s \<Rightarrow>
          (case from_iso (replace_Z s) of
             None \<Rightarrow> Inl (ValueError ''Invalid isoformat string'')
           | Some (Naive _) \<Rightarrow> Inl (ValueError ''Execution evidence requires an aware timestamp'')
           | Some (Aware t) \<Rightarrow> to_utc t)
      | PDt (Aware t) \<Rightarrow> to_utc t
      | _ \<Rightarrow> Inl (ValueError ''Execution evidence requires an aware timestamp''))"

definition validate_terminal_observation :: "digest \<Rightarrow> pv \<Rightarrow> dict res" where
  "validate_terminal_observation sha v =
     (let d = items v in
      guardR (\<not> is_dict v \<or> \<not> keys_are d [''source'', ''observed_at'', ''rejection'']
          \<or> dfield d ''source'' \<notin> {PStr ''apim'', PStr ''observer''})
        (ValueError ''Terminal observations require a trusted producer and exact fields'')
        (bindR (utc_time (dfield d ''observed_at'')) (\<lambda>t.
         guardR (\<not> is_dict (dfield d ''rejection''))
           (ValueError ''Terminal response evidence has an invalid protocol or field shape'')
         (bindR (validate_terminal_rejection sha (items (dfield d ''rejection''))) (\<lambda>r.
          Inr [(''source'', dfield d ''source''), (''observed_at'', PStr (iso_utc t)),
               (''rejection'', PDict r)])))))"

end
