(* ===== verification/Py_Calendar.thy ===== *)
theory Py_Calendar
  imports Py_Values
begin

text \<open>
  The calendar of \<open>Py_Values\<close> is exact: a day number and its civil date determine each other, and
  the ISO text of a UTC moment reads back as that moment.
\<close>


lemma leap_cycle:
  assumes "0 \<le> b" "b \<le> 3" "0 \<le> c" "c \<le> 24" "0 \<le> d" "d \<le> (3::int)"
  shows "is_leap (a * 400 + b * 100 + c * 4 + d + 1) \<longleftrightarrow> d = 3 \<and> (c \<noteq> 24 \<or> b = 3)"
proof -
  let ?y = "a * 400 + b * 100 + c * 4 + d + 1"
  have m4: "?y mod 4 = (if d = 3 then 0 else d + 1)"
    using assms by (intro int_mod_pos_eq [where q = "a * 100 + b * 25 + c + (if d = 3 then 1 else 0)"]) auto
  have m100: "?y mod 100 = (if c = 24 then 0 else c * 4 + 4)" if "d = 3"
    using assms that by (intro int_mod_pos_eq [where q = "a * 4 + b + (if c = 24 then 1 else 0)"]) auto
  have m400: "?y mod 400 = (if b = 3 then 0 else b * 100 + 100)" if "d = 3" "c = 24"
    using assms that by (intro int_mod_pos_eq [where q = "a + (if b = 3 then 1 else 0)"]) auto
  show ?thesis
  proof (cases "d = 3")
    case True
    then show ?thesis using m100 m400 assms unfolding is_leap_def m4 by (auto split: if_splits)
  next
    case False
    then show ?thesis using assms unfolding is_leap_def m4 by auto
  qed
qed

lemma year_days:
  assumes "0 \<le> b" "b \<le> 3" "0 \<le> c" "c \<le> 24" "0 \<le> d" "d \<le> (3::int)" "y = a * 400 + b * 100 + c * 4 + d"
  shows "y * 365 + y div 4 - y div 100 + y div 400 = a * 146097 + b * 36524 + c * 1461 + d * 365"
proof -
  have "y div 4 = a * 100 + b * 25 + c"
    using assms by (intro int_div_pos_eq [where r = d]) auto
  moreover have "y div 100 = a * 4 + b"
    using assms by (intro int_div_pos_eq [where r = "c * 4 + d"]) auto
  moreover have "y div 400 = a"
    using assms by (intro int_div_pos_eq [where r = "b * 100 + c * 4 + d"]) auto
  ultimately show ?thesis using assms by simp
qed


lemma month_facts:
  assumes "0 \<le> n" "n < 365 + k" "k = (if leap then 1 else (0::int))"
  shows "1 \<le> month_of_yday leap n \<and> month_of_yday leap n \<le> 12
     \<and> days_before_month leap (month_of_yday leap n) \<le> n
     \<and> n - days_before_month leap (month_of_yday leap n)
        < (let m = month_of_yday leap n in
           if m = 2 then 28 + k else if m \<in> {4, 6, 9, 11} then 30 else 31)"
proof -
  consider "n < 31" | "31 \<le> n" "n < 59 + k" | "59 + k \<le> n" "n < 90 + k" | "90 + k \<le> n" "n < 120 + k"
    | "120 + k \<le> n" "n < 151 + k" | "151 + k \<le> n" "n < 181 + k" | "181 + k \<le> n" "n < 212 + k"
    | "212 + k \<le> n" "n < 243 + k" | "243 + k \<le> n" "n < 273 + k" | "273 + k \<le> n" "n < 304 + k"
    | "304 + k \<le> n" "n < 334 + k" | "334 + k \<le> n"
    by linarith
  moreover have k: "0 \<le> k" "k \<le> 1" using assms(3) by auto
  moreover have m: "month_of_yday leap n =
      (if n < 31 then 1 else if n < 59 + k then 2 else if n < 90 + k then 3 else if n < 120 + k then 4
      else if n < 151 + k then 5 else if n < 181 + k then 6 else if n < 212 + k then 7
      else if n < 243 + k then 8 else if n < 273 + k then 9 else if n < 304 + k then 10
      else if n < 334 + k then 11 else 12)"
    using assms(3) by (simp only: month_of_yday_def Let_def)
  moreover have d: "days_before_month leap j =
     (if j = 1 then 0 else if j = 2 then 31
      else k + (if j = 3 then 59 else if j = 4 then 90 else if j = 5 then 120 else if j = 6 then 151
         else if j = 7 then 181 else if j = 8 then 212 else if j = 9 then 243
         else if j = 10 then 273 else if j = 11 then 304 else 334))" for j
    using assms(3) by (simp only: days_before_month_def)
  ultimately show ?thesis
    using assms(1,2) by cases (simp_all add: m d Let_def)
qed

lemma month_bounds:
  assumes "0 \<le> n" "n < (if leap then 366 else 365)"
  shows "1 \<le> month_of_yday leap n \<and> month_of_yday leap n \<le> 12
     \<and> days_before_month leap (month_of_yday leap n) \<le> n"
  using month_facts [of n "if leap then 1 else 0" leap] assms by (auto split: if_splits)

lemma month_len:
  assumes "0 \<le> n" "n < (if is_leap y then 366 else 365)"
  shows "n - days_before_month (is_leap y) (month_of_yday (is_leap y) n)
    < days_in_month y (month_of_yday (is_leap y) n)"
proof -
  let ?k = "if is_leap y then 1 else (0::int)"
  have "n < 365 + ?k" using assms(2) by auto
  from month_facts [OF assms(1) this refl] show ?thesis
    by (cases "is_leap y") (auto simp: days_in_month_def Let_def split: if_splits)
qed

lemma civil_roundtrip:
  assumes "civil_from_days z = Date y m d" "-719162 \<le> z"
  shows "days_from_civil y m d = z \<and> 1 \<le> y \<and> 1 \<le> m \<and> m \<le> 12 \<and> 1 \<le> d \<and> d \<le> days_in_month y m
    \<and> y \<le> (z + 719162) div 146097 * 400 + 400"
proof -
  define n where "n = z + 719162"
  define a where "a = n div 146097"
  define r where "r = n mod 146097"
  define b where "b = r div 36524"
  define r100 where "r100 = r mod 36524"
  define c where "c = r100 div 1461"
  define r4 where "r4 = r100 mod 1461"
  define e where "e = r4 div 365"
  define r1 where "r1 = r4 mod 365"
  have n: "0 \<le> n" "n = a * 146097 + r" "0 \<le> r" "r < 146097" "0 \<le> a"
    using assms(2) by (simp_all add: n_def a_def r_def)
  have b: "r = b * 36524 + r100" "0 \<le> r100" "r100 < 36524" "0 \<le> b" "b \<le> 4"
    using n by (simp_all add: b_def r100_def)
  have c: "r100 = c * 1461 + r4" "0 \<le> r4" "r4 < 1461" "0 \<le> c" "c \<le> 24"
    using b by (simp_all add: c_def r4_def)
  have e: "r4 = e * 365 + r1" "0 \<le> r1" "r1 < 365" "0 \<le> e" "e \<le> 4"
    using c by (simp_all add: e_def r1_def)
  have civil: "civil_from_days z =
      (if e = 4 \<or> b = 4 then Date (a * 400 + b * 100 + c * 4 + e + 1 - 1) 12 31
       else Date (a * 400 + b * 100 + c * 4 + e + 1) (month_of_yday (e = 3 \<and> (c \<noteq> 24 \<or> b = 3)) r1)
          (r1 - days_before_month (e = 3 \<and> (c \<noteq> 24 \<or> b = 3))
             (month_of_yday (e = 3 \<and> (c \<noteq> 24 \<or> b = 3)) r1) + 1))"
    by (simp only: civil_from_days_def Let_def n_def a_def r_def b_def r100_def c_def r4_def e_def r1_def)
  show ?thesis
  proof (cases "e = 4 \<or> b = 4")
    case True
    then have res: "y = a * 400 + b * 100 + c * 4 + e" "m = 12" "d = 31"
      using assms(1) civil by auto
    have last: "r1 = 0 \<and> (if b = 4 then c = 0 \<and> e = 0 else e = 4)"
      using True b c e n by auto
    define y0 where "y0 = y - 1"
    obtain b' c' where y0: "y0 = a * 400 + b' * 100 + c' * 4 + 3" "0 \<le> b'" "b' \<le> 3" "0 \<le> c'" "c' \<le> 24"
        "c' \<noteq> 24 \<or> b' = 3"
        "b * 36524 + c * 1461 + e * 365 = b' * 36524 + c' * 1461 + 3 * 365 + 365"
    proof (cases "b = 4")
      case True
      then show ?thesis using that [of 3 24] last res by (simp add: y0_def)
    next
      case False
      then have "e = 4" "b \<le> 3" using last b by auto
      moreover have "c \<noteq> 24" using \<open>e = 4\<close> last c(1) b(3) e(1) by auto
      ultimately show ?thesis using that [of b c] b c res by (simp add: y0_def)
    qed
    have "y = a * 400 + b' * 100 + c' * 4 + 3 + 1" using y0(1) by (simp add: y0_def)
    then have leap: "is_leap y" using leap_cycle [of b' c' 3 a] y0 by simp
    have "y0 * 365 + y0 div 4 - y0 div 100 + y0 div 400 = a * 146097 + b' * 36524 + c' * 1461 + 3 * 365"
      using year_days [of b' c' 3 y0 a] y0 by simp
    with leap have "days_from_civil y m d = a * 146097 + b' * 36524 + c' * 1461 + 3 * 365 + 365 - 719162"
      using res by (simp add: days_from_civil_def days_before_month_def y0_def)
    moreover have "z = a * 146097 + r - 719162" using n by (simp add: n_def)
    ultimately have "days_from_civil y m d = z" using b c e last y0 by simp
    moreover have "y \<le> a * 400 + 400" "1 \<le> y" using res(1) y0 n by (simp_all add: y0_def)
    ultimately show ?thesis using res by (simp add: days_in_month_def a_def n_def)
  next
    case False
    then have be: "b \<le> 3" "e \<le> 3" using b e by auto
    have leap: "is_leap (a * 400 + b * 100 + c * 4 + e + 1) \<longleftrightarrow> e = 3 \<and> (c \<noteq> 24 \<or> b = 3)"
      using leap_cycle b c e be by simp
    have res: "y = a * 400 + b * 100 + c * 4 + e + 1" "m = month_of_yday (is_leap y) r1"
        "d = r1 - days_before_month (is_leap y) m + 1"
      using assms(1) False leap civil by auto
    have r1: "r1 < (if is_leap y then 366 else 365)" using e by simp
    have yd: "(y - 1) * 365 + (y - 1) div 4 - (y - 1) div 100 + (y - 1) div 400
        = a * 146097 + b * 36524 + c * 1461 + e * 365"
      by (rule year_days) (use b c e be res in auto)
    have "days_from_civil y m d = a * 146097 + b * 36524 + c * 1461 + e * 365 + r1 - 719162"
      using yd res by (simp add: days_from_civil_def)
    moreover have "z = a * 146097 + r - 719162" using n by (simp add: n_def)
    ultimately have "days_from_civil y m d = z" using b c e by simp
    moreover have "y \<le> a * 400 + 400" "1 \<le> y" using res(1) n b c e be by linarith+
    ultimately show ?thesis
      using month_bounds [OF e(2) r1] month_len [OF e(2) r1] res(2,3) by (simp add: a_def n_def)
  qed
qed

lemma utc_date_valid:
  assumes "in_range t" "utc_date t = Date y m d"
  shows "valid_date (Date y m d) \<and> days_from_civil y m d = t div day_us"
proof -
  let ?z = "t div day_us"
  have z: "- 719162 \<le> ?z" "?z < 2932897" using assms(1) by (auto simp: in_range_def)
  have c: "days_from_civil y m d = ?z" "1 \<le> y" "1 \<le> m" "m \<le> 12" "1 \<le> d" "d \<le> days_in_month y m"
      "y \<le> (?z + 719162) div 146097 * 400 + 400"
    using civil_roundtrip [of ?z y m d] assms(2) z by (auto simp: utc_date_def)
  have "(?z + 719162) div 146097 < 25"
    using z by (simp add: div_less_iff_less_mult)
  then have "y \<le> 10000" using c(7) by simp
  moreover have "y \<noteq> 10000"
  proof
    assume "y = 10000"
    then have "days_from_civil y m d = 2932896 + days_before_month (is_leap 10000) m + d"
      by (simp add: days_from_civil_def)
    moreover have "0 \<le> days_before_month (is_leap 10000) m" by (simp add: days_before_month_def)
    ultimately show False using c z by simp
  qed
  ultimately show ?thesis using c by (simp add: valid_date_def)
qed

lemma digit_char_props:
  assumes "0 \<le> n" "n < 10"
  shows "digit_char n \<in> set digits10" "digit_char n \<notin> set ''+-''" "digit_char n \<noteq> CHR ''Z''"
proof -
  have "n = 0 \<or> n = 1 \<or> n = 2 \<or> n = 3 \<or> n = 4 \<or> n = 5 \<or> n = 6 \<or> n = 7 \<or> n = 8 \<or> n = 9"
    using assms by arith
  then show "digit_char n \<in> set digits10" "digit_char n \<notin> set ''+-''" "digit_char n \<noteq> CHR ''Z''"
    by (auto simp: digit_char_def digits10_def nat_numeral)
qed

lemma pad_dec_digits: "c \<in> set (pad_dec w n) \<Longrightarrow> c \<in> set digits10 \<and> c \<notin> set ''+-'' \<and> c \<noteq> CHR ''Z''"
proof (induction w arbitrary: n)
  case (Suc w)
  then have "c \<in> set (pad_dec w (n div 10)) \<or> c = digit_char (n mod 10)" by auto
  then show ?case using Suc.IH digit_char_props [of "n mod 10"] by auto
qed simp

lemma parse_pad_dec0: "0 \<le> n \<Longrightarrow> n < 10 ^ w \<Longrightarrow> parse_dec 0 (pad_dec w n) = Some n"
  by (simp add: parse_pad_dec)

lemma pad_dec_2: "pad_dec 2 n = [digit_char (n div 10 mod 10), digit_char (n mod 10)]"
  by (simp add: numeral_2_eq_2)

lemma pad_dec_4: "pad_dec 4 n = [digit_char (n div 10 div 10 div 10 mod 10),
   digit_char (n div 10 div 10 mod 10), digit_char (n div 10 mod 10), digit_char (n mod 10)]"
  by (simp add: eval_nat_numeral)

lemma pad_dec_6_ne: "pad_dec 6 n \<noteq> []"
  by (simp add: eval_nat_numeral)

lemma split_iso_date_print:
  assumes "valid_date (Date y m d)"
  shows "split_iso_date (iso_date (Date y m d) @ rest) = Some (Date y m d, rest)"
proof -
  have "days_in_month y m \<le> 31" by (simp add: days_in_month_def)
  then have r: "0 \<le> y" "y < 10 ^ 4" "0 \<le> m" "m < 10 ^ 2" "0 \<le> d" "d < 10 ^ 2"
    using assms by (auto simp: valid_date_def)
  have "parse_dec 0 (pad_dec 4 y) = Some y" "parse_dec 0 (pad_dec 2 m) = Some m" "parse_dec 0 (pad_dec 2 d) = Some d"
    using r parse_pad_dec0 by blast+
  then show ?thesis using assms
    by (simp add: pad_dec_2 pad_dec_4 del: parse_dec.simps)
qed

lemma parse_clock_print:
  assumes "0 \<le> s" "s < 86400"
  shows "parse_clock (pad_dec 2 (s div 3600) @ '':'' @ pad_dec 2 (s div 60 mod 60) @ '':'' @ pad_dec 2 (s mod 60) @ rest)
    = Some (s, rest)"
proof -
  have r: "0 \<le> s div 3600" "s div 3600 < 24" "0 \<le> s div 60 mod 60" "s div 60 mod 60 < 60" "0 \<le> s mod 60" "s mod 60 < 60"
    using assms by (simp_all add: div_less_iff_less_mult)
  have p: "parse_dec 0 (pad_dec 2 (s div 3600)) = Some (s div 3600)"
    "parse_dec 0 (pad_dec 2 (s div 60 mod 60)) = Some (s div 60 mod 60)"
    "parse_dec 0 (pad_dec 2 (s mod 60)) = Some (s mod 60)"
    by (rule parse_pad_dec0; use r in simp)+
  have "s div 3600 = s div 60 div 60" by (simp add: zdiv_zmult2_eq [symmetric])
  then have "s div 3600 * 3600 + s div 60 mod 60 * 60 + s mod 60 = s"
    using div_mult_mod_eq [of s 60] div_mult_mod_eq [of "s div 60" 60] by linarith
  with r have cs: "clock_secs (Some (s div 3600)) (Some (s div 60 mod 60)) (Some (s mod 60)) = Some s"
    by (simp only: clock_secs_def option.case prod.case if_True simp_thms)
  show ?thesis
    using p cs unfolding pad_dec_2 append_Cons append_Nil parse_clock.simps by simp
qed

lemma parse_fraction_print:
  assumes "0 \<le> u" "u < 1000000"
  shows "parse_fraction (if u = 0 then [] else CHR ''.'' # pad_dec 6 u) = Some u"
proof -
  have "parse_dec 0 (pad_dec 6 u) = Some u" by (rule parse_pad_dec0) (use assms in simp_all)
  then show ?thesis
    using pad_dec_digits [of _ 6 u] pad_dec_6_ne [of u]
    by (auto simp: parse_fraction_def list_all_iff split: list.splits)
qed

lemma parse_offset_zero: "parse_offset ''+00:00'' = Some 0"
  by code_simp


lemma iso_utc_parts:
  "iso_utc t = iso_date (utc_date t) @ CHR ''T'' #
     ((pad_dec 2 (t mod day_us div 1000000 div 3600) @ '':'' @ pad_dec 2 (t mod day_us div 1000000 div 60 mod 60)
       @ '':'' @ pad_dec 2 (t mod day_us div 1000000 mod 60)
       @ (if t mod day_us mod 1000000 = 0 then [] else CHR ''.'' # pad_dec 6 (t mod day_us mod 1000000))) @ ''+00:00'')"
  by (simp add: iso_utc_def Let_def)

lemma from_iso_utc:
  assumes "in_range t"
  shows "from_iso (iso_utc t) = Some (Aware t)"
proof -
  obtain y m d where ymd: "utc_date t = Date y m d" by (cases "utc_date t") auto
  have v: "valid_date (Date y m d)" "days_from_civil y m d = t div day_us"
    using utc_date_valid [OF assms ymd] by auto
  define u where "u = t mod day_us"
  define s where "s = u div 1000000"
  define us where "us = u mod 1000000"
  have u: "0 \<le> u" "u < day_us" by (simp_all add: u_def day_us_def)
  have s: "0 \<le> s" "s < 86400" using u by (simp_all add: s_def day_us_def div_less_iff_less_mult)
  have us: "0 \<le> us" "us < 1000000" by (simp_all add: us_def)
  define clock where "clock = pad_dec 2 (s div 3600) @ '':'' @ pad_dec 2 (s div 60 mod 60) @ '':'' @ pad_dec 2 (s mod 60)
       @ (if us = 0 then [] else CHR ''.'' # pad_dec 6 us)"
  have iso: "iso_utc t = iso_date (Date y m d) @ CHR ''T'' # clock @ ''+00:00''"
    by (simp only: iso_utc_parts ymd clock_def s_def us_def u_def)
  have plain: "\<forall>c \<in> set clock. c \<notin> set ''+-''"
    using pad_dec_digits by (auto simp: clock_def)
  have tw: "takeWhile (\<lambda>c. c \<notin> set ''+-'') (clock @ ''+00:00'') = clock"
    "dropWhile (\<lambda>c. c \<notin> set ''+-'') (clock @ ''+00:00'') = ''+00:00''"
    using plain by (simp_all add: takeWhile_append2 dropWhile_append2)
  have pc: "parse_clock clock = Some (s, if us = 0 then [] else CHR ''.'' # pad_dec 6 us)"
    unfolding clock_def by (rule parse_clock_print [OF s])
  have "t = t div day_us * day_us + u" by (simp add: u_def)
  moreover have "u = s * 1000000 + us" by (simp add: s_def us_def)
  ultimately have t: "t div day_us * day_us + s * 1000000 + us = t" by simp
  show ?thesis
    unfolding from_iso_def iso split_iso_date_print [OF v(1)]
    using parse_fraction_print [OF us] t
    by (simp only: option.case prod.case date.case list.sel if_False Let_def tw pc v(2) parse_offset_zero list.distinct)
       (simp split: if_splits)
qed

lemma replace_Z_id: "CHR ''Z'' \<notin> set s \<Longrightarrow> replace_Z s = s"
  by (induction s) (auto simp: replace_Z_def)

lemma iso_utc_no_Z: "CHR ''Z'' \<notin> set (iso_utc t)"
proof -
  obtain y m d where ymd: "utc_date t = Date y m d" by (cases "utc_date t") auto
  have "CHR ''Z'' \<notin> set (iso_date (utc_date t))"
    using pad_dec_digits by (auto simp: ymd)
  then show ?thesis using pad_dec_digits by (auto simp: iso_utc_parts)
qed
end
