(* ===== verification/Completion_Receipt.thy ===== *)
theory Completion_Receipt
  imports Rejection Py_Calendar
begin

text \<open>
  \<open>turnstile_core/domain/budget_completion.py\<close>: complete producer receipts, the versioned policies
  that allow a rejected request to be settled at zero, and the check that a stored rejection follows
  from the policy admitted with the request.
\<close>

section \<open>Completion receipts\<close>

definition receipt_numbers :: "dict \<Rightarrow> int list res" where
  "receipt_numbers value = mapR (\<lambda>key. exact_integer (dfield value key)) COUNTERS"

definition without_policy_digest :: "dict \<Rightarrow> dict" where
  "without_policy_digest d = filter (\<lambda>(k, _). k \<noteq> ''policy_evidence_sha256'') d"

definition check_rejection :: "digest \<Rightarrow> int list \<Rightarrow> pv \<Rightarrow> dict res" where
  "check_rejection sha counters v =
     (let r = items v; observation = without_policy_digest r in
      guardR (list_ex (\<lambda>n. n \<noteq> 0) counters \<or> \<not> is_dict v
          \<or> \<not> is_str (dfield r ''policy_evidence_sha256'')
          \<or> \<not> is_sha256_hex (text_of (dfield r ''policy_evidence_sha256'')))
        (ValueError ''Rejection evidence must retain a declared zero-charge decision'')
        (if py_eq (dfield observation ''version'') (PInt 2)
         then bindR (validate_terminal_rejection sha observation) (\<lambda>_. Inr r)
         else guardR (\<not> rejection_rule 1 (PDict observation))
                (ValueError ''Rejection evidence has an invalid error contract'') (Inr r)))"

definition validate_completion :: "digest \<Rightarrow> dict \<Rightarrow> dict res" where
  "validate_completion sha value =
     (let rejected = has_key value ''rejection'';
          fields = COUNTERS @ [''source'', ''observed_at''] @ (if rejected then [''rejection''] else [])
      in guardR (\<not> keys_are value fields
            \<or> dfield value ''source'' \<notin> {PStr ''apim'', PStr ''observer''})
          (ValueError ''Only a complete trusted producer receipt can settle execution'')
        (bindR (receipt_numbers value) (\<lambda>ns.
         guardR (ns ! 2 > ns ! 1 \<or> ns ! 0 + ns ! 1 + ns ! 3 \<noteq> ns ! 4)
          (ValueError ''Completion usage breakdown does not match its total'')
        (bindR (utc_time (dfield value ''observed_at'')) (\<lambda>t.
         let result = zip COUNTERS (map PInt ns)
               @ [(''source'', dfield value ''source''), (''observed_at'', PStr (iso_utc t))]
         in if rejected
            then bindR (check_rejection sha ns (dfield value ''rejection'')) (\<lambda>r.
                   Inr (result @ [(''rejection'', PDict r)]))
            else Inr result)))))"

section \<open>Rejection policies\<close>

definition distinct_by :: "('a \<Rightarrow> 'b) \<Rightarrow> 'a list \<Rightarrow> bool" where
  "distinct_by f xs = distinct (map f xs)"

definition list_of :: "pv \<Rightarrow> pv list" where
  "list_of v = (case v of PList xs \<Rightarrow> xs | _ \<Rightarrow> [])"

definition is_list :: "pv \<Rightarrow> bool" where
  "is_list v = (case v of PList _ \<Rightarrow> True | _ \<Rightarrow> False)"

definition validate_rejection_policy :: "pv \<Rightarrow> dict res" where
  "validate_rejection_policy v =
     guardR (\<not> is_dict v) (ValueError ''Rejection settlement requires an object contract'')
     (let value = items v; version = dfield value ''version'';
          fields = [''version'', ''evidence_sha256'', ''verified_at'', ''rules'']
            @ (if py_eq version (PInt 2) then [''operation''] else []);
          rules = list_of (dfield value ''rules'')
      in guardR (\<not> keys_are value fields \<or> \<not> is_int version \<or> int_of version \<notin> {1, 2}
            \<or> (version = PInt 2 \<and> (\<not> is_str (dfield value ''operation'')
                  \<or> text_of (dfield value ''operation'') \<notin> set REJECTION_OPERATIONS))
            \<or> \<not> is_str (dfield value ''evidence_sha256'')
            \<or> \<not> is_sha256_hex (text_of (dfield value ''evidence_sha256''))
            \<or> \<not> is_list (dfield value ''rules'') \<or> \<not> (1 \<le> length rules \<and> length rules \<le> 16)
            \<or> \<not> list_all (rejection_rule (int_of version)) rules)
          (ValueError ''Rejection settlement requires an explicit versioned provider contract'')
        (guardR (\<not> distinct_by (json_render True '', '' '': '') rules)
          (ValueError ''Rejection settlement rules must be unique'')
        (bindR (utc_time (dfield value ''verified_at'')) (\<lambda>t.
         Inr (dputs value [(''verified_at'', PStr (iso_utc t)), (''rules'', PList rules)])))))"

text \<open>The rule a rejection is looked up by, or \<open>None\<close> when the policy cannot cover its shape.\<close>

definition rejection_lookup :: "digest \<Rightarrow> dict \<Rightarrow> dict \<Rightarrow> (dict \<times> dict) option res" where
  "rejection_lookup sha checked rejection =
     (if dfield checked ''version'' = PInt 1 then
        bindR (if py_eq (dfield rejection ''version'') (PInt 2)
               then bindR (validate_terminal_rejection sha rejection) (\<lambda>observation.
                      if list_ex (\<lambda>name. dfield (items (dfield observation name)) ''state'' \<noteq> PStr ''value'')
                           [''error_type'', ''error_code'']
                      then Inr None
                      else Inr (Some ((''status_code'', dfield observation ''status_code'')
                             # map (\<lambda>name. (name, dfield (items (dfield observation name)) ''value''))
                                 [''error_type'', ''error_code''])))
               else Inr (Some rejection))
          (\<lambda>r. case r of
                 None \<Rightarrow> Inr None
               | Some rej \<Rightarrow> if rejection_rule 1 (PDict rej) then Inr (Some (rej, rej)) else Inr None)
      else
        bindR (validate_terminal_rejection sha rejection) (\<lambda>observation.
          if \<not> py_eq (dfield observation ''operation'') (dfield checked ''operation'') then Inr None
          else Inr (Some (rejection, restrict_keys observation (''status_code'' # REJECTION_FIELDS)))))"

definition zero_receipt :: "pv \<Rightarrow> pv \<Rightarrow> dict \<Rightarrow> dict" where
  "zero_receipt source observed_at rejection =
     map (\<lambda>c. (c, PInt 0)) COUNTERS
     @ [(''source'', source), (''observed_at'', observed_at), (''rejection'', PDict rejection)]"

definition rejection_completion ::
  "digest \<Rightarrow> pv option \<Rightarrow> dict \<Rightarrow> pv \<Rightarrow> pv \<Rightarrow> pv \<Rightarrow> dict option res" where
  "rejection_completion sha policy rejection source observed_at admitted_at =
     (case policy of
        None \<Rightarrow> Inr None
      | Some p \<Rightarrow>
          bindR (validate_rejection_policy p) (\<lambda>checked.
          bindR (utc_time (dfield checked ''verified_at'')) (\<lambda>verified.
          bindR (utc_time admitted_at) (\<lambda>admitted.
          guardR (\<not> verified \<le> admitted)
            (ValueError ''Rejection policy must precede admission and evidence must follow it'')
          (bindR (utc_time observed_at) (\<lambda>observed.
          guardR (\<not> admitted \<le> observed)
            (ValueError ''Rejection policy must precede admission and evidence must follow it'')
          (bindR (rejection_lookup sha checked rejection) (\<lambda>found.
           case found of
             None \<Rightarrow> Inr None
           | Some (rej, rule) \<Rightarrow>
               if \<not> list_ex (py_eq (PDict rule)) (list_of (dfield checked ''rules'')) then Inr None
               else bindR (validate_completion sha (zero_receipt source observed_at
                             (dput ''policy_evidence_sha256'' (dfield checked ''evidence_sha256'') rej)))
                      (\<lambda>c. Inr (Some c))))))))))"

definition validate_rejection_evidence :: "digest \<Rightarrow> pv option \<Rightarrow> dict \<Rightarrow> pv \<Rightarrow> unit res" where
  "validate_rejection_evidence sha policy evidence admitted_at =
     bindR (validate_completion sha evidence) (\<lambda>checked.
     guardR (\<not> is_dict (dfield checked ''rejection''))
       (ValueError ''Rejection settlement requires rejection evidence'')
     (bindR (rejection_completion sha policy
               (without_policy_digest (items (dfield checked ''rejection'')))
               (dfield checked ''source'') (dfield checked ''observed_at'') admitted_at) (\<lambda>expected.
      guardR (case expected of None \<Rightarrow> True | Some e \<Rightarrow> \<not> py_eq (PDict e) (PDict checked))
        (ValueError ''Rejection evidence does not match the immutable admission policy'')
        (Inr ()))))"

section \<open>Receipts are normal forms\<close>

lemma utc_time_range: "utc_time v = Inr t \<Longrightarrow> in_range t"
  by (auto simp: utc_time_def to_utc_def res_simps split: pv.splits option.splits pydt.splits)

lemma utc_time_iso [simp]: "in_range t \<Longrightarrow> utc_time (PStr (iso_utc t)) = Inr t"
  by (simp add: utc_time_def replace_Z_id iso_utc_no_Z from_iso_utc to_utc_def)

lemma exact_integer_Inr [res_simps]:
  "exact_integer v = Inr n \<longleftrightarrow> v = PInt n \<and> 0 \<le> n \<and> n \<le> MAX_TOKENS"
  by (cases v) (auto simp: exact_integer_def res_simps)

lemma receipt_numbers_Inr:
  "receipt_numbers value = Inr ns \<longleftrightarrow>
     (\<exists>i c w ou t. ns = [i, c, w, ou, t] \<and> dfield value ''input_tokens'' = PInt i
        \<and> dfield value ''cached_tokens'' = PInt c \<and> dfield value ''cache_write_tokens'' = PInt w
        \<and> dfield value ''output_tokens'' = PInt ou \<and> dfield value ''total_tokens'' = PInt t
        \<and> list_all (\<lambda>n. 0 \<le> n \<and> n \<le> MAX_TOKENS) ns)"
  by (auto simp: receipt_numbers_def COUNTERS_def res_simps)

text \<open>The normal form every accepted receipt has.\<close>

definition receipt :: "int \<Rightarrow> int \<Rightarrow> int \<Rightarrow> int \<Rightarrow> int \<Rightarrow> pv \<Rightarrow> instant \<Rightarrow> dict option \<Rightarrow> dict" where
  "receipt i c w ou tot src t rej =
     [(''input_tokens'', PInt i), (''cached_tokens'', PInt c), (''cache_write_tokens'', PInt w),
      (''output_tokens'', PInt ou), (''total_tokens'', PInt tot), (''source'', src),
      (''observed_at'', PStr (iso_utc t))]
     @ (case rej of None \<Rightarrow> [] | Some r \<Rightarrow> [(''rejection'', PDict r)])"

definition receipt_ok :: "digest \<Rightarrow> int \<Rightarrow> int \<Rightarrow> int \<Rightarrow> int \<Rightarrow> int \<Rightarrow> pv \<Rightarrow> instant \<Rightarrow> dict option \<Rightarrow> bool" where
  "receipt_ok sha i c w ou tot src t rej \<longleftrightarrow>
     list_all (\<lambda>n. 0 \<le> n \<and> n \<le> MAX_TOKENS) [i, c, w, ou, tot] \<and> w \<le> c \<and> i + c + ou = tot
     \<and> src \<in> {PStr ''apim'', PStr ''observer''} \<and> in_range t
     \<and> (\<forall>r. rej = Some r \<longrightarrow> check_rejection sha [i, c, w, ou, tot] (PDict r) = Inr r)"

lemma check_rejection_Inr: "check_rejection sha ns v = Inr r \<Longrightarrow> v = PDict r"
  by (cases v) (auto simp: check_rejection_def Let_def res_simps split: if_splits)

lemma receipt_fields:
  "dfield (receipt i c w ou tot src t rej) ''input_tokens'' = PInt i"
  "dfield (receipt i c w ou tot src t rej) ''cached_tokens'' = PInt c"
  "dfield (receipt i c w ou tot src t rej) ''cache_write_tokens'' = PInt w"
  "dfield (receipt i c w ou tot src t rej) ''output_tokens'' = PInt ou"
  "dfield (receipt i c w ou tot src t rej) ''total_tokens'' = PInt tot"
  "dfield (receipt i c w ou tot src t rej) ''source'' = src"
  "dfield (receipt i c w ou tot src t rej) ''observed_at'' = PStr (iso_utc t)"
  "dfield (receipt i c w ou tot src t rej) ''rejection'' = (case rej of None \<Rightarrow> PNone | Some r \<Rightarrow> PDict r)"
  "has_key (receipt i c w ou tot src t rej) ''rejection'' \<longleftrightarrow> rej \<noteq> None"
  by (auto simp: receipt_def dfield_def has_key_def split: option.splits)

lemma receipt_fold:
  "zip COUNTERS (map PInt [i, c, w, ou, tot]) @ [(''source'', src), (''observed_at'', PStr (iso_utc t))]
   = receipt i c w ou tot src t None"
  "receipt i c w ou tot src t None @ [(''rejection'', PDict r)] = receipt i c w ou tot src t (Some r)"
  by (simp_all add: receipt_def COUNTERS_def)

lemma receipt_keys:
  "keys_are (receipt i c w ou tot src t None) (COUNTERS @ [''source'', ''observed_at''])"
  "keys_are (receipt i c w ou tot src t (Some r)) (COUNTERS @ [''source'', ''observed_at'', ''rejection''])"
  by (simp_all add: keys_are_def receipt_def has_key_def COUNTERS_def)

lemma validate_completion_receipt:
  assumes "receipt_ok sha i c w ou tot src t rej"
  shows "validate_completion sha (receipt i c w ou tot src t rej) = Inr (receipt i c w ou tot src t rej)"
proof -
  have n: "receipt_numbers (receipt i c w ou tot src t rej) = Inr [i, c, w, ou, tot]"
    using assms by (simp add: receipt_numbers_Inr receipt_fields receipt_ok_def)
  show ?thesis
  proof (cases rej)
    case None
    with assms n show ?thesis
      by (auto simp: validate_completion_def receipt_fields receipt_ok_def Let_def receipt_keys
            receipt_fold simp del: list.map zip_Cons_Cons)
  next
    case (Some r)
    with assms n show ?thesis
      by (auto simp: validate_completion_def receipt_fields receipt_ok_def Let_def receipt_keys
            receipt_fold simp del: list.map zip_Cons_Cons)
  qed
qed

lemma validate_completion_Inr:
  assumes "validate_completion sha v = Inr r"
  obtains i c w ou tot src t rej where "r = receipt i c w ou tot src t rej"
    "receipt_ok sha i c w ou tot src t rej" "dfield v ''source'' = src"
    "utc_time (dfield v ''observed_at'') = Inr t"
    "dfield v ''total_tokens'' = PInt tot"
    "has_key v ''rejection'' \<longleftrightarrow> rej \<noteq> None"
    "\<forall>x. rej = Some x \<longrightarrow> dfield v ''rejection'' = PDict x"
proof -
  let ?rej = "has_key v ''rejection''"
  from assms obtain ns t where ns: "receipt_numbers v = Inr ns" and t: "utc_time (dfield v ''observed_at'') = Inr t"
    and src: "dfield v ''source'' \<in> {PStr ''apim'', PStr ''observer''}"
    and sums: "\<not> (ns ! 2 > ns ! 1 \<or> ns ! 0 + ns ! 1 + ns ! 3 \<noteq> ns ! 4)"
    and fin: "(if ?rej then bindR (check_rejection sha ns (dfield v ''rejection''))
         (\<lambda>r. Inr ((zip COUNTERS (map PInt ns) @ [(''source'', dfield v ''source''), (''observed_at'', PStr (iso_utc t))])
             @ [(''rejection'', PDict r)]))
       else Inr (zip COUNTERS (map PInt ns) @ [(''source'', dfield v ''source''), (''observed_at'', PStr (iso_utc t))])) = Inr r"
    by (auto simp: validate_completion_def Let_def res_simps simp del: disj_not1)
  from ns obtain i c w ou tot where nums: "ns = [i, c, w, ou, tot]" "dfield v ''total_tokens'' = PInt tot"
      "list_all (\<lambda>n. 0 \<le> n \<and> n \<le> MAX_TOKENS) ns"
    by (auto simp: receipt_numbers_Inr)
  show thesis
  proof (cases ?rej)
    case True
    then obtain x where x: "check_rejection sha ns (dfield v ''rejection'') = Inr x"
        "r = receipt i c w ou tot (dfield v ''source'') t (Some x)"
      using fin nums by (auto simp: res_simps receipt_def COUNTERS_def)
    then have "dfield v ''rejection'' = PDict x" by (blast dest: check_rejection_Inr)
    moreover have "receipt_ok sha i c w ou tot (dfield v ''source'') t (Some x)"
      using x calculation nums sums src utc_time_range [OF t] by (auto simp: receipt_ok_def)
    ultimately show thesis using that x t nums True by blast
  next
    case False
    then have r: "r = receipt i c w ou tot (dfield v ''source'') t None"
      using fin nums by (auto simp: receipt_def COUNTERS_def)
    moreover have "receipt_ok sha i c w ou tot (dfield v ''source'') t None"
      using nums sums src utc_time_range [OF t] by (auto simp: receipt_ok_def)
    ultimately show thesis using that t nums False by blast
  qed
qed

lemma validate_completion_idem:
  "validate_completion sha v = Inr r \<Longrightarrow> validate_completion sha r = Inr r"
  by (erule validate_completion_Inr) (simp add: validate_completion_receipt)

section \<open>Equality of well-formed values\<close>

fun wf_pv :: "pv \<Rightarrow> bool" where
  "wf_pv (PDec d) = (case d of Dec c e \<Rightarrow> True | _ \<Rightarrow> False)"
| "wf_pv (PList xs) = list_all wf_pv xs"
| "wf_pv (PDict d) = (distinct (map fst d) \<and> list_all (\<lambda>(k, v). wf_pv v) d)"
| "wf_pv _ = True"

lemma dec_eq_refl [simp]: "dec_eq (Dec c e) (Dec c e)"
  by (simp add: dec_eq_def dec_cmp_def)

lemma py_eq_refl: "wf_pv v \<Longrightarrow> py_eq v v"
proof (induction v rule: wf_pv.induct)
  case (2 xs)
  then show ?case by (auto simp: list_all_iff zip_map1 zip_same in_set_zip)
next
  case (3 d)
  have "map_of d k = Some v" if "(k, v) \<in> set d" for k v
    using that "3.prems" by (simp add: map_of_eq_Some_iff)
  with 3 show ?case by (fastforce simp: list_all_iff)
qed (auto simp: scalar_eq_def split: decimal.splits)

lemma wf_dput: "wf_pv (PDict d) \<Longrightarrow> wf_pv v \<Longrightarrow> wf_pv (PDict (dput k v d))"
proof (induction d)
  case (Cons x d)
  obtain k' v' where x: "x = (k', v')" by force
  have "k' \<notin> set (map fst (dput k v d))" if "k \<noteq> k'"
    using Cons.prems that by (simp only: keys_dput insert_iff x list.map distinct.simps wf_pv.simps) auto
  with Cons x show ?case by (auto simp: list_all_iff)
qed simp

lemma wf_dfield: "wf_pv (PDict d) \<Longrightarrow> wf_pv (dfield d k)"
  by (auto simp: dfield_def list_all_iff split: option.splits dest: map_of_SomeD)

lemma wf_items: "wf_pv v \<Longrightarrow> wf_pv (PDict (items v))"
  by (cases v) auto

section \<open>Rejections: normal form and self-consistency\<close>

lemma dput_append: "\<not> has_key d k \<Longrightarrow> dput k v d = d @ [(k, v)]"
  by (induction d) (auto simp: has_key_def)

lemma restrict_dput_other: "k \<notin> set ks \<Longrightarrow> restrict_keys (dput k v d) ks = restrict_keys d ks"
  by (auto simp: restrict_keys_def dfield_dput)

lemma rejection_digest_dput:
  "rejection_digest sha (dput ''observation_sha256'' v d) = rejection_digest sha d"
  by (simp add: rejection_digest_def dfield_dput REJECTION_FIELDS_def)

theorem normalize_validates:
  assumes "normalize_terminal_rejection sha operation status_code content_type body = Some obs"
  shows "validate_terminal_rejection sha obs = Inr obs"
proof -
  define err where "err = items (dfield (items body) ''error'')"
  define o0 where "o0 = [(''version'', PInt 2), (''operation'', operation), (''status_code'', status_code),
               (''error_type'', observed_field err ''type''),
               (''error_code'', observed_field err ''code''),
               (''error_param'', observed_field err ''param'')]"
  have obs: "obs = dput ''observation_sha256'' (PStr (rejection_digest sha o0)) o0"
    and rule: "rejection_rule 2 (PDict (restrict_keys o0 (''status_code'' # REJECTION_FIELDS)))"
    and op: "is_str operation" "text_of operation \<in> set REJECTION_OPERATIONS"
    using assms by (auto simp: normalize_terminal_rejection_def Let_def err_def o0_def split: if_splits)
  have "dfield o0 ''version'' = PInt 2" "dfield o0 ''operation'' = operation"
    by (simp_all add: o0_def dfield_def)
  moreover have "keys_are obs terminal_keys"
    unfolding obs by (simp add: keys_are_def terminal_keys_def REJECTION_FIELDS_def has_key_def o0_def)
  ultimately show ?thesis
    using rule op
    by (simp add: validate_terminal_rejection_def obs dfield_dput rejection_digest_dput
        restrict_dput_other REJECTION_FIELDS_def)
qed

lemma no_policy_key: "list_all (\<lambda>(k, _). k \<in> set ks) d \<Longrightarrow> k \<notin> set ks \<Longrightarrow> \<not> has_key d k"
  by (auto simp: has_key_def list_all_iff)

lemma without_policy_digest_dput:
  "\<not> has_key d ''policy_evidence_sha256'' \<Longrightarrow> without_policy_digest (dput ''policy_evidence_sha256'' v d) = d"
  by (simp add: dput_append without_policy_digest_def) (force simp: has_key_def filter_id_conv)

lemma rejection_lookup_stable:
  assumes "rejection_lookup sha checked r0 = Inr (Some (rej, rule))"
  shows "rejection_lookup sha checked rej = Inr (Some (rej, rule))"
    and "\<not> has_key rej ''policy_evidence_sha256''"
proof -
  have "rejection_lookup sha checked rej = Inr (Some (rej, rule)) \<and> \<not> has_key rej ''policy_evidence_sha256''"
  proof (cases "dfield checked ''version'' = PInt 1")
    case True
    then have r: "rejection_rule 1 (PDict rej)" "rule = rej"
      using assms by (auto simp: rejection_lookup_def res_simps split: if_splits option.splits)
    then have k: "keys_are rej [''status_code'', ''error_type'', ''error_code'']"
      by (auto simp: rejection_rule_def)
    then have "\<not> has_key rej ''version''" "\<not> has_key rej ''policy_evidence_sha256''"
      by (auto simp: keys_are_def list_all_iff has_key_def)
    moreover from this have "dfield rej ''version'' = PNone"
      by (auto simp: dfield_def has_key_def map_of_eq_None_iff [symmetric])
    ultimately show ?thesis using True r by (simp add: rejection_lookup_def scalar_eq_def)
  next
    case False
    then have "rej = r0" "validate_terminal_rejection sha rej = Inr rej"
      using assms by (auto simp: rejection_lookup_def res_simps validate_terminal_rejection_def split: if_splits)
    moreover from this have "\<not> has_key rej ''policy_evidence_sha256''"
      by (auto simp: validate_terminal_rejection_def res_simps keys_are_def terminal_keys_def
          REJECTION_FIELDS_def list_all_iff has_key_def)
    ultimately show ?thesis using assms by simp
  qed
  then show "rejection_lookup sha checked rej = Inr (Some (rej, rule))"
    and "\<not> has_key rej ''policy_evidence_sha256''" by auto
qed


lemma rejection_completion_Inr:
  assumes "rejection_completion sha policy r0 source observed_at admitted_at = Inr (Some c)"
  obtains p checked verified admitted observed rej rule where
    "policy = Some p" "validate_rejection_policy p = Inr checked"
    "utc_time (dfield checked ''verified_at'') = Inr verified" "utc_time admitted_at = Inr admitted"
    "utc_time observed_at = Inr observed" "verified \<le> admitted" "admitted \<le> observed"
    "rejection_lookup sha checked r0 = Inr (Some (rej, rule))"
    "list_ex (py_eq (PDict rule)) (list_of (dfield checked ''rules''))"
    "validate_completion sha (zero_receipt source observed_at
        (dput ''policy_evidence_sha256'' (dfield checked ''evidence_sha256'') rej)) = Inr c"
proof -
  from assms obtain p where p: "policy = Some p"
    by (auto simp: rejection_completion_def split: option.splits)
  from assms obtain checked verified admitted observed found where
    v: "validate_rejection_policy p = Inr checked"
    "utc_time (dfield checked ''verified_at'') = Inr verified" "utc_time admitted_at = Inr admitted"
    "utc_time observed_at = Inr observed" "verified \<le> admitted" "admitted \<le> observed"
    and f: "rejection_lookup sha checked r0 = Inr found"
    and rest: "(case found of None \<Rightarrow> Inr None
       | Some (rej, rule) \<Rightarrow>
           if \<not> list_ex (py_eq (PDict rule)) (list_of (dfield checked ''rules'')) then Inr None
           else bindR (validate_completion sha (zero_receipt source observed_at
                   (dput ''policy_evidence_sha256'' (dfield checked ''evidence_sha256'') rej)))
                  (\<lambda>c. Inr (Some c))) = Inr (Some c)"
    by (simp only: rejection_completion_def p option.case bindR_eq_Inr guardR_eq_Inr not_not) blast
  from rest obtain rej rule where "found = Some (rej, rule)"
    by (cases found) auto
  with rest f v p that show thesis by (auto simp: res_simps split: if_splits)
qed

lemma zero_receipt_fields:
  "dfield (zero_receipt s ob r) ''total_tokens'' = PInt 0"
  "dfield (zero_receipt s ob r) ''source'' = s"
  "dfield (zero_receipt s ob r) ''observed_at'' = ob"
  "dfield (zero_receipt s ob r) ''rejection'' = PDict r"
  "has_key (zero_receipt s ob r) ''rejection''"
  by (simp_all add: zero_receipt_def COUNTERS_def dfield_def has_key_def)

lemma zero_receipt_receipt: "zero_receipt s (PStr (iso_utc t)) r = receipt 0 0 0 0 0 s t (Some r)"
  by (simp add: zero_receipt_def receipt_def COUNTERS_def)

lemma zero_receipt_result:
  assumes "validate_completion sha (zero_receipt s ob r) = Inr c"
  obtains t where "utc_time ob = Inr t" "c = receipt 0 0 0 0 0 s t (Some r)"
    "receipt_ok sha 0 0 0 0 0 s t (Some r)"
proof -
  from assms show thesis
  proof (rule validate_completion_Inr)
    fix i cc w ou tot src t rej
    assume c: "c = receipt i cc w ou tot src t rej" "receipt_ok sha i cc w ou tot src t rej"
      "dfield (zero_receipt s ob r) ''source'' = src"
      "utc_time (dfield (zero_receipt s ob r) ''observed_at'') = Inr t"
      "dfield (zero_receipt s ob r) ''total_tokens'' = PInt tot"
      "has_key (zero_receipt s ob r) ''rejection'' \<longleftrightarrow> rej \<noteq> None"
      "\<forall>x. rej = Some x \<longrightarrow> dfield (zero_receipt s ob r) ''rejection'' = PDict x"
    then have "tot = 0" "rej = Some r" "s = src" "utc_time ob = Inr t"
      by (auto simp: zero_receipt_fields)
    moreover from this c(2) have "i = 0" "cc = 0" "w = 0" "ou = 0"
      by (auto simp: receipt_ok_def)
    ultimately show thesis using c(1,2) by (intro that) simp_all
  qed
qed

lemma policy_rules:
  assumes "validate_rejection_policy p = Inr checked"
  shows "list_all (rejection_rule (int_of (dfield checked ''version''))) (list_of (dfield checked ''rules''))"
proof -
  define given where "given = items p"
  from assms obtain t where
    "list_all (rejection_rule (int_of (dfield given ''version''))) (list_of (dfield given ''rules''))"
    "checked = dputs given [(''verified_at'', PStr (iso_utc t)), (''rules'', PList (list_of (dfield given ''rules'')))]"
    by (auto simp: validate_rejection_policy_def res_simps Let_def given_def)
  then show ?thesis by (simp add: dfield_dput list_of_def)
qed

theorem rejection_completion_declared:
  assumes "rejection_completion sha policy r0 source observed_at admitted_at = Inr (Some c)"
  shows "(\<forall>k \<in> set COUNTERS. dfield c k = PInt 0)
    \<and> (\<exists>p checked verified admitted observed rej rule.
          policy = Some p \<and> validate_rejection_policy p = Inr checked
          \<and> utc_time (dfield checked ''verified_at'') = Inr verified
          \<and> utc_time admitted_at = Inr admitted \<and> utc_time observed_at = Inr observed
          \<and> verified \<le> admitted \<and> admitted \<le> observed
          \<and> rejection_lookup sha checked r0 = Inr (Some (rej, rule))
          \<and> (\<exists>declared \<in> set (list_of (dfield checked ''rules'')).
                py_eq (PDict rule) declared
                \<and> rejection_rule (int_of (dfield checked ''version'')) declared))"
proof -
  from assms show ?thesis
  proof (rule rejection_completion_Inr)
    fix p checked verified admitted observed rej rule
    assume p: "policy = Some p" "validate_rejection_policy p = Inr checked"
      "utc_time (dfield checked ''verified_at'') = Inr verified" "utc_time admitted_at = Inr admitted"
      "utc_time observed_at = Inr observed" "verified \<le> admitted" "admitted \<le> observed"
      and found: "rejection_lookup sha checked r0 = Inr (Some (rej, rule))"
      and ex: "list_ex (py_eq (PDict rule)) (list_of (dfield checked ''rules''))"
      and c: "validate_completion sha (zero_receipt source observed_at
        (dput ''policy_evidence_sha256'' (dfield checked ''evidence_sha256'') rej)) = Inr c"
    from c obtain t r where "c = receipt 0 0 0 0 0 source t (Some r)" by (rule zero_receipt_result)
    then have "\<forall>k \<in> set COUNTERS. dfield c k = PInt 0" by (simp add: COUNTERS_def receipt_fields)
    moreover from p(2) have "list_all (rejection_rule (int_of (dfield checked ''version'')))
        (list_of (dfield checked ''rules''))"
      by (rule policy_rules)
    then have "\<exists>declared \<in> set (list_of (dfield checked ''rules'')).
        py_eq (PDict rule) declared \<and> rejection_rule (int_of (dfield checked ''version'')) declared"
      using ex by (auto simp: list_ex_iff list_all_iff)
    ultimately show ?thesis using p found by blast
  qed
qed

lemma rejection_lookup_wf:
  assumes "rejection_lookup sha checked r0 = Inr (Some (rej, rule))" "wf_pv (PDict r0)"
  shows "wf_pv (PDict rej)"
proof (cases "rej = r0")
  case False
  then obtain observation where
    "rej = (''status_code'', dfield observation ''status_code'')
       # map (\<lambda>name. (name, dfield (items (dfield observation name)) ''value'')) [''error_type'', ''error_code'']"
    "rejection_rule 1 (PDict rej)"
    using assms(1) by (auto simp: rejection_lookup_def res_simps split: if_splits option.splits)
  then show ?thesis
    by (auto simp: rejection_rule_def dfield_def elim: is_int.elims is_str.elims)
qed (use assms in simp)

lemma policy_digest_wf:
  "validate_rejection_policy p = Inr checked \<Longrightarrow> wf_pv (dfield checked ''evidence_sha256'')"
  by (auto simp: validate_rejection_policy_def res_simps Let_def dfield_dput elim!: is_str.elims split: if_splits)

lemma wf_receipt:
  "wf_pv src \<Longrightarrow> wf_pv (PDict r) \<Longrightarrow> wf_pv (PDict (receipt i c w ou tot src t (Some r)))"
  by (simp add: receipt_def)

text \<open>
  C7. A zero receipt produced for a declared rejection passes the later check against the
  immutable admission policy, so a settled rejection can always be re-verified.
\<close>

theorem rejection_completion_self_consistent:
  assumes c: "rejection_completion sha policy r0 source observed_at admitted_at = Inr (Some c)"
    and wf: "wf_pv (PDict r0)"
  shows "validate_rejection_evidence sha policy c admitted_at = Inr ()"
proof -
  from c show ?thesis
  proof (rule rejection_completion_Inr)
    fix p checked verified admitted observed rej rule
    assume p: "policy = Some p" "validate_rejection_policy p = Inr checked"
      "utc_time (dfield checked ''verified_at'') = Inr verified" "utc_time admitted_at = Inr admitted"
      "utc_time observed_at = Inr observed" "verified \<le> admitted" "admitted \<le> observed"
      and found: "rejection_lookup sha checked r0 = Inr (Some (rej, rule))"
      and ex: "list_ex (py_eq (PDict rule)) (list_of (dfield checked ''rules''))"
      and vc: "validate_completion sha (zero_receipt source observed_at
        (dput ''policy_evidence_sha256'' (dfield checked ''evidence_sha256'') rej)) = Inr c"
    let ?r = "dput ''policy_evidence_sha256'' (dfield checked ''evidence_sha256'') rej"
    from vc p(5) obtain c_eq: "c = receipt 0 0 0 0 0 source observed (Some ?r)"
      and ok: "receipt_ok sha 0 0 0 0 0 source observed (Some ?r)"
      by (auto elim!: zero_receipt_result)
    note stable = rejection_lookup_stable [OF found]
    have vc': "validate_completion sha c = Inr c" using vc by (rule validate_completion_idem)
    have "rejection_completion sha policy rej source (PStr (iso_utc observed)) admitted_at = Inr (Some c)"
      using p ok stable(1) ex vc' by (simp add: rejection_completion_def receipt_ok_def zero_receipt_receipt c_eq)
    moreover have "py_eq (PDict c) (PDict c)"
    proof (rule py_eq_refl)
      have "wf_pv (PDict rej)" by (rule rejection_lookup_wf [OF found wf])
      then have "wf_pv (PDict ?r)" by (rule wf_dput) (rule policy_digest_wf [OF p(2)])
      then show "wf_pv (PDict c)" unfolding c_eq
        using ok by (intro wf_receipt) (auto simp: receipt_ok_def)
    qed
    ultimately show ?thesis
      using vc' stable(2)
      by (simp add: validate_rejection_evidence_def c_eq receipt_fields without_policy_digest_dput)
  qed
qed

end
