(* ===== verification/Decimal_Text.thy ===== *)
theory Decimal_Text
  imports Json_Values Py_Calendar
begin

text \<open>
  Amounts are stored as text (\<open>format(amount, "f")\<close>) and read back with \<open>Decimal(text)\<close>: the lemmas
  here show that this loses nothing.
\<close>

lemma digits_parse: "is_digits s \<Longrightarrow> \<exists>n. parse_dec a s = Some n"
proof (induction s arbitrary: a)
  case (Cons c s)
  then have "c \<in> set digits10" "is_digits s" by (auto simp: is_digits_def)
  moreover from this(1) obtain d where "digit_val c = Some d" by (auto simp: digits10_def)
  ultimately show ?case using Cons.IH by simp
qed simp

lemma show_pos_parse: "0 \<le> n \<Longrightarrow> parse_dec 0 (show_pos n) = Some n"
proof (induction n rule: show_pos.induct)
  case (1 n)
  show ?case
  proof (cases "n < 10")
    case True
    with 1 show ?thesis by (simp add: show_pos.simps [of n] digit_val_char del: digit_val.simps)
  next
    case False
    with 1 have "parse_dec 0 (show_pos (n div 10)) = Some (n div 10)" by simp
    moreover have "digit_val (digit_char (n mod 10)) = Some (n mod 10)"
      by (rule digit_val_char) simp_all
    ultimately show ?thesis using False
      by (simp add: show_pos.simps [of n] parse_dec_append del: digit_val.simps)
  qed
qed

lemma show_pos_digits: "0 \<le> n \<Longrightarrow> is_digits (show_pos n) \<and> show_pos n \<noteq> []"
proof (induction n rule: show_pos.induct)
  case (1 n)
  then show ?case
    using digit_char_props(1) [of n] digit_char_props(1) [of "n mod 10"]
    by (subst (1 2) show_pos.simps) (auto simp: is_digits_def)
qed

lemma parse_zeros: "parse_dec 0 (replicate k CHR ''0'' @ s) = parse_dec 0 s"
  by (induction k) (simp_all add: digits10_def)

definition plain_chars :: string where "plain_chars = ''0123456789.''"

lemma plain_char_all:
  "list_all (\<lambda>c. c \<noteq> CHR ''_'' \<and> \<not> is_space c \<and> c \<noteq> CHR ''-'' \<and> c \<noteq> CHR ''+'' \<and> c \<notin> set ''eE''
     \<and> lower_char c = c \<and> c \<noteq> CHR ''i'' \<and> c \<noteq> CHR ''n'' \<and> c \<noteq> CHR ''s'') plain_chars"
  by code_simp

lemma plain_charD:
  assumes "c \<in> set plain_chars"
  shows "c \<noteq> CHR ''_''" "\<not> is_space c" "c \<noteq> CHR ''-''" "c \<noteq> CHR ''+''" "c \<notin> set ''eE''"
    "lower_char c = c" "c \<noteq> CHR ''i''" "c \<noteq> CHR ''n''" "c \<noteq> CHR ''s''"
  using plain_char_all assms unfolding list_all_iff by blast+

lemma plain_text_dec:
  assumes "set s \<subseteq> set plain_chars" "s \<noteq> []"
  shows "dec_of_text s = parse_finite False s"
proof -
  have keep: "filter (\<lambda>c. c \<noteq> CHR ''_'') s = s"
    using assms plain_charD(1) by (auto simp: filter_id_conv)
  have sp: "\<not> is_space c" if "c \<in> set s" for c using that assms plain_charD(2) by blast
  have "dropWhile is_space s = s" by (metis assms(2) dropWhile_eq_self_iff hd_in_set sp)
  moreover have "dropWhile is_space (rev s) = rev s"
    by (metis assms(2) dropWhile_eq_self_iff hd_in_set sp rev_is_Nil_conv set_rev)
  ultimately have strip: "py_strip s = s" by (simp add: py_strip_def)
  have low: "py_lower s = s"
    unfolding py_lower_def by (rule map_idI) (use assms plain_charD(6) in blast)
  obtain c cs where s: "s = c # cs" using assms(2) by (cases s) auto
  have c: "c \<in> set plain_chars" using assms(1) s by simp
  have "parse_sign s = (False, s)" using plain_charD(3,4) [OF c] by (simp add: parse_sign_def s)
  moreover have "hd s \<noteq> CHR ''i''" "hd s \<noteq> CHR ''n''" "hd s \<noteq> CHR ''s''"
    using plain_charD(7-9) [OF c] s by simp_all
  then have "s \<noteq> ''inf''" "s \<noteq> ''infinity''" "\<not> prefix_of ''nan'' s" "\<not> prefix_of ''snan'' s"
    by (auto simp: s prefix_of_def split: if_splits)
  ultimately show ?thesis by (simp add: dec_of_text_def strip keep low Let_def)
qed

lemma digits_chars: "set digits10 \<subseteq> set plain_chars" "CHR ''.'' \<notin> set digits10"
    "CHR ''.'' \<in> set plain_chars" "CHR ''0'' \<in> set digits10"
  by (auto simp: digits10_def plain_chars_def)

lemma is_digits_iff: "is_digits s \<longleftrightarrow> set s \<subseteq> set digits10"
  by (auto simp: is_digits_def list_all_iff)

lemma digits_plain: "is_digits s \<Longrightarrow> set s \<subseteq> set plain_chars"
  using digits_chars by (auto simp only: is_digits_iff)

lemma digits_no_point: "is_digits s \<Longrightarrow> c \<in> set s \<Longrightarrow> c \<noteq> CHR ''.''"
  using digits_chars by (auto simp only: is_digits_iff)

lemma no_exponent:
  assumes "set s \<subseteq> set plain_chars"
  shows "takeWhile (\<lambda>c. c \<notin> set ''eE'') s = s" "dropWhile (\<lambda>c. c \<notin> set ''eE'') s = []"
proof -
  have "c \<notin> set ''eE''" if "c \<in> set s" for c using that assms plain_charD(5) by blast
  then show "takeWhile (\<lambda>c. c \<notin> set ''eE'') s = s" "dropWhile (\<lambda>c. c \<notin> set ''eE'') s = []"
    by (simp_all only: takeWhile_eq_all_conv dropWhile_eq_Nil_conv) blast+
qed

lemma parse_finite_int:
  assumes "is_digits s" "s \<noteq> []" "parse_dec 0 s = Some n"
  shows "parse_finite False s = Some (Dec n 0)"
proof -
  have d: "takeWhile (\<lambda>c. c \<noteq> CHR ''.'') s = s"
    unfolding takeWhile_eq_all_conv using digits_no_point [OF assms(1)] by blast
  show ?thesis using assms
    unfolding parse_finite_def no_exponent [OF digits_plain [OF assms(1)]] Let_def d
    by (simp add: parse_exp_def)
qed

lemma parse_finite_point:
  assumes "is_digits a" "is_digits b" "a \<noteq> []" "parse_dec 0 (a @ b) = Some n"
  shows "parse_finite False (a @ ''.'' @ b) = Some (Dec n (- int (length b)))"
proof -
  have e: "set (a @ ''.'' @ b) \<subseteq> set plain_chars"
    using digits_plain [OF assms(1)] digits_plain [OF assms(2)] digits_chars(3) by simp
  have d: "takeWhile (\<lambda>c. c \<noteq> CHR ''.'') (a @ ''.'' @ b) = a"
    by (subst takeWhile_append2) (use digits_no_point [OF assms(1)] in \<open>blast, simp\<close>)
  have "is_digits (a @ b)" using assms by (simp add: is_digits_iff)
  then show ?thesis using assms
    unfolding parse_finite_def no_exponent [OF e] Let_def d by (simp add: parse_exp_def)
qed

lemma point_text_parse:
  assumes "0 \<le> c"
  shows "dec_of_text (point_text c k) = Some (Dec c (- int k))"
proof -
  define s where "s = replicate (Suc k - length (show_pos c)) CHR ''0'' @ show_pos c"
  define n where "n = length s - k"
  have len: "k < length s" using show_pos_digits [OF assms] by (auto simp: s_def)
  have dig: "is_digits s" using show_pos_digits [OF assms] digits_chars(4)
    by (auto simp only: s_def is_digits_iff set_append set_replicate_conv_if split: if_splits)
  have pt: "point_text c k = take n s @ ''.'' @ drop n s"
    using assms by (simp add: point_text_def s_def n_def Let_def)
  have ab: "is_digits (take n s)" "is_digits (drop n s)" "take n s \<noteq> []"
    using dig len set_take_subset [of n s] set_drop_subset [of n s] by (auto simp: is_digits_iff n_def)
  have "set (point_text c k) \<subseteq> set plain_chars"
    using digits_plain [OF ab(1)] digits_plain [OF ab(2)] digits_chars(3) by (simp add: pt)
  then have "dec_of_text (point_text c k) = parse_finite False (point_text c k)"
    by (rule plain_text_dec) (simp add: pt)
  also have "\<dots> = Some (Dec c (- int (length (drop n s))))"
    unfolding pt by (rule parse_finite_point [OF ab])
      (simp only: append_take_drop_id, simp add: s_def parse_zeros show_pos_parse [OF assms])
  finally show ?thesis using len by (simp add: n_def)
qed

lemma int_text_parse: "0 \<le> n \<Longrightarrow> dec_of_text (show_int n) = Some (Dec n 0)"
  using show_pos_digits [of n] show_pos_parse [of n] plain_text_dec [of "show_pos n"]
    parse_finite_int [of "show_pos n"] digits_plain [of "show_pos n"]
  by (simp add: show_int_def)

text \<open>\<open>Decimal(format(d, "f"))\<close> is \<open>d\<close>, up to trailing zeros of an integer.\<close>

lemma format_f_parse:
  assumes "0 \<le> c"
  shows "dec_of_text (format_f (Dec c e)) = Some (if e \<ge> 0 then Dec (c * 10 ^ nat e) 0 else Dec c e)"
proof (cases "e \<ge> 0")
  case True
  have "0 \<le> c * 10 ^ nat e" using assms by simp
  then show ?thesis using True int_text_parse [of "c * 10 ^ nat e"] int_text_parse [of 0]
    by (cases "c = 0") auto
next
  case False
  then show ?thesis using point_text_parse [OF assms, of "nat (- e)"] by simp
qed

end
