(* ===== verification/Completion_Transaction.thy ===== *)
theory Completion_Transaction
  imports Completion_Receipt Decimal_Text
begin

text \<open>
  \<open>turnstile_core/domain/budget_completion.py\<close>, second half: the admission identity, the approved
  resolution of a reservation, the exact USD charge of a receipt, and the transaction that settles
  an attempt from a completion. Documents are JSON dictionaries, as the Observer reads them.
\<close>

section \<open>Field access\<close>

definition dget :: "dict \<Rightarrow> string \<Rightarrow> pv res" where
  "dget d k = guardR (\<not> has_key d k) (KeyError k) (Inr (dfield d k))"

definition dget_or :: "dict \<Rightarrow> string \<Rightarrow> pv \<Rightarrow> pv" where
  "dget_or d k v = (if has_key d k then dfield d k else v)"

text \<open>\<open>x not in {...}\<close> fails with a \<open>TypeError\<close> when \<open>x\<close> is a list or a dictionary.\<close>

definition not_in_set :: "pv \<Rightarrow> string \<Rightarrow> exn" where
  "not_in_set v msg = (case v of PList _ \<Rightarrow> TypeError ''unhashable type''
     | PDict _ \<Rightarrow> TypeError ''unhashable type'' | _ \<Rightarrow> ValueError msg)"

definition uuid_of :: "pv \<Rightarrow> uuid res" where
  "uuid_of v =
     (case v of
        PStr s \<Rightarrow>
          (case uuid_canon s of
             None \<Rightarrow> Inl (ValueError ''badly formed hexadecimal UUID string'') | Some u \<Rightarrow> Inr u)
      | _ \<Rightarrow> Inl (AttributeError ''replace''))"

definition date_of_text :: "pv \<Rightarrow> date res" where
  "date_of_text v =
     (case v of
        PStr s \<Rightarrow>
          (case parse_iso_date s of
             None \<Rightarrow> Inl (ValueError ''Invalid isoformat string'') | Some d \<Rightarrow> Inr d)
      | _ \<Rightarrow> Inl (TypeError ''fromisoformat: argument must be str''))"

section \<open>Admission identity\<close>

definition identity_keys :: "string list" where
  "identity_keys = [''scope'', ''gateway_profile_id'', ''native_gateway_id'', ''correlation_id'',
     ''model_id'', ''admitted_at'']"

definition bad_text :: "pv \<Rightarrow> bool" where
  "bad_text v = (\<not> is_str v \<or> is_blank (text_of v) \<or> length (text_of v) > 255)"

definition normalized_identity :: "dict \<Rightarrow> dict res" where
  "normalized_identity value =
     guardR (\<not> keys_are value identity_keys)
       (ValueError ''Execution identity fields do not match the protocol'')
     (let scope = items (dfield value ''scope''); scope_id = dfield scope ''scope_id'' in
      guardR (\<not> is_dict (dfield value ''scope'')
          \<or> \<not> keys_are scope [''scope_type'', ''scope_id'', ''period_start''])
        (ValueError ''Execution scope is malformed'')
      (guardR (dfield scope ''scope_type'' \<notin> {PStr ''person'', PStr ''application''})
        (not_in_set (dfield scope ''scope_type'') ''Execution scope type is invalid'')
      (guardR (list_ex bad_text [scope_id, dfield value ''native_gateway_id'',
            dfield value ''correlation_id'', dfield value ''model_id''])
        (ValueError ''Execution identity is blank or too long'')
      (bindR (if dfield scope ''scope_type'' = PStr ''application'' then uuid_of scope_id
              else Inr (text_of scope_id)) (\<lambda>canonical.
       guardR (canonical \<noteq> text_of scope_id)
        (ValueError ''Application scope must use its canonical UUID'')
      (bindR (utc_time (dfield value ''admitted_at'')) (\<lambda>admitted.
       bindR (date_of_text (dfield scope ''period_start'')) (\<lambda>month.
       guardR (month \<noteq> utc_month admitted)
        (ValueError ''Execution scope must retain the UTC admission month'')
      (bindR (uuid_of (dfield value ''gateway_profile_id'')) (\<lambda>gw.
       Inr (dputs value [(''gateway_profile_id'', PStr gw),
                         (''admitted_at'', PStr (iso_utc admitted))])))))))))))"

section \<open>Exact USD amounts\<close>

definition decimal_of :: "pv \<Rightarrow> decimal option" where
  "decimal_of v =
     (case v of PStr s \<Rightarrow> dec_of_text s | PDec d \<Rightarrow> Some d | PInt n \<Rightarrow> Some (Dec n 0) | _ \<Rightarrow> None)"

definition usd_in_range :: "decimal \<Rightarrow> bool" where
  "usd_in_range d = (dec_le (Dec 0 0) d \<and> dec_lt d (Dec 1 16) \<and> has_scale14 d)"

definition exact_usd_amount :: "pv \<Rightarrow> decimal res" where
  "exact_usd_amount v =
     guardR (\<not> (case v of PStr _ \<Rightarrow> True | PDec _ \<Rightarrow> True | PInt _ \<Rightarrow> True | _ \<Rightarrow> False))
       (ValueError ''USD accounting requires an exact decimal amount'')
     (case decimal_of v of
        None \<Rightarrow> Inl (ValueError ''USD amount does not match NUMERIC(30,14)'')
      | Some d \<Rightarrow>
          guardR (\<not> usd_in_range d) (ValueError ''USD amount does not match NUMERIC(30,14)'') (Inr d))"

section \<open>The charge of a receipt\<close>

definition truthy :: "pv \<Rightarrow> bool" where
  "truthy v =
     (case v of
        PNone \<Rightarrow> False | PBool b \<Rightarrow> b | PInt n \<Rightarrow> n \<noteq> 0 | PFloat c e \<Rightarrow> c \<noteq> 0 | PStr s \<Rightarrow> s \<noteq> []
      | PDec d \<Rightarrow> \<not> dec_eq d (Dec 0 0) | PDt _ \<Rightarrow> True | PList xs \<Rightarrow> xs \<noteq> [] | PDict d \<Rightarrow> d \<noteq> [])"

text \<open>\<open>Decimal(str(v))\<close>.\<close>

definition decimal_of_str :: "pv \<Rightarrow> decimal res" where
  "decimal_of_str v =
     (let parsed = (case v of
          PInt n \<Rightarrow> Some (Dec n 0) | PFloat c e \<Rightarrow> Some (Dec c e) | PStr s \<Rightarrow> dec_of_text s
        | PDec d \<Rightarrow> Some d | _ \<Rightarrow> None)
      in case parsed of None \<Rightarrow> Inl InvalidOperation | Some d \<Rightarrow> Inr d)"

fun integral_value :: "decimal \<Rightarrow> int option" where
  "integral_value (Dec c e) =
     (if e \<ge> 0 then Some (c * 10 ^ nat e)
      else if c mod 10 ^ nat (- e) = 0 then Some (c div 10 ^ nat (- e)) else None)"
| "integral_value _ = None"

definition price_fields :: "string list" where
  "price_fields = [''input_price_per_million'', ''cached_price_per_million'',
     ''cache_write_price_per_million'', ''output_price_per_million'']"

definition rate_fields :: "string list" where
  "rate_fields = [''input_rate_units'', ''cached_rate_units'', ''cache_write_rate_units'',
     ''output_rate_units'']"

definition rate_of_price :: "dict \<Rightarrow> string \<Rightarrow> pv res" where
  "rate_of_price tier field =
     bindR (dget tier field) (\<lambda>v. bindR (decimal_of_str v) (\<lambda>d.
       case integral_value (dec_mul 28 d (Dec 100000000 0)) of
         Some n \<Rightarrow>
           if n < 0 then Inl (ValueError ''USD unit prices must retain eight-decimal precision'')
           else Inr (PInt n)
       | None \<Rightarrow> Inl (ValueError ''USD unit prices must retain eight-decimal precision'')))"

definition expected_tier :: "pv \<Rightarrow> pv res" where
  "expected_tier v =
     bindR (as_dict v) (\<lambda>tier. bindR (mapR (rate_of_price tier) price_fields) (\<lambda>rates.
       Inr (PDict ([(''min_input_tokens'', dget_or tier ''min_input_tokens'' (PInt 0)),
                    (''max_input_tokens'', dfield tier ''max_input_tokens'')]
                   @ zip rate_fields rates))))"

text \<open>
  The walk over the tiers: they start at 0 and follow each other without a gap, and only the last
  one is unbounded. The selected tier is the last that contains the billed input.
\<close>

fun select_tier :: "int \<Rightarrow> int \<Rightarrow> dict option \<Rightarrow> pv list \<Rightarrow> dict option res" where
  "select_tier billed minimum selected [] = Inr selected"
| "select_tier billed minimum selected (v # rest) =
     bindR (as_dict v) (\<lambda>tier.
     guardR (\<not> keys_are tier ([''min_input_tokens'', ''max_input_tokens''] @ rate_fields))
       (ValueError ''USD price tiers must be complete and contiguous'')
     (bindR (exact_integer (dfield tier ''min_input_tokens'')) (\<lambda>low.
      guardR (low \<noteq> minimum) (ValueError ''USD price tiers must be complete and contiguous'')
     (if dfield tier ''max_input_tokens'' = PNone then
        guardR (rest \<noteq> []) (ValueError ''Only the final USD price tier may be unbounded'')
        (select_tier billed minimum (if low \<le> billed then Some tier else selected) rest)
      else
        bindR (exact_integer (dfield tier ''max_input_tokens'')) (\<lambda>maximum.
        guardR (maximum < minimum \<or> rest = [])
          (ValueError ''USD price tiers must cover all input lengths'')
        (select_tier billed (maximum + 1)
           (if low \<le> billed \<and> billed \<le> maximum then Some tier else selected) rest))))))"

definition tier_amount :: "dict \<Rightarrow> dict \<Rightarrow> int res" where
  "tier_amount selected evidence =
     bindR (exact_integer (dfield selected ''input_rate_units'')) (\<lambda>ri.
     bindR (exact_integer (dfield selected ''cached_rate_units'')) (\<lambda>rc.
     bindR (exact_integer (dfield selected ''cache_write_rate_units'')) (\<lambda>rw.
     bindR (exact_integer (dfield selected ''output_rate_units'')) (\<lambda>ro.
       let n = \<lambda>k. int_of (dfield evidence k) in
       Inr (n ''input_tokens'' * ri + (n ''cached_tokens'' - n ''cache_write_tokens'') * rc
            + n ''cache_write_tokens'' * rw + n ''output_tokens'' * ro)))))"

definition usd_completion_charge :: "digest \<Rightarrow> dict \<Rightarrow> dict \<Rightarrow> decimal res" where
  "usd_completion_charge sha projection evidence =
     (let price = dfield projection ''price''; schedules = dfield projection ''rate_schedules'';
          n = length (list_of schedules) in
      guardR (\<not> py_eq (dfield projection ''version'') (PInt 1) \<or> \<not> is_dict price
          \<or> \<not> is_list schedules \<or> \<not> (1 \<le> n \<and> n \<le> 32))
        (ValueError ''USD completion requires its admitted price projection'')
      (bindR (json_dumps True '','' '':''
                (PDict [(''price'', price), (''rate_schedules'', schedules)])) (\<lambda>text.
       guardR (dfield projection ''price_sha256'' \<noteq> PStr (sha text))
         (ValueError ''USD completion price projection digest differs'')
      (let tiers = dfield (items price) ''context_tiers'' in
       guardR (truthy tiers \<and> \<not> is_list tiers) (TypeError ''tiers'')
      (bindR (mapR expected_tier (if truthy tiers then list_of tiers else [price])) (\<lambda>expected.
       guardR (\<not> py_eq schedules (PList expected))
         (ValueError ''USD rate schedule differs from the admitted prices'')
      (bindR (select_tier (int_of (dfield evidence ''input_tokens'')
                           + int_of (dfield evidence ''cached_tokens'')) 0 None (list_of schedules))
        (\<lambda>selected. case selected of
           None \<Rightarrow> Inl (ValueError ''USD completion has no matching input price tier'')
         | Some tier \<Rightarrow> bindR (tier_amount tier evidence) (\<lambda>units.
                          exact_usd_amount (PDec (dec_div_pow10 50 units 14)))))))))))"

section \<open>Approved resolutions\<close>

definition resolution_keys :: "string list" where
  "resolution_keys = [''version'', ''id'', ''receipt'', ''decision'', ''actor'', ''reason'',
     ''evidence_sha256'', ''approved_at'']"

definition resolution_shape :: "dict \<Rightarrow> bool" where
  "resolution_shape value =
     (let actor = text_of (dfield value ''actor'') in
      keys_are value resolution_keys \<and> dfield value ''version'' = PInt 1
      \<and> dfield value ''decision'' = PStr ''release_unverified'' \<and> is_str (dfield value ''id'')
      \<and> is_str (dfield value ''actor'') \<and> 1 \<le> length actor \<and> length actor \<le> 255
      \<and> actor = py_strip actor \<and> list_all is_printable actor
      \<and> dfield value ''reason'' \<in> {PStr ''gateway_validation_failure'',
           PStr ''provider_result_unavailable'', PStr ''evidence_irrecoverable''}
      \<and> is_str (dfield value ''evidence_sha256'')
      \<and> is_sha256_hex (text_of (dfield value ''evidence_sha256''))
      \<and> is_dict (dfield value ''receipt''))"

definition zero_usage :: dict where
  "zero_usage = [(''input_tokens'', PInt 0), (''cached_tokens'', PInt 0),
     (''cache_write_tokens'', PInt 0), (''output_tokens'', PInt 0)]"

definition mode_of :: "dict \<Rightarrow> pv" where
  "mode_of d = dget_or d ''budget_mode'' (PStr ''tokens'')"

definition opt_field :: "dict \<Rightarrow> string \<Rightarrow> pv option" where
  "opt_field d k = (case dfield d k of PNone \<Rightarrow> None | v \<Rightarrow> Some v)"

text \<open>The USD part of a normalised receipt.\<close>

definition usd_receipt_part :: "digest \<Rightarrow> dict \<Rightarrow> dict \<Rightarrow> dict res" where
  "usd_receipt_part sha identity rcpt =
     (let projection = dfield rcpt ''price_snapshot'' in
      guardR (\<not> is_dict projection
          \<or> \<not> py_eq (dfield (items projection) ''model_id'') (dfield identity ''model_id''))
        (ValueError ''USD resolution requires its admitted model price'')
      (bindR (usd_completion_charge sha (items projection) zero_usage) (\<lambda>_.
       bindR (exact_usd_amount (dfield rcpt ''reserved_usd'')) (\<lambda>amount.
       Inr [(''budget_mode'', PStr ''usd''), (''reserved_usd'', PStr (format_14f amount)),
            (''price_snapshot'', projection)]))))"

definition validate_resolution :: "digest \<Rightarrow> pv \<Rightarrow> dict res" where
  "validate_resolution sha v =
     (let value = items v; rcpt = items (dfield value ''receipt''); mode = mode_of rcpt;
          usd = (mode = PStr ''usd'');
          receipt_fields = [''identity'', ''epoch'', ''reserved_tokens'']
            @ (if usd then [''budget_mode'', ''reserved_usd'', ''price_snapshot''] else []) in
      guardR (\<not> is_dict v \<or> \<not> resolution_shape value)
        (ValueError ''Reservation resolution requires exact persisted approval evidence'')
      (guardR (mode \<notin> {PStr ''tokens'', PStr ''usd''} \<or> \<not> keys_are rcpt receipt_fields)
        (not_in_set mode ''Reservation resolution requires its original budget mode and evidence'')
      (bindR (as_dict (dfield rcpt ''identity'')) (\<lambda>ident.
       bindR (normalized_identity ident) (\<lambda>identity.
       bindR (utc_time (dfield value ''approved_at'')) (\<lambda>approved.
       bindR (exact_integer (dfield rcpt ''reserved_tokens'')) (\<lambda>reserved.
       guardR (reserved = 0)
        (ValueError ''Reservation resolution must follow its original admission'')
      (bindR (utc_time (dfield identity ''admitted_at'')) (\<lambda>admitted.
       guardR (approved < admitted)
        (ValueError ''Reservation resolution must follow its original admission'')
      (bindR (uuid_of (dfield rcpt ''epoch'')) (\<lambda>epoch.
       bindR (if usd then usd_receipt_part sha identity rcpt else Inr []) (\<lambda>usd_part.
       bindR (uuid_of (dfield value ''id'')) (\<lambda>ident_id.
       Inr (dputs value [(''id'', PStr ident_id), (''approved_at'', PStr (iso_utc approved)),
         (''receipt'', PDict ([(''identity'', PDict identity), (''epoch'', PStr epoch),
            (''reserved_tokens'', PInt reserved)] @ usd_part))]))))))))))))))"

section \<open>The settlement transaction\<close>

definition dint :: "dict \<Rightarrow> string \<Rightarrow> int res" where
  "dint d k = bindR (dget d k) exact_integer"

definition identity_of :: "dict \<Rightarrow> dict res" where
  "identity_of d = bindR (dget d ''identity'') (\<lambda>v. bindR (as_dict v) normalized_identity)"

definition uuid_field :: "dict \<Rightarrow> string \<Rightarrow> uuid res" where
  "uuid_field d k = bindR (dget d k) uuid_of"

text \<open>The summary, the attempt and the receipt are about the same admission (454-466).\<close>

definition match_admission :: "dict \<Rightarrow> dict \<Rightarrow> dict \<Rightarrow> dict \<Rightarrow> dict \<Rightarrow> unit res" where
  "match_admission summary attempt rcpt identity evidence =
     (let bad = ValueError ''Completion does not match its immutable admission'' in
      guardR (dfield summary ''protocol_version'' \<noteq> PInt 2
          \<or> \<not> py_eq (dfield summary ''scope'') (dfield identity ''scope'')) bad
      (bindR (identity_of attempt) (\<lambda>a. guardR (\<not> py_eq (PDict a) (PDict identity)) bad
      (bindR (uuid_field summary ''epoch'') (\<lambda>se.
       bindR (uuid_field rcpt ''epoch'') (\<lambda>re. guardR (se \<noteq> re) bad
      (bindR (uuid_field attempt ''epoch'') (\<lambda>ae. guardR (ae \<noteq> re) bad
      (bindR (dint attempt ''reserved_tokens'') (\<lambda>ar.
       bindR (dint rcpt ''reserved_tokens'') (\<lambda>rr. guardR (ar \<noteq> rr \<or> rr = 0) bad
      (bindR (utc_time (dfield evidence ''observed_at'')) (\<lambda>observed.
       bindR (utc_time (dfield identity ''admitted_at'')) (\<lambda>admitted.
       guardR (observed < admitted) (ValueError ''Completion cannot precede admission'')
         (Inr ())))))))))))))))"

text \<open>
  The exact charge of the completion and the charge the attempt already carries, in USD mode
  (470-483).
\<close>

definition usd_charges :: "digest \<Rightarrow> dict \<Rightarrow> dict \<Rightarrow> dict \<Rightarrow> dict \<Rightarrow> (decimal \<times> decimal) res" where
  "usd_charges sha attempt rcpt identity evidence =
     (let projection = dfield attempt ''price_snapshot'' in
      guardR (\<not> is_dict projection
          \<or> \<not> py_eq (dfield (items projection) ''model_id'') (dfield identity ''model_id''))
        (ValueError ''USD completion requires the admitted model price'')
      (bindR (exact_usd_amount (dfield attempt ''reserved_usd'')) (\<lambda>reserved.
       guardR (mode_of rcpt \<noteq> PStr ''usd'' \<or> \<not> py_eq (dfield rcpt ''price_snapshot'') projection)
        (ValueError ''USD completion receipt differs from its reservation'')
      (bindR (exact_usd_amount (dfield rcpt ''reserved_usd'')) (\<lambda>other.
       guardR (\<not> dec_eq other reserved)
        (ValueError ''USD completion receipt differs from its reservation'')
      (bindR (usd_completion_charge sha (items projection) evidence) (\<lambda>actual.
       bindR (dget attempt ''state'') (\<lambda>state.
       if state = PStr ''settled''
       then bindR (exact_usd_amount (dfield attempt ''actual_usd'')) (\<lambda>previous. Inr (actual, previous))
       else Inr (actual, Dec 0 0)))))))))"

definition summary_integers :: "string list" where
  "summary_integers = [''confirmed_tokens'', ''active_reserved_tokens'', ''upper_bound_tokens'',
     ''token_limit'', ''version'', ''policy_revision'']"

definition HOLDING_STATES :: "pv set" where
  "HOLDING_STATES = {PStr ''reserved'', PStr ''dispatching'', PStr ''uncertain''}"

definition ATTEMPT_STATES :: "pv set" where
  "ATTEMPT_STATES = HOLDING_STATES \<union> {PStr ''upper_bound'', PStr ''settled'', PStr ''cancelled'',
     PStr ''released''}"

text \<open>The stored numbers, booleans and state are well formed (484-499); yields the state.\<close>

definition check_shape :: "dict \<Rightarrow> dict \<Rightarrow> pv res" where
  "check_shape summary attempt =
     bindR (mapR (dint summary) summary_integers) (\<lambda>_.
     bindR (dget summary ''enforce'') (\<lambda>en.
     guardR (\<not> is_bool en) (ValueError ''Execution policy booleans are malformed'')
    (bindR (dget summary ''enabled'') (\<lambda>ena.
     guardR (\<not> is_bool ena) (ValueError ''Execution policy booleans are malformed'')
    (bindR (dget attempt ''state'') (\<lambda>state.
     guardR (state \<notin> ATTEMPT_STATES) (not_in_set state ''Execution state is invalid'')
       (Inr state)))))))"

text \<open>A retained resolution belongs to this very admission (500-514).\<close>

definition check_resolution :: "digest \<Rightarrow> dict \<Rightarrow> dict \<Rightarrow> dict \<Rightarrow> bool \<Rightarrow> unit res" where
  "check_resolution sha attempt rcpt identity usd =
     (if dfield attempt ''resolution_evidence'' = PNone then Inr ()
      else
        bindR (validate_resolution sha (dfield attempt ''resolution_evidence'')) (\<lambda>checked.
        bindR (uuid_field rcpt ''epoch'') (\<lambda>epoch.
        bindR (if usd
               then bindR (dget attempt ''reserved_usd'') (\<lambda>r. bindR (exact_usd_amount r) (\<lambda>amount.
                      Inr [(''budget_mode'', PStr ''usd''), (''reserved_usd'', PStr (format_14f amount)),
                           (''price_snapshot'', dfield attempt ''price_snapshot'')]))
               else Inr []) (\<lambda>usd_part.
        guardR (\<not> py_eq (dfield checked ''receipt'')
                  (PDict ([(''identity'', PDict identity), (''epoch'', PStr epoch),
                     (''reserved_tokens'', dfield rcpt ''reserved_tokens'')] @ usd_part)))
          (ValueError ''Reservation resolution belongs to another admission'') (Inr ())))))"

text \<open>
  What the attempt's earlier evidence says (515-555): \<open>None\<close> to keep the stored pair as it is,
  otherwise the tokens already charged.
\<close>

definition rank_of :: "dict \<Rightarrow> pv" where
  "rank_of attempt = dget_or attempt ''evidence_rank'' (PInt 3)"

definition prior_rejection :: "digest \<Rightarrow> dict \<Rightarrow> dict \<Rightarrow> dict \<Rightarrow> int \<Rightarrow> bool res" where
  "prior_rejection sha attempt identity evidence previous =
     (if py_eq (rank_of attempt) (PInt 3) then Inr True
      else
        guardR (previous \<noteq> 0)
          (ValueError ''Rejection evidence cannot replace an existing nonzero charge'')
       (if dfield attempt ''rejection_evidence'' = PNone then Inr False
        else
          bindR (as_dict (dfield attempt ''rejection_evidence'')) (\<lambda>retained.
          bindR (validate_rejection_evidence sha (opt_field attempt ''rejection_policy'') retained
                   (dfield identity ''admitted_at'')) (\<lambda>_.
          guardR (\<not> py_eq (dfield retained ''rejection'') (dfield evidence ''rejection''))
            (ValueError ''Conflicting rejection evidence requires review'') (Inr True)))))"

definition prior_completion ::
  "digest \<Rightarrow> dict \<Rightarrow> dict \<Rightarrow> pv \<Rightarrow> int \<Rightarrow> bool \<Rightarrow> decimal \<Rightarrow> decimal \<Rightarrow> bool res" where
  "prior_completion sha attempt evidence state previous usd actual_usd previous_usd =
     (if dfield attempt ''completion_evidence'' = PNone then
        guardR (state = PStr ''settled'' \<and> py_eq (rank_of attempt) (PInt 3)
            \<and> previous \<noteq> int_of (dfield evidence ''total_tokens''))
          (ValueError ''Conflicting complete accounting evidence requires review'') (Inr False)
      else
        bindR (as_dict (dfield attempt ''completion_evidence'')) (\<lambda>prior.
        bindR (validate_completion sha prior) (\<lambda>retained.
        guardR (state \<noteq> PStr ''settled'' \<or> previous \<noteq> int_of (dfield retained ''total_tokens'')
            \<or> \<not> py_eq (dfield attempt ''evidence_rank'') (PInt 3))
          (ValueError ''Retained completion must match the actual settled charge'')
       (guardR (list_ex (\<lambda>key. dfield retained key \<noteq> dfield evidence key) COUNTERS)
          (ValueError ''Conflicting complete producer evidence requires review'')
       (guardR (usd \<and> \<not> dec_eq previous_usd actual_usd)
          (ValueError ''Conflicting complete USD producer evidence requires review'')
          (Inr True))))))"

definition prior_charge ::
  "digest \<Rightarrow> dict \<Rightarrow> dict \<Rightarrow> dict \<Rightarrow> pv \<Rightarrow> bool \<Rightarrow> decimal \<Rightarrow> decimal \<Rightarrow> int option res" where
  "prior_charge sha attempt identity evidence state usd actual_usd previous_usd =
     (let rejection = has_key evidence ''rejection'' in
      guardR (state = PStr ''released'' \<and> (dfield attempt ''resolution_evidence'' = PNone
          \<or> \<not> py_eq (dfield attempt ''evidence_rank'') (PInt 2)))
        (ValueError ''Released reservations require persisted approval evidence'')
     (if state = PStr ''released'' \<and> rejection then Inr None
      else
        bindR (if state = PStr ''settled'' then dint attempt ''actual_tokens'' else Inr 0) (\<lambda>previous.
        guardR (state \<noteq> PStr ''settled'' \<and> dfield attempt ''actual_tokens'' \<noteq> PNone)
          (ValueError ''Only settled attempts may have actual charges'')
       (bindR (if rejection \<and> state = PStr ''settled''
               then prior_rejection sha attempt identity evidence previous else Inr False) (\<lambda>kept.
        if kept then Inr None
        else bindR (prior_completion sha attempt evidence state previous usd actual_usd previous_usd)
               (\<lambda>same. Inr (if same then None else Some previous)))))))"

text \<open>The balances after the charge (556-581).\<close>

definition token_changes :: "dict \<Rightarrow> dict \<Rightarrow> int \<Rightarrow> pv \<Rightarrow> int \<Rightarrow> bool \<Rightarrow> dict res" where
  "token_changes summary evidence reserved state previous usd =
     (let n = \<lambda>k. int_of (dfield summary k);
          active = (if state \<in> HOLDING_STATES then reserved else 0);
          upper = (if state = PStr ''upper_bound'' then reserved else 0);
          changed = (''version'', n ''version'' + 1)
            # (if usd then []
               else [(''confirmed_tokens'',
                        n ''confirmed_tokens'' + int_of (dfield evidence ''total_tokens'') - previous),
                     (''active_reserved_tokens'', n ''active_reserved_tokens'' - active),
                     (''upper_bound_tokens'', n ''upper_bound_tokens'' - upper)])
      in mapR (\<lambda>(k, v). bindR (exact_integer (PInt v)) (\<lambda>m. Inr (k, PInt m))) changed)"

definition usd_changes :: "dict \<Rightarrow> dict \<Rightarrow> pv \<Rightarrow> decimal \<Rightarrow> decimal \<Rightarrow> dict res" where
  "usd_changes summary attempt state actual_usd previous_usd =
     bindR (dget attempt ''reserved_usd'') (\<lambda>v. bindR (exact_usd_amount v) (\<lambda>held.
     let zero = PStr ''0'' in
     bindR (exact_usd_amount (dget_or summary ''confirmed_usd'' zero)) (\<lambda>confirmed.
     bindR (exact_usd_amount (dget_or summary ''active_reserved_usd'' zero)) (\<lambda>active.
     bindR (exact_usd_amount (dget_or summary ''upper_bound_usd'' zero)) (\<lambda>upper.
     mapR (\<lambda>(k, d). bindR (exact_usd_amount (PDec d)) (\<lambda>a. Inr (k, PStr (format_f a))))
       [(''confirmed_usd'', dec_sub 50 (dec_add 50 confirmed actual_usd) previous_usd),
        (''active_reserved_usd'', dec_sub 50 active (if state \<in> HOLDING_STATES then held else Dec 0 0)),
        (''upper_bound_usd'', dec_sub 50 upper (if state = PStr ''upper_bound'' then held else Dec 0 0))])))))"

definition evidence_key :: "digest \<Rightarrow> dict \<Rightarrow> string" where
  "evidence_key sha evidence =
     (if has_key evidence ''rejection'' then ''rejection:'' else ''completion:'')
     @ sha (json_render False '','' '':'' (PList (map (dfield evidence) COUNTERS)))"

definition settled_attempt :: "digest \<Rightarrow> dict \<Rightarrow> dict \<Rightarrow> bool \<Rightarrow> decimal \<Rightarrow> int \<Rightarrow> instant \<Rightarrow> dict" where
  "settled_attempt sha attempt evidence usd actual_usd revision at =
     (let rejection = has_key evidence ''rejection'' in
      dputs attempt ([(''state'', PStr ''settled''),
                      (''actual_tokens'', dfield evidence ''total_tokens'')]
        @ (if usd then [(''actual_usd'', PStr (format_f actual_usd))] else [])
        @ [(''evidence_revision'', PInt (max revision 1)),
           (''evidence_key'', PStr (evidence_key sha evidence)),
           (''evidence_rank'', PInt (if rejection then 2 else 3)),
           (if rejection then ''rejection_evidence'' else ''completion_evidence'', PDict evidence),
           (''updated_at'', PStr (iso_utc at))]))"

definition completion_transaction ::
  "digest \<Rightarrow> dict \<Rightarrow> dict \<Rightarrow> dict \<Rightarrow> dict \<Rightarrow> instant \<Rightarrow> (dict, dict) outcome res" where
  "completion_transaction sha summary attempt rcpt completion now =
     bindR (validate_completion sha completion) (\<lambda>evidence.
     bindR (identity_of rcpt) (\<lambda>identity.
     bindR (if has_key evidence ''rejection''
            then validate_rejection_evidence sha (opt_field attempt ''rejection_policy'') evidence
                   (dfield identity ''admitted_at'')
            else Inr ()) (\<lambda>_.
     bindR (match_admission summary attempt rcpt identity evidence) (\<lambda>_.
     let mode = mode_of summary; usd = (mode = PStr ''usd'') in
     guardR (mode \<notin> {PStr ''tokens'', PStr ''usd''} \<or> mode_of attempt \<noteq> mode)
       (not_in_set mode ''Completion budget mode differs from its admission'')
    (bindR (if usd then usd_charges sha attempt rcpt identity evidence
            else Inr (Dec 0 0, Dec 0 0)) (\<lambda>(actual_usd, previous_usd).
     bindR (check_shape summary attempt) (\<lambda>state.
     bindR (check_resolution sha attempt rcpt identity usd) (\<lambda>_.
     bindR (prior_charge sha attempt identity evidence state usd actual_usd previous_usd) (\<lambda>prior.
     case prior of
       None \<Rightarrow> Inr Kept
     | Some previous \<Rightarrow>
         bindR (token_changes summary evidence (int_of (dfield rcpt ''reserved_tokens'')) state
                  previous usd) (\<lambda>changed.
         bindR (if usd then usd_changes summary attempt state actual_usd previous_usd else Inr [])
           (\<lambda>usd_changed.
         bindR (to_utc now) (\<lambda>n.
         bindR (dget summary ''updated_at'') (\<lambda>sv. bindR (utc_time sv) (\<lambda>su.
         bindR (dget attempt ''updated_at'') (\<lambda>av. bindR (utc_time av) (\<lambda>au.
         bindR (dint attempt ''evidence_revision'') (\<lambda>revision.
         let at = max (max n su) au in
         Inr (Advanced
               (dputs summary (changed @ usd_changed @ [(''updated_at'', PStr (iso_utc at))]))
               (settled_attempt sha attempt evidence usd actual_usd revision at)))))))))))))))))))"

section \<open>What a successful settlement fixes\<close>

lemma completion_advanced:
  assumes "completion_transaction sha s a r c now = Inr (Advanced s' a')"
  obtains evidence identity actual previous state prior changed usd_changed su au rev at where
    "validate_completion sha c = Inr evidence" "identity_of r = Inr identity"
    "has_key evidence ''rejection'' \<Longrightarrow>
       validate_rejection_evidence sha (opt_field a ''rejection_policy'') evidence
         (dfield identity ''admitted_at'') = Inr ()"
    "match_admission s a r identity evidence = Inr ()"
    "mode_of s \<in> {PStr ''tokens'', PStr ''usd''}" "mode_of a = mode_of s"
    "(if mode_of s = PStr ''usd'' then usd_charges sha a r identity evidence
      else Inr (Dec 0 0, Dec 0 0)) = Inr (actual, previous)"
    "check_shape s a = Inr state"
    "check_resolution sha a r identity (mode_of s = PStr ''usd'') = Inr ()"
    "prior_charge sha a identity evidence state (mode_of s = PStr ''usd'') actual previous = Inr (Some prior)"
    "token_changes s evidence (int_of (dfield r ''reserved_tokens'')) state prior
       (mode_of s = PStr ''usd'') = Inr changed"
    "(if mode_of s = PStr ''usd'' then usd_changes s a state actual previous else Inr []) = Inr usd_changed"
    "in_range now" "has_key s ''updated_at''" "has_key a ''updated_at''"
    "utc_time (dfield s ''updated_at'') = Inr su" "utc_time (dfield a ''updated_at'') = Inr au"
    "dint a ''evidence_revision'' = Inr rev" "at = max (max now su) au"
    "s' = dputs s (changed @ usd_changed @ [(''updated_at'', PStr (iso_utc at))])"
    "a' = settled_attempt sha a evidence (mode_of s = PStr ''usd'') actual rev at"
  using assms unfolding completion_transaction_def Let_def bindR_eq_Inr guardR_eq_Inr split_paired_all
  apply (clarsimp simp: res_simps  split: option.splits prod.splits)
  apply (clarsimp simp: res_simps dget_def to_utc_def split: if_split_asm)
   apply blast
  apply blast
  done

lemma token_changes_Inr:
  "token_changes s e r st prev False = Inr ch \<Longrightarrow>
     (\<exists>v c a u. ch = [(''version'', PInt v), (''confirmed_tokens'', PInt c),
         (''active_reserved_tokens'', PInt a), (''upper_bound_tokens'', PInt u)]
       \<and> v = int_of (dfield s ''version'') + 1
       \<and> c = int_of (dfield s ''confirmed_tokens'') + int_of (dfield e ''total_tokens'') - prev
       \<and> a = int_of (dfield s ''active_reserved_tokens'') - (if st \<in> HOLDING_STATES then r else 0)
       \<and> u = int_of (dfield s ''upper_bound_tokens'') - (if st = PStr ''upper_bound'' then r else 0)
       \<and> list_all (\<lambda>n. 0 \<le> n \<and> n \<le> MAX_TOKENS) [v, c, a, u])"
  by (auto simp: token_changes_def res_simps Let_def)

lemma prior_charge_Some:
  assumes "prior_charge sha a identity evidence state usd x y = Inr (Some prior)"
  shows "if state = PStr ''settled'' then dfield a ''actual_tokens'' = PInt prior
         else prior = 0 \<and> dfield a ''actual_tokens'' = PNone"
  using assms
  by (auto simp: prior_charge_def res_simps dint_def dget_def Let_def split: if_split_asm)

lemma check_shape_state: "check_shape s a = Inr st \<Longrightarrow> dfield a ''state'' = st \<and> st \<in> ATTEMPT_STATES"
  by (auto simp: check_shape_def res_simps dget_def)

lemma dfield_Cons: "dfield ((k, v) # d) k' = (if k = k' then v else dfield d k')"
  by (simp add: dfield_def)

lemma dfield_dputs: "dfield (dputs d new) k =
   (case map_of (rev new) k of None \<Rightarrow> dfield d k | Some v \<Rightarrow> v)"
proof (induction new arbitrary: d)
  case (Cons x new)
  then show ?case by (cases x) (auto simp: dfield_dput map_add_def split: option.splits)
qed simp

lemma has_key_dputs: "has_key (dputs d new) k \<longleftrightarrow> k \<in> fst ` set new \<or> has_key d k"
  by (induction new arbitrary: d) (force simp: has_key_dput)+

lemma settled_attempt_fields:
  assumes "k \<notin> {''rejection_evidence'', ''completion_evidence''}"
  shows "dfield (settled_attempt sha a e usd amt rn at) k =
     (if k = ''state'' then PStr ''settled'' else if k = ''actual_tokens'' then dfield e ''total_tokens''
      else if usd \<and> k = ''actual_usd'' then PStr (format_f amt)
      else if k = ''evidence_revision'' then PInt (max rn 1)
      else if k = ''evidence_key'' then PStr (evidence_key sha e)
      else if k = ''evidence_rank'' then PInt (if has_key e ''rejection'' then 2 else 3)
      else if k = ''updated_at'' then PStr (iso_utc at) else dfield a k)"
  using assms by (auto simp: settled_attempt_def Let_def dfield_dput)

lemma usd_changed_keys:
  "(if usd then usd_changes s a st x y else Inr []) = Inr ch \<Longrightarrow>
     set (map fst ch) \<subseteq> {''confirmed_usd'', ''active_reserved_usd'', ''upper_bound_usd''}"
  by (auto simp: usd_changes_def res_simps Let_def split: if_split_asm)

lemma dfield_dputs_other: "k \<notin> set (map fst new) \<Longrightarrow> dfield (dputs d new) k = dfield d k"
  by (induction new arbitrary: d) (auto simp: dfield_dput)

lemma has_key_dputs_other: "k \<notin> set (map fst new) \<Longrightarrow> has_key (dputs d new) k = has_key d k"
  by (induction new arbitrary: d) (auto simp: has_key_dput)

lemma usd_amount_again:
  assumes "exact_usd_amount v = Inr d"
  shows "exact_usd_amount (PStr (format_f d)) = Inr d' \<Longrightarrow> dec_eq d' d"
    and "\<exists>d'. exact_usd_amount (PStr (format_f d)) = Inr d'"
proof -
  from assms have r: "usd_in_range d" by (auto simp: exact_usd_amount_def res_simps split: option.splits)
  then obtain c e where d: "d = Dec c e" by (cases d) (auto simp: usd_in_range_def)
  have "0 \<le> c * 10 ^ nat (e - min 0 e)" using r by (simp add: d usd_in_range_def dec_le_def dec_cmp_def coeff_at_def)
  then have c: "0 \<le> c" using zero_less_power [of "10::int" "nat (e - min 0 e)"]
    by (auto simp only: zero_le_mult_iff linorder_not_le [symmetric])
  let ?d = "if e \<ge> 0 then Dec (c * 10 ^ nat e) 0 else Dec c e"
  have big: "c * 10 ^ nat e < 10000000000000000" if e: "0 \<le> e"
  proof (cases "e \<le> 16")
    case True
    have "c < 10 ^ nat (16 - e)"
      using r e True by (simp add: d usd_in_range_def dec_lt_def dec_cmp_def coeff_at_def min_def split: if_splits)
    then have "c * 10 ^ nat e < 10 ^ nat (16 - e) * 10 ^ nat e" by simp
    also have "\<dots> = (10::int) ^ nat 16"
      using e True by (simp flip: power_add nat_add_distrib)
    finally show ?thesis by simp
  next
    case False
    then have "c * 10 ^ nat (e - 16) < 1"
      using r by (simp add: d usd_in_range_def dec_lt_def dec_cmp_def coeff_at_def min_def)
    then have "c = 0" using c zero_less_power [of "10::int" "nat (e - 16)"]
      by (smt (verit) mult_pos_pos)
    then show ?thesis by simp
  qed
  have "usd_in_range ?d" using r big
    by (auto simp: d usd_in_range_def dec_le_def dec_lt_def dec_cmp_def coeff_at_def min_def
          split: if_splits)
  then have "exact_usd_amount (PStr (format_f d)) = Inr ?d"
    by (simp add: exact_usd_amount_def decimal_of_def d format_f_parse [OF c] del: format_f.simps)
  moreover have "dec_eq ?d d"
    by (auto simp: d dec_eq_def dec_cmp_def coeff_at_def min_def)
  ultimately show "exact_usd_amount (PStr (format_f d)) = Inr d' \<Longrightarrow> dec_eq d' d"
    "\<exists>d'. exact_usd_amount (PStr (format_f d)) = Inr d'" by auto
qed

lemma match_admission_cong:
  assumes "dfield s' ''protocol_version'' = dfield s ''protocol_version''"
    "dfield s' ''scope'' = dfield s ''scope''" "dfield s' ''epoch'' = dfield s ''epoch''"
    "has_key s' ''epoch'' = has_key s ''epoch''"
    "\<And>k. k \<in> {''identity'', ''epoch'', ''reserved_tokens''} \<Longrightarrow> dfield a' k = dfield a k \<and> has_key a' k = has_key a k"
  shows "match_admission s' a' r i e = match_admission s a r i e"
  using assms by (simp add: match_admission_def identity_of_def uuid_field_def dint_def dget_def Let_def)

lemma settled_attempt_keeps:
  assumes "k \<in> {''identity'', ''epoch'', ''reserved_tokens'', ''reserved_usd'', ''price_snapshot'',
     ''resolution_evidence'', ''rejection_policy'', ''budget_mode''}"
  shows "dfield (settled_attempt sha a e usd amt rn at) k = dfield a k
    \<and> has_key (settled_attempt sha a e usd amt rn at) k = has_key a k"
  unfolding settled_attempt_def Let_def
  by (cases usd; intro conjI dfield_dputs_other has_key_dputs_other;
      use assms in \<open>elim insertE emptyE; simp\<close>)

lemma settled_attempt_evidence:
  "dfield (settled_attempt sha a e usd amt rn at)
     (if has_key e ''rejection'' then ''rejection_evidence'' else ''completion_evidence'') = PDict e"
  by (simp add: settled_attempt_def Let_def dfield_dput)

lemma token_changes_keys:
  "token_changes s e r st prev usd = Inr ch \<Longrightarrow>
     set (map fst ch) \<subseteq> {''version'', ''confirmed_tokens'', ''active_reserved_tokens'', ''upper_bound_tokens''}"
  by (auto simp: token_changes_def res_simps Let_def split: if_splits)

lemma evidence_counters:
  assumes "validate_completion sha c = Inr e" "has_key e ''rejection''"
  shows "dfield e ''total_tokens'' = PInt 0"
  using assms(1)
proof (cases rule: validate_completion_Inr)
  case (1 i c w ou tot src t rej)
  then show ?thesis using assms(2)
   by (cases rej) (auto simp: receipt_def has_key_def receipt_ok_def check_rejection_def Let_def res_simps dfield_Cons split: if_splits)
qed

text \<open>
  C2. A completion that \<open>completion_transaction\<close> accepts in token mode moves the
  confirmed balance by the receipt's total less what the attempt had charged, releases exactly
  what the attempt held, keeps every balance an int64, and leaves the attempt settled at the
  total.
\<close>

theorem completion_accounting:
  assumes "completion_transaction sha s a r c now = Inr (Advanced s' a')" "mode_of s = PStr ''tokens''"
  shows "\<exists>evidence total previous held active upper.
    validate_completion sha c = Inr evidence \<and> dfield evidence ''total_tokens'' = PInt total
    \<and> dfield r ''reserved_tokens'' = PInt held
    \<and> previous = (if dfield a ''state'' = PStr ''settled'' then int_of (dfield a ''actual_tokens'') else 0)
    \<and> active = (if dfield a ''state'' \<in> HOLDING_STATES then held else 0)
    \<and> upper = (if dfield a ''state'' = PStr ''upper_bound'' then held else 0)
    \<and> dfield s' ''confirmed_tokens'' = PInt (int_of (dfield s ''confirmed_tokens'') + total - previous)
    \<and> dfield s' ''active_reserved_tokens'' = PInt (int_of (dfield s ''active_reserved_tokens'') - active)
    \<and> dfield s' ''upper_bound_tokens'' = PInt (int_of (dfield s ''upper_bound_tokens'') - upper)
    \<and> dfield s' ''version'' = PInt (int_of (dfield s ''version'') + 1)
    \<and> list_all (\<lambda>k. is_ok (exact_integer (dfield s' k))) [''confirmed_tokens'',
         ''active_reserved_tokens'', ''upper_bound_tokens'', ''version'']
    \<and> dfield a' ''state'' = PStr ''settled'' \<and> dfield a' ''actual_tokens'' = PInt total"
  using assms(1)
proof (rule completion_advanced)
  fix evidence identity actual previous state prior changed usd_changed su au rev at
  assume f: "validate_completion sha c = Inr evidence" "match_admission s a r identity evidence = Inr ()"
    "check_shape s a = Inr state"
    "prior_charge sha a identity evidence state (mode_of s = PStr ''usd'') actual previous = Inr (Some prior)"
    "token_changes s evidence (int_of (dfield r ''reserved_tokens'')) state prior
       (mode_of s = PStr ''usd'') = Inr changed"
    "(if mode_of s = PStr ''usd'' then usd_changes s a state actual previous else Inr []) = Inr usd_changed"
    "s' = dputs s (changed @ usd_changed @ [(''updated_at'', PStr (iso_utc at))])"
    "a' = settled_attempt sha a evidence (mode_of s = PStr ''usd'') actual rev at"
  have usd: "usd_changed = []" "(mode_of s = PStr ''usd'') = False" using f(6) assms(2) by simp_all
  obtain held where held: "dfield r ''reserved_tokens'' = PInt held"
    using f(2) by (auto simp: match_admission_def res_simps dint_def dget_def Let_def)
  obtain total where total: "dfield evidence ''total_tokens'' = PInt total"
    using f(1) by (cases rule: validate_completion_Inr) (auto simp: receipt_def dfield_Cons)
  note tc = token_changes_Inr [OF f(5) [unfolded usd(2)]]
  note st = check_shape_state [OF f(3)] prior_charge_Some [OF f(4)]
  show ?thesis
    using tc st held f(1)
    by (auto simp: f(7,8) usd total dfield_dput settled_attempt_fields is_ok_iff exact_integer_Inr
             split: if_splits)
qed

lemma dint_iff: "dint d k = Inr n \<longleftrightarrow> has_key d k \<and> dfield d k = PInt n \<and> 0 \<le> n \<and> n \<le> MAX_TOKENS"
  by (auto simp: dint_def dget_def res_simps)

lemma settled_attempt_has:
  "k \<in> {''state'', ''actual_tokens'', ''evidence_rank''} \<Longrightarrow> has_key (settled_attempt sha a e usd amt rn at) k"
  unfolding settled_attempt_def Let_def by (simp only: has_key_dputs) auto

lemma usd_charge_amount:
  assumes "usd_completion_charge sha p e = Inr d"
  shows "\<exists>v. exact_usd_amount v = Inr d"
  using assms unfolding usd_completion_charge_def Let_def guardR_eq_Inr bindR_eq_Inr
  by (elim exE conjE) (auto simp only: bindR_eq_Inr split: option.splits)

lemma usd_charges_again:
  assumes "usd_charges sha a r identity e = Inr (actual, previous)" "a' = settled_attempt sha a e True actual rn at"
  shows "\<exists>p. usd_charges sha a' r identity e = Inr (actual, p) \<and> dec_eq p actual"
proof -
  have keep: "dfield a' ''price_snapshot'' = dfield a ''price_snapshot''"
    "dfield a' ''reserved_usd'' = dfield a ''reserved_usd''"
    using assms(2) settled_attempt_keeps by simp_all
  have st: "dget a' ''state'' = Inr (PStr ''settled'')" "dfield a' ''actual_usd'' = PStr (format_f actual)"
    by (simp_all add: assms(2) dget_def settled_attempt_fields settled_attempt_has)
  from assms(1) have u: "usd_completion_charge sha (items (dfield a ''price_snapshot'')) e = Inr actual"
    by (auto simp: usd_charges_def res_simps Let_def split: if_splits)
  from usd_charge_amount [OF u] obtain p where
    p: "exact_usd_amount (PStr (format_f actual)) = Inr p" "dec_eq p actual"
    using usd_amount_again by blast
  from assms(1) have "usd_charges sha a' r identity e = Inr (actual, p)"
    unfolding usd_charges_def keep st by (auto simp: res_simps Let_def u p(1) split: if_splits)
  with p(2) show ?thesis by blast
qed

lemma check_resolution_again:
  "check_resolution sha (settled_attempt sha a e usd amt rn at) r i u = check_resolution sha a r i u"
  unfolding check_resolution_def dget_def using settled_attempt_keeps by simp

lemma validate_completion_wf:
  assumes "validate_completion sha c = Inr e" "wf_pv (PDict c)"
  shows "wf_pv (PDict e)"
  using assms(1)
proof (cases rule: validate_completion_Inr)
  case (1 i cc w ou tot src t rej)
  have "wf_pv (PDict x)" if "rej = Some x" for x
    using 1 that wf_dfield [OF assms(2), of "''rejection''"] by simp
  then show ?thesis using 1 wf_dfield [OF assms(2), of "''source''"]
    by (cases rej) (auto simp: receipt_def receipt_ok_def)
qed

lemma prior_charge_again:
  assumes "validate_completion sha c = Inr e" "wf_pv (PDict c)" "dec_eq p actual \<or> \<not> usd"
    "has_key e ''rejection'' \<Longrightarrow>
       validate_rejection_evidence sha (opt_field a ''rejection_policy'') e (dfield i ''admitted_at'') = Inr ()"
    "a' = settled_attempt sha a e usd actual rn at"
  shows "prior_charge sha a' i e (PStr ''settled'') usd actual p = Inr None"
proof -
  obtain total where tot: "dfield e ''total_tokens'' = PInt total" "0 \<le> total" "total \<le> MAX_TOKENS"
    using assms(1) by (cases rule: validate_completion_Inr) (auto simp: receipt_def receipt_ok_def dfield_Cons)
  have d: "dint a' ''actual_tokens'' = Inr total"
    by (simp add: dint_iff assms(5) settled_attempt_fields settled_attempt_has tot)
  have rk: "dfield a' ''evidence_rank'' = PInt (if has_key e ''rejection'' then 2 else 3)"
    "has_key a' ''evidence_rank''"
    by (simp_all add: assms(5) settled_attempt_fields settled_attempt_has)
  have pol: "opt_field a' ''rejection_policy'' = opt_field a ''rejection_policy''"
    unfolding opt_field_def using assms(5) settled_attempt_keeps by simp
  note ev = settled_attempt_evidence [of sha a e usd actual rn at, folded assms(5)]
  show ?thesis
  proof (cases "has_key e ''rejection''")
    case True
    have "wf_pv (dfield e ''rejection'')" using validate_completion_wf [OF assms(1,2)] by (rule wf_dfield)
    then show ?thesis
      using True ev assms(4) evidence_counters [OF assms(1) True] tot rk
      by (simp add: prior_charge_def d prior_rejection_def rank_of_def dget_or_def as_dict_def pol py_eq_refl
            scalar_eq_def dec_eq_def dec_cmp_def coeff_at_def)
  next
    case False
    then show ?thesis
      using ev validate_completion_idem [OF assms(1)] rk tot assms(3)
      by (cases usd) (simp_all add: prior_charge_def d prior_completion_def rank_of_def dget_or_def as_dict_def
            scalar_eq_def dec_eq_def dec_cmp_def coeff_at_def list_ex_iff)
  qed
qed

lemma mapR_ok: "(\<And>k. k \<in> set ks \<Longrightarrow> \<exists>n. f k = Inr n) \<Longrightarrow> \<exists>ns. mapR f ks = Inr ns"
proof (induction ks)
  case (Cons k ks)
  obtain n where "f k = Inr n" using Cons.prems by force
  moreover obtain ns where "mapR f ks = Inr ns" using Cons.IH Cons.prems by force
  ultimately show ?case by simp
qed simp

lemma check_shape_again:
  assumes "check_shape s a = Inr st" "token_changes s e n st' prev usd = Inr ch"
    "set (map fst uch) \<subseteq> {''confirmed_usd'', ''active_reserved_usd'', ''upper_bound_usd''}"
  shows "check_shape (dputs s (ch @ uch @ [(''updated_at'', t)])) (settled_attempt sha a e usd x rn at)
     = Inr (PStr ''settled'')"
proof -
  let ?s = "dputs s (ch @ uch @ [(''updated_at'', t)])"
  have ok: "\<exists>n. dint ?s k = Inr n" if k: "k \<in> set summary_integers" for k
  proof -
    have k': "k \<noteq> ''updated_at''" "k \<notin> set (map fst uch)"
      using k assms(3) by (auto simp: summary_integers_def)
    have un: "map_of (rev uch) k = None" using k'(2) by (simp add: map_of_eq_None_iff)
    have old: "has_key s k" "\<exists>n. exact_integer (dfield s k) = Inr n"
      using k assms(1) by (auto simp: check_shape_def summary_integers_def res_simps dint_def dget_def)
    have new: "\<exists>n. exact_integer v = Inr n" if "map_of (rev ch) k = Some v" for v
    proof -
      have "(k, v) \<in> set ch" using map_of_SomeD [OF that] by simp
      then show ?thesis using assms(2)
        by (auto simp: token_changes_def res_simps Let_def split: if_splits)
    qed
    have "map_of (rev (ch @ uch @ [(''updated_at'', t)])) k = map_of (rev ch) k"
      using k'(1) by (simp add: map_add_def un)
    then have "dfield ?s k = (case map_of (rev ch) k of None \<Rightarrow> dfield s k | Some v \<Rightarrow> v)"
      by (simp only: dfield_dputs)
    moreover have "has_key ?s k" using old(1) by (simp only: has_key_dputs) blast
    ultimately show ?thesis using old(2) new by (cases "map_of (rev ch) k") (simp_all add: dint_def dget_def)
  qed
  have en: "dfield ?s k = dfield s k \<and> has_key ?s k = has_key s k" if "k \<in> {''enforce'', ''enabled''}" for k
    using that assms(3) token_changes_keys [OF assms(2)]
    by (intro conjI dfield_dputs_other has_key_dputs_other) auto
  have "has_key s k \<and> is_bool (dfield s k)" if "k \<in> {''enforce'', ''enabled''}" for k
    using assms(1) that by (auto simp: check_shape_def res_simps dget_def)
  then have b: "dget ?s k = Inr (dfield s k)" "is_bool (dfield s k)" if "k \<in> {''enforce'', ''enabled''}" for k
    using that en [OF that] by (simp_all only: dget_def guardR_def) simp_all
  obtain ns where "mapR (dint ?s) summary_integers = Inr ns" using mapR_ok [of summary_integers "dint ?s"] ok by blast
  moreover have "dget (settled_attempt sha a e usd x rn at) ''state'' = Inr (PStr ''settled'')"
    by (simp add: dget_def settled_attempt_fields settled_attempt_has)
  ultimately show ?thesis
    using b [of "''enforce''"] b [of "''enabled''"]
    by (simp add: check_shape_def ATTEMPT_STATES_def)
qed

text \<open>
  C3. A completion delivered a second time, to the pair it produced, keeps that pair: replays of
  producer evidence never charge twice, in token and USD mode, for usage and for rejections.
\<close>

theorem completion_replay:
  assumes "completion_transaction sha s a r c now = Inr (Advanced s' a')" "wf_pv (PDict c)"
  shows "completion_transaction sha s' a' r c later = Inr Kept"
  using assms(1)
proof (rule completion_advanced)
  fix e identity actual previous state prior changed usd_changed su au rn at
  let ?usd = "mode_of s = PStr ''usd''"
  assume f: "validate_completion sha c = Inr e" "identity_of r = Inr identity"
    "has_key e ''rejection'' \<Longrightarrow> validate_rejection_evidence sha (opt_field a ''rejection_policy'') e
         (dfield identity ''admitted_at'') = Inr ()"
    "match_admission s a r identity e = Inr ()"
    "mode_of s \<in> {PStr ''tokens'', PStr ''usd''}" "mode_of a = mode_of s"
    "(if ?usd then usd_charges sha a r identity e else Inr (Dec 0 0, Dec 0 0)) = Inr (actual, previous)"
    "check_shape s a = Inr state" "check_resolution sha a r identity ?usd = Inr ()"
    "token_changes s e (int_of (dfield r ''reserved_tokens'')) state prior ?usd = Inr changed"
    "(if ?usd then usd_changes s a state actual previous else Inr []) = Inr usd_changed"
    and s': "s' = dputs s (changed @ usd_changed @ [(''updated_at'', PStr (iso_utc at))])"
    and a': "a' = settled_attempt sha a e ?usd actual rn at"
  note keys = token_changes_keys [OF f(10)] usd_changed_keys [OF f(11)]
  have keep_s: "dfield s' k = dfield s k \<and> has_key s' k = has_key s k"
    if "k \<in> {''protocol_version'', ''scope'', ''epoch'', ''budget_mode''}" for k
    unfolding s' using that keys by (intro conjI dfield_dputs_other has_key_dputs_other) auto
  note keep_a = settled_attempt_keeps [where sha = sha and a = a and e = e and usd = ?usd and
      amt = actual and rn = rn and at = at, folded a']
  have mode: "mode_of s' = mode_of s" "mode_of a' = mode_of a"
    using keep_s keep_a by (simp_all add: mode_of_def dget_or_def)
  have pol: "opt_field a' ''rejection_policy'' = opt_field a ''rejection_policy''"
    unfolding opt_field_def using keep_a by simp
  have adm: "match_admission s' a' r identity e = Inr ()"
    by (subst match_admission_cong [of s' s a' a]) (use keep_s keep_a f(4) in \<open>auto simp only: insert_iff simp_thms\<close>)
  obtain p where p: "(if ?usd then usd_charges sha a' r identity e else Inr (Dec 0 0, Dec 0 0)) = Inr (actual, p)"
    "dec_eq p actual \<or> \<not> ?usd"
    using f(7) usd_charges_again [OF _ refl, of sha a r identity e actual previous] a'
    by (cases ?usd) auto
  have shape: "check_shape s' a' = Inr (PStr ''settled'')"
    unfolding s' a' by (rule check_shape_again [OF f(8) f(10) keys(2)])
  have res: "check_resolution sha a' r identity ?usd = Inr ()"
    using f(9) by (simp add: a' check_resolution_again)
  have "prior_charge sha a' identity e (PStr ''settled'') ?usd actual p = Inr None"
    by (rule prior_charge_again [OF f(1) assms(2) p(2) f(3) a'])
  then show ?thesis
    using f(1,2,3,5,6) p(1) pol adm shape res mode by (auto simp: completion_transaction_def)
qed

section \<open>The exact charge\<close>

lemma select_tier_done: "select_tier billed m sel ts = Inr x \<Longrightarrow> billed < m \<Longrightarrow> x = sel"
proof (induction ts arbitrary: m sel)
  case (Cons v rest)
  show ?case using Cons.prems
    by (auto simp: res_simps split: if_splits dest!: Cons.IH)
qed simp

definition tier_covers :: "dict \<Rightarrow> int \<Rightarrow> bool" where
  "tier_covers tier billed \<longleftrightarrow> int_of (dfield tier ''min_input_tokens'') \<le> billed
     \<and> (dfield tier ''max_input_tokens'' = PNone \<or> billed \<le> int_of (dfield tier ''max_input_tokens''))"

lemma select_tier_covers:
  "select_tier billed m sel ts = Inr x \<Longrightarrow> ts \<noteq> [] \<Longrightarrow> m \<le> billed \<Longrightarrow>
     \<exists>tier. x = Some tier \<and> PDict tier \<in> set ts \<and> tier_covers tier billed"
proof (induction ts arbitrary: m sel)
  case (Cons v rest)
  from Cons.prems(1) obtain tier where v: "v = PDict tier"
    and low: "dfield tier ''min_input_tokens'' = PInt m"
    by (auto simp: res_simps as_dict_def split: pv.splits)
  show ?case
  proof (cases "dfield tier ''max_input_tokens''")
    case PNone
    with Cons.prems v low show ?thesis
      by (auto simp: res_simps as_dict_def tier_covers_def)
  next
    case (PInt mx)
    with Cons.prems v low have r: "rest \<noteq> []"
      "select_tier billed (mx + 1) (if billed \<le> mx then Some tier else sel) rest = Inr x"
      by (auto simp: res_simps as_dict_def)
    show ?thesis
    proof (cases "billed \<le> mx")
      case True
      with r select_tier_done [OF r(2)] show ?thesis using PInt low v Cons.prems(3) by (auto simp: tier_covers_def)
    next
      case False
      have "\<exists>tier. x = Some tier \<and> PDict tier \<in> set rest \<and> tier_covers tier billed"
        by (rule Cons.IH [OF r(2) r(1)]) (use False in simp)
      then show ?thesis by auto
    qed
  qed (use Cons.prems v low in \<open>auto simp: res_simps as_dict_def\<close>)
qed simp

lemma strip_zeros_value:
  "\<exists>c' e'. strip_zeros k c e = Dec c' e' \<and> e \<le> e' \<and> c = c' * 10 ^ nat (e' - e)"
proof (induction k arbitrary: c e)
  case (Suc k)
  show ?case
  proof (cases "c mod 10 = 0")
    case True
    obtain c' e' where *: "strip_zeros k (c div 10) (e + 1) = Dec c' e'" "e + 1 \<le> e'"
      "c div 10 = c' * 10 ^ nat (e' - (e + 1))" using Suc.IH by blast
    have "c = 10 * (c div 10)" using True by auto
    moreover have "nat (e' - e) = Suc (nat (e' - (e + 1)))" using *(2) by simp
    ultimately have "c = c' * 10 ^ nat (e' - e)" using *(3) by simp
    then show ?thesis using True * by auto
  qed auto
qed simp

lemma div_pow10_exact:
  assumes "\<bar>u\<bar> < 10 ^ p"
  shows "units14 (dec_div_pow10 p u 14) = u"
proof -
  obtain c e where s: "strip_zeros 14 u (- 14) = Dec c e" "- 14 \<le> e" "u = c * 10 ^ nat (e + 14)"
    using strip_zeros_value [of 14 u "- 14"] by auto
  have "\<bar>c\<bar> * 1 \<le> \<bar>c\<bar> * 10 ^ nat (e + 14)" by (rule mult_left_mono) simp_all
  then have "\<bar>c\<bar> \<le> \<bar>u\<bar>" using s(3) by (simp add: abs_mult)
  with assms have "\<bar>c\<bar> < 10 ^ p" by simp
  then show ?thesis using s by (simp add: dec_div_pow10_def)
qed

definition rate :: "dict \<Rightarrow> string \<Rightarrow> int" where
  "rate tier k = int_of (dfield tier k)"

definition exact_charge :: "dict \<Rightarrow> dict \<Rightarrow> int" where
  "exact_charge tier e =
     rate e ''input_tokens'' * rate tier ''input_rate_units''
     + (rate e ''cached_tokens'' - rate e ''cache_write_tokens'') * rate tier ''cached_rate_units''
     + rate e ''cache_write_tokens'' * rate tier ''cache_write_rate_units''
     + rate e ''output_tokens'' * rate tier ''output_rate_units''"

lemma mult_bound: "0 \<le> a \<Longrightarrow> a \<le> M \<Longrightarrow> 0 \<le> b \<Longrightarrow> b \<le> M \<Longrightarrow> 0 \<le> a * b \<and> a * b \<le> M * (M :: int)"
  by (simp add: mult_mono)

lemma tier_amount_exact:
  assumes "tier_amount tier e = Inr u" "validate_completion sha c = Inr e"
  shows "u = exact_charge tier e \<and> 0 \<le> u \<and> u < 10 ^ 50"
proof -
  from assms(1) obtain ri rc rw ro where r:
    "dfield tier ''input_rate_units'' = PInt ri" "dfield tier ''cached_rate_units'' = PInt rc"
    "dfield tier ''cache_write_rate_units'' = PInt rw" "dfield tier ''output_rate_units'' = PInt ro"
    "0 \<le> ri" "ri \<le> MAX_TOKENS" "0 \<le> rc" "rc \<le> MAX_TOKENS" "0 \<le> rw" "rw \<le> MAX_TOKENS"
    "0 \<le> ro" "ro \<le> MAX_TOKENS" and u: "u = exact_charge tier e"
    by (auto simp: tier_amount_def res_simps Let_def exact_charge_def rate_def)
  from assms(2) obtain i cc w ou where n:
    "dfield e ''input_tokens'' = PInt i" "dfield e ''cached_tokens'' = PInt cc"
    "dfield e ''cache_write_tokens'' = PInt w" "dfield e ''output_tokens'' = PInt ou"
    "0 \<le> i" "i \<le> MAX_TOKENS" "0 \<le> cc - w" "cc - w \<le> MAX_TOKENS" "0 \<le> w" "w \<le> MAX_TOKENS"
    "0 \<le> ou" "ou \<le> MAX_TOKENS"
    by (cases rule: validate_completion_Inr) (auto simp: receipt_def receipt_ok_def dfield_Cons)
  have M: "MAX_TOKENS * MAX_TOKENS < 10 ^ 49" by (simp add: MAX_TOKENS_def)
  have e: "exact_charge tier e = i * ri + (cc - w) * rc + w * rw + ou * ro"
    by (simp add: exact_charge_def rate_def n r)
  show ?thesis
    using mult_bound [OF n(5,6) r(5,6)] mult_bound [OF n(7,8) r(7,8)] mult_bound [OF n(9,10) r(9,10)]
      mult_bound [OF n(11,12) r(11,12)] M unfolding u e by simp
qed

text \<open>
  C6. The USD charge of a validated receipt, computed in decimal arithmetic with precision 50, is
  exactly the integer sum of tokens times rate units of the one tier that covers the billed input,
  and is a NUMERIC(30,14) amount.
\<close>

theorem usd_charge_exact:
  assumes "usd_completion_charge sha p e = Inr d" "validate_completion sha c = Inr e"
  shows "\<exists>tier. PDict tier \<in> set (list_of (dfield p ''rate_schedules''))
     \<and> tier_covers tier (int_of (dfield e ''input_tokens'') + int_of (dfield e ''cached_tokens''))
     \<and> units14 d = exact_charge tier e \<and> usd_in_range d"
proof -
  let ?b = "int_of (dfield e ''input_tokens'') + int_of (dfield e ''cached_tokens'')"
  let ?ts = "list_of (dfield p ''rate_schedules'')"
  from assms(1) obtain tier u where s: "select_tier ?b 0 None ?ts = Inr (Some tier)" "1 \<le> length ?ts"
    and u: "tier_amount tier e = Inr u" and d: "exact_usd_amount (PDec (dec_div_pow10 50 u 14)) = Inr d"
    unfolding usd_completion_charge_def Let_def guardR_eq_Inr bindR_eq_Inr
    by (elim exE conjE) (auto simp only: bindR_eq_Inr split: option.splits)
  have "0 \<le> ?b" using assms(2)
    by (cases rule: validate_completion_Inr) (auto simp: receipt_def receipt_ok_def dfield_Cons)
  then have "PDict tier \<in> set ?ts \<and> tier_covers tier ?b"
    using select_tier_covers [OF s(1)] s(2) by fastforce
  moreover have "units14 d = exact_charge tier e \<and> usd_in_range d"
    using tier_amount_exact [OF u assms(2)] div_pow10_exact [of u 50] d
    by (auto simp: exact_usd_amount_def res_simps decimal_of_def)
  ultimately show ?thesis by blast
qed

end
