(* ===== verification/Completion_Examples.thy ===== *)
theory Completion_Examples
  imports Completion_Transaction
begin

text \<open>
  Concrete documents on which the theorems about rejections and completions apply: a provider error
  body, a declared rejection policy, a token reservation with its completion, and a priced USD one.
\<close>

section \<open>Documents\<close>

definition ex_sha :: digest where "ex_sha text = replicate 64 (CHR ''a'')"

definition ex_uuid :: string where "ex_uuid = ''11111111-1111-1111-1111-111111111111''"

definition ex_scope :: dict where
  "ex_scope = [(''scope_type'', PStr ''person''), (''scope_id'', PStr ''alice''),
     (''period_start'', PStr ''2026-03-01'')]"

definition ex_identity :: dict where
  "ex_identity = [(''scope'', PDict ex_scope), (''gateway_profile_id'', PStr ex_uuid),
     (''native_gateway_id'', PStr ''gw''), (''correlation_id'', PStr ''c-1''),
     (''model_id'', PStr ''m-1''), (''admitted_at'', PStr ''2026-03-15T10:00:00+00:00'')]"

definition ex_receipt :: dict where
  "ex_receipt = [(''identity'', PDict ex_identity), (''epoch'', PStr ex_uuid),
     (''reserved_tokens'', PInt 100)]"

definition ex_summary :: dict where
  "ex_summary = [(''protocol_version'', PInt 2), (''epoch'', PStr ex_uuid), (''scope'', PDict ex_scope),
     (''version'', PInt 4), (''policy_revision'', PInt 1), (''token_limit'', PInt 1000),
     (''enforce'', PBool True), (''enabled'', PBool True), (''confirmed_tokens'', PInt 40),
     (''active_reserved_tokens'', PInt 100), (''upper_bound_tokens'', PInt 0),
     (''updated_at'', PStr ''2026-03-15T10:00:00+00:00'')]"

definition ex_attempt :: dict where
  "ex_attempt = [(''identity'', PDict ex_identity), (''epoch'', PStr ex_uuid),
     (''state'', PStr ''dispatching''), (''reserved_tokens'', PInt 100),
     (''evidence_revision'', PInt 0), (''evidence_rank'', PInt 0),
     (''updated_at'', PStr ''2026-03-15T10:00:00+00:00'')]"

definition ex_completion :: dict where
  "ex_completion = [(''input_tokens'', PInt 20), (''cached_tokens'', PInt 10),
     (''cache_write_tokens'', PInt 5), (''output_tokens'', PInt 7), (''total_tokens'', PInt 37),
     (''source'', PStr ''apim''), (''observed_at'', PStr ''2026-03-15T10:00:05+00:00'')]"

text \<open>The price projection of a flat price of 1, 0.5, 1.25 and 4 USD per million tokens.\<close>

definition ex_price :: dict where
  "ex_price = zip price_fields [PInt 1, PFloat 5 (-1), PFloat 125 (-2), PInt 4]
     @ [(''context_tiers'', PList []), (''selected_tier'', PNone)]"

definition ex_projection :: dict where
  "ex_projection = [(''version'', PInt 1), (''model_id'', PStr ''m-1''),
     (''price_sha256'', PStr (ex_sha [])), (''price'', PDict ex_price),
     (''rate_schedules'', PList [PDict ([(''min_input_tokens'', PInt 0), (''max_input_tokens'', PNone)]
        @ zip rate_fields [PInt 100000000, PInt 50000000, PInt 125000000, PInt 400000000])]),
     (''updated_at'', PStr ''2026-03-01T00:00:00+00:00'')]"

definition ex_body :: pv where
  "ex_body = PDict [(''type'', PStr ''error''),
     (''error'', PDict [(''type'', PStr ''invalid_request_error''), (''code'', PNone)])]"

definition ex_rule :: dict where
  "ex_rule = [(''status_code'', PInt 400), (''error_type'', PStr ''invalid_request_error''),
     (''error_code'', PStr ''context_length'')]"

definition ex_policy :: pv where
  "ex_policy = PDict [(''version'', PInt 1), (''evidence_sha256'', PStr (ex_sha [])),
     (''verified_at'', PStr ''2026-03-01T00:00:00+00:00''), (''rules'', PList [PDict ex_rule])]"

definition ex_admitted :: pv where "ex_admitted = PStr ''2026-03-15T10:00:00+00:00''"
definition ex_observed :: pv where "ex_observed = PStr ''2026-03-15T10:00:05+00:00''"

section \<open>The theorems apply\<close>

theorem normalize_validates_witness:
  "\<exists>obs. normalize_terminal_rejection ex_sha (PStr ''responses'') (PInt 400)
       (PStr ''application/json; charset=utf-8'') ex_body = Some obs
     \<and> validate_terminal_rejection ex_sha obs = Inr obs"
proof -
  have "normalize_terminal_rejection ex_sha (PStr ''responses'') (PInt 400)
      (PStr ''application/json; charset=utf-8'') ex_body \<noteq> None" by code_simp
  then obtain obs where n: "normalize_terminal_rejection ex_sha (PStr ''responses'') (PInt 400)
      (PStr ''application/json; charset=utf-8'') ex_body = Some obs" by blast
  then show ?thesis using normalize_validates [OF n] by blast
qed

definition ex_declared :: "dict option res" where
  "ex_declared = rejection_completion ex_sha (Some ex_policy) ex_rule (PStr ''apim'') ex_observed ex_admitted"

lemma ex_declared_found: obtains c where
  "rejection_completion ex_sha (Some ex_policy) ex_rule (PStr ''apim'') ex_observed ex_admitted = Inr (Some c)"
proof -
  have "(case ex_declared of Inr (Some c) \<Rightarrow> True | _ \<Rightarrow> False)" by code_simp
  then show thesis using that by (auto simp: ex_declared_def split: sum.splits option.splits)
qed

theorem rejection_completion_declared_witness:
  "\<exists>c. rejection_completion ex_sha (Some ex_policy) ex_rule (PStr ''apim'') ex_observed ex_admitted = Inr (Some c)
     \<and> dfield c ''total_tokens'' = PInt 0"
proof -
  obtain c where c: "rejection_completion ex_sha (Some ex_policy) ex_rule (PStr ''apim'') ex_observed ex_admitted
      = Inr (Some c)" by (rule ex_declared_found)
  then show ?thesis using rejection_completion_declared [OF c] by (auto simp: COUNTERS_def)
qed

theorem rejection_completion_self_consistent_witness:
  "\<exists>c. rejection_completion ex_sha (Some ex_policy) ex_rule (PStr ''apim'') ex_observed ex_admitted = Inr (Some c)
     \<and> validate_rejection_evidence ex_sha (Some ex_policy) c ex_admitted = Inr ()"
proof -
  obtain c where c: "rejection_completion ex_sha (Some ex_policy) ex_rule (PStr ''apim'') ex_observed ex_admitted
      = Inr (Some c)" by (rule ex_declared_found)
  have "wf_pv (PDict ex_rule)" by code_simp
  then show ?thesis using c rejection_completion_self_consistent [OF c] by blast
qed

definition advanced :: "('s, 'a) outcome res \<Rightarrow> bool" where
  "advanced r = (case r of Inr (Advanced s a) \<Rightarrow> True | _ \<Rightarrow> False)"

lemma advancedE:
  assumes "advanced r" obtains s a where "r = Inr (Advanced s a)"
  using assms by (auto simp: advanced_def split: sum.splits outcome.splits)

lemma ex_advanced: "advanced (completion_transaction ex_sha ex_summary ex_attempt ex_receipt ex_completion 0)"
  by code_simp

theorem completion_accounting_witness:
  "\<exists>s' a'. completion_transaction ex_sha ex_summary ex_attempt ex_receipt ex_completion 0 = Inr (Advanced s' a')
     \<and> dfield s' ''confirmed_tokens'' = PInt 77 \<and> dfield s' ''active_reserved_tokens'' = PInt 0
     \<and> dfield a' ''actual_tokens'' = PInt 37"
proof -
  obtain s' a' where t: "completion_transaction ex_sha ex_summary ex_attempt ex_receipt ex_completion 0
      = Inr (Advanced s' a')" using ex_advanced by (rule advancedE)
  have m: "mode_of ex_summary = PStr ''tokens''" by code_simp
  have f: "dfield ex_summary ''confirmed_tokens'' = PInt 40"
    "dfield ex_summary ''active_reserved_tokens'' = PInt 100" "dfield ex_attempt ''state'' = PStr ''dispatching''"
    "dfield ex_receipt ''reserved_tokens'' = PInt 100" "PStr ''dispatching'' \<in> HOLDING_STATES"
    "(case validate_completion ex_sha ex_completion of Inr e \<Rightarrow> dfield e ''total_tokens'' | _ \<Rightarrow> PNone) = PInt 37"
    by code_simp+
  show ?thesis using completion_accounting [OF t m] t f by auto
qed

theorem completion_replay_witness:
  "\<exists>s' a'. completion_transaction ex_sha ex_summary ex_attempt ex_receipt ex_completion 0 = Inr (Advanced s' a')
     \<and> completion_transaction ex_sha s' a' ex_receipt ex_completion 99 = Inr Kept"
proof -
  obtain s' a' where t: "completion_transaction ex_sha ex_summary ex_attempt ex_receipt ex_completion 0
      = Inr (Advanced s' a')" using ex_advanced by (rule advancedE)
  have "wf_pv (PDict ex_completion)" by code_simp
  with t show ?thesis using completion_replay [OF t] by blast
qed

theorem usd_charge_exact_witness:
  "\<exists>d e. usd_completion_charge ex_sha ex_projection e = Inr d \<and> validate_completion ex_sha ex_completion = Inr e
     \<and> usd_in_range d \<and> (\<exists>tier. units14 d = exact_charge tier e)"
proof -
  have "is_ok (bindR (validate_completion ex_sha ex_completion) (usd_completion_charge ex_sha ex_projection))"
    by code_simp
  then obtain d e where h: "usd_completion_charge ex_sha ex_projection e = Inr d"
      "validate_completion ex_sha ex_completion = Inr e"
    by (auto simp: is_ok_def bindR_def split: sum.splits)
  show ?thesis using usd_charge_exact [OF h] h by blast
qed

end
