(* ===== verification/Ledger_Evidence.thy ===== *)
theory Ledger_Evidence
  imports Decimal_Text
begin

text \<open>
  \<open>turnstile_core/domain/ledger.py\<close>, the evidence that finalises gateway reservations: finalization and
  admission records, the strict cut-over test, the canonical token count of a usage record and the
  validation of application ledger snapshots. A pydantic class is a record of its fields together
  with the predicate its construction enforces; text fields have at least one character where the
  class says so.
\<close>

section \<open>Scopes\<close>

datatype scope_kind = Person | Application

fun scope_kind_text :: "scope_kind \<Rightarrow> string" where
  "scope_kind_text Person = ''person''"
| "scope_kind_text Application = ''application''"

definition text_between :: "nat \<Rightarrow> nat \<Rightarrow> string \<Rightarrow> bool" where
  "text_between lo hi s \<longleftrightarrow> lo \<le> length s \<and> length s \<le> hi"

definition checked :: "bool \<Rightarrow> string \<Rightarrow> 'a \<Rightarrow> 'a res" where
  "checked ok name x = guardR (\<not> ok) (ValidationError name) (Inr x)"

lemma checked_eq_Inr [res_simps]: "checked ok name x = Inr y \<longleftrightarrow> ok \<and> y = x"
  by (auto simp: checked_def res_simps)

section \<open>Finalization of a reservation\<close>

datatype finalization_kind = Exact_usage | Terminal_zero | Unverified_upper_bound
datatype finalization_source = Apim_llm_log | Apim_gateway_log | Reservation_timeout

record finalization =
  fin_scope_type :: scope_kind
  fin_scope_id :: string
  fin_period_start :: date
  fin_correlation_id :: string
  fin_created_at :: instant
  fin_reservation_tokens :: int
  fin_evidence_at :: instant
  fin_status_code :: "int option"
  fin_input_tokens :: "int option"
  fin_output_tokens :: "int option"
  fin_total_tokens :: int
  fin_kind :: finalization_kind
  fin_source :: finalization_source

definition opt_all :: "('a \<Rightarrow> bool) \<Rightarrow> 'a option \<Rightarrow> bool" where
  "opt_all p x = (case x of None \<Rightarrow> True | Some v \<Rightarrow> p v)"

definition finalization_fields :: "finalization \<Rightarrow> bool" where
  "finalization_fields f \<longleftrightarrow>
     text_between 1 255 (fin_scope_id f) \<and> text_between 1 255 (fin_correlation_id f)
     \<and> 0 \<le> fin_reservation_tokens f \<and> opt_all (\<lambda>c. 0 \<le> c \<and> c \<le> 599) (fin_status_code f)
     \<and> opt_all (\<lambda>n. 0 \<le> n) (fin_input_tokens f) \<and> opt_all (\<lambda>n. 0 \<le> n) (fin_output_tokens f)
     \<and> 0 \<le> fin_total_tokens f"

definition validate_finalization :: "finalization \<Rightarrow> bool" where
  "validate_finalization f \<longleftrightarrow>
     \<not> is_blank (fin_scope_id f) \<and> \<not> is_blank (fin_correlation_id f)
     \<and> d_day (fin_period_start f) = 1 \<and> fin_created_at f \<le> fin_evidence_at f
     \<and> (case fin_kind f of
          Exact_usage \<Rightarrow>
            (case (fin_input_tokens f, fin_output_tokens f) of
               (Some i, Some ou) \<Rightarrow> i + ou = fin_total_tokens f
             | _ \<Rightarrow> False)
            \<and> fin_source f = Apim_llm_log
        | Terminal_zero \<Rightarrow>
            fin_input_tokens f = Some 0 \<and> fin_output_tokens f = Some 0 \<and> fin_total_tokens f = 0
            \<and> (case fin_status_code f of None \<Rightarrow> False | Some c \<Rightarrow> 400 \<le> c)
            \<and> fin_source f = Apim_gateway_log
        | Unverified_upper_bound \<Rightarrow>
            fin_input_tokens f = None \<and> fin_output_tokens f = None
            \<and> fin_total_tokens f = fin_reservation_tokens f
            \<and> fin_status_code f = None \<and> fin_source f = Reservation_timeout)"

definition make_finalization :: "finalization \<Rightarrow> finalization res" where
  "make_finalization f =
     checked (finalization_fields f \<and> validate_finalization f) ''BudgetReservationFinalization'' f"

record reservation_admission =
  adm_scope_type :: scope_kind
  adm_scope_id :: string
  adm_correlation_id :: string
  adm_created_at :: instant
  adm_reserved_tokens :: int

definition make_admission :: "reservation_admission \<Rightarrow> reservation_admission res" where
  "make_admission a =
     checked (text_between 1 255 (adm_scope_id a) \<and> text_between 1 255 (adm_correlation_id a)
       \<and> 0 \<le> adm_reserved_tokens a
       \<and> \<not> is_blank (adm_scope_id a) \<and> \<not> is_blank (adm_correlation_id a))
       ''BudgetReservationAdmission'' a"

text \<open>The charge of a finalization never exceeds what was reserved unless it is exact usage.\<close>

lemma finalization_bound:
  assumes "make_finalization f = Inr g" "fin_kind g \<noteq> Exact_usage"
  shows "0 \<le> fin_total_tokens g \<and> fin_total_tokens g \<le> fin_reservation_tokens g"
  using assms
  by (cases "fin_kind g")
     (auto simp: make_finalization_def res_simps finalization_fields_def validate_finalization_def)

section \<open>Strict evidence and canonical tokens\<close>

text \<open>\<open>now\<close> is the clock reading \<open>datetime.now(UTC)\<close>.\<close>

definition strict_budget_evidence :: "instant \<Rightarrow> pydt \<Rightarrow> pydt option \<Rightarrow> bool res" where
  "strict_budget_evidence now admitted_at effective_at =
     (case effective_at of
        None \<Rightarrow> Inr False
      | Some e \<Rightarrow>
          (case (admitted_at, e) of
             (Aware a, Aware t) \<Rightarrow> Inr (t \<le> now \<and> t \<le> a)
           | _ \<Rightarrow> Inl (ValueError ''Budget evidence timestamps must include a timezone'')))"

record usage_record =
  ur_correlation_id :: string
  ur_ts :: pydt
  ur_domain :: string
  ur_input :: int
  ur_cached :: int
  ur_cache_write :: int
  ur_output :: int
  ur_estimated :: bool
  ur_ingest_error :: "string option"

definition canonical_budget_tokens :: "bool \<Rightarrow> usage_record \<Rightarrow> int option" where
  "canonical_budget_tokens reconciled r =
     (if ur_domain r \<noteq> ''apim'' \<or> is_blank (ur_correlation_id r)
         \<or> (case ur_ts r of Naive _ \<Rightarrow> True | Aware _ \<Rightarrow> False)
         \<or> list_ex (\<lambda>v. v < 0) [ur_input r, ur_cached r, ur_cache_write r, ur_output r]
         \<or> ur_cached r < ur_cache_write r
      then None
      else if \<not> ur_estimated r \<and> ur_ingest_error r = None
      then Some (ur_input r + ur_cached r + ur_output r)
      else if reconciled \<and> ur_ingest_error r = Some ''stream_cache_usage_unavailable''
      then Some (ur_input r + ur_output r)
      else None)"

section \<open>Application ledger snapshots\<close>

datatype budget_mode = Tokens | Usd

fun mode_text :: "budget_mode \<Rightarrow> string" where
  "mode_text Tokens = ''tokens''"
| "mode_text Usd = ''usd''"

text \<open>Amounts of USD are counted in units of \<open>10 ^ -14\<close>, the scale of \<open>NUMERIC(30,14)\<close>.\<close>

record application_state =
  aps_period_start :: date
  aps_application_id :: uuid
  aps_mode :: budget_mode
  aps_token_limit :: "int option"
  aps_usd_limit :: "int option"
  aps_confirmed_tokens :: int
  aps_pending_tokens :: int
  aps_pending_count :: int
  aps_finalized_tokens :: int
  aps_finalized_count :: int
  aps_stale_count :: int
  aps_oldest_at :: "instant option"
  aps_available_tokens :: "int option"
  aps_confirmed_usd :: int
  aps_pending_usd :: int
  aps_upper_usd :: int
  aps_snapshot_at :: pydt

definition aps_available_usd :: "application_state \<Rightarrow> int option" where
  "aps_available_usd s =
     (case (aps_mode s, aps_usd_limit s) of
        (Usd, Some l) \<Rightarrow> Some (l - aps_confirmed_usd s - aps_pending_usd s - aps_upper_usd s)
      | _ \<Rightarrow> None)"

definition usd_unit :: int where "usd_unit = 10 ^ 14"

text \<open>\<open>max_digits=30, decimal_places=14\<close> with \<open>ge=0\<close>, on an amount in units.\<close>

definition usd_amount :: "int \<Rightarrow> bool" where
  "usd_amount u \<longleftrightarrow> 0 \<le> u \<and> u < 10 ^ 30"

definition validate_pending_state :: "application_state \<Rightarrow> bool" where
  "validate_pending_state s \<longleftrightarrow>
     aps_stale_count s \<le> aps_pending_count s
     \<and> (aps_pending_count s = 0 \<longleftrightarrow> aps_oldest_at s = None)
     \<and> (case aps_mode s of
          Tokens \<Rightarrow>
            (case aps_token_limit s of
               None \<Rightarrow> False
             | Some l \<Rightarrow>
                 aps_usd_limit s = None
                 \<and> aps_confirmed_usd s = 0 \<and> aps_pending_usd s = 0 \<and> aps_upper_usd s = 0
                 \<and> aps_available_tokens s
                     = Some (max (l - aps_confirmed_tokens s - aps_pending_tokens s
                                  - aps_finalized_tokens s) 0))
        | Usd \<Rightarrow> aps_token_limit s = None \<and> aps_usd_limit s \<noteq> None
                 \<and> aps_available_tokens s \<in> {None, Some 0})"

definition make_application_state :: "application_state \<Rightarrow> application_state res" where
  "make_application_state s =
     checked (opt_all (\<lambda>l. 0 < l) (aps_token_limit s)
       \<and> opt_all (\<lambda>l. 0 < l \<and> l < 10 ^ 16 * usd_unit \<and> l mod 10 ^ 12 = 0) (aps_usd_limit s)
       \<and> list_all (\<lambda>n. 0 \<le> n) [aps_confirmed_tokens s, aps_pending_tokens s, aps_pending_count s,
            aps_finalized_tokens s, aps_finalized_count s, aps_stale_count s]
       \<and> opt_all (\<lambda>n. 0 \<le> n) (aps_available_tokens s)
       \<and> list_all usd_amount [aps_confirmed_usd s, aps_pending_usd s, aps_upper_usd s]
       \<and> validate_pending_state s) ''GatewayApplicationLedgerState'' s"

definition snapshot_key :: "application_state \<Rightarrow> date \<times> uuid" where
  "snapshot_key s = (aps_period_start s, aps_application_id s)"

record sidecar =
  sc_period_start :: date
  sc_application_id :: uuid
  sc_snapshot_at :: pydt
  sc_tokens :: pv
  sc_count :: pv

definition sidecar_counts :: "sidecar \<Rightarrow> bool" where
  "sidecar_counts c = list_all (\<lambda>v. is_int v \<and> 0 \<le> int_of v) [sc_tokens c, sc_count c]"

definition balance_matches :: "application_state \<Rightarrow> bool" where
  "balance_matches s =
     (case aps_mode s of
        Tokens \<Rightarrow>
          (case aps_token_limit s of
             None \<Rightarrow> False
           | Some l \<Rightarrow>
               aps_available_tokens s
                 = Some (max (l - aps_confirmed_tokens s - aps_pending_tokens s) 0))
      | Usd \<Rightarrow> (case aps_available_usd s of None \<Rightarrow> False | Some a \<Rightarrow> 0 \<le> a))"

fun check_sidecars ::
  "application_state list \<Rightarrow> (date \<times> uuid) list \<Rightarrow> sidecar list \<Rightarrow> unit res" where
  "check_sidecars states seen [] = Inr ()"
| "check_sidecars states seen (c # cs) =
     (let key = (sc_period_start c, sc_application_id c) in
      case find (\<lambda>s. snapshot_key s = key) states of
        None \<Rightarrow> Inl (ValueError ''Application ledger snapshot timestamps and identities must match'')
      | Some s \<Rightarrow>
          guardR (key \<in> set seen \<or> sc_snapshot_at c \<noteq> aps_snapshot_at s)
            (ValueError ''Application ledger snapshot timestamps and identities must match'')
         (guardR ((case aps_snapshot_at s of Naive _ \<Rightarrow> True | Aware _ \<Rightarrow> False)
              \<or> d_day (aps_period_start s) \<noteq> 1)
            (ValueError ''Application ledger snapshot requires a UTC month and aware timestamp'')
         (guardR (\<not> sidecar_counts c)
            (ValueError ''Application ledger upper bounds must be nonnegative integers'')
         (guardR (\<not> balance_matches s)
            (ValueError ''Application ledger snapshot balance does not match its components'')
            (check_sidecars states (key # seen) cs)))))"

definition validate_application_snapshot :: "application_state list \<Rightarrow> sidecar list \<Rightarrow> unit res" where
  "validate_application_snapshot states sidecars =
     guardR (\<not> distinct (map snapshot_key states) \<or> length sidecars \<noteq> length states)
       (ValueError ''Application ledger snapshots must be complete unique pairs'')
       (check_sidecars states [] sidecars)"

lemma check_sidecars_Inr:
  assumes "check_sidecars states seen cs = Inr ()" "distinct (map snapshot_key states)"
  shows "distinct (map (\<lambda>c. (sc_period_start c, sc_application_id c)) cs)
    \<and> (\<forall>c \<in> set cs. (sc_period_start c, sc_application_id c) \<notin> set seen
         \<and> (\<exists>s \<in> set states. snapshot_key s = (sc_period_start c, sc_application_id c)
              \<and> sc_snapshot_at c = aps_snapshot_at s \<and> balance_matches s))"
  using assms(1)
proof (induction cs arbitrary: seen)
  case (Cons c cs)
  let ?key = "\<lambda>c. (sc_period_start c, sc_application_id c)"
  from Cons.prems obtain s where s: "find (\<lambda>s. snapshot_key s = ?key c) states = Some s"
    and rest: "check_sidecars states (?key c # seen) cs = Inr ()"
    and ok: "?key c \<notin> set seen" "sc_snapshot_at c = aps_snapshot_at s" "balance_matches s"
    by (auto simp: res_simps Let_def split: option.splits)
  note IH = Cons.IH [OF rest]
  have "\<forall>d \<in> set cs. ?key d \<noteq> ?key c" using IH by simp
  then have "?key c \<notin> set (map ?key cs)" by (metis (no_types, lifting) imageE list.set_map)
  moreover have "s \<in> set states \<and> snapshot_key s = ?key c" using find_Some_iff_mem [OF s] by simp
  ultimately show ?case using IH ok by (simp del: prod.inject) blast
qed simp

text \<open>
  An accepted snapshot pairs states and sidecars one to one, and every balance in it is right.
\<close>

theorem snapshot_pairs:
  assumes "validate_application_snapshot states sidecars = Inr ()"
  shows "set (map snapshot_key states)
      = set (map (\<lambda>c. (sc_period_start c, sc_application_id c)) sidecars)
    \<and> length states = length sidecars \<and> (\<forall>s \<in> set states. balance_matches s)"
proof -
  let ?key = "\<lambda>c. (sc_period_start c, sc_application_id c)"
  from assms have d: "distinct (map snapshot_key states)" "length sidecars = length states"
    and c: "check_sidecars states [] sidecars = Inr ()"
    by (auto simp: validate_application_snapshot_def res_simps)
  note p = check_sidecars_Inr [OF c d(1)]
  have sub: "set (map ?key sidecars) \<subseteq> set (map snapshot_key states)" using p by force
  have "card (set (map ?key sidecars)) = card (set (map snapshot_key states))"
    using p d by (simp only: distinct_card length_map)
  then have eq: "set (map ?key sidecars) = set (map snapshot_key states)"
    using card_subset_eq [OF _ sub] by simp
  have "balance_matches s" if "s \<in> set states" for s
  proof -
    have "snapshot_key s \<in> set (map ?key sidecars)" using that eq by simp
    then obtain c where c: "c \<in> set sidecars" "?key c = snapshot_key s" by auto
    with p obtain s' where "s' \<in> set states" "snapshot_key s' = snapshot_key s" "balance_matches s'"
      by metis
    with that d(1) show ?thesis by (metis distinct_map inj_onD)
  qed
  with eq d(2) show ?thesis by simp
qed

end
