(* ===== verification/Model_Price.thy ===== *)
theory Model_Price
  imports Decimal_Text
begin

text \<open>
  \<open>turnstile_core/domain/models.py\<close>, the registry price of a model (\<open>ModelPriceTier\<close>, \<open>ModelPrice\<close>): context
  tiers that partition the input lengths, the tier of a request, and the exact cost in decimals.
  A float is the coefficient and exponent of its shortest representation, which is what \<open>str\<close>
  and JSON print; infinities and NaN are not represented.
\<close>

section \<open>Floats\<close>

type_synonym pyfloat = "int \<times> int"

definition norm_float :: "int \<Rightarrow> int \<Rightarrow> pyfloat" where
  "norm_float c e =
     (if c = 0 then (0, 0)
      else case strip_zeros (num_digits c) c e of Dec c' e' \<Rightarrow> (c', e') | _ \<Rightarrow> (c, e))"

definition float_dec :: "pyfloat \<Rightarrow> decimal" where
  "float_dec f = Dec (fst f) (snd f)"

definition canonical_float :: "pyfloat \<Rightarrow> bool" where
  "canonical_float f \<longleftrightarrow> norm_float (fst f) (snd f) = f"

section \<open>Tiers and prices\<close>

record price_tier =
  tier_key :: string
  tier_min :: int
  tier_max :: "int option"
  tier_input :: pyfloat
  tier_cached :: pyfloat
  tier_cache_write :: pyfloat
  tier_output :: pyfloat
  tier_source :: "pv option"

record model_price =
  price_input :: pyfloat
  price_cached :: pyfloat
  price_cache_write :: pyfloat
  price_output :: pyfloat
  context_tiers :: "price_tier list"
  selected_tier :: "string option"

definition valid_tier :: "price_tier \<Rightarrow> bool" where
  "valid_tier t \<longleftrightarrow> tier_key t \<noteq> [] \<and> 0 \<le> tier_min t \<and> tier_source t \<noteq> Some PNone
     \<and> (case tier_max t of None \<Rightarrow> True | Some m \<Rightarrow> 0 \<le> m)
     \<and> list_all (\<lambda>f. 0 \<le> fst f \<and> canonical_float f)
         [tier_input t, tier_cached t, tier_cache_write t, tier_output t]"

text \<open>The loop of \<open>require_complete_context_ranges\<close>, then its check of the last tier.\<close>

fun complete_ranges :: "int \<Rightarrow> string list \<Rightarrow> price_tier list \<Rightarrow> bool" where
  "complete_ranges minimum keys [] = True"
| "complete_ranges minimum keys (t # rest) =
     (if tier_key t \<in> set keys \<or> tier_min t \<noteq> minimum then False
      else case tier_max t of
        None \<Rightarrow> rest = [] \<and> complete_ranges minimum (tier_key t # keys) rest
      | Some m \<Rightarrow>
          if m < tier_min t then False else complete_ranges (m + 1) (tier_key t # keys) rest)"

definition require_complete_context_ranges :: "price_tier list \<Rightarrow> bool" where
  "require_complete_context_ranges ts \<longleftrightarrow>
     ts = [] \<or> (complete_ranges 0 [] ts \<and> tier_max (last ts) = None)"

definition valid_price :: "model_price \<Rightarrow> bool" where
  "valid_price p \<longleftrightarrow>
     list_all (\<lambda>f. 0 \<le> fst f \<and> canonical_float f)
       [price_input p, price_cached p, price_cache_write p, price_output p]
     \<and> length (context_tiers p) \<le> 32 \<and> list_all valid_tier (context_tiers p)
     \<and> require_complete_context_ranges (context_tiers p)"

definition flat_price :: "pyfloat \<Rightarrow> pyfloat \<Rightarrow> pyfloat \<Rightarrow> pyfloat \<Rightarrow> string option \<Rightarrow> model_price" where
  "flat_price i c w out sel =
     \<lparr>price_input = i, price_cached = c, price_cache_write = w, price_output = out,
      context_tiers = [], selected_tier = sel\<rparr>"

definition for_input_tokens :: "model_price \<Rightarrow> int \<Rightarrow> model_price res" where
  "for_input_tokens p n =
     guardR (n < 0) (ValueError ''Measured total input tokens must be a nonnegative integer'')
     (if context_tiers p = [] then Inr p
      else case find (\<lambda>t. tier_min t \<le> n
                  \<and> (case tier_max t of None \<Rightarrow> True | Some m \<Rightarrow> n \<le> m)) (context_tiers p) of
        Some t \<Rightarrow> Inr (flat_price (tier_input t) (tier_cached t) (tier_cache_write t) (tier_output t)
                    (Some (tier_key t)))
      | None \<Rightarrow> Inl (ValueError ''No context price tier covers the request''))"

text \<open>\<open>Decimal / Decimal(10 ** k)\<close>: the ideal exponent is that of the dividend.\<close>

fun dec_div10 :: "nat \<Rightarrow> decimal \<Rightarrow> nat \<Rightarrow> decimal" where
  "dec_div10 p (Dec c e) k = ctx_round p (strip_zeros k c (e - int k))"
| "dec_div10 p d k = d"

definition cost_decimal :: "model_price \<Rightarrow> int \<Rightarrow> int \<Rightarrow> int \<Rightarrow> int \<Rightarrow> decimal res" where
  "cost_decimal p input_tokens cached_tokens output_tokens cache_write_tokens =
     bindR (for_input_tokens p (input_tokens + cached_tokens)) (\<lambda>q.
       let cache_reads = max (cached_tokens - cache_write_tokens) 0;
           part = \<lambda>n f. dec_mul 50 (Dec n 0) (float_dec f)
       in Inr (dec_div10 50
            (dec_add 50 (dec_add 50 (dec_add 50
               (part input_tokens (price_input q)) (part cache_reads (price_cached q)))
               (part cache_write_tokens (price_cache_write q)))
               (part output_tokens (price_output q))) 6))"

section \<open>Prices from registry values\<close>

definition as_float :: "pv \<Rightarrow> pyfloat res" where
  "as_float v =
     (case v of
        PInt n \<Rightarrow> Inr (norm_float n 0) | PFloat c e \<Rightarrow> Inr (norm_float c e)
      | PBool b \<Rightarrow> Inr (norm_float (of_bool b) 0)
      | _ \<Rightarrow> Inl (ValidationError ''float''))"

definition make_price :: "model_price \<Rightarrow> model_price res" where
  "make_price p = guardR (\<not> valid_price p) (ValidationError ''ModelPrice'') (Inr p)"

definition opt_int :: "pv \<Rightarrow> int option res" where
  "opt_int v = (case v of PNone \<Rightarrow> Inr None | PInt n \<Rightarrow> Inr (Some n) | _ \<Rightarrow> Inl (ValidationError ''int''))"

definition str_of :: "pv \<Rightarrow> string res" where
  "str_of v = (case v of PStr s \<Rightarrow> Inr s | _ \<Rightarrow> Inl (ValidationError ''str''))"

definition int_field :: "pv \<Rightarrow> int res" where
  "int_field v = (case v of PInt n \<Rightarrow> Inr n | _ \<Rightarrow> Inl (ValidationError ''int''))"

definition tier_fields :: "string list" where
  "tier_fields = [''key'', ''min_input_tokens'', ''max_input_tokens'', ''input_price_per_million'',
     ''cached_price_per_million'', ''cache_write_price_per_million'', ''output_price_per_million'',
     ''input_range_source'']"

text \<open>\<open>ModelPriceTier.model_validate\<close> of a dictionary; no other key is accepted.\<close>

definition tier_of_dict :: "pv \<Rightarrow> price_tier res" where
  "tier_of_dict v =
     (case v of
        PDict d \<Rightarrow>
          guardR (\<not> list_all (\<lambda>(k, _). k \<in> set tier_fields) d) (ValidationError ''ModelPriceTier'')
         (bindR (str_of (dfield d ''key'')) (\<lambda>key.
          bindR (int_field (dfield d ''min_input_tokens'')) (\<lambda>mn.
          bindR (opt_int (dfield d ''max_input_tokens'')) (\<lambda>mx.
          bindR (as_float (dfield d ''input_price_per_million'')) (\<lambda>i.
          bindR (as_float (dfield d ''cached_price_per_million'')) (\<lambda>c.
          bindR (as_float (dfield d ''cache_write_price_per_million'')) (\<lambda>w.
          bindR (as_float (dfield d ''output_price_per_million'')) (\<lambda>out.
          let t = \<lparr>tier_key = key, tier_min = mn, tier_max = mx, tier_input = i, tier_cached = c,
                   tier_cache_write = w, tier_output = out,
                   tier_source = (case dfield d ''input_range_source'' of
                                    PNone \<Rightarrow> None | s \<Rightarrow> Some s)\<rparr>
          in guardR (\<not> valid_tier t) (ValidationError ''ModelPriceTier'') (Inr t)))))))))
      | _ \<Rightarrow> Inl (ValidationError ''ModelPriceTier''))"

definition from_registry :: "dict \<Rightarrow> model_price option res" where
  "from_registry values =
     (case dfield values ''context_price_tiers'' of
        PList (t # ts) \<Rightarrow>
          bindR (mapR (\<lambda>v. tier_of_dict (PDict (filter (\<lambda>(k, _). k \<in> set tier_fields)
                   (case v of PDict d \<Rightarrow> d | _ \<Rightarrow> [])))) (t # ts)) (\<lambda>tiers.
          bindR (make_price (flat_price (0, 0) (0, 0) (0, 0) (0, 0) None \<lparr>context_tiers := tiers\<rparr>))
            (\<lambda>p. Inr (Some p)))
      | _ \<Rightarrow>
          (let input = dfield values ''input_cost_per_million'';
               out = dfield values ''output_cost_per_million'';
               cached = (case dfield values ''cached_cost_per_million'' of PNone \<Rightarrow> input | v \<Rightarrow> v);
               writes = (case dfield values ''cache_write_cost_per_million'' of PNone \<Rightarrow> cached | v \<Rightarrow> v)
           in if input = PNone \<or> out = PNone then Inr None
              else bindR (as_float input) (\<lambda>i. bindR (as_float cached) (\<lambda>c.
                   bindR (as_float writes) (\<lambda>w. bindR (as_float out) (\<lambda>ou.
                   bindR (make_price (flat_price i c w ou None)) (\<lambda>p. Inr (Some p))))))))"

section \<open>JSON form\<close>

definition json_float :: "pyfloat \<Rightarrow> pv" where
  "json_float f = PFloat (fst f) (snd f)"

definition json_opt :: "('a \<Rightarrow> pv) \<Rightarrow> 'a option \<Rightarrow> pv" where
  "json_opt f x = (case x of None \<Rightarrow> PNone | Some v \<Rightarrow> f v)"

definition tier_json :: "price_tier \<Rightarrow> pv" where
  "tier_json t = PDict ([(''key'', PStr (tier_key t)), (''min_input_tokens'', PInt (tier_min t)),
     (''max_input_tokens'', json_opt PInt (tier_max t)),
     (''input_price_per_million'', json_float (tier_input t)),
     (''cached_price_per_million'', json_float (tier_cached t)),
     (''cache_write_price_per_million'', json_float (tier_cache_write t)),
     (''output_price_per_million'', json_float (tier_output t))]
     @ (case tier_source t of None \<Rightarrow> [] | Some s \<Rightarrow> [(''input_range_source'', s)]))"

definition price_json :: "model_price \<Rightarrow> pv" where
  "price_json p = PDict [(''input_price_per_million'', json_float (price_input p)),
     (''cached_price_per_million'', json_float (price_cached p)),
     (''cache_write_price_per_million'', json_float (price_cache_write p)),
     (''output_price_per_million'', json_float (price_output p)),
     (''context_tiers'', PList (map tier_json (context_tiers p))),
     (''selected_tier'', json_opt PStr (selected_tier p))]"

definition price_keys :: "string list" where
  "price_keys = [''input_price_per_million'', ''cached_price_per_million'',
     ''cache_write_price_per_million'', ''output_price_per_million'', ''context_tiers'',
     ''selected_tier'']"

text \<open>\<open>ModelPrice.model_validate\<close> of a JSON object.\<close>

definition price_of_json :: "pv \<Rightarrow> model_price res" where
  "price_of_json v =
     (case v of
        PDict d \<Rightarrow>
          guardR (\<not> list_all (\<lambda>(k, _). k \<in> set price_keys) d) (ValidationError ''ModelPrice'')
         (bindR (as_float (dfield d ''input_price_per_million'')) (\<lambda>i.
          bindR (as_float (dfield d ''cached_price_per_million'')) (\<lambda>c.
          bindR (as_float (dfield d ''cache_write_price_per_million'')) (\<lambda>w.
          bindR (as_float (dfield d ''output_price_per_million'')) (\<lambda>out.
          bindR (if \<not> has_key d ''context_tiers'' then Inr []
                 else case dfield d ''context_tiers'' of
                        PList ts \<Rightarrow> mapR tier_of_dict ts | _ \<Rightarrow> Inl (ValidationError ''ModelPrice''))
            (\<lambda>tiers.
          bindR (case dfield d ''selected_tier'' of PNone \<Rightarrow> Inr None | PStr s \<Rightarrow> Inr (Some s)
                 | _ \<Rightarrow> Inl (ValidationError ''ModelPrice'')) (\<lambda>sel.
          make_price \<lparr>price_input = i, price_cached = c, price_cache_write = w, price_output = out,
            context_tiers = tiers, selected_tier = sel\<rparr>)))))))
      | _ \<Rightarrow> Inl (ValidationError ''ModelPrice''))"

section \<open>Tiers partition the input lengths\<close>

definition in_tier :: "price_tier \<Rightarrow> int \<Rightarrow> bool" where
  "in_tier t n \<longleftrightarrow> tier_min t \<le> n \<and> (case tier_max t of None \<Rightarrow> True | Some m \<Rightarrow> n \<le> m)"

lemma complete_ranges_Cons:
  assumes "complete_ranges m keys (a # ts)"
  shows "tier_min a = m"
    "tier_max a = None \<Longrightarrow> ts = []"
    "tier_max a = Some x \<Longrightarrow> m \<le> x \<and> complete_ranges (x + 1) (tier_key a # keys) ts"
proof -
  from assms show min: "tier_min a = m" by (simp split: if_split_asm)
  from assms show "ts = []" if "tier_max a = None" using that by (simp split: if_split_asm)
  from assms show "m \<le> x \<and> complete_ranges (x + 1) (tier_key a # keys) ts" if "tier_max a = Some x"
    using that min by (simp split: if_split_asm)
qed

lemma complete_ranges_low:
  "complete_ranges m keys ts \<Longrightarrow> t \<in> set ts \<Longrightarrow> m \<le> tier_min t"
proof (induction ts arbitrary: m keys)
  case (Cons a ts)
  show ?case
  proof (cases "t = a")
    case True
    then show ?thesis using complete_ranges_Cons(1) [OF Cons.prems(1)] by simp
  next
    case False
    then have t: "t \<in> set ts" using Cons.prems(2) by simp
    then obtain x where "tier_max a = Some x"
      using complete_ranges_Cons(2) [OF Cons.prems(1)] by (cases "tier_max a") force+
    from complete_ranges_Cons(3) [OF Cons.prems(1) this] Cons.IH [OF _ t] show ?thesis by force
  qed
qed simp

lemma complete_ranges_unique:
  "complete_ranges m keys ts \<Longrightarrow> ts \<noteq> [] \<Longrightarrow> tier_max (last ts) = None \<Longrightarrow> m \<le> n \<Longrightarrow>
     \<exists>t \<in> set ts. in_tier t n \<and> (\<forall>u \<in> set ts. in_tier u n \<longrightarrow> u = t)"
proof (induction ts arbitrary: m keys)
  case (Cons a ts)
  note c = complete_ranges_Cons [OF Cons.prems(1)]
  show ?case
  proof (cases "tier_max a")
    case None
    then show ?thesis using c(1,2) Cons.prems(4) by (simp add: in_tier_def)
  next
    case (Some x)
    note rest = c(3) [OF Some]
    have ne: "ts \<noteq> []"
    proof
      assume "ts = []"
      with Cons.prems(3) Some show False by simp
    qed
    then have lst: "tier_max (last ts) = None" using Cons.prems(3) by (simp only: last.simps if_False)
    show ?thesis
    proof (cases "n \<le> x")
      case True
      have "\<not> in_tier t n" if "t \<in> set ts" for t
        using complete_ranges_low [OF conjunct2 [OF rest] that] True by (simp add: in_tier_def)
      moreover have "in_tier a n" using True Some c(1) Cons.prems(4) by (simp add: in_tier_def)
      ultimately show ?thesis by simp
    next
      case False
      have "\<exists>t \<in> set ts. in_tier t n \<and> (\<forall>u \<in> set ts. in_tier u n \<longrightarrow> u = t)"
        by (rule Cons.IH [OF conjunct2 [OF rest] ne lst]) (use False in simp)
      then obtain t where "t \<in> set ts" "in_tier t n" "\<forall>u \<in> set ts. in_tier u n \<longrightarrow> u = t" by blast
      moreover have "\<not> in_tier a n" using Some False by (simp add: in_tier_def)
      ultimately show ?thesis by fastforce
    qed
  qed
qed simp

lemma for_input_tokens_tier:
  assumes "valid_price p" "context_tiers p \<noteq> []" "0 \<le> n"
  obtains t where "t \<in> set (context_tiers p)" "in_tier t n"
    "\<And>u. u \<in> set (context_tiers p) \<Longrightarrow> in_tier u n \<Longrightarrow> u = t"
    "for_input_tokens p n = Inr (flat_price (tier_input t) (tier_cached t) (tier_cache_write t)
        (tier_output t) (Some (tier_key t)))"
proof -
  let ?ts = "context_tiers p"
  have "complete_ranges 0 [] ?ts" "tier_max (last ?ts) = None"
    using assms(1,2) by (simp_all add: valid_price_def require_complete_context_ranges_def)
  from complete_ranges_unique [OF this(1) assms(2) this(2) assms(3)]
  obtain t where t: "t \<in> set ?ts" "in_tier t n" "\<And>u. u \<in> set ?ts \<Longrightarrow> in_tier u n \<Longrightarrow> u = t"
    by blast
  have "find (\<lambda>t. in_tier t n) ?ts = Some t"
  proof (cases "find (\<lambda>t. in_tier t n) ?ts")
    case None
    then show ?thesis using t(1,2) by (simp add: find_None_all)
  next
    case (Some u)
    then show ?thesis using t(3) find_Some_iff_mem [OF Some] by simp
  qed
  then have "for_input_tokens p n = Inr (flat_price (tier_input t) (tier_cached t) (tier_cache_write t)
        (tier_output t) (Some (tier_key t)))"
    using assms by (simp add: for_input_tokens_def in_tier_def)
  with t that show ?thesis by blast
qed

end
