(* ===== verification/Ledger_Types.thy ===== *)
theory Ledger_Types
  imports Ledger_Evidence Model_Price Completion_Transaction
begin

text \<open>
  \<open>turnstile_core/domain/ledger.py\<close>, the classes of the budget ledger: scopes, price projections,
  attempt identities, summaries, attempts, charges, admission receipts, resolutions, settlement
  tasks, dispatches, recovery cursors, policies and seeds. Each class is a record of its fields and
  a \<open>make_\<close> function that returns the record when the class's field constraints and validators
  accept it, and the exception otherwise. Evidence stays JSON, as in the code.
\<close>

section \<open>Validators\<close>

text \<open>
  pydantic turns a \<open>ValueError\<close> of a validator into its \<open>ValidationError\<close>; every other exception
  goes through.
\<close>

definition in_validator :: "string \<Rightarrow> 'a res \<Rightarrow> 'a res" where
  "in_validator name m =
     (case m of Inl e \<Rightarrow> Inl (if is_ValueError e then ValidationError name else e) | Inr x \<Rightarrow> Inr x)"

lemma in_validator_eq_Inr [res_simps]: "in_validator name m = Inr x \<longleftrightarrow> m = Inr x"
  by (auto simp: in_validator_def split: sum.splits)

definition int64 :: "int \<Rightarrow> bool" where
  "int64 n \<longleftrightarrow> 0 \<le> n \<and> n \<le> MAX_TOKENS"

text \<open>
  An arithmetic operation on amounts in the default decimal context (28 digits), on units: the
  result is rounded to 28 significant digits.
\<close>

definition usd28 :: "int \<Rightarrow> int" where
  "usd28 u = units14 (ctx_round 28 (Dec u (- 14)))"

lemma usd28_exact: "\<bar>u\<bar> < 10 ^ 28 \<Longrightarrow> usd28 u = u"
  by (simp add: usd28_def)

section \<open>Scopes\<close>

record scope =
  scope_type :: scope_kind
  scope_id :: string
  period_start :: date

definition valid_scope :: "scope \<Rightarrow> bool" where
  "valid_scope s \<longleftrightarrow>
     text_between 1 255 (scope_id s) \<and> \<not> is_blank (scope_id s) \<and> d_day (period_start s) = 1
     \<and> valid_date (period_start s)
     \<and> (scope_type s = Application \<longrightarrow> uuid_canon (scope_id s) \<noteq> None)"

definition make_scope :: "scope \<Rightarrow> scope res" where
  "make_scope s = checked (valid_scope s) ''LedgerScope'' s"

definition month_text :: "date \<Rightarrow> string" where
  "month_text d = pad_dec 4 (d_year d) @ ''-'' @ pad_dec 2 (d_month d)"

definition partition_key :: "digest \<Rightarrow> scope \<Rightarrow> string" where
  "partition_key sha s =
     ''budget2|'' @ scope_kind_text (scope_type s) @ ''|'' @ sha (scope_id s) @ ''|''
     @ month_text (period_start s)"

section \<open>Price projections\<close>

record projection =
  pj_model_id :: uuid
  pj_price_sha256 :: string
  pj_price :: "model_price option"
  pj_schedules :: "dict list"
  pj_updated_at :: instant

definition rate_units :: "pyfloat \<Rightarrow> int res" where
  "rate_units f =
     (case integral_value (dec_mul 28 (float_dec f) (Dec 100000000 0)) of
        Some n \<Rightarrow> guardR (n < 0) (ValueError ''Budget price must have at most eight decimal places'') (Inr n)
      | None \<Rightarrow> Inl (ValueError ''Budget price must have at most eight decimal places''))"

definition tier_schedule ::
  "int \<times> int option \<times> pyfloat \<times> pyfloat \<times> pyfloat \<times> pyfloat \<Rightarrow> dict res" where
  "tier_schedule = (\<lambda>(minimum, maximum, i, c, w, out).
     bindR (rate_units i) (\<lambda>ri. bindR (rate_units c) (\<lambda>rc. bindR (rate_units w) (\<lambda>rw.
     bindR (rate_units out) (\<lambda>ro.
       Inr [(''min_input_tokens'', PInt minimum), (''max_input_tokens'', json_opt PInt maximum),
            (''input_rate_units'', PInt ri), (''cached_rate_units'', PInt rc),
            (''cache_write_rate_units'', PInt rw), (''output_rate_units'', PInt ro)])))))"

definition schedules_of :: "model_price option \<Rightarrow> dict list res" where
  "schedules_of price =
     (case price of
        None \<Rightarrow> Inr []
      | Some p \<Rightarrow>
          mapR tier_schedule
            (if context_tiers p \<noteq> []
             then map (\<lambda>t. (tier_min t, tier_max t, tier_input t, tier_cached t, tier_cache_write t,
                            tier_output t)) (context_tiers p)
             else [(0, None, price_input p, price_cached p, price_cache_write p, price_output p)]))"

definition projection_digest :: "digest \<Rightarrow> model_price option \<Rightarrow> dict list \<Rightarrow> string" where
  "projection_digest sha price schedules =
     sha (json_render True '','' '':''
            (PDict [(''price'', json_opt price_json price),
                    (''rate_schedules'', PList (map PDict schedules))]))"

definition verify_price_digest :: "digest \<Rightarrow> projection \<Rightarrow> unit res" where
  "verify_price_digest sha p =
     bindR (schedules_of (pj_price p)) (\<lambda>schedules.
       guardR (pj_schedules p \<noteq> schedules
           \<or> pj_price_sha256 p \<noteq> projection_digest sha (pj_price p) schedules)
         (ValueError ''Projected price digest does not match its price snapshot'') (Inr ()))"

definition make_projection :: "digest \<Rightarrow> projection \<Rightarrow> projection res" where
  "make_projection sha p =
     guardR (\<not> is_sha256_hex (pj_price_sha256 p) \<or> uuid_canon (pj_model_id p) \<noteq> Some (pj_model_id p)
         \<or> \<not> in_range (pj_updated_at p)
         \<or> (case pj_price p of None \<Rightarrow> False | Some q \<Rightarrow> \<not> valid_price q))
       (ValidationError ''BudgetPriceProjection'')
       (in_validator ''BudgetPriceProjection''
          (bindR (verify_price_digest sha p) (\<lambda>_. Inr p)))"

definition create_projection ::
  "digest \<Rightarrow> uuid \<Rightarrow> model_price option \<Rightarrow> instant \<Rightarrow> projection res" where
  "create_projection sha model_id price updated_at =
     bindR (schedules_of price) (\<lambda>schedules.
       make_projection sha \<lparr>pj_model_id = model_id,
         pj_price_sha256 = projection_digest sha price schedules, pj_price = price,
         pj_schedules = schedules, pj_updated_at = updated_at\<rparr>)"

section \<open>Attempt identities\<close>

record identity =
  id_scope :: scope
  gateway_profile_id :: uuid
  native_gateway_id :: string
  correlation_id :: string
  model_id :: string
  admitted_at :: instant

definition valid_identity :: "identity \<Rightarrow> bool" where
  "valid_identity i \<longleftrightarrow>
     valid_scope (id_scope i) \<and> text_between 1 80 (native_gateway_id i)
     \<and> text_between 1 255 (correlation_id i) \<and> text_between 1 255 (model_id i)
     \<and> in_range (admitted_at i) \<and> period_start (id_scope i) = utc_month (admitted_at i)
     \<and> \<not> is_blank (native_gateway_id i) \<and> \<not> is_blank (correlation_id i) \<and> \<not> is_blank (model_id i)
     \<and> uuid_canon (gateway_profile_id i) = Some (gateway_profile_id i)"

definition make_identity :: "identity \<Rightarrow> identity res" where
  "make_identity i = checked (valid_identity i) ''LedgerAttemptIdentity'' i"

text \<open>\<open>ensure_ascii=False\<close>: only quotes, backslashes and control characters are escaped.\<close>

definition json_text_raw :: "string \<Rightarrow> string" where
  "json_text_raw s =
     [char_of (34::nat)] @ concat (map (\<lambda>c. if of_char c < (127::nat) then json_char c else [c]) s)
     @ [char_of (34::nat)]"

definition attempt_key :: "digest \<Rightarrow> identity \<Rightarrow> string" where
  "attempt_key sha i =
     sha (''['' @ join_with '','' (map json_text_raw
            [gateway_profile_id i, native_gateway_id i, correlation_id i]) @ '']'')"

definition attempt_row_key :: "digest \<Rightarrow> identity \<Rightarrow> string" where
  "attempt_row_key sha i = ''A|'' @ attempt_key sha i"

section \<open>Summaries\<close>

record summary =
  sm_epoch :: uuid
  sm_scope :: scope
  version :: int
  policy_revision :: int
  token_limit :: int
  sm_mode :: budget_mode
  usd_limit :: "int option"
  enforce :: bool
  enabled :: bool
  require_verified_bound :: bool
  confirmed_tokens :: int
  active_reserved_tokens :: int
  upper_bound_tokens :: int
  confirmed_usd :: int
  active_reserved_usd :: int
  upper_bound_usd :: int
  sm_updated_at :: instant

definition summary_mode_ok :: "summary \<Rightarrow> bool" where
  "summary_mode_ok s \<longleftrightarrow>
     (case sm_mode s of
        Tokens \<Rightarrow> usd_limit s = None
                  \<and> confirmed_usd s = 0 \<and> active_reserved_usd s = 0 \<and> upper_bound_usd s = 0
      | Usd \<Rightarrow> usd_limit s \<noteq> None)"

definition valid_summary :: "summary \<Rightarrow> bool" where
  "valid_summary s \<longleftrightarrow>
     valid_scope (sm_scope s) \<and> uuid_canon (sm_epoch s) = Some (sm_epoch s)
     \<and> 0 \<le> version s \<and> 0 \<le> policy_revision s \<and> int64 (token_limit s)
     \<and> opt_all usd_amount (usd_limit s)
     \<and> int64 (confirmed_tokens s) \<and> int64 (active_reserved_tokens s) \<and> int64 (upper_bound_tokens s)
     \<and> usd_amount (confirmed_usd s) \<and> usd_amount (active_reserved_usd s) \<and> usd_amount (upper_bound_usd s)
     \<and> in_range (sm_updated_at s) \<and> summary_mode_ok s"

definition make_summary :: "summary \<Rightarrow> summary res" where
  "make_summary s = checked (valid_summary s) ''LedgerSummary'' s"

definition available_tokens :: "summary \<Rightarrow> int" where
  "available_tokens s =
     token_limit s - confirmed_tokens s - active_reserved_tokens s - upper_bound_tokens s"

definition available_usd :: "summary \<Rightarrow> int option" where
  "available_usd s =
     (case (sm_mode s, usd_limit s) of
        (Usd, Some l) \<Rightarrow>
          Some (usd28 (usd28 (usd28 (l - confirmed_usd s) - active_reserved_usd s) - upper_bound_usd s))
      | _ \<Rightarrow> None)"

section \<open>Admission receipts\<close>

record admission_receipt =
  rc_identity :: identity
  rc_epoch :: uuid
  rc_tokens :: int
  rc_mode :: budget_mode
  rc_usd :: "int option"
  rc_price :: "projection option"

definition make_receipt :: "admission_receipt \<Rightarrow> admission_receipt res" where
  "make_receipt r =
     guardR (\<not> valid_identity (rc_identity r) \<or> uuid_canon (rc_epoch r) \<noteq> Some (rc_epoch r)
         \<or> \<not> (1 \<le> rc_tokens r \<and> rc_tokens r \<le> MAX_TOKENS) \<or> \<not> opt_all usd_amount (rc_usd r))
       (ValidationError ''LedgerAdmissionReceipt'')
     (checked
        (case rc_mode r of
           Usd \<Rightarrow>
             rc_usd r \<noteq> None
             \<and> (case rc_price r of
                  None \<Rightarrow> False
                | Some p \<Rightarrow> uuid_canon (model_id (rc_identity r)) = Some (pj_model_id p))
         | Tokens \<Rightarrow> rc_usd r = None \<and> rc_price r = None)
        ''LedgerAdmissionReceipt'' r)"

end
