(* ===== verification/Ledger_Json.thy ===== *)
theory Ledger_Json
  imports Ledger_Types
begin

text \<open>
  The JSON forms of the ledger classes (\<open>model_dump(mode="json")\<close>) and their reading
  (\<open>model_validate\<close>) for scopes, price projections, identities and admission receipts. A moment is
  written with \<open>isoformat\<close> in UTC and an amount in units with fourteen places: every reader
  normalises both, so only the value matters.
\<close>

section \<open>Field readers\<close>

definition read_error :: "string \<Rightarrow> 'a res" where
  "read_error name = Inl (ValidationError name)"

definition field_error :: "string \<Rightarrow> 'a res \<Rightarrow> 'a res" where
  "field_error name m = (case m of Inl _ \<Rightarrow> Inl (ValidationError name) | Inr x \<Rightarrow> Inr x)"

lemma field_error_eq_Inr [res_simps]: "field_error name m = Inr x \<longleftrightarrow> m = Inr x"
  by (auto simp: field_error_def split: sum.splits)

definition only_keys :: "string list \<Rightarrow> dict \<Rightarrow> bool" where
  "only_keys ks d = list_all (\<lambda>(k, _). k \<in> set ks) d"

definition mode_of_json :: "pv \<Rightarrow> budget_mode res" where
  "mode_of_json v =
     (if v = PStr ''tokens'' then Inr Tokens else if v = PStr ''usd'' then Inr Usd
      else read_error ''budget_mode'')"

definition usd_of_json :: "pv \<Rightarrow> int option res" where
  "usd_of_json v =
     (if v = PNone then Inr None
      else case (case v of PFloat c e \<Rightarrow> Some (Dec c e) | _ \<Rightarrow> decimal_of v) of
        None \<Rightarrow> read_error ''decimal''
      | Some d \<Rightarrow> guardR (\<not> usd_in_range d) (ValidationError ''decimal'') (Inr (Some (units14 d))))"

definition usd_json :: "int \<Rightarrow> pv" where
  "usd_json u = PStr (format_f (Dec u (- 14)))"

definition time_json :: "instant \<Rightarrow> pv" where
  "time_json t = PStr (iso_utc t)"

definition int_between :: "int \<Rightarrow> int \<Rightarrow> pv \<Rightarrow> int res" where
  "int_between lo hi v =
     (case v of PInt n \<Rightarrow> guardR (n < lo \<or> hi < n) (ValidationError ''int'') (Inr n)
      | _ \<Rightarrow> read_error ''int'')"

lemma usd_json_again: "usd_amount u \<Longrightarrow> usd_of_json (usd_json u) = Inr (Some u)"
proof -
  assume u: "usd_amount u"
  then have "usd_in_range (Dec u (- 14))"
    by (auto simp: usd_in_range_def dec_le_def dec_lt_def dec_cmp_def coeff_at_def usd_amount_def)
  moreover have "dec_of_text (format_f (Dec u (- 14))) = Some (Dec u (- 14))"
    using u format_f_parse [of u "- 14"] by (simp add: usd_amount_def del: format_f.simps)
  ultimately show ?thesis
    by (simp add: usd_of_json_def usd_json_def decimal_of_def del: format_f.simps)
qed

section \<open>Scopes and identities\<close>

definition scope_json :: "scope \<Rightarrow> pv" where
  "scope_json s = PDict [(''scope_type'', PStr (scope_kind_text (scope_type s))),
     (''scope_id'', PStr (scope_id s)), (''period_start'', PStr (iso_date (period_start s)))]"

definition scope_of_json :: "pv \<Rightarrow> scope res" where
  "scope_of_json v =
     (case v of
        PDict d \<Rightarrow>
          guardR (\<not> keys_are d [''scope_type'', ''scope_id'', ''period_start''])
            (ValidationError ''LedgerScope'')
         (bindR (if dfield d ''scope_type'' = PStr ''person'' then Inr Person
                 else if dfield d ''scope_type'' = PStr ''application'' then Inr Application
                 else read_error ''LedgerScope'') (\<lambda>kind.
          bindR (str_of (dfield d ''scope_id'')) (\<lambda>sid.
          bindR (field_error ''LedgerScope'' (date_of_text (dfield d ''period_start''))) (\<lambda>month.
          make_scope \<lparr>scope_type = kind, scope_id = sid, period_start = month\<rparr>))))
      | _ \<Rightarrow> read_error ''LedgerScope'')"

definition identity_json :: "identity \<Rightarrow> pv" where
  "identity_json i = PDict [(''scope'', scope_json (id_scope i)),
     (''gateway_profile_id'', PStr (gateway_profile_id i)),
     (''native_gateway_id'', PStr (native_gateway_id i)),
     (''correlation_id'', PStr (correlation_id i)), (''model_id'', PStr (model_id i)),
     (''admitted_at'', time_json (admitted_at i))]"

definition identity_of_json :: "pv \<Rightarrow> identity res" where
  "identity_of_json v =
     (case v of
        PDict d \<Rightarrow>
          guardR (\<not> keys_are d identity_keys) (ValidationError ''LedgerAttemptIdentity'')
         (bindR (scope_of_json (dfield d ''scope'')) (\<lambda>scp.
          bindR (field_error ''LedgerAttemptIdentity'' (uuid_of (dfield d ''gateway_profile_id''))) (\<lambda>gw.
          bindR (str_of (dfield d ''native_gateway_id'')) (\<lambda>ng.
          bindR (str_of (dfield d ''correlation_id'')) (\<lambda>corr.
          bindR (str_of (dfield d ''model_id'')) (\<lambda>mid.
          bindR (field_error ''LedgerAttemptIdentity'' (utc_time (dfield d ''admitted_at''))) (\<lambda>t.
          make_identity \<lparr>id_scope = scp, gateway_profile_id = gw, native_gateway_id = ng,
            correlation_id = corr, model_id = mid, admitted_at = t\<rparr>)))))))
      | _ \<Rightarrow> read_error ''LedgerAttemptIdentity'')"

section \<open>Price projections\<close>

definition projection_json :: "projection \<Rightarrow> pv" where
  "projection_json p = PDict [(''version'', PInt 1), (''model_id'', PStr (pj_model_id p)),
     (''price_sha256'', PStr (pj_price_sha256 p)), (''price'', json_opt price_json (pj_price p)),
     (''rate_schedules'', PList (map PDict (pj_schedules p))),
     (''updated_at'', time_json (pj_updated_at p))]"

text \<open>The lax reading of an \<open>int\<close>: booleans, integral floats and digit texts are accepted.\<close>

definition lax_int :: "pv \<Rightarrow> int res" where
  "lax_int v =
     (let n = (case v of
          PInt n \<Rightarrow> Some n | PBool b \<Rightarrow> Some (of_bool b) | PFloat c e \<Rightarrow> integral_value (Dec c e)
        | PStr s \<Rightarrow> if s = [] then None
                    else if hd s = CHR ''-'' then map_option uminus (parse_dec 0 (tl s))
                    else parse_dec 0 s
        | _ \<Rightarrow> None)
      in case n of None \<Rightarrow> read_error ''int'' | Some i \<Rightarrow> Inr i)"

definition schedule_of_json :: "pv \<Rightarrow> dict res" where
  "schedule_of_json v =
     (case v of
        PDict d \<Rightarrow> mapR (\<lambda>(k, x). if x = PNone then Inr (k, PNone)
                               else bindR (lax_int x) (\<lambda>n. Inr (k, PInt n))) d
      | _ \<Rightarrow> read_error ''dict'')"

definition projection_of_json :: "digest \<Rightarrow> pv \<Rightarrow> projection res" where
  "projection_of_json sha v =
     (case v of
        PDict d \<Rightarrow>
          guardR (\<not> only_keys [''version'', ''model_id'', ''price_sha256'', ''price'', ''rate_schedules'',
                      ''updated_at''] d \<or> \<not> has_key d ''price''
              \<or> (has_key d ''version'' \<and> \<not> py_eq (dfield d ''version'') (PInt 1)))
            (ValidationError ''BudgetPriceProjection'')
         (bindR (field_error ''BudgetPriceProjection'' (uuid_of (dfield d ''model_id''))) (\<lambda>mid.
          bindR (str_of (dfield d ''price_sha256'')) (\<lambda>hash.
          bindR (if dfield d ''price'' = PNone then Inr None
                 else bindR (price_of_json (dfield d ''price'')) (\<lambda>q. Inr (Some q))) (\<lambda>price.
          bindR (if \<not> has_key d ''rate_schedules'' then Inr []
                 else case dfield d ''rate_schedules'' of
                        PList xs \<Rightarrow> mapR schedule_of_json xs
                      | _ \<Rightarrow> read_error ''BudgetPriceProjection'') (\<lambda>schedules.
          bindR (field_error ''BudgetPriceProjection'' (utc_time (dfield d ''updated_at''))) (\<lambda>t.
          make_projection sha \<lparr>pj_model_id = mid, pj_price_sha256 = hash, pj_price = price,
            pj_schedules = schedules, pj_updated_at = t\<rparr>))))))
      | _ \<Rightarrow> read_error ''BudgetPriceProjection'')"

section \<open>Admission receipts\<close>

definition opt_entry :: "string \<Rightarrow> ('a \<Rightarrow> pv) \<Rightarrow> 'a option \<Rightarrow> dict" where
  "opt_entry k f x = (case x of None \<Rightarrow> [] | Some v \<Rightarrow> [(k, f v)])"

definition mode_entry :: "budget_mode \<Rightarrow> dict" where
  "mode_entry m = (case m of Tokens \<Rightarrow> [] | Usd \<Rightarrow> [(''budget_mode'', PStr ''usd'')])"

definition receipt_json :: "admission_receipt \<Rightarrow> dict" where
  "receipt_json r =
     [(''identity'', identity_json (rc_identity r)), (''epoch'', PStr (rc_epoch r)),
      (''reserved_tokens'', PInt (rc_tokens r))]
     @ mode_entry (rc_mode r) @ opt_entry ''reserved_usd'' usd_json (rc_usd r)
     @ opt_entry ''price_snapshot'' projection_json (rc_price r)"

definition mode_field :: "dict \<Rightarrow> budget_mode res" where
  "mode_field d =
     (if has_key d ''budget_mode'' then mode_of_json (dfield d ''budget_mode'') else Inr Tokens)"

definition price_field :: "digest \<Rightarrow> dict \<Rightarrow> projection option res" where
  "price_field sha d =
     (if dfield d ''price_snapshot'' = PNone then Inr None
      else bindR (projection_of_json sha (dfield d ''price_snapshot'')) (\<lambda>p. Inr (Some p)))"

definition receipt_of_json :: "digest \<Rightarrow> pv \<Rightarrow> admission_receipt res" where
  "receipt_of_json sha v =
     (case v of
        PDict d \<Rightarrow>
          guardR (\<not> only_keys [''identity'', ''epoch'', ''reserved_tokens'', ''budget_mode'',
                      ''reserved_usd'', ''price_snapshot''] d)
            (ValidationError ''LedgerAdmissionReceipt'')
         (bindR (identity_of_json (dfield d ''identity'')) (\<lambda>i.
          bindR (field_error ''LedgerAdmissionReceipt'' (uuid_of (dfield d ''epoch''))) (\<lambda>ep.
          bindR (int_between 1 MAX_TOKENS (dfield d ''reserved_tokens'')) (\<lambda>n.
          bindR (mode_field d) (\<lambda>m.
          bindR (usd_of_json (dfield d ''reserved_usd'')) (\<lambda>u.
          bindR (price_field sha d) (\<lambda>p.
          make_receipt \<lparr>rc_identity = i, rc_epoch = ep, rc_tokens = n, rc_mode = m, rc_usd = u,
            rc_price = p\<rparr>)))))))
      | _ \<Rightarrow> read_error ''LedgerAdmissionReceipt'')"

section \<open>Reading what was written\<close>

lemma scope_kind_text_ne: "scope_kind_text k = scope_kind_text k' \<longleftrightarrow> k = k'"
  by (cases k; cases k') auto

lemma parse_iso_date_print: "valid_date d \<Longrightarrow> parse_iso_date (iso_date d) = Some d"
  using split_iso_date_print [of "d_year d" "d_month d" "d_day d" "[]"]
  by (simp add: parse_iso_date_def del: iso_date.simps split_iso_date.simps)

lemma scope_again: "valid_scope s \<Longrightarrow> scope_of_json (scope_json s) = Inr s"
  by (cases "scope_type s")
     (auto simp: scope_of_json_def scope_json_def keys_are_def has_key_def dfield_Cons str_of_def
        date_of_text_def field_error_def make_scope_def checked_def parse_iso_date_print valid_scope_def
        simp del: iso_date.simps)

lemma time_again: "in_range t \<Longrightarrow> utc_time (time_json t) = Inr t"
  by (simp add: time_json_def)

lemma uuid_again: "uuid_canon u = Some u \<Longrightarrow> uuid_of (PStr u) = Inr u"
  by (simp add: uuid_of_def)

lemma identity_again: "valid_identity i \<Longrightarrow> identity_of_json (identity_json i) = Inr i"
  by (simp add: identity_of_json_def identity_json_def keys_are_def identity_keys_def has_key_def
      dfield_Cons str_of_def field_error_def make_identity_def checked_def scope_again time_again uuid_again
      valid_identity_def)

lemma mapR_map: "(\<And>x. x \<in> set xs \<Longrightarrow> f (g x) = Inr x) \<Longrightarrow> mapR f (map g xs) = Inr xs"
  by (induction xs) auto

lemma dfield_Nil [simp]: "dfield [] k = PNone"
  by (simp add: dfield_def)

lemma tier_again:
  assumes "valid_tier t" "tier_source t \<noteq> Some PNone" shows "tier_of_dict (tier_json t) = Inr t"
proof -
  have m: "opt_int (json_opt PInt (tier_max t)) = Inr (tier_max t)"
    by (cases "tier_max t") (simp_all add: opt_int_def json_opt_def)
  have s: "(case dfield (case tier_source t of None \<Rightarrow> [] | Some s \<Rightarrow> [(''input_range_source'', s)])
      ''input_range_source'' of PNone \<Rightarrow> None | v \<Rightarrow> Some v) = tier_source t"
    using assms(2) by (cases "tier_source t") (auto simp: dfield_Cons split: pv.splits)
  have k: "list_all (\<lambda>(k, _). k \<in> set tier_fields)
      (case tier_source t of None \<Rightarrow> [] | Some s \<Rightarrow> [(''input_range_source'', s)])"
    by (cases "tier_source t") (simp_all add: tier_fields_def)
  have f: "as_float (json_float f) = Inr f" if "canonical_float f" for f
    using that by (simp add: as_float_def json_float_def canonical_float_def)
  show ?thesis
    using assms(1) k
    by (simp add: tier_of_dict_def tier_json_def dfield_Cons str_of_def int_field_def m s f valid_tier_def)
       (simp add: tier_fields_def)
qed

lemma price_again:
  assumes "valid_price p" shows "price_of_json (price_json p) = Inr p"
proof -
  have "mapR tier_of_dict (map tier_json (context_tiers p)) = Inr (context_tiers p)"
    using assms by (intro mapR_map tier_again) (auto simp: valid_price_def valid_tier_def list_all_iff)
  then show ?thesis using assms
    by (cases "selected_tier p")
       (simp_all add: price_of_json_def price_json_def price_keys_def dfield_Cons as_float_def json_float_def
        valid_price_def canonical_float_def json_opt_def make_price_def has_key_def)
qed

lemma mapR_mem: "mapR f zs = Inr ds \<Longrightarrow> d \<in> set ds \<Longrightarrow> \<exists>z \<in> set zs. f z = Inr d"
proof (induction zs arbitrary: ds)
  case (Cons z zs)
  from Cons.prems(1) obtain y ys where y: "f z = Inr y" "mapR f zs = Inr ys" "ds = y # ys"
    by (auto simp: res_simps)
  then show ?case using Cons.IH [OF y(2)] Cons.prems(2) by auto
qed simp

lemma schedules_shape:
  assumes "schedules_of price = Inr ds" "d \<in> set ds" "(k, x) \<in> set d"
  shows "x = PNone \<or> (\<exists>n. x = PInt n)"
proof -
  obtain zs where "mapR tier_schedule zs = Inr ds"
    using assms(1,2) by (cases price) (auto simp: schedules_of_def simp del: mapR.simps)
  then obtain z where "tier_schedule z = Inr d" using assms(2) mapR_mem by metis
  then show ?thesis using assms(3)
    by (auto simp: tier_schedule_def res_simps json_opt_def split: prod.splits option.splits)
qed

lemma schedule_again:
  "(\<And>k x. (k, x) \<in> set d \<Longrightarrow> x = PNone \<or> (\<exists>n. x = PInt n)) \<Longrightarrow> schedule_of_json (PDict d) = Inr d"
proof (induction d)
  case (Cons z d)
  obtain k x where z: "z = (k, x)" by force
  have "schedule_of_json (PDict d) = Inr d" using Cons by (metis list.set_intros(2))
  then show ?case using Cons.prems [of k x] z by (auto simp: schedule_of_json_def lax_int_def)
qed (simp add: schedule_of_json_def)

definition sound_projection :: "digest \<Rightarrow> projection \<Rightarrow> bool" where
  "sound_projection sha p \<longleftrightarrow> make_projection sha p = Inr p"

lemma projection_again:
  assumes "sound_projection sha p" shows "projection_of_json sha (projection_json p) = Inr p"
proof -
  from assms obtain ds where ds: "schedules_of (pj_price p) = Inr ds" "pj_schedules p = ds"
    and v: "uuid_canon (pj_model_id p) = Some (pj_model_id p)" "in_range (pj_updated_at p)"
      "case pj_price p of None \<Rightarrow> True | Some q \<Rightarrow> valid_price q"
    by (auto simp: sound_projection_def make_projection_def verify_price_digest_def res_simps split: option.splits)
  have "mapR schedule_of_json (map PDict (pj_schedules p)) = Inr (pj_schedules p)"
    unfolding ds(2) by (intro mapR_map schedule_again) (use schedules_shape [OF ds(1)] in blast)
  moreover have "price_json q \<noteq> PNone" for q by (simp add: price_json_def)
  ultimately show ?thesis
    using assms v
    by (cases "pj_price p"; cases p)
       (simp_all add: json_opt_def price_again
          projection_of_json_def projection_json_def only_keys_def has_key_def dfield_Cons
          scalar_eq_def dec_eq_def dec_cmp_def uuid_again field_error_def str_of_def ds(2) time_again
          sound_projection_def)
qed

definition sound_receipt :: "digest \<Rightarrow> admission_receipt \<Rightarrow> bool" where
  "sound_receipt sha r \<longleftrightarrow>
     make_receipt r = Inr r \<and> opt_all (sound_projection sha) (rc_price r)"

theorem receipt_round_trip:
  assumes "sound_receipt sha r" shows "receipt_of_json sha (PDict (receipt_json r)) = Inr r"
proof -
  from assms have v: "valid_identity (rc_identity r)" "uuid_canon (rc_epoch r) = Some (rc_epoch r)"
    "1 \<le> rc_tokens r" "rc_tokens r \<le> MAX_TOKENS" "opt_all usd_amount (rc_usd r)"
    by (auto simp: sound_receipt_def make_receipt_def res_simps)
  have m: "make_receipt r = Inr r" using assms by (simp add: sound_receipt_def)
  show ?thesis
  proof (cases "rc_mode r")
    case Tokens
    then have "rc_usd r = None" "rc_price r = None" using m by (auto simp: make_receipt_def res_simps)
    then show ?thesis using v m Tokens
      by (cases r) (simp add: receipt_of_json_def receipt_json_def only_keys_def dfield_Cons identity_again
          uuid_again field_error_def int_between_def mode_field_def mode_entry_def opt_entry_def
          has_key_def usd_of_json_def price_field_def)
  next
    case Usd
    then obtain u p where up: "rc_usd r = Some u" "rc_price r = Some p"
      using m by (auto simp: make_receipt_def res_simps split: option.splits)
    then have p: "sound_projection sha p" using assms by (simp add: sound_receipt_def opt_all_def)
    have u: "usd_of_json (usd_json u) = Inr (Some u)" using v(5) up by (simp add: opt_all_def usd_json_again)
    have "projection_json p \<noteq> PNone" by (simp add: projection_json_def)
    then show ?thesis using v m Usd up u projection_again [OF p]
      by (cases r) (simp add: receipt_of_json_def receipt_json_def only_keys_def dfield_Cons identity_again
          uuid_again field_error_def int_between_def mode_field_def mode_entry_def opt_entry_def
          has_key_def price_field_def mode_of_json_def)
  qed
qed

end
