(* ===== verification/Ledger_Attempt.thy ===== *)
theory Ledger_Attempt
  imports Ledger_Json
begin

text \<open>
  \<open>turnstile_core/domain/ledger.py\<close>: attempts, charges, approved resolutions, settlement tasks,
  dispatches, recovery cursors, policy updates and scope seeds, with the validators of their
  classes.
\<close>

section \<open>Attempts\<close>

datatype attempt_state =
  Reserved | Dispatching | Uncertain | Settled | Upper_bound | Cancelled | Released

fun state_text :: "attempt_state \<Rightarrow> string" where
  "state_text Reserved = ''reserved''"
| "state_text Dispatching = ''dispatching''"
| "state_text Uncertain = ''uncertain''"
| "state_text Settled = ''settled''"
| "state_text Upper_bound = ''upper_bound''"
| "state_text Cancelled = ''cancelled''"
| "state_text Released = ''released''"

definition HOLDING :: "attempt_state set" where
  "HOLDING = {Reserved, Dispatching, Uncertain}"

record attempt =
  at_identity :: identity
  at_epoch :: uuid
  at_state :: attempt_state
  reserved_tokens :: int
  at_mode :: budget_mode
  reserved_usd :: "int option"
  actual_usd :: "int option"
  price_snapshot :: "projection option"
  price_etag :: "string option"
  actual_tokens :: "int option"
  evidence_revision :: int
  at_evidence_key :: "string option"
  evidence_rank :: int
  completion_evidence :: "dict option"
  rejection_policy :: "dict option"
  rejection_evidence :: "dict option"
  resolution_evidence :: "dict option"
  at_updated_at :: instant

definition receipt_of_attempt :: "attempt \<Rightarrow> admission_receipt" where
  "receipt_of_attempt a = \<lparr>rc_identity = at_identity a, rc_epoch = at_epoch a,
     rc_tokens = reserved_tokens a, rc_mode = at_mode a, rc_usd = reserved_usd a,
     rc_price = price_snapshot a\<rparr>"

definition attempt_fields :: "attempt \<Rightarrow> bool" where
  "attempt_fields a \<longleftrightarrow>
     valid_identity (at_identity a) \<and> uuid_canon (at_epoch a) = Some (at_epoch a)
     \<and> 1 \<le> reserved_tokens a \<and> reserved_tokens a \<le> MAX_TOKENS
     \<and> opt_all usd_amount (reserved_usd a) \<and> opt_all usd_amount (actual_usd a)
     \<and> opt_all (text_between 1 255) (price_etag a) \<and> opt_all int64 (actual_tokens a)
     \<and> 0 \<le> evidence_revision a \<and> opt_all (text_between 1 512) (at_evidence_key a)
     \<and> evidence_rank a \<in> {0, 2, 3} \<and> in_range (at_updated_at a)"

definition check_attempt_resolution :: "digest \<Rightarrow> attempt \<Rightarrow> unit res" where
  "check_attempt_resolution sha a =
     (case resolution_evidence a of
        None \<Rightarrow> Inr ()
      | Some d \<Rightarrow>
          bindR (validate_resolution sha (PDict d)) (\<lambda>resolution.
          bindR (make_receipt (receipt_of_attempt a)) (\<lambda>expected.
          bindR (receipt_of_json sha (dfield resolution ''receipt'')) (\<lambda>r.
          guardR (r \<noteq> expected
              \<or> (at_state a, evidence_rank a) \<notin> {(Released, 2), (Settled, 3)})
            (ValueError ''Approved resolution must retain its original admission'') (Inr ())))))"

definition check_attempt_evidence :: "digest \<Rightarrow> attempt \<Rightarrow> unit res" where
  "check_attempt_evidence sha a =
     bindR (case rejection_policy a of
              None \<Rightarrow> Inr () | Some p \<Rightarrow> bindR (validate_rejection_policy (PDict p)) (\<lambda>_. Inr ())) (\<lambda>_.
     bindR (case rejection_evidence a of
              None \<Rightarrow> Inr ()
            | Some e \<Rightarrow>
                bindR (validate_rejection_evidence sha (map_option PDict (rejection_policy a)) e
                         (PDt (Aware (admitted_at (at_identity a))))) (\<lambda>_.
                guardR (at_state a \<noteq> Settled \<or> evidence_rank a \<notin> {2, 3}
                    \<or> (evidence_rank a = 2 \<and> actual_tokens a \<noteq> Some 0))
                  (ValueError ''Retained rejection must match its budget decision'') (Inr ()))) (\<lambda>_.
     (case completion_evidence a of
        None \<Rightarrow> Inr ()
      | Some c \<Rightarrow>
          bindR (validate_completion sha c) (\<lambda>evidence.
          guardR (has_key evidence ''rejection'' \<or> at_state a \<noteq> Settled \<or> evidence_rank a \<noteq> 3
              \<or> map_option PInt (actual_tokens a) \<noteq> Some (dfield evidence ''total_tokens''))
            (ValueError ''Stored completion must match the settled charge'') (Inr ())))))"

definition attempt_mode_ok :: "attempt \<Rightarrow> bool" where
  "attempt_mode_ok a \<longleftrightarrow>
     (case at_mode a of
        Usd \<Rightarrow> reserved_usd a \<noteq> None \<and> price_snapshot a \<noteq> None
               \<and> (at_state a = Settled \<longleftrightarrow> actual_usd a \<noteq> None)
      | Tokens \<Rightarrow> reserved_usd a = None \<and> actual_usd a = None \<and> price_snapshot a = None
                  \<and> price_etag a = None)"

definition validate_charge :: "digest \<Rightarrow> attempt \<Rightarrow> unit res" where
  "validate_charge sha a =
     bindR (check_attempt_resolution sha a) (\<lambda>_.
     guardR (at_state a = Released
         \<and> (resolution_evidence a = None \<or> actual_tokens a \<noteq> None \<or> evidence_revision a = 0))
       (ValueError ''Released reservations retain approval, not fabricated actual usage'')
    (bindR (check_attempt_evidence sha a) (\<lambda>_.
     guardR ((at_state a = Settled) \<noteq> (actual_tokens a \<noteq> None))
       (ValueError ''Only settled attempts have an actual charge'')
    (guardR (\<not> attempt_mode_ok a)
       (ValueError ''Token attempts cannot carry USD evidence, USD attempts need theirs'')
    (guardR ((0 < evidence_revision a) \<noteq> (at_evidence_key a \<noteq> None))
       (ValueError ''Evidence revision and identity must be recorded together'')
    (guardR (at_state a = Settled \<and> evidence_revision a = 0)
       (ValueError ''Settlement requires durable evidence'')
    (guardR (at_updated_at a < admitted_at (at_identity a))
       (ValueError ''Attempt update cannot precede admission'') (Inr ()))))))))"

definition make_attempt :: "digest \<Rightarrow> attempt \<Rightarrow> attempt res" where
  "make_attempt sha a =
     guardR (\<not> attempt_fields a) (ValidationError ''LedgerAttempt'')
     (bindR (case price_snapshot a of
               None \<Rightarrow> Inr () | Some p \<Rightarrow> bindR (make_projection sha p) (\<lambda>_. Inr ())) (\<lambda>_.
      in_validator ''LedgerAttempt'' (bindR (validate_charge sha a) (\<lambda>_. Inr a))))"

definition sound_attempt :: "digest \<Rightarrow> attempt \<Rightarrow> bool" where
  "sound_attempt sha a \<longleftrightarrow> make_attempt sha a = Inr a"

text \<open>What every accepted attempt satisfies.\<close>

lemma make_attempt_Inr:
  assumes "make_attempt sha a = Inr b"
  shows "b = a" "attempt_fields a" "attempt_mode_ok a"
    "at_state a = Settled \<longleftrightarrow> actual_tokens a \<noteq> None"
    "0 < evidence_revision a \<longleftrightarrow> at_evidence_key a \<noteq> None"
    "at_state a = Settled \<Longrightarrow> 0 < evidence_revision a"
    "admitted_at (at_identity a) \<le> at_updated_at a"
    "at_state a = Released \<Longrightarrow> resolution_evidence a \<noteq> None"
    "resolution_evidence a \<noteq> None \<Longrightarrow> (at_state a, evidence_rank a) \<in> {(Released, 2), (Settled, 3)}"
    "rejection_evidence a \<noteq> None \<Longrightarrow> at_state a = Settled \<and> evidence_rank a \<in> {2, 3}"
    "completion_evidence a \<noteq> None \<Longrightarrow> at_state a = Settled \<and> evidence_rank a = 3"
proof -
  from assms have *: "b = a" "attempt_fields a" and v: "validate_charge sha a = Inr ()"
    by (auto simp: make_attempt_def res_simps)
  show "b = a" "attempt_fields a" by (fact *)+
  from v have res: "check_attempt_resolution sha a = Inr ()" and ev: "check_attempt_evidence sha a = Inr ()"
    and rest: "attempt_mode_ok a" "at_state a = Settled \<longleftrightarrow> actual_tokens a \<noteq> None"
      "0 < evidence_revision a \<longleftrightarrow> at_evidence_key a \<noteq> None" "\<not> (at_state a = Settled \<and> evidence_revision a = 0)"
      "admitted_at (at_identity a) \<le> at_updated_at a"
      "\<not> (at_state a = Released \<and> (resolution_evidence a = None \<or> actual_tokens a \<noteq> None \<or> evidence_revision a = 0))"
    by (auto simp: validate_charge_def bindR_eq_Inr guardR_eq_Inr not_less)
  show "attempt_mode_ok a" "at_state a = Settled \<longleftrightarrow> actual_tokens a \<noteq> None"
    "0 < evidence_revision a \<longleftrightarrow> at_evidence_key a \<noteq> None" "admitted_at (at_identity a) \<le> at_updated_at a"
    by (fact rest)+
  show "at_state a = Settled \<Longrightarrow> 0 < evidence_revision a" using rest(4) *(2) by (simp add: attempt_fields_def)
  show "at_state a = Released \<Longrightarrow> resolution_evidence a \<noteq> None" using rest(6) by simp
  show "resolution_evidence a \<noteq> None \<Longrightarrow> (at_state a, evidence_rank a) \<in> {(Released, 2), (Settled, 3)}"
    using res by (auto simp: check_attempt_resolution_def res_simps)
  show "rejection_evidence a \<noteq> None \<Longrightarrow> at_state a = Settled \<and> evidence_rank a \<in> {2, 3}"
    using ev by (auto simp: check_attempt_evidence_def res_simps)
  show "completion_evidence a \<noteq> None \<Longrightarrow> at_state a = Settled \<and> evidence_rank a = 3"
    using ev by (auto simp: check_attempt_evidence_def res_simps)
qed

section \<open>Charges\<close>

record charge =
  ch_identity :: identity
  ch_epoch :: uuid
  ch_revision :: int
  ch_evidence_key :: string
  ch_tokens :: int
  ch_mode :: budget_mode
  ch_usd :: "int option"
  ch_price :: "projection option"
  ch_rank :: int
  ch_resolution :: "dict option"

definition charge_fields :: "charge \<Rightarrow> bool" where
  "charge_fields c \<longleftrightarrow>
     valid_identity (ch_identity c) \<and> uuid_canon (ch_epoch c) = Some (ch_epoch c)
     \<and> 1 \<le> ch_revision c \<and> text_between 1 512 (ch_evidence_key c) \<and> int64 (ch_tokens c)
     \<and> opt_all usd_amount (ch_usd c) \<and> ch_rank c \<in> {2, 3}"

definition validate_resolution_charge :: "digest \<Rightarrow> charge \<Rightarrow> unit res" where
  "validate_resolution_charge sha c =
     guardR (case ch_mode c of
               Usd \<Rightarrow> ch_price c = None \<or> (ch_resolution c = None \<and> ch_usd c = None)
             | Tokens \<Rightarrow> ch_usd c \<noteq> None \<or> ch_price c \<noteq> None)
       (ValueError ''Settlement evidence does not match its budget mode'')
    (guardR (prefix_of ''resolution:'' (ch_evidence_key c) \<noteq> (ch_resolution c \<noteq> None))
       (ValueError ''Reservation resolution tasks require their immutable approval'')
    (case ch_resolution c of
       None \<Rightarrow> Inr ()
     | Some d \<Rightarrow>
         bindR (validate_resolution sha (PDict d)) (\<lambda>approved.
         bindR (receipt_of_json sha (dfield approved ''receipt'')) (\<lambda>r.
         guardR (ch_rank c \<noteq> 2 \<or> ch_tokens c \<noteq> 0 \<or> ch_usd c \<noteq> None
             \<or> ch_evidence_key c \<noteq> ''resolution:'' @ text_of (dfield approved ''id'')
             \<or> rc_epoch r \<noteq> ch_epoch c \<or> rc_identity r \<noteq> ch_identity c
             \<or> rc_mode r \<noteq> ch_mode c \<or> rc_price r \<noteq> ch_price c)
           (ValueError ''Resolution task cannot change an approved identity or amount'') (Inr ())))))"

definition make_charge :: "digest \<Rightarrow> charge \<Rightarrow> charge res" where
  "make_charge sha c =
     guardR (\<not> charge_fields c) (ValidationError ''LedgerCharge'')
     (in_validator ''LedgerCharge'' (bindR (validate_resolution_charge sha c) (\<lambda>_. Inr c)))"

section \<open>Resolutions\<close>

datatype resolution_reason = Gateway_validation_failure | Provider_result_unavailable | Evidence_irrecoverable

fun reason_text :: "resolution_reason \<Rightarrow> string" where
  "reason_text Gateway_validation_failure = ''gateway_validation_failure''"
| "reason_text Provider_result_unavailable = ''provider_result_unavailable''"
| "reason_text Evidence_irrecoverable = ''evidence_irrecoverable''"

record resolution_write =
  rw_id :: uuid
  rw_receipt :: admission_receipt
  rw_reason :: resolution_reason
  rw_evidence_sha256 :: string
  rw_accepts_late_usage :: bool

definition make_resolution_write :: "resolution_write \<Rightarrow> resolution_write res" where
  "make_resolution_write w =
     checked (is_sha256_hex (rw_evidence_sha256 w) \<and> rw_accepts_late_usage w)
       ''BudgetReservationResolutionWrite'' w"

record resolution =
  rs_id :: uuid
  rs_receipt :: admission_receipt
  rs_actor :: string
  rs_reason :: resolution_reason
  rs_evidence_sha256 :: string
  rs_approved_at :: instant

definition resolution_json :: "resolution \<Rightarrow> dict" where
  "resolution_json r =
     [(''version'', PInt 1), (''id'', PStr (rs_id r)), (''receipt'', PDict (receipt_json (rs_receipt r))),
      (''decision'', PStr ''release_unverified''), (''actor'', PStr (rs_actor r)),
      (''reason'', PStr (reason_text (rs_reason r))), (''evidence_sha256'', PStr (rs_evidence_sha256 r)),
      (''approved_at'', time_json (rs_approved_at r))]"

definition make_resolution :: "digest \<Rightarrow> resolution \<Rightarrow> resolution res" where
  "make_resolution sha r =
     guardR (\<not> text_between 1 255 (rs_actor r) \<or> \<not> is_sha256_hex (rs_evidence_sha256 r))
       (ValidationError ''BudgetReservationResolution'')
     (in_validator ''BudgetReservationResolution''
        (bindR (validate_resolution sha (PDict (resolution_json r))) (\<lambda>_. Inr r)))"

section \<open>Tasks, dispatches and cursors\<close>

record settlement_task =
  task_id :: int
  task_charge :: charge
  lease_token :: uuid
  lease_until :: instant
  task_attempts :: int
  task_created_at :: instant

definition make_task :: "settlement_task \<Rightarrow> settlement_task res" where
  "make_task t = checked (1 \<le> task_id t \<and> 1 \<le> task_attempts t) ''LedgerSettlementTask'' t"

datatype dispatch_state = D_preparing | D_dispatching | D_cancelled

record dispatch =
  dp_owner :: uuid
  caller_request_id :: string
  dp_receipts :: "admission_receipt list"
  dp_state :: dispatch_state
  recovery_complete :: bool
  counting_basis :: dict
  expires_at :: instant
  dp_updated_at :: instant

definition dispatch_lease :: int where "dispatch_lease = 60 * 1000000"

text \<open>The loop of \<open>validate_dispatch\<close>: one attempt, one model, one admission, distinct scope types.\<close>

fun bound_receipts :: "digest \<Rightarrow> identity \<Rightarrow> scope_kind list \<Rightarrow> admission_receipt list \<Rightarrow> bool" where
  "bound_receipts sha first seen [] = True"
| "bound_receipts sha first seen (r # rs) =
     (let i = rc_identity r; kind = scope_type (id_scope i) in
      if attempt_key sha i \<noteq> attempt_key sha first \<or> model_id i \<noteq> model_id first
         \<or> admitted_at i \<noteq> admitted_at first \<or> kind \<in> set seen
      then False else bound_receipts sha first (kind # seen) rs)"

definition valid_dispatch :: "digest \<Rightarrow> dispatch \<Rightarrow> bool" where
  "valid_dispatch sha d \<longleftrightarrow>
     1 \<le> length (dp_receipts d) \<and> length (dp_receipts d) \<le> 2 \<and> length (caller_request_id d) \<le> 255
     \<and> (let first = rc_identity (hd (dp_receipts d)) in
        (length (dp_receipts d) = 2 \<longrightarrow> scope_type (id_scope first) = Person)
        \<and> bound_receipts sha first [] (dp_receipts d)
        \<and> admitted_at first < expires_at d \<and> expires_at d \<le> admitted_at first + dispatch_lease
        \<and> admitted_at first \<le> dp_updated_at d)"

definition make_dispatch :: "digest \<Rightarrow> dispatch \<Rightarrow> dispatch res" where
  "make_dispatch sha d = checked (valid_dispatch sha d) ''LedgerDispatch'' d"

definition dispatch_scope :: "dispatch \<Rightarrow> scope" where
  "dispatch_scope d = id_scope (rc_identity (hd (dp_receipts d)))"

definition dispatch_row_key :: "digest \<Rightarrow> dispatch \<Rightarrow> string" where
  "dispatch_row_key sha d = ''D|'' @ attempt_key sha (rc_identity (hd (dp_receipts d)))"

record recovery_cursor =
  cu_scope :: scope
  cu_epoch :: uuid
  next_partition :: "string option"
  next_row :: "string option"
  cu_version :: int

definition make_cursor :: "recovery_cursor \<Rightarrow> recovery_cursor res" where
  "make_cursor c = checked (0 \<le> cu_version c) ''LedgerRecoveryCursor'' c"

section \<open>Policies and seeds\<close>

record policy_update =
  po_scope :: scope
  po_epoch :: uuid
  po_revision :: int
  po_token_limit :: int
  po_mode :: budget_mode
  po_usd_limit :: "int option"
  po_enforce :: bool
  po_enabled :: bool

definition make_policy :: "policy_update \<Rightarrow> policy_update res" where
  "make_policy p =
     checked (1 \<le> po_revision p \<and> int64 (po_token_limit p)
       \<and> opt_all (\<lambda>u. 0 < u \<and> u < 10 ^ 30) (po_usd_limit p)
       \<and> (po_mode p = Tokens \<longleftrightarrow> po_usd_limit p = None)
       \<and> (po_mode p = Usd \<longrightarrow> po_token_limit p = 0)) ''LedgerPolicyUpdate'' p"

record scope_seed =
  seed_summary :: summary
  seed_policy :: policy_update
  seed_active :: bool

definition valid_seed :: "scope_seed \<Rightarrow> bool" where
  "valid_seed s \<longleftrightarrow>
     (let m = seed_summary s; p = seed_policy s in
      sm_scope m = po_scope p \<and> sm_epoch m = po_epoch p \<and> sm_mode m = po_mode p
      \<and> version m = 0 \<and> policy_revision m = 0 \<and> \<not> enabled m \<and> token_limit m = 0
      \<and> active_reserved_tokens m = 0 \<and> upper_bound_tokens m = 0
      \<and> active_reserved_usd m = 0 \<and> upper_bound_usd m = 0)"

definition make_seed :: "scope_seed \<Rightarrow> scope_seed res" where
  "make_seed s = checked (valid_seed s) ''LedgerScopeSeed'' s"

end
