(* ===== verification/Ledger_Contract.thy ===== *)
theory Ledger_Contract
  imports Ledger_Attempt
begin

text \<open>
  The contract between a ledger and the operations that advance one of its attempts: whatever an
  operation does to an attempt, it moves the summary's balances by exactly the change of that
  attempt's share, and leaves identity, scope, epoch and policy alone. A ledger whose balances are
  the sums of its attempts' shares therefore stays one.
\<close>

section \<open>The share of an attempt in the balances\<close>

definition confirmed_share :: "attempt \<Rightarrow> int" where
  "confirmed_share a = (if at_mode a = Tokens then opt_or (actual_tokens a) 0 else 0)"

definition active_share :: "attempt \<Rightarrow> int" where
  "active_share a = (if at_mode a = Tokens \<and> at_state a \<in> HOLDING then reserved_tokens a else 0)"

definition upper_share :: "attempt \<Rightarrow> int" where
  "upper_share a = (if at_mode a = Tokens \<and> at_state a = Upper_bound then reserved_tokens a else 0)"

definition confirmed_usd_share :: "attempt \<Rightarrow> int" where
  "confirmed_usd_share a = opt_or (actual_usd a) 0"

definition active_usd_share :: "attempt \<Rightarrow> int" where
  "active_usd_share a = (if at_state a \<in> HOLDING then opt_or (reserved_usd a) 0 else 0)"

definition upper_usd_share :: "attempt \<Rightarrow> int" where
  "upper_usd_share a = (if at_state a = Upper_bound then opt_or (reserved_usd a) 0 else 0)"

text \<open>
  Amounts for which the 28-digit arithmetic of the default decimal context is exact:
  less than \<open>10 ^ 13\<close> USD.
\<close>

definition small_usd :: "int \<Rightarrow> bool" where
  "small_usd u \<longleftrightarrow> 0 \<le> u \<and> u < 10 ^ 27"

definition small_summary :: "summary \<Rightarrow> bool" where
  "small_summary s \<longleftrightarrow>
     small_usd (confirmed_usd s) \<and> small_usd (active_reserved_usd s) \<and> small_usd (upper_bound_usd s)"

definition small_attempt :: "attempt \<Rightarrow> bool" where
  "small_attempt a \<longleftrightarrow> opt_all small_usd (reserved_usd a) \<and> opt_all small_usd (actual_usd a)"

section \<open>What a step may do\<close>

text \<open>The parts no operation on an attempt changes.\<close>

definition same_frame :: "summary \<Rightarrow> attempt \<Rightarrow> summary \<Rightarrow> attempt \<Rightarrow> bool" where
  "same_frame s a s' a' \<longleftrightarrow>
     sm_epoch s' = sm_epoch s \<and> sm_scope s' = sm_scope s \<and> policy_revision s' = policy_revision s
     \<and> token_limit s' = token_limit s \<and> sm_mode s' = sm_mode s \<and> usd_limit s' = usd_limit s
     \<and> enforce s' = enforce s \<and> enabled s' = enabled s
     \<and> require_verified_bound s' = require_verified_bound s
     \<and> version s' = version s + 1 \<and> sm_updated_at s \<le> sm_updated_at s'
     \<and> at_identity a' = at_identity a \<and> at_epoch a' = at_epoch a \<and> at_mode a' = at_mode a
     \<and> reserved_tokens a' = reserved_tokens a \<and> reserved_usd a' = reserved_usd a
     \<and> price_snapshot a' = price_snapshot a"

definition token_delta :: "summary \<Rightarrow> attempt \<Rightarrow> summary \<Rightarrow> attempt \<Rightarrow> bool" where
  "token_delta s a s' a' \<longleftrightarrow>
     confirmed_tokens s' = confirmed_tokens s - confirmed_share a + confirmed_share a'
     \<and> active_reserved_tokens s' = active_reserved_tokens s - active_share a + active_share a'
     \<and> upper_bound_tokens s' = upper_bound_tokens s - upper_share a + upper_share a'"

definition usd_delta :: "summary \<Rightarrow> attempt \<Rightarrow> summary \<Rightarrow> attempt \<Rightarrow> bool" where
  "usd_delta s a s' a' \<longleftrightarrow>
     confirmed_usd s' = confirmed_usd s - confirmed_usd_share a + confirmed_usd_share a'
     \<and> active_reserved_usd s' = active_reserved_usd s - active_usd_share a + active_usd_share a'
     \<and> upper_bound_usd s' = upper_bound_usd s - upper_usd_share a + upper_usd_share a'"

section \<open>A ledger of attempts\<close>

record ledger =
  ld_summary :: summary
  ld_opening :: int
  ld_opening_usd :: int
  ld_attempts :: "attempt list"

definition balanced :: "ledger \<Rightarrow> bool" where
  "balanced l \<longleftrightarrow>
     confirmed_tokens (ld_summary l) = ld_opening l + sum_by confirmed_share (ld_attempts l)
     \<and> active_reserved_tokens (ld_summary l) = sum_by active_share (ld_attempts l)
     \<and> upper_bound_tokens (ld_summary l) = sum_by upper_share (ld_attempts l)"

definition balanced_usd :: "ledger \<Rightarrow> bool" where
  "balanced_usd l \<longleftrightarrow>
     confirmed_usd (ld_summary l) = ld_opening_usd l + sum_by confirmed_usd_share (ld_attempts l)
     \<and> active_reserved_usd (ld_summary l) = sum_by active_usd_share (ld_attempts l)
     \<and> upper_bound_usd (ld_summary l) = sum_by upper_usd_share (ld_attempts l)"

definition step_at ::
  "(summary \<Rightarrow> attempt \<Rightarrow> (summary, attempt) outcome res) \<Rightarrow> nat \<Rightarrow> ledger \<Rightarrow> ledger res" where
  "step_at f i l =
     bindR (f (ld_summary l) (ld_attempts l ! i)) (\<lambda>r.
       case r of
         Kept \<Rightarrow> Inr l
       | Advanced s a \<Rightarrow> Inr (l\<lparr>ld_summary := s, ld_attempts := (ld_attempts l)[i := a]\<rparr>))"

locale ledger_operation =
  fixes sha :: digest
    and step :: "summary \<Rightarrow> attempt \<Rightarrow> (summary, attempt) outcome res"
  assumes frame: "step s a = Inr (Advanced s' a') \<Longrightarrow> valid_summary s \<Longrightarrow> sound_attempt sha a \<Longrightarrow>
      same_frame s a s' a'"
    and accepted: "step s a = Inr (Advanced s' a') \<Longrightarrow> valid_summary s' \<and> sound_attempt sha a'"
    and tokens: "step s a = Inr (Advanced s' a') \<Longrightarrow> valid_summary s \<Longrightarrow> sound_attempt sha a \<Longrightarrow>
      token_delta s a s' a'"
begin

lemma step_at_Inr:
  assumes "step_at step i l = Inr l'"
  obtains (kept) "l' = l"
    | (advanced) s a where "step (ld_summary l) (ld_attempts l ! i) = Inr (Advanced s a)"
        "l' = l\<lparr>ld_summary := s, ld_attempts := (ld_attempts l)[i := a]\<rparr>"
proof -
  let ?r = "step (ld_summary l) (ld_attempts l ! i)"
  show thesis
  proof (cases ?r)
    case (Inl e)
    with assms show thesis by (simp add: step_at_def)
  next
    case (Inr r)
    note r = Inr
    show thesis
    proof (cases r)
      case Kept
      with assms r have "l' = l" by (simp add: step_at_def)
      then show thesis by (rule that(1))
    next
      case (Advanced s a)
      with assms r have "l' = l\<lparr>ld_summary := s, ld_attempts := (ld_attempts l)[i := a]\<rparr>"
        by (simp add: step_at_def)
      moreover have "?r = Inr (Advanced s a)" using r Advanced by simp
      ultimately show thesis by (rule that(2) [rotated])
    qed
  qed
qed

lemma balanced_step:
  assumes "balanced l" "i < length (ld_attempts l)" "valid_summary (ld_summary l)"
    "sound_attempt sha (ld_attempts l ! i)" "step_at step i l = Inr l'"
  shows "balanced l'"
  using assms(5)
proof (cases rule: step_at_Inr)
  case (advanced s a)
  then show ?thesis
    using assms(1,2) tokens [OF advanced(1) assms(3,4)]
    by (simp add: balanced_def token_delta_def sum_by_update)
qed (use assms(1) in simp)

lemma sound_step:
  assumes "list_all (sound_attempt sha) (ld_attempts l)" "valid_summary (ld_summary l)"
    "step_at step i l = Inr l'"
  shows "list_all (sound_attempt sha) (ld_attempts l') \<and> valid_summary (ld_summary l')"
  using assms(3)
proof (cases rule: step_at_Inr)
  case (advanced s a)
  then have "sound_attempt sha a" "valid_summary s" using accepted by blast+
  then show ?thesis using assms(1) advanced
    by (auto simp: list_all_iff dest!: set_update_subset_insert [THEN subsetD])
qed (use assms in simp)

text \<open>The attempts keep their identities, the ledger its scope, epoch and openings.\<close>

lemma identities_step:
  assumes "step_at step i l = Inr l'" "valid_summary (ld_summary l)" "sound_attempt sha (ld_attempts l ! i)"
  shows "map at_identity (ld_attempts l') = map at_identity (ld_attempts l)
    \<and> map reserved_tokens (ld_attempts l') = map reserved_tokens (ld_attempts l)
    \<and> sm_scope (ld_summary l') = sm_scope (ld_summary l) \<and> sm_epoch (ld_summary l') = sm_epoch (ld_summary l)
    \<and> token_limit (ld_summary l') = token_limit (ld_summary l)
    \<and> version (ld_summary l) \<le> version (ld_summary l')
    \<and> sm_updated_at (ld_summary l) \<le> sm_updated_at (ld_summary l')"
  using assms(1)
proof (cases rule: step_at_Inr)
  case (advanced s a)
  then have f: "same_frame (ld_summary l) (ld_attempts l ! i) s a" using frame assms(2,3) by blast
  have u: "map g ((ld_attempts l)[i := a]) = map g (ld_attempts l)"
    if "g a = g (ld_attempts l ! i)" for g :: "attempt \<Rightarrow> 'z"
    by (metis list_update_beyond list_update_id map_update not_le_imp_less that)
  show ?thesis using f advanced(2) by (simp add: u same_frame_def)
qed simp

end

text \<open>An operation whose USD arithmetic is exact as well, as long as the amounts are small.\<close>

locale exact_ledger_operation = ledger_operation +
  fixes small :: bool
  assumes usd: "step s a = Inr (Advanced s' a') \<Longrightarrow> sound_attempt sha a \<Longrightarrow> small_summary s \<Longrightarrow>
      small_attempt a \<Longrightarrow> small \<Longrightarrow> usd_delta s a s' a'"
begin

lemma balanced_usd_step:
  assumes "balanced_usd l" "i < length (ld_attempts l)" "sound_attempt sha (ld_attempts l ! i)"
    "small_summary (ld_summary l)" "small_attempt (ld_attempts l ! i)" "small"
    "step_at step i l = Inr l'"
  shows "balanced_usd l'"
  using assms(7)
proof (cases rule: step_at_Inr)
  case (advanced s a)
  then show ?thesis
    using assms(1,2) usd [OF advanced(1) assms(3-6)]
    by (simp add: balanced_usd_def usd_delta_def sum_by_update)
qed (use assms(1) in simp)

end

end
