(* ===== verification/Ledger_Ops.thy ===== *)
theory Ledger_Ops
  imports Ledger_Contract
begin

text \<open>
  \<open>turnstile_core/domain/ledger.py\<close>, the operations: policy updates, reservation, resolution,
  settlement and the transitions of an attempt. An operation either raises, keeps the very pair it
  was given, or yields an advanced summary and attempt. Amounts are in units of \<open>10 ^ -14\<close> USD;
  sums computed in the default decimal context go through \<open>usd28\<close>, sums under
  \<open>context.prec = 50\<close> are exact.
\<close>

section \<open>Advancing a summary\<close>

definition conflict :: "string \<Rightarrow> exn" where
  "conflict msg = LedgerProtocolConflict msg"

definition advance_summary :: "summary \<Rightarrow> instant \<Rightarrow> (summary \<Rightarrow> summary) \<Rightarrow> summary res" where
  "advance_summary s now updates =
     guardR (now < sm_updated_at s)
       (conflict ''Ledger updates require nondecreasing aware timestamps'')
       (make_summary ((updates s)\<lparr>version := version s + 1, sm_updated_at := now\<rparr>))"

section \<open>Policies\<close>

text \<open>\<open>None\<close>: the summary that was given is returned.\<close>

definition update_ledger_policy ::
  "summary \<Rightarrow> uuid \<Rightarrow> int \<Rightarrow> int \<Rightarrow> bool \<Rightarrow> bool \<Rightarrow> instant \<Rightarrow> budget_mode \<Rightarrow> int option \<Rightarrow> summary option res" where
  "update_ledger_policy s epoch revision limit enf ena now mode usd =
     (let policy = (\<lambda>x. x\<lparr>policy_revision := revision, token_limit := limit, sm_mode := mode,
                           usd_limit := usd, enforce := enf, enabled := ena\<rparr>) in
      guardR (epoch \<noteq> sm_epoch s \<or> revision < 1)
        (conflict ''Budget policy requires its current epoch and revision'')
      (bindR (make_summary (policy s)) (\<lambda>candidate.
       if revision < policy_revision s then Inr None
       else if revision = policy_revision s then
         guardR (candidate \<noteq> s)
           (conflict ''A budget policy revision cannot change its contents'') (Inr None)
       else bindR (advance_summary s now policy) (\<lambda>s'. Inr (Some s')))))"

section \<open>Reservation\<close>

definition new_attempt ::
  "identity \<Rightarrow> uuid \<Rightarrow> int \<Rightarrow> budget_mode \<Rightarrow> int option \<Rightarrow> projection option \<Rightarrow> instant \<Rightarrow> attempt" where
  "new_attempt i epoch tokens mode usd price now =
     \<lparr>at_identity = i, at_epoch = epoch, at_state = Reserved, reserved_tokens = tokens,
      at_mode = mode, reserved_usd = usd, actual_usd = None, price_snapshot = price,
      price_etag = None, actual_tokens = None, evidence_revision = 0, at_evidence_key = None,
      evidence_rank = 0, completion_evidence = None, rejection_policy = None,
      rejection_evidence = None, resolution_evidence = None, at_updated_at = now\<rparr>"

definition denial_code :: "int \<Rightarrow> int \<Rightarrow> string" where
  "denial_code unreserved wanted =
     (if unreserved \<le> 0 then ''budget_exhausted''
      else if wanted \<le> unreserved then ''budget_temporarily_reserved''
      else ''budget_request_bound_exceeds_balance'')"

text \<open>
  The amount a caller asks to reserve, in units: it must be nonnegative and representable with
  fourteen places; \<open>quantize\<close> to 50 digits signals \<open>InvalidOperation\<close> from \<open>10 ^ 36\<close> on.
\<close>

definition fixed_amount :: "decimal \<Rightarrow> int res" where
  "fixed_amount d =
     (let outside = conflict ''USD reservation is outside fixed precision'' in
      case d of
        DNaN \<Rightarrow> Inl InvalidOperation
      | DInf neg \<Rightarrow> Inl (if neg then outside else InvalidOperation)
      | Dec c e \<Rightarrow>
          guardR (c < 0) outside
         (guardR (dec_le (Dec 1 36) d) InvalidOperation
         (guardR (\<not> has_scale14 d) outside (Inr (units14 d)))))"

definition reserve_usd ::
  "digest \<Rightarrow> summary \<Rightarrow> identity \<Rightarrow> int \<Rightarrow> instant \<Rightarrow> decimal option \<Rightarrow> projection option
     \<Rightarrow> (summary \<times> attempt) res" where
  "reserve_usd sha s i tokens now usd price =
     (case (usd, price) of
        (Some amount, Some p) \<Rightarrow>
          guardR (uuid_canon (model_id i) = None) (ValueError ''badly formed hexadecimal UUID string'')
         (guardR (uuid_canon (model_id i) \<noteq> Some (pj_model_id p))
            (conflict ''USD price projection belongs to another model'')
         (guardR (now < pj_updated_at p) (conflict ''USD price projection is from the future'')
         (bindR (fixed_amount amount) (\<lambda>u.
          guardR (enforce s \<and> opt_or (available_usd s) 0 < u)
            (LedgerAdmissionDenied (denial_code
               (usd28 (usd28 (opt_or (usd_limit s) 0 - confirmed_usd s) - upper_bound_usd s)) u))
         (bindR (make_attempt sha (new_attempt i (sm_epoch s) tokens Usd (Some u) (Some p) now)) (\<lambda>a.
          bindR (advance_summary s now
                   (\<lambda>x. x\<lparr>active_reserved_usd := usd28 (active_reserved_usd s + u)\<rparr>)) (\<lambda>s'.
          Inr (s', a))))))))
      | _ \<Rightarrow> Inl (conflict ''USD admission requires a current price snapshot''))"

definition reserve_ledger ::
  "digest \<Rightarrow> summary \<Rightarrow> identity \<Rightarrow> int \<Rightarrow> instant \<Rightarrow> decimal option \<Rightarrow> projection option \<Rightarrow> string
     \<Rightarrow> (summary \<times> attempt) res" where
  "reserve_ledger sha s i tokens now usd price assurance =
     guardR (id_scope i \<noteq> sm_scope s)
       (conflict ''Reservation belongs to another budget scope or month'')
    (guardR (\<not> enabled s) (LedgerAdmissionDenied ''budget_consumer_disabled'')
    (guardR (assurance \<notin> {''estimate'', ''verified_upper_bound''})
       (conflict ''Reservation requires a valid count assurance'')
    (guardR (enforce s \<and> require_verified_bound s \<and> assurance \<noteq> ''verified_upper_bound'')
       (LedgerAdmissionDenied ''budget_count_bound_unavailable'')
    (if sm_mode s = Usd then reserve_usd sha s i tokens now usd price
     else
       guardR (usd \<noteq> None \<or> price \<noteq> None) (conflict ''Token admission cannot carry USD evidence'')
      (bindR (make_attempt sha (new_attempt i (sm_epoch s) tokens Tokens None None now)) (\<lambda>a.
       guardR (enforce s \<and> available_tokens s < tokens)
         (LedgerAdmissionDenied (denial_code
            (token_limit s - confirmed_tokens s - upper_bound_tokens s) tokens))
      (bindR (advance_summary s now
                (\<lambda>x. x\<lparr>active_reserved_tokens := active_reserved_tokens s + tokens\<rparr>)) (\<lambda>s'.
       Inr (s', a)))))))))"

section \<open>Resolution\<close>

fun is_bad_input :: "exn \<Rightarrow> bool" where
  "is_bad_input (TypeError _) = True"
| "is_bad_input (KeyError _) = True"
| "is_bad_input e = is_ValueError e"

definition invalid_evidence :: "string \<Rightarrow> 'a res \<Rightarrow> 'a res" where
  "invalid_evidence msg m =
     (case m of
        Inl e \<Rightarrow> Inl (if is_bad_input e then conflict msg else e)
      | Inr x \<Rightarrow> Inr x)"

definition resolve_ledger ::
  "digest \<Rightarrow> summary \<Rightarrow> attempt \<Rightarrow> dict \<Rightarrow> instant \<Rightarrow> (summary, attempt) outcome res" where
  "resolve_ledger sha s a resolution now =
     bindR (invalid_evidence ''Reservation resolution evidence is invalid''
              (validate_resolution sha (PDict resolution))) (\<lambda>approved.
     bindR (make_receipt (receipt_of_attempt a)) (\<lambda>expected.
     bindR (receipt_of_json sha (dfield approved ''receipt'')) (\<lambda>r.
     bindR (utc_time (dfield approved ''approved_at'')) (\<lambda>approved_at.
     guardR (r \<noteq> expected \<or> id_scope (at_identity a) \<noteq> sm_scope s \<or> at_epoch a \<noteq> sm_epoch s
         \<or> at_mode a \<noteq> sm_mode s \<or> now < approved_at)
       (conflict ''Reservation resolution does not match its approved admission'')
    (case resolution_evidence a of
       Some earlier \<Rightarrow>
         bindR (validate_resolution sha (PDict earlier)) (\<lambda>e.
         guardR (\<not> py_eq (PDict e) (PDict approved))
           (conflict ''An earlier resolution already owns this reservation'') (Inr Kept))
     | None \<Rightarrow>
         if at_state a \<in> {Settled, Cancelled} then Inr Kept
         else
           guardR (at_state a \<notin> {Reserved, Dispatching, Uncertain, Upper_bound})
             (conflict ''Reservation state cannot be resolved'')
          (let active = (at_state a \<noteq> Upper_bound); held = opt_or (reserved_usd a) 0;
               updates = (if at_mode a = Usd
                 then (\<lambda>x. x\<lparr>active_reserved_usd := active_reserved_usd s - (if active then held else 0),
                              upper_bound_usd := upper_bound_usd s - (if active then 0 else held)\<rparr>)
                 else (\<lambda>x. x\<lparr>active_reserved_tokens :=
                                active_reserved_tokens s - (if active then reserved_tokens a else 0),
                              upper_bound_tokens :=
                                upper_bound_tokens s - (if active then 0 else reserved_tokens a)\<rparr>))
           in bindR (advance_summary s now updates) (\<lambda>s'.
              bindR (make_attempt sha (a\<lparr>at_state := Released, actual_tokens := None,
                       evidence_rank := 2, evidence_revision := max (evidence_revision a) 1,
                       at_evidence_key := Some (''resolution:'' @ text_of (dfield approved ''id'')),
                       resolution_evidence := Some approved, at_updated_at := now\<rparr>)) (\<lambda>a'.
              Inr (Advanced s' a')))))))))"

section \<open>Settlement\<close>

text \<open>What a charge does before the balances are touched: \<open>True\<close> when the pair is kept.\<close>

definition charge_kept :: "attempt \<Rightarrow> charge \<Rightarrow> bool res" where
  "charge_kept a c =
     (if completion_evidence a \<noteq> None then
        guardR (ch_rank c = 3 \<and> Some (ch_tokens c) \<noteq> actual_tokens a)
          (conflict ''Durable task conflicts with complete producer evidence'') (Inr True)
      else if ch_rank c < evidence_rank a then Inr True
      else if resolution_evidence a \<noteq> None \<and> ch_rank c = 2 then
        guardR (ch_tokens c \<noteq> 0)
          (conflict ''A released reservation requires stronger usage evidence'') (Inr True)
      else if rejection_evidence a \<noteq> None \<and> ch_rank c = 2 then
        guardR (ch_tokens c \<noteq> 0)
          (conflict ''Conflicting charge requires stronger usage evidence'') (Inr True)
      else if evidence_rank a < ch_rank c then Inr False
      else if ch_revision c < evidence_revision a then Inr True
      else if ch_revision c = evidence_revision a then
        guardR (Some (ch_tokens c) \<noteq> actual_tokens a \<or> Some (ch_evidence_key c) \<noteq> at_evidence_key a)
          (conflict ''Conflicting settlement at the same evidence revision'') (Inr True)
      else Inr False)"

definition settled_balances :: "attempt \<Rightarrow> charge \<Rightarrow> summary \<Rightarrow> summary" where
  "settled_balances a c s =
     (let tokens = (at_mode a = Tokens);
          active = (if tokens \<and> at_state a \<in> HOLDING then reserved_tokens a else 0);
          upper = (if tokens \<and> at_state a = Upper_bound then reserved_tokens a else 0);
          held = opt_or (reserved_usd a) 0 in
      s\<lparr>confirmed_tokens := (if sm_mode s = Tokens
                             then confirmed_tokens s + ch_tokens c - opt_or (actual_tokens a) 0
                             else confirmed_tokens s),
        active_reserved_tokens := active_reserved_tokens s - active,
        upper_bound_tokens := upper_bound_tokens s - upper,
        confirmed_usd := (if sm_mode s = Usd
                          then usd28 (usd28 (confirmed_usd s + opt_or (ch_usd c) 0)
                                      - opt_or (actual_usd a) 0)
                          else confirmed_usd s),
        active_reserved_usd := usd28 (active_reserved_usd s - (if at_state a \<in> HOLDING then held else 0)),
        upper_bound_usd := usd28 (upper_bound_usd s - (if at_state a = Upper_bound then held else 0))\<rparr>)"

definition settled_attempt_of :: "attempt \<Rightarrow> charge \<Rightarrow> budget_mode \<Rightarrow> instant \<Rightarrow> attempt" where
  "settled_attempt_of a c mode now =
     a\<lparr>at_state := Settled, actual_tokens := Some (ch_tokens c),
       actual_usd := (if mode = Usd then ch_usd c else actual_usd a),
       evidence_rank := ch_rank c, evidence_revision := max (ch_revision c) (evidence_revision a),
       at_evidence_key := Some (ch_evidence_key c), at_updated_at := now\<rparr>"

definition settle_ledger ::
  "digest \<Rightarrow> summary \<Rightarrow> attempt \<Rightarrow> charge \<Rightarrow> instant \<Rightarrow> (summary, attempt) outcome res" where
  "settle_ledger sha s a c now =
     (case ch_resolution c of
        Some d \<Rightarrow> resolve_ledger sha s a d now
      | None \<Rightarrow>
          guardR (at_epoch a \<noteq> sm_epoch s \<or> ch_epoch c \<noteq> sm_epoch s
              \<or> at_identity a \<noteq> ch_identity c \<or> id_scope (at_identity a) \<noteq> sm_scope s)
            (conflict ''Settlement identity, epoch or scope does not match'')
         (if sm_mode s \<noteq> at_mode a \<and> at_state a = Settled then
            guardR (evidence_rank a \<noteq> 3 \<or> ch_rank c \<noteq> 3 \<or> ch_mode c \<noteq> at_mode a
                \<or> Some (ch_tokens c) \<noteq> actual_tokens a \<or> ch_usd c \<noteq> actual_usd a
                \<or> ch_price c \<noteq> price_snapshot a)
              (conflict ''Late settlement conflicts with the original confirmed usage'') (Inr Kept)
          else
            guardR (at_mode a \<noteq> sm_mode s \<or> ch_mode c \<noteq> sm_mode s)
              (conflict ''Settlement budget mode changed after admission'')
           (guardR (sm_mode s = Usd
                \<and> (ch_usd c = None \<or> ch_price c \<noteq> price_snapshot a \<or> reserved_usd a = None))
              (conflict ''USD settlement requires the admitted price snapshot'')
           (guardR (sm_mode s = Usd \<and> evidence_rank a = 3 \<and> ch_rank c = 3 \<and> ch_usd c \<noteq> actual_usd a)
              (conflict ''Confirmed USD settlement has a conflicting amount'')
           (bindR (charge_kept a c) (\<lambda>kept.
            if kept then Inr Kept
            else
              bindR (advance_summary s now (settled_balances a c)) (\<lambda>s'.
              bindR (make_attempt sha (settled_attempt_of a c (sm_mode s) now)) (\<lambda>a'.
              Inr (Advanced s' a')))))))))"

section \<open>Transitions of an attempt\<close>

definition allowed_from :: "attempt_state \<Rightarrow> attempt_state set option" where
  "allowed_from st =
     (case st of
        Dispatching \<Rightarrow> Some {Reserved}
      | Uncertain \<Rightarrow> Some {Dispatching}
      | Upper_bound \<Rightarrow> Some {Reserved, Dispatching, Uncertain}
      | Cancelled \<Rightarrow> Some {Reserved}
      | _ \<Rightarrow> None)"

definition transition_balances :: "attempt \<Rightarrow> attempt_state \<Rightarrow> summary \<Rightarrow> summary" where
  "transition_balances a st s =
     (let ends = (st \<in> {Upper_bound, Cancelled}); upper = (st = Upper_bound);
          held = opt_or (reserved_usd a) 0 in
      if at_mode a = Tokens then
        s\<lparr>active_reserved_tokens := active_reserved_tokens s - (if ends then reserved_tokens a else 0),
          upper_bound_tokens := upper_bound_tokens s + (if upper then reserved_tokens a else 0)\<rparr>
      else
        s\<lparr>active_reserved_usd := (if ends then usd28 (active_reserved_usd s - held) else active_reserved_usd s),
          upper_bound_usd := (if upper then usd28 (upper_bound_usd s + held) else upper_bound_usd s)\<rparr>)"

definition transition_ledger_attempt ::
  "digest \<Rightarrow> summary \<Rightarrow> attempt \<Rightarrow> attempt_state \<Rightarrow> instant \<Rightarrow> (summary, attempt) outcome res" where
  "transition_ledger_attempt sha s a st now =
     guardR (at_epoch a \<noteq> sm_epoch s \<or> id_scope (at_identity a) \<noteq> sm_scope s)
       (conflict ''Attempt does not belong to this ledger epoch'')
    (if st = at_state a then Inr Kept
     else case allowed_from st of
       None \<Rightarrow> Inl (KeyError (state_text st))
     | Some from \<Rightarrow>
         guardR (at_state a \<notin> from)
           (conflict ''Unknown dispatch outcome cannot release a reservation'')
        (bindR (advance_summary s now (transition_balances a st)) (\<lambda>s'.
         bindR (make_attempt sha (a\<lparr>at_state := st, at_updated_at := now\<rparr>)) (\<lambda>a'.
         Inr (Advanced s' a')))))"

section \<open>What a successful operation did\<close>

lemma advance_summary_Inr:
  "advance_summary s now f = Inr s' \<longleftrightarrow>
     sm_updated_at s \<le> now \<and> s' = (f s)\<lparr>version := version s + 1, sm_updated_at := now\<rparr> \<and> valid_summary s'"
  by (auto simp: advance_summary_def make_summary_def guardR_eq_Inr checked_eq_Inr)

lemma make_attempt_sound: "make_attempt sha a = Inr b \<longleftrightarrow> b = a \<and> sound_attempt sha a"
  using make_attempt_Inr(1) by (auto simp: sound_attempt_def)

lemma advance_pair:
  "bindR (advance_summary s now f) (\<lambda>s'. bindR (make_attempt sha b) (\<lambda>a'. Inr (Advanced s' a')))
      = Inr (Advanced s1 a1)
    \<longleftrightarrow> sm_updated_at s \<le> now \<and> s1 = (f s)\<lparr>version := version s + 1, sm_updated_at := now\<rparr>
      \<and> valid_summary s1 \<and> a1 = b \<and> sound_attempt sha b"
proof (cases "advance_summary s now f")
  case (Inl e)
  then show ?thesis using advance_summary_Inr [of s now f s1] by auto
next
  case (Inr s2)
  note s2 = Inr
  show ?thesis
  proof (cases "make_attempt sha b")
    case (Inl e)
    then show ?thesis using s2 make_attempt_sound [of sha b b] by auto
  next
    case (Inr b2)
    then show ?thesis using s2 make_attempt_sound [of sha b b2] advance_summary_Inr [of s now f s2] by auto
  qed
qed

lemma transition_Inr:
  assumes "transition_ledger_attempt sha s a st now = Inr (Advanced s' a')"
  obtains srcs where "allowed_from st = Some srcs" "at_state a \<in> srcs" "st \<noteq> at_state a"
    "at_epoch a = sm_epoch s" "id_scope (at_identity a) = sm_scope s"
    "sm_updated_at s \<le> now" "s' = (transition_balances a st s)\<lparr>version := version s + 1, sm_updated_at := now\<rparr>"
    "valid_summary s'" "a' = a\<lparr>at_state := st, at_updated_at := now\<rparr>" "sound_attempt sha a'"
proof (cases "allowed_from st")
  case None
  with assms show thesis by (simp add: transition_ledger_attempt_def guardR_eq_Inr split: if_split_asm)
next
  case (Some srcs)
  with assms show thesis
    by (intro that [of srcs])
       (auto simp: transition_ledger_attempt_def guardR_eq_Inr advance_pair split: if_split_asm)
qed

lemma make_receipt_Inr: "make_receipt r = Inr q \<Longrightarrow> q = r"
  by (auto simp: make_receipt_def guardR_eq_Inr checked_eq_Inr)

lemma resolve_Inr:
  assumes "resolve_ledger sha s a d now = Inr (Advanced s' a')"
  obtains approved where "validate_resolution sha (PDict d) = Inr approved"
    "receipt_of_json sha (dfield approved ''receipt'') = Inr (receipt_of_attempt a)"
    "id_scope (at_identity a) = sm_scope s" "at_epoch a = sm_epoch s" "at_mode a = sm_mode s"
    "resolution_evidence a = None" "at_state a \<in> {Reserved, Dispatching, Uncertain, Upper_bound}"
    "sm_updated_at s \<le> now" "valid_summary s'" "sound_attempt sha a'"
    "s' = (if at_mode a = Usd
       then s\<lparr>active_reserved_usd := active_reserved_usd s - active_usd_share a,
              upper_bound_usd := upper_bound_usd s - upper_usd_share a\<rparr>
       else s\<lparr>active_reserved_tokens := active_reserved_tokens s - active_share a,
              upper_bound_tokens := upper_bound_tokens s - upper_share a\<rparr>)
      \<lparr>version := version s + 1, sm_updated_at := now\<rparr>"
    "a' = a\<lparr>at_state := Released, actual_tokens := None, evidence_rank := 2,
       evidence_revision := max (evidence_revision a) 1,
       at_evidence_key := Some (''resolution:'' @ text_of (dfield approved ''id'')),
       resolution_evidence := Some approved, at_updated_at := now\<rparr>"
proof -
  from assms obtain approved where ap: "validate_resolution sha (PDict d) = Inr approved"
    by (cases "validate_resolution sha (PDict d)") (simp_all add: resolve_ledger_def invalid_evidence_def)
  note u = assms [unfolded resolve_ledger_def ap]
  from u have mk: "make_receipt (receipt_of_attempt a) = Inr (receipt_of_attempt a)"
    using make_receipt_Inr
    by (cases "make_receipt (receipt_of_attempt a)") (simp_all add: invalid_evidence_def)
  from u obtain r where r: "receipt_of_json sha (dfield approved ''receipt'') = Inr r"
    by (cases "receipt_of_json sha (dfield approved ''receipt'')") (simp_all add: invalid_evidence_def mk)
  from u obtain t where t: "utc_time (dfield approved ''approved_at'') = Inr t"
    by (cases "utc_time (dfield approved ''approved_at'')") (simp_all add: invalid_evidence_def mk r)
  note v = u [unfolded invalid_evidence_def mk r t sum.case bindR_simps guardR_eq_Inr]
  have none: "resolution_evidence a = None"
  proof (cases "resolution_evidence a")
    case (Some e)
    with v show ?thesis by (cases "validate_resolution sha (PDict e)") (simp_all add: guardR_def split: if_split_asm)
  qed
  have st: "at_state a \<in> {Reserved, Dispatching, Uncertain, Upper_bound}" "at_state a \<notin> {Settled, Cancelled}"
    using v none by (simp_all add: guardR_eq_Inr split: if_split_asm)
  have same: "r = receipt_of_attempt a" "id_scope (at_identity a) = sm_scope s" "at_epoch a = sm_epoch s"
    "at_mode a = sm_mode s"
    using v by simp_all
  define act where "act = (at_state a \<noteq> Upper_bound)"
  define f where "f = (if at_mode a = Usd
      then (\<lambda>x::summary. x\<lparr>active_reserved_usd := active_reserved_usd s - (if act then opt_or (reserved_usd a) 0 else 0),
                   upper_bound_usd := upper_bound_usd s - (if act then 0 else opt_or (reserved_usd a) 0)\<rparr>)
      else (\<lambda>x. x\<lparr>active_reserved_tokens := active_reserved_tokens s - (if act then reserved_tokens a else 0),
                   upper_bound_tokens := upper_bound_tokens s - (if act then 0 else reserved_tokens a)\<rparr>))"
  define b where "b = a\<lparr>at_state := Released, actual_tokens := None, evidence_rank := 2,
       evidence_revision := max (evidence_revision a) 1,
       at_evidence_key := Some (''resolution:'' @ text_of (dfield approved ''id'')),
       resolution_evidence := Some approved, at_updated_at := now\<rparr>"
  have "bindR (advance_summary s now f) (\<lambda>s'. bindR (make_attempt sha b) (\<lambda>a'. Inr (Advanced s' a')))
      = Inr (Advanced s' a')"
    using v none st by (simp only: f_def b_def act_def Let_def option.case if_False guardR_eq_Inr simp_thms)
  note w = this [unfolded advance_pair]
  have act: "act \<longleftrightarrow> at_state a \<in> HOLDING" "at_state a = Upper_bound \<longleftrightarrow> at_state a \<notin> HOLDING"
    using st by (auto simp: act_def HOLDING_def)
  have fs: "f s = (if at_mode a = Usd
       then s\<lparr>active_reserved_usd := active_reserved_usd s - active_usd_share a,
              upper_bound_usd := upper_bound_usd s - upper_usd_share a\<rparr>
       else s\<lparr>active_reserved_tokens := active_reserved_tokens s - active_share a,
              upper_bound_tokens := upper_bound_tokens s - upper_share a\<rparr>)"
  proof (cases "at_mode a")
    case Usd
    then show ?thesis
      by (simp add: f_def act active_usd_share_def upper_usd_share_def)
  next
    case Tokens
    then show ?thesis
      by (simp add: f_def act active_share_def upper_share_def)
  qed
  have w': "sm_updated_at s \<le> now" "s' = (f s)\<lparr>version := version s + 1, sm_updated_at := now\<rparr>"
    "valid_summary s'" "a' = b" "sound_attempt sha a'"
    using w by auto
  show thesis
    by (rule that [OF ap _ same(2-4) none st(1) w'(1,3,5) w'(2) [unfolded fs] w'(4) [unfolded b_def]])
       (simp add: r same(1))
qed

lemma settle_Inr:
  assumes "settle_ledger sha s a c now = Inr (Advanced s' a')"
  obtains (resolved) d where "ch_resolution c = Some d" "resolve_ledger sha s a d now = Inr (Advanced s' a')"
  | (charged) "ch_resolution c = None" "at_epoch a = sm_epoch s" "ch_epoch c = sm_epoch s"
      "at_identity a = ch_identity c" "id_scope (at_identity a) = sm_scope s"
      "at_mode a = sm_mode s" "ch_mode c = sm_mode s"
      "sm_mode s = Usd \<Longrightarrow> ch_usd c \<noteq> None \<and> ch_price c = price_snapshot a \<and> reserved_usd a \<noteq> None"
      "sm_mode s = Usd \<Longrightarrow> evidence_rank a = 3 \<Longrightarrow> ch_rank c = 3 \<Longrightarrow> ch_usd c = actual_usd a"
      "charge_kept a c = Inr False" "sm_updated_at s \<le> now"
      "s' = (settled_balances a c s)\<lparr>version := version s + 1, sm_updated_at := now\<rparr>"
      "valid_summary s'" "a' = settled_attempt_of a c (sm_mode s) now" "sound_attempt sha a'"
proof (cases "ch_resolution c")
  case (Some d)
  with assms show thesis by (intro resolved [of d]) (simp_all add: settle_ledger_def)
next
  case None
  note u = assms [unfolded settle_ledger_def None option.case guardR_eq_Inr]
  have modes: "\<not> (sm_mode s \<noteq> at_mode a \<and> at_state a = Settled)"
  proof
    assume "sm_mode s \<noteq> at_mode a \<and> at_state a = Settled"
    with u show False by (simp add: guardR_eq_Inr)
  qed
  note v = u [unfolded if_not_P [OF modes] guardR_eq_Inr]
  obtain kept where k: "charge_kept a c = Inr kept"
    using v by (cases "charge_kept a c") simp_all
  have kept: "kept = False" using v by (cases kept) (simp_all add: k)
  note w = v [unfolded k kept bindR_simps if_False advance_pair]
  show thesis
    by (rule charged) (use w None k kept in auto)
qed

section \<open>The operations satisfy the ledger contract\<close>

lemma sound_attemptD:
  assumes "sound_attempt sha a"
  shows "at_state a = Settled \<longleftrightarrow> actual_tokens a \<noteq> None" "attempt_mode_ok a" "attempt_fields a"
  using make_attempt_Inr [of sha a a] assms by (auto simp: sound_attempt_def)

lemma HOLDING_simps [simp]:
  "Reserved \<in> HOLDING" "Dispatching \<in> HOLDING" "Uncertain \<in> HOLDING" "Settled \<notin> HOLDING"
  "Upper_bound \<notin> HOLDING" "Cancelled \<notin> HOLDING" "Released \<notin> HOLDING"
  by (simp_all add: HOLDING_def)

lemmas share_defs = confirmed_share_def active_share_def upper_share_def
  confirmed_usd_share_def active_usd_share_def upper_usd_share_def

definition small_charge :: "charge \<Rightarrow> bool" where
  "small_charge c \<longleftrightarrow> opt_all small_usd (ch_usd c)"

lemma small_add: "small_usd x \<Longrightarrow> small_usd y \<Longrightarrow> usd28 (x + y) = x + y"
  by (rule usd28_exact) (simp add: small_usd_def abs_if)

lemma small_sub: "small_usd x \<Longrightarrow> small_usd y \<Longrightarrow> usd28 (x - y) = x - y"
  by (rule usd28_exact) (simp add: small_usd_def abs_if)

lemma small_add_sub: "small_usd x \<Longrightarrow> small_usd y \<Longrightarrow> small_usd z \<Longrightarrow> usd28 (usd28 (x + y) - z) = x + y - z"
  by (simp add: small_add, rule usd28_exact) (simp add: small_usd_def abs_if)

lemma small_opt: "opt_all small_usd u \<Longrightarrow> small_usd (opt_or u 0)"
  by (cases u) (simp_all add: opt_all_def small_usd_def)

interpretation transition: exact_ledger_operation sha "\<lambda>s a. transition_ledger_attempt sha s a st now" True
  for sha st now
proof
  fix s a s' a'
  assume step: "transition_ledger_attempt sha s a st now = Inr (Advanced s' a')"
  from step show "same_frame s a s' a'"
    by (cases rule: transition_Inr) (simp add: same_frame_def transition_balances_def Let_def)
  from step show "valid_summary s' \<and> sound_attempt sha a'" by (cases rule: transition_Inr) simp
  from step show "token_delta s a s' a'"
    by (cases rule: transition_Inr)
       (cases st; cases "at_mode a"; auto simp: allowed_from_def token_delta_def share_defs transition_balances_def Let_def)
  from step show "usd_delta s a s' a'" if "sound_attempt sha a" "small_summary s" "small_attempt a"
  proof (cases rule: transition_Inr)
    case (1 srcs)
    have t: "at_mode a = Tokens \<Longrightarrow> reserved_usd a = None"
      using sound_attemptD(2) [OF that(1)] by (simp add: attempt_mode_ok_def)
    show ?thesis
      using 1 that(2,3) t small_opt [of "reserved_usd a"]
      by (cases st; cases "at_mode a")
         (auto simp: allowed_from_def usd_delta_def share_defs transition_balances_def Let_def small_add small_sub
            small_summary_def small_attempt_def)
  qed
qed

interpretation resolve: exact_ledger_operation sha "\<lambda>s a. resolve_ledger sha s a d now" True
  for sha d now
proof
  fix s a s' a'
  assume step: "resolve_ledger sha s a d now = Inr (Advanced s' a')"
  from step show "same_frame s a s' a'" by (cases rule: resolve_Inr) (simp add: same_frame_def)
  from step show "valid_summary s' \<and> sound_attempt sha a'" by (cases rule: resolve_Inr) simp
  from step show "token_delta s a s' a'" if "sound_attempt sha a"
  proof (cases rule: resolve_Inr)
    case (1 approved)
    have "actual_tokens a = None" using sound_attemptD(1) [OF that] 1 by auto
    with 1 show ?thesis
      by (cases "at_mode a") (auto simp: token_delta_def share_defs)
  qed
  from step show "usd_delta s a s' a'" if "sound_attempt sha a"
  proof (cases rule: resolve_Inr)
    case (1 approved)
    have "at_mode a = Tokens \<Longrightarrow> reserved_usd a = None"
      using sound_attemptD(2) [OF that] by (simp add: attempt_mode_ok_def)
    with 1 show ?thesis
      by (cases "at_mode a") (auto simp: usd_delta_def share_defs)
  qed
qed

interpretation settle: exact_ledger_operation sha "\<lambda>s a. settle_ledger sha s a c now" "small_charge c"
  for sha c now
proof
  fix s a s' a'
  assume step: "settle_ledger sha s a c now = Inr (Advanced s' a')"
  from step show "same_frame s a s' a'" if "valid_summary s" "sound_attempt sha a"
    by (cases rule: settle_Inr)
       (auto dest: resolve.frame [OF _ that] simp: same_frame_def settled_balances_def settled_attempt_of_def Let_def)
  from step show "valid_summary s' \<and> sound_attempt sha a'"
    by (cases rule: settle_Inr) (auto dest: resolve.accepted)
  from step show "token_delta s a s' a'" if "valid_summary s" "sound_attempt sha a"
  proof (cases rule: settle_Inr)
    case (resolved d)
    then show ?thesis using resolve.tokens that by blast
  next
    case charged
    then show ?thesis
      by (cases "at_mode a")
         (auto simp: token_delta_def share_defs settled_balances_def settled_attempt_of_def Let_def)
  qed
  from step show "usd_delta s a s' a'"
    if "sound_attempt sha a" "small_summary s" "small_attempt a" "small_charge c"
  proof (cases rule: settle_Inr)
    case (resolved d)
    then show ?thesis using resolve.usd that by blast
  next
    case charged
    have z: "small_usd 0" by (simp add: small_usd_def)
    have t: "at_mode a = Tokens \<Longrightarrow> reserved_usd a = None \<and> actual_usd a = None"
      using sound_attemptD(2) [OF that(1)] by (simp add: attempt_mode_ok_def)
    have "small_usd (opt_or (reserved_usd a) 0)" "small_usd (opt_or (actual_usd a) 0)" "small_usd (opt_or (ch_usd c) 0)"
      using that(3,4) small_opt by (auto simp: small_attempt_def small_charge_def)
    then show ?thesis
      using charged that(2) t z
      by (cases "at_mode a")
         (auto simp: usd_delta_def share_defs settled_balances_def settled_attempt_of_def Let_def
            small_summary_def small_sub small_add_sub small_sub [where y = 0, simplified])
  qed
qed

section \<open>Reservation\<close>

lemma fixed_amount_nonneg: "fixed_amount d = Inr u \<Longrightarrow> 0 \<le> u"
  by (cases d) (auto simp: fixed_amount_def guardR_eq_Inr Let_def pos_imp_zdiv_nonneg_iff)

lemma reserve_tokens_Inr:
  assumes "reserve_ledger sha s i n now usd price assurance = Inr (s', a)" "sm_mode s = Tokens"
  shows "id_scope i = sm_scope s" "enabled s" "usd = None" "price = None"
    "a = new_attempt i (sm_epoch s) n Tokens None None now" "sound_attempt sha a"
    "enforce s \<Longrightarrow> n \<le> available_tokens s"
    "enforce s \<Longrightarrow> require_verified_bound s \<Longrightarrow> assurance = ''verified_upper_bound''"
    "sm_updated_at s \<le> now" "valid_summary s'"
    "s' = s\<lparr>active_reserved_tokens := active_reserved_tokens s + n, version := version s + 1, sm_updated_at := now\<rparr>"
proof -
  have m: "sm_mode s \<noteq> Usd" using assms(2) by simp
  note u = assms(1) [unfolded reserve_ledger_def if_not_P [OF m] guardR_eq_Inr]
  then obtain b where mk: "make_attempt sha (new_attempt i (sm_epoch s) n Tokens None None now) = Inr b"
    by (cases "make_attempt sha (new_attempt i (sm_epoch s) n Tokens None None now)") auto
  note v = u [unfolded mk bindR_simps guardR_eq_Inr]
  then obtain s2 where ad: "advance_summary s now (\<lambda>x. x\<lparr>active_reserved_tokens := active_reserved_tokens s + n\<rparr>) = Inr s2"
    by (cases "advance_summary s now (\<lambda>x. x\<lparr>active_reserved_tokens := active_reserved_tokens s + n\<rparr>)") auto
  note w = v [unfolded ad bindR_simps]
  have a: "a = b" "s' = s2" using w by auto
  show "id_scope i = sm_scope s" "enabled s" "usd = None" "price = None"
    "enforce s \<Longrightarrow> n \<le> available_tokens s"
    "enforce s \<Longrightarrow> require_verified_bound s \<Longrightarrow> assurance = ''verified_upper_bound''"
    using w by auto
  show "a = new_attempt i (sm_epoch s) n Tokens None None now" "sound_attempt sha a"
    using mk a by (auto simp: make_attempt_sound)
  show "sm_updated_at s \<le> now" "valid_summary s'"
    "s' = s\<lparr>active_reserved_tokens := active_reserved_tokens s + n, version := version s + 1, sm_updated_at := now\<rparr>"
    using ad a by (auto simp: advance_summary_Inr)
qed

lemma reserve_usd_Inr:
  assumes "reserve_ledger sha s i n now usd price assurance = Inr (s', a)" "sm_mode s = Usd"
  shows "\<exists>d u p. usd = Some d \<and> price = Some p \<and> fixed_amount d = Inr u
    \<and> uuid_canon (model_id i) = Some (pj_model_id p) \<and> pj_updated_at p \<le> now
    \<and> id_scope i = sm_scope s \<and> enabled s \<and> (enforce s \<longrightarrow> u \<le> opt_or (available_usd s) 0)
    \<and> a = new_attempt i (sm_epoch s) n Usd (Some u) (Some p) now \<and> sound_attempt sha a
    \<and> sm_updated_at s \<le> now \<and> valid_summary s'
    \<and> s' = s\<lparr>active_reserved_usd := usd28 (active_reserved_usd s + u), version := version s + 1, sm_updated_at := now\<rparr>"
proof -
  note u = assms(1) [unfolded reserve_ledger_def if_P [OF assms(2)] guardR_eq_Inr]
  then obtain d p where dp: "usd = Some d" "price = Some p"
    by (cases usd; cases price) (auto simp: reserve_usd_def)
  note v = u [unfolded reserve_usd_def dp prod.case option.case guardR_eq_Inr]
  obtain x where x: "fixed_amount d = Inr x"
    using v by (cases "fixed_amount d") auto
  note w = v [unfolded x bindR_simps guardR_eq_Inr]
  let ?b = "new_attempt i (sm_epoch s) n Usd (Some x) (Some p) now"
  obtain b where mk: "make_attempt sha ?b = Inr b" using w by (cases "make_attempt sha ?b") auto
  note y = w [unfolded mk bindR_simps]
  let ?f = "\<lambda>z::summary. z\<lparr>active_reserved_usd := usd28 (active_reserved_usd s + x)\<rparr>"
  obtain s2 where ad: "advance_summary s now ?f = Inr s2" using y by (cases "advance_summary s now ?f") auto
  note z = y [unfolded ad bindR_simps]
  show ?thesis
    using z ad mk by (intro exI [of _ d] exI [of _ x] exI [of _ p])
      (auto simp: dp x advance_summary_Inr make_attempt_sound not_less)
qed

text \<open>
  Admission in token mode: a reservation is granted exactly when nothing is enforced or the balance
  covers it, and the committed tokens then stay within the limit.
\<close>

definition committed_tokens :: "summary \<Rightarrow> int" where
  "committed_tokens s = confirmed_tokens s + active_reserved_tokens s + upper_bound_tokens s"

text \<open>
  C5. A token reservation under enforcement succeeds only when the committed tokens (confirmed,
  active and upper bound) with it stay within the limit, and it commits exactly the requested
  tokens.
\<close>

theorem reservation_within_limit:
  assumes "reserve_ledger sha s i n now usd price assurance = Inr (s', a)"
    "sm_mode s = Tokens" "enforce s"
  shows "committed_tokens s' = committed_tokens s + n \<and> committed_tokens s' \<le> token_limit s'
    \<and> 1 \<le> n \<and> 0 \<le> available_tokens s'"
proof -
  note r = reserve_tokens_Inr [OF assms(1,2)]
  have "1 \<le> n" using sound_attemptD(3) [OF r(6)] r(5) by (simp add: attempt_fields_def new_attempt_def)
  with r(7) [OF assms(3)] show ?thesis
    by (simp add: r(11) committed_tokens_def available_tokens_def)
qed

theorem reservation_decision:
  assumes "sm_mode s = Tokens" "enabled s" "enforce s" "id_scope i = sm_scope s"
    "sound_attempt sha (new_attempt i (sm_epoch s) n Tokens None None now)"
  shows "reserve_ledger sha s i n now None None ''verified_upper_bound'' =
    (if available_tokens s < n
     then Inl (LedgerAdmissionDenied
            (if token_limit s \<le> confirmed_tokens s + upper_bound_tokens s then ''budget_exhausted''
             else if confirmed_tokens s + upper_bound_tokens s + n \<le> token_limit s
             then ''budget_temporarily_reserved'' else ''budget_request_bound_exceeds_balance''))
     else bindR (advance_summary s now (\<lambda>x. x\<lparr>active_reserved_tokens := active_reserved_tokens s + n\<rparr>))
            (\<lambda>s'. Inr (s', new_attempt i (sm_epoch s) n Tokens None None now)))"
  using assms by (simp add: reserve_ledger_def guardR_def sound_attempt_def denial_code_def)

section \<open>Settlement\<close>

text \<open>Evidence never weakens, and a charge that was taken is not taken again.\<close>



text \<open>Producer evidence is final: no charge changes an attempt that holds it.\<close>

theorem completion_is_final:
  assumes "completion_evidence a \<noteq> None" "ch_resolution c = None"
  shows "\<not> (\<exists>s' a'. settle_ledger sha s a c now = Inr (Advanced s' a'))"
proof
  assume "\<exists>s' a'. settle_ledger sha s a c now = Inr (Advanced s' a')"
  then obtain s' a' where "settle_ledger sha s a c now = Inr (Advanced s' a')" by blast
  then show False
    by (cases rule: settle_Inr) (use assms in \<open>auto simp: charge_kept_def guardR_def split: if_split_asm\<close>)
qed

section \<open>Transitions\<close>

text \<open>The states from which a transition may still move an attempt.\<close>

theorem transition_states:
  assumes "transition_ledger_attempt sha s a st now = Inr (Advanced s' a')"
  shows "at_state a \<in> HOLDING \<and> at_state a' = st
    \<and> (at_state a, st) \<in> {(Reserved, Dispatching), (Dispatching, Uncertain), (Reserved, Cancelled),
         (Reserved, Upper_bound), (Dispatching, Upper_bound), (Uncertain, Upper_bound)}
    \<and> (st = Cancelled \<longrightarrow> at_state a = Reserved)"
  using assms
proof (cases rule: transition_Inr)
  case (1 srcs)
  then show ?thesis by (cases st) (auto simp: allowed_from_def)
qed

end
