(* ===== verification/Ledger_Complete.thy ===== *)
theory Ledger_Complete
  imports Ledger_Ops
begin

text \<open>
  \<open>complete_ledger\<close> of \<open>turnstile_core/domain/ledger.py\<close>: the typed ledger hands its summary, attempt
  and admission receipt as JSON to \<open>completion_transaction\<close>, and reads the settled pair back.
\<close>

section \<open>Summaries as JSON\<close>

definition flag_entry :: "string \<Rightarrow> bool \<Rightarrow> dict" where
  "flag_entry k b = (if b then [(k, PBool True)] else [])"

definition usd_entry :: "string \<Rightarrow> int \<Rightarrow> dict" where
  "usd_entry k u = (if u = 0 then [] else [(k, usd_json u)])"

definition summary_json :: "summary \<Rightarrow> dict" where
  "summary_json s =
     [(''protocol_version'', PInt 2), (''epoch'', PStr (sm_epoch s)), (''scope'', scope_json (sm_scope s)),
      (''version'', PInt (version s)), (''policy_revision'', PInt (policy_revision s)),
      (''token_limit'', PInt (token_limit s))]
     @ mode_entry (sm_mode s) @ opt_entry ''usd_limit'' usd_json (usd_limit s)
     @ [(''enforce'', PBool (enforce s)), (''enabled'', PBool (enabled s))]
     @ flag_entry ''require_verified_bound'' (require_verified_bound s)
     @ [(''confirmed_tokens'', PInt (confirmed_tokens s)),
        (''active_reserved_tokens'', PInt (active_reserved_tokens s)),
        (''upper_bound_tokens'', PInt (upper_bound_tokens s))]
     @ usd_entry ''confirmed_usd'' (confirmed_usd s)
     @ usd_entry ''active_reserved_usd'' (active_reserved_usd s)
     @ usd_entry ''upper_bound_usd'' (upper_bound_usd s)
     @ [(''updated_at'', time_json (sm_updated_at s))]"

definition summary_keys :: "string list" where
  "summary_keys = [''protocol_version'', ''epoch'', ''scope'', ''version'', ''policy_revision'',
     ''token_limit'', ''budget_mode'', ''usd_limit'', ''enforce'', ''enabled'', ''require_verified_bound'',
     ''confirmed_tokens'', ''active_reserved_tokens'', ''upper_bound_tokens'', ''confirmed_usd'',
     ''active_reserved_usd'', ''upper_bound_usd'', ''updated_at'']"

definition bool_field :: "dict \<Rightarrow> string \<Rightarrow> bool option \<Rightarrow> bool res" where
  "bool_field d k dflt =
     (case (map_of d k, dflt) of
        (Some (PBool b), _) \<Rightarrow> Inr b
      | (None, Some b) \<Rightarrow> Inr b
      | _ \<Rightarrow> read_error k)"

text \<open>A balance or counter with a default of 0.\<close>

definition int_or_zero :: "dict \<Rightarrow> string \<Rightarrow> int res" where
  "int_or_zero d k = (if has_key d k then int_field (dfield d k) else Inr 0)"

definition usd_or_zero :: "dict \<Rightarrow> string \<Rightarrow> int res" where
  "usd_or_zero d k =
     (if \<not> has_key d k then Inr 0
      else bindR (usd_of_json (dfield d k)) (\<lambda>u. case u of None \<Rightarrow> read_error k | Some n \<Rightarrow> Inr n))"

definition summary_of_json :: "dict \<Rightarrow> summary res" where
  "summary_of_json d =
     guardR (\<not> only_keys summary_keys d
         \<or> (has_key d ''protocol_version'' \<and> \<not> py_eq (dfield d ''protocol_version'') (PInt 2)))
       (ValidationError ''LedgerSummary'')
    (bindR (field_error ''LedgerSummary'' (uuid_of (dfield d ''epoch''))) (\<lambda>epoch.
     bindR (scope_of_json (dfield d ''scope'')) (\<lambda>scp.
     bindR (int_or_zero d ''version'') (\<lambda>ver. bindR (int_or_zero d ''policy_revision'') (\<lambda>rv.
     bindR (int_field (dfield d ''token_limit'')) (\<lambda>lim.
     bindR (mode_field d) (\<lambda>mode. bindR (usd_of_json (dfield d ''usd_limit'')) (\<lambda>ulim.
     bindR (bool_field d ''enforce'' None) (\<lambda>enf. bindR (bool_field d ''enabled'' (Some True)) (\<lambda>ena.
     bindR (bool_field d ''require_verified_bound'' (Some False)) (\<lambda>req.
     bindR (int_or_zero d ''confirmed_tokens'') (\<lambda>c.
     bindR (int_or_zero d ''active_reserved_tokens'') (\<lambda>ac.
     bindR (int_or_zero d ''upper_bound_tokens'') (\<lambda>ub.
     bindR (usd_or_zero d ''confirmed_usd'') (\<lambda>cu.
     bindR (usd_or_zero d ''active_reserved_usd'') (\<lambda>au.
     bindR (usd_or_zero d ''upper_bound_usd'') (\<lambda>uu.
     bindR (field_error ''LedgerSummary'' (utc_time (dfield d ''updated_at''))) (\<lambda>t.
     make_summary \<lparr>sm_epoch = epoch, sm_scope = scp, version = ver, policy_revision = rv,
       token_limit = lim, sm_mode = mode, usd_limit = ulim, enforce = enf, enabled = ena,
       require_verified_bound = req, confirmed_tokens = c, active_reserved_tokens = ac,
       upper_bound_tokens = ub, confirmed_usd = cu, active_reserved_usd = au, upper_bound_usd = uu,
       sm_updated_at = t\<rparr>))))))))))))))))))"

section \<open>Attempts as JSON\<close>

definition attempt_json :: "attempt \<Rightarrow> dict" where
  "attempt_json a =
     [(''identity'', identity_json (at_identity a)), (''epoch'', PStr (at_epoch a)),
      (''state'', PStr (state_text (at_state a))), (''reserved_tokens'', PInt (reserved_tokens a))]
     @ mode_entry (at_mode a) @ opt_entry ''reserved_usd'' usd_json (reserved_usd a)
     @ opt_entry ''actual_usd'' usd_json (actual_usd a)
     @ opt_entry ''price_snapshot'' projection_json (price_snapshot a)
     @ opt_entry ''price_etag'' PStr (price_etag a)
     @ [(''actual_tokens'', json_opt PInt (actual_tokens a)),
        (''evidence_revision'', PInt (evidence_revision a)),
        (''evidence_key'', json_opt PStr (at_evidence_key a)),
        (''evidence_rank'', PInt (evidence_rank a)),
        (''completion_evidence'', json_opt PDict (completion_evidence a))]
     @ opt_entry ''rejection_policy'' PDict (rejection_policy a)
     @ opt_entry ''rejection_evidence'' PDict (rejection_evidence a)
     @ opt_entry ''resolution_evidence'' PDict (resolution_evidence a)
     @ [(''updated_at'', time_json (at_updated_at a))]"

definition attempt_keys :: "string list" where
  "attempt_keys = [''identity'', ''epoch'', ''state'', ''reserved_tokens'', ''budget_mode'',
     ''reserved_usd'', ''actual_usd'', ''price_snapshot'', ''price_etag'', ''actual_tokens'',
     ''evidence_revision'', ''evidence_key'', ''evidence_rank'', ''completion_evidence'',
     ''rejection_policy'', ''rejection_evidence'', ''resolution_evidence'', ''updated_at'']"

definition all_states :: "attempt_state list" where
  "all_states = [Reserved, Dispatching, Uncertain, Settled, Upper_bound, Cancelled, Released]"

definition state_of_json :: "pv \<Rightarrow> attempt_state res" where
  "state_of_json v =
     (case find (\<lambda>st. v = PStr (state_text st)) all_states of
        None \<Rightarrow> read_error ''state'' | Some st \<Rightarrow> Inr st)"

definition opt_dict :: "pv \<Rightarrow> dict option res" where
  "opt_dict v = (case v of PNone \<Rightarrow> Inr None | PDict d \<Rightarrow> Inr (Some d) | _ \<Rightarrow> read_error ''dict'')"

definition opt_text :: "pv \<Rightarrow> string option res" where
  "opt_text v = (case v of PNone \<Rightarrow> Inr None | PStr s \<Rightarrow> Inr (Some s) | _ \<Rightarrow> read_error ''str'')"

definition attempt_of_json :: "digest \<Rightarrow> dict \<Rightarrow> attempt res" where
  "attempt_of_json sha d =
     guardR (\<not> only_keys attempt_keys d) (ValidationError ''LedgerAttempt'')
    (bindR (identity_of_json (dfield d ''identity'')) (\<lambda>i.
     bindR (field_error ''LedgerAttempt'' (uuid_of (dfield d ''epoch''))) (\<lambda>epoch.
     bindR (state_of_json (dfield d ''state'')) (\<lambda>st.
     bindR (int_field (dfield d ''reserved_tokens'')) (\<lambda>n.
     bindR (mode_field d) (\<lambda>mode.
     bindR (usd_of_json (dfield d ''reserved_usd'')) (\<lambda>ru.
     bindR (usd_of_json (dfield d ''actual_usd'')) (\<lambda>au.
     bindR (price_field sha d) (\<lambda>price.
     bindR (opt_text (dfield d ''price_etag'')) (\<lambda>etag.
     bindR (opt_int (dfield d ''actual_tokens'')) (\<lambda>actual.
     bindR (int_or_zero d ''evidence_revision'') (\<lambda>rv.
     bindR (opt_text (dfield d ''evidence_key'')) (\<lambda>key.
     bindR (int_or_zero d ''evidence_rank'') (\<lambda>rank.
     bindR (opt_dict (dfield d ''completion_evidence'')) (\<lambda>comp.
     bindR (opt_dict (dfield d ''rejection_policy'')) (\<lambda>pol.
     bindR (opt_dict (dfield d ''rejection_evidence'')) (\<lambda>rej.
     bindR (opt_dict (dfield d ''resolution_evidence'')) (\<lambda>res.
     bindR (field_error ''LedgerAttempt'' (utc_time (dfield d ''updated_at''))) (\<lambda>t.
     make_attempt sha \<lparr>at_identity = i, at_epoch = epoch, at_state = st, reserved_tokens = n,
       at_mode = mode, reserved_usd = ru, actual_usd = au, price_snapshot = price, price_etag = etag,
       actual_tokens = actual, evidence_revision = rv, at_evidence_key = key, evidence_rank = rank,
       completion_evidence = comp, rejection_policy = pol, rejection_evidence = rej,
       resolution_evidence = res, at_updated_at = t\<rparr>)))))))))))))))))))"

section \<open>Completion\<close>

fun exn_text :: "exn \<Rightarrow> string" where
  "exn_text (ValueError s) = s"
| "exn_text (ValidationError s) = s"
| "exn_text (LedgerProtocolConflict s) = s"
| "exn_text (LedgerAdmissionDenied s) = s"
| "exn_text (BillableBudgetExceeded s) = s"
| "exn_text (BillableOutcomeUncertain s) = s"
| "exn_text _ = []"

definition complete_ledger ::
  "digest \<Rightarrow> summary \<Rightarrow> attempt \<Rightarrow> admission_receipt \<Rightarrow> dict \<Rightarrow> instant \<Rightarrow> (summary, attempt) outcome res" where
  "complete_ledger sha s a r completion now =
     (case completion_transaction sha (summary_json s) (attempt_json a) (receipt_json r) completion now of
        Inl e \<Rightarrow> Inl (if is_ValueError e then LedgerProtocolConflict (exn_text e) else e)
      | Inr Kept \<Rightarrow> Inr Kept
      | Inr (Advanced updated settled) \<Rightarrow>
          bindR (summary_of_json updated) (\<lambda>s'.
          bindR (attempt_of_json sha settled) (\<lambda>a'. Inr (Advanced s' a'))))"

section \<open>Reading back what was written\<close>

lemma json_opt_simps [simp]: "json_opt f None = PNone" "json_opt f (Some x) = f x"
  by (simp_all add: json_opt_def)

lemma dfield_append: "dfield (xs @ ys) k = (if has_key xs k then dfield xs k else dfield ys k)"
proof (induction xs)
  case (Cons x xs)
  then show ?case by (cases x) (simp add: dfield_Cons has_key_def)
qed (simp add: has_key_def)

lemma has_key_append: "has_key (xs @ ys) k \<longleftrightarrow> has_key xs k \<or> has_key ys k"
  by (auto simp: has_key_def)

lemma has_key_Cons: "has_key ((k, v) # d) k' \<longleftrightarrow> k = k' \<or> has_key d k'"
  by (auto simp: has_key_def)

lemma has_key_Nil: "\<not> has_key [] k"
  by (simp add: has_key_def)

lemma entry_fields:
  "has_key (opt_entry k f x) k' \<longleftrightarrow> k = k' \<and> x \<noteq> None"
  "dfield (opt_entry k f x) k' = (if k = k' then json_opt f x else PNone)"
  "has_key (flag_entry k b) k' \<longleftrightarrow> k = k' \<and> b"
  "dfield (flag_entry k b) k' = (if k = k' \<and> b then PBool True else PNone)"
  "has_key (usd_entry k u) k' \<longleftrightarrow> k = k' \<and> u \<noteq> 0"
  "dfield (usd_entry k u) k' = (if k = k' \<and> u \<noteq> 0 then usd_json u else PNone)"
  "has_key (mode_entry m) k' \<longleftrightarrow> k' = ''budget_mode'' \<and> m = Usd"
  "dfield (mode_entry m) k' = (if k' = ''budget_mode'' \<and> m = Usd then PStr ''usd'' else PNone)"
  by (cases x; auto simp: opt_entry_def flag_entry_def usd_entry_def mode_entry_def json_opt_def has_key_def
        dfield_Cons split: budget_mode.splits)+

lemmas json_simps = dfield_append has_key_append dfield_Cons has_key_Cons has_key_Nil entry_fields

lemma summary_fields:
  "dfield (summary_json s) ''protocol_version'' = PInt 2"
  "dfield (summary_json s) ''epoch'' = PStr (sm_epoch s)"
  "dfield (summary_json s) ''scope'' = scope_json (sm_scope s)"
  "dfield (summary_json s) ''version'' = PInt (version s)"
  "dfield (summary_json s) ''policy_revision'' = PInt (policy_revision s)"
  "dfield (summary_json s) ''token_limit'' = PInt (token_limit s)"
  "dfield (summary_json s) ''usd_limit'' = json_opt usd_json (usd_limit s)"
  "dfield (summary_json s) ''confirmed_tokens'' = PInt (confirmed_tokens s)"
  "dfield (summary_json s) ''active_reserved_tokens'' = PInt (active_reserved_tokens s)"
  "dfield (summary_json s) ''upper_bound_tokens'' = PInt (upper_bound_tokens s)"
  "dfield (summary_json s) ''updated_at'' = time_json (sm_updated_at s)"
  by (simp_all add: summary_json_def json_simps)

lemma only_keys_simps:
  "only_keys ks []" "only_keys ks ((k, v) # d) \<longleftrightarrow> k \<in> set ks \<and> only_keys ks d"
  "only_keys ks (xs @ ys) \<longleftrightarrow> only_keys ks xs \<and> only_keys ks ys"
  by (simp_all add: only_keys_def)

lemma only_keys_entries:
  "k \<in> set ks \<Longrightarrow> only_keys ks (opt_entry k f x)" "k \<in> set ks \<Longrightarrow> only_keys ks (flag_entry k b)"
  "k \<in> set ks \<Longrightarrow> only_keys ks (usd_entry k u)" "''budget_mode'' \<in> set ks \<Longrightarrow> only_keys ks (mode_entry m)"
  by (auto simp: only_keys_def opt_entry_def flag_entry_def usd_entry_def mode_entry_def
      split: option.split budget_mode.split)

lemma summary_only_keys: "only_keys summary_keys (summary_json s)"
  by (simp add: summary_json_def only_keys_simps only_keys_entries summary_keys_def)

lemma usd_or_zero_again:
  assumes "usd_amount u" "has_key d k \<longleftrightarrow> u \<noteq> 0" "u \<noteq> 0 \<Longrightarrow> dfield d k = usd_json u"
  shows "usd_or_zero d k = Inr u"
  using assms usd_json_again by (auto simp: usd_or_zero_def)

lemma map_of_dfield: "map_of d k = (if has_key d k then Some (dfield d k) else None)"
proof (cases "map_of d k")
  case None
  then show ?thesis by (simp add: has_key_def map_of_eq_None_iff)
next
  case (Some v)
  then have "has_key d k" unfolding has_key_def by (metis map_of_eq_None_iff option.distinct(1) set_map)
  with Some show ?thesis by (simp add: dfield_def)
qed

lemma bool_field_dfield:
  "bool_field d k dflt = (if has_key d k then (case dfield d k of PBool b \<Rightarrow> Inr b | _ \<Rightarrow> read_error k)
     else case dflt of Some b \<Rightarrow> Inr b | None \<Rightarrow> read_error k)"
  by (auto simp: bool_field_def map_of_dfield split: pv.splits option.splits)

lemma mode_field_entry:
  "(has_key d ''budget_mode'' \<longleftrightarrow> m = Usd) \<Longrightarrow> (m = Usd \<Longrightarrow> dfield d ''budget_mode'' = PStr ''usd'') \<Longrightarrow>
     mode_field d = Inr m"
  by (cases m) (simp_all add: mode_field_def mode_of_json_def)

lemma opt_usd_again: "opt_all usd_amount u \<Longrightarrow> usd_of_json (json_opt usd_json u) = Inr u"
  by (cases u) (simp_all add: opt_all_def usd_json_again, simp add: usd_of_json_def)

lemma summary_json_inverse:
  assumes "valid_summary s" shows "summary_of_json (summary_json s) = Inr s"
proof -
  note v = assms [unfolded valid_summary_def]
  have m: "mode_field (summary_json s) = Inr (sm_mode s)"
    by (rule mode_field_entry) (simp_all add: summary_json_def json_simps)
  have b: "bool_field (summary_json s) ''enforce'' None = Inr (enforce s)"
    "bool_field (summary_json s) ''enabled'' (Some True) = Inr (enabled s)"
    "bool_field (summary_json s) ''require_verified_bound'' (Some False) = Inr (require_verified_bound s)"
    by (simp_all add: bool_field_dfield summary_json_def json_simps)
  have i: "int_or_zero (summary_json s) ''version'' = Inr (version s)"
    "int_or_zero (summary_json s) ''policy_revision'' = Inr (policy_revision s)"
    "int_or_zero (summary_json s) ''confirmed_tokens'' = Inr (confirmed_tokens s)"
    "int_or_zero (summary_json s) ''active_reserved_tokens'' = Inr (active_reserved_tokens s)"
    "int_or_zero (summary_json s) ''upper_bound_tokens'' = Inr (upper_bound_tokens s)"
    by (simp_all add: int_or_zero_def int_field_def summary_json_def json_simps)
  have u: "usd_or_zero (summary_json s) ''confirmed_usd'' = Inr (confirmed_usd s)"
    "usd_or_zero (summary_json s) ''active_reserved_usd'' = Inr (active_reserved_usd s)"
    "usd_or_zero (summary_json s) ''upper_bound_usd'' = Inr (upper_bound_usd s)"
    by (rule usd_or_zero_again; use v in \<open>simp add: summary_json_def json_simps\<close>)+
  show ?thesis
    using v
    by (simp add: summary_of_json_def summary_only_keys m b i u summary_fields uuid_again scope_again
        opt_usd_again field_error_def time_again int_field_def scalar_eq_def dec_eq_def dec_cmp_def)
      (use assms in \<open>cases s; simp add: make_summary_def checked_def\<close>)
qed

lemma attempt_only_keys: "only_keys attempt_keys (attempt_json a)"
  by (simp add: attempt_json_def only_keys_simps only_keys_entries attempt_keys_def)

lemma attempt_fields_json:
  "dfield (attempt_json a) ''identity'' = identity_json (at_identity a)"
  "dfield (attempt_json a) ''epoch'' = PStr (at_epoch a)"
  "dfield (attempt_json a) ''state'' = PStr (state_text (at_state a))"
  "dfield (attempt_json a) ''reserved_tokens'' = PInt (reserved_tokens a)"
  "dfield (attempt_json a) ''reserved_usd'' = json_opt usd_json (reserved_usd a)"
  "dfield (attempt_json a) ''actual_usd'' = json_opt usd_json (actual_usd a)"
  "dfield (attempt_json a) ''price_snapshot'' = json_opt projection_json (price_snapshot a)"
  "dfield (attempt_json a) ''price_etag'' = json_opt PStr (price_etag a)"
  "dfield (attempt_json a) ''actual_tokens'' = json_opt PInt (actual_tokens a)"
  "dfield (attempt_json a) ''evidence_revision'' = PInt (evidence_revision a)"
  "dfield (attempt_json a) ''evidence_key'' = json_opt PStr (at_evidence_key a)"
  "dfield (attempt_json a) ''evidence_rank'' = PInt (evidence_rank a)"
  "dfield (attempt_json a) ''completion_evidence'' = json_opt PDict (completion_evidence a)"
  "dfield (attempt_json a) ''rejection_policy'' = json_opt PDict (rejection_policy a)"
  "dfield (attempt_json a) ''rejection_evidence'' = json_opt PDict (rejection_evidence a)"
  "dfield (attempt_json a) ''resolution_evidence'' = json_opt PDict (resolution_evidence a)"
  "dfield (attempt_json a) ''updated_at'' = time_json (at_updated_at a)"
  by (simp_all add: attempt_json_def json_simps)

lemma attempt_keys_json:
  "has_key (attempt_json a) ''evidence_revision''" "has_key (attempt_json a) ''evidence_rank''"
  "has_key (attempt_json a) ''actual_tokens''" "has_key (attempt_json a) ''state''"
  "has_key (attempt_json a) ''identity''" "has_key (attempt_json a) ''epoch''"
  "has_key (attempt_json a) ''reserved_tokens''" "has_key (attempt_json a) ''updated_at''"
  "has_key (attempt_json a) ''budget_mode'' \<longleftrightarrow> at_mode a = Usd"
  by (simp_all add: attempt_json_def json_simps)

lemma state_again: "state_of_json (PStr (state_text st)) = Inr st"
  by (cases st) (simp_all add: state_of_json_def all_states_def)

lemma opt_again:
  shows "opt_text (json_opt PStr x) = Inr x" and "opt_dict (json_opt PDict d) = Inr d" and "opt_int (json_opt PInt n) = Inr n"
  by (auto simp: opt_text_def opt_dict_def opt_int_def json_opt_def split: option.splits)

lemma price_field_again:
  assumes "opt_all (sound_projection sha) p" "dfield d ''price_snapshot'' = json_opt projection_json p"
  shows "price_field sha d = Inr p"
proof (cases p)
  case (Some q)
  then have "projection_of_json sha (projection_json q) = Inr q"
    using assms(1) by (simp add: opt_all_def projection_again)
  moreover have "projection_json q \<noteq> PNone" by (simp add: projection_json_def)
  ultimately show ?thesis using assms(2) Some by (simp add: price_field_def)
qed (use assms(2) in \<open>simp add: price_field_def\<close>)

lemma sound_attempt_price: "sound_attempt sha a \<Longrightarrow> opt_all (sound_projection sha) (price_snapshot a)"
  by (cases "price_snapshot a")
     (auto simp: sound_attempt_def make_attempt_def opt_all_def guardR_eq_Inr sound_projection_def bindR_eq_Inr
        make_projection_def in_validator_eq_Inr)

lemma attempt_json_inverse:
  assumes "sound_attempt sha a" shows "attempt_of_json sha (attempt_json a) = Inr a"
proof -
  note v = sound_attemptD(3) [OF assms, unfolded attempt_fields_def]
  have m: "mode_field (attempt_json a) = Inr (at_mode a)"
    by (rule mode_field_entry) (simp_all add: attempt_json_def json_simps)
  have i: "int_or_zero (attempt_json a) ''evidence_revision'' = Inr (evidence_revision a)"
    "int_or_zero (attempt_json a) ''evidence_rank'' = Inr (evidence_rank a)"
    by (simp_all add: int_or_zero_def int_field_def attempt_keys_json attempt_fields_json)
  have p: "price_field sha (attempt_json a) = Inr (price_snapshot a)"
    by (rule price_field_again [OF sound_attempt_price [OF assms]]) (simp add: attempt_fields_json)
  show ?thesis
    using v
    by (simp add: attempt_of_json_def attempt_only_keys attempt_fields_json m i p identity_again uuid_again
        field_error_def state_again int_field_def opt_usd_again opt_again time_again)
      (use assms in \<open>cases a; simp add: sound_attempt_def\<close>)
qed

section \<open>What a completed ledger holds\<close>

lemma summary_of_json_Inr:
  assumes "summary_of_json d = Inr s"
  shows "valid_summary s" "uuid_of (dfield d ''epoch'') = Inr (sm_epoch s)"
    "scope_of_json (dfield d ''scope'') = Inr (sm_scope s)"
    "int_or_zero d ''version'' = Inr (version s)" "int_or_zero d ''policy_revision'' = Inr (policy_revision s)"
    "int_field (dfield d ''token_limit'') = Inr (token_limit s)" "mode_field d = Inr (sm_mode s)"
    "usd_of_json (dfield d ''usd_limit'') = Inr (usd_limit s)"
    "bool_field d ''enforce'' None = Inr (enforce s)" "bool_field d ''enabled'' (Some True) = Inr (enabled s)"
    "bool_field d ''require_verified_bound'' (Some False) = Inr (require_verified_bound s)"
    "int_or_zero d ''confirmed_tokens'' = Inr (confirmed_tokens s)"
    "int_or_zero d ''active_reserved_tokens'' = Inr (active_reserved_tokens s)"
    "int_or_zero d ''upper_bound_tokens'' = Inr (upper_bound_tokens s)"
    "usd_or_zero d ''confirmed_usd'' = Inr (confirmed_usd s)"
    "usd_or_zero d ''active_reserved_usd'' = Inr (active_reserved_usd s)"
    "usd_or_zero d ''upper_bound_usd'' = Inr (upper_bound_usd s)"
    "utc_time (dfield d ''updated_at'') = Inr (sm_updated_at s)"
  using assms
  by (auto simp: summary_of_json_def guardR_eq_Inr bindR_eq_Inr make_summary_def checked_eq_Inr field_error_eq_Inr)

lemma attempt_of_json_Inr:
  assumes "attempt_of_json sha d = Inr a"
  shows "sound_attempt sha a" "identity_of_json (dfield d ''identity'') = Inr (at_identity a)"
    "uuid_of (dfield d ''epoch'') = Inr (at_epoch a)" "state_of_json (dfield d ''state'') = Inr (at_state a)"
    "int_field (dfield d ''reserved_tokens'') = Inr (reserved_tokens a)" "mode_field d = Inr (at_mode a)"
    "usd_of_json (dfield d ''reserved_usd'') = Inr (reserved_usd a)"
    "usd_of_json (dfield d ''actual_usd'') = Inr (actual_usd a)"
    "price_field sha d = Inr (price_snapshot a)" "opt_int (dfield d ''actual_tokens'') = Inr (actual_tokens a)"
    "int_or_zero d ''evidence_rank'' = Inr (evidence_rank a)"
    "int_or_zero d ''evidence_revision'' = Inr (evidence_revision a)"
    "opt_dict (dfield d ''completion_evidence'') = Inr (completion_evidence a)"
    "utc_time (dfield d ''updated_at'') = Inr (at_updated_at a)"
  using assms
  by (auto simp: attempt_of_json_def guardR_eq_Inr bindR_eq_Inr make_attempt_sound field_error_eq_Inr)

lemma complete_Inr:
  assumes "complete_ledger sha s a r c now = Inr (Advanced s' a')"
  obtains updated settled where
    "completion_transaction sha (summary_json s) (attempt_json a) (receipt_json r) c now
       = Inr (Advanced updated settled)"
    "summary_of_json updated = Inr s'" "attempt_of_json sha settled = Inr a'"
proof (cases "completion_transaction sha (summary_json s) (attempt_json a) (receipt_json r) c now")
  case (Inr z)
  show thesis
  proof (cases z)
    case (Advanced updated settled)
    with assms Inr have u: "bindR (summary_of_json updated) (\<lambda>s'.
          bindR (attempt_of_json sha settled) (\<lambda>a'. Inr (Advanced s' a'))) = Inr (Advanced s' a')"
      by (simp add: complete_ledger_def)
    then obtain s1 where s1: "summary_of_json updated = Inr s1" by (cases "summary_of_json updated") auto
    with u obtain a1 where "attempt_of_json sha settled = Inr a1"
      by (cases "attempt_of_json sha settled") auto
    with u s1 Inr Advanced that show thesis by auto
  qed (use assms Inr in \<open>simp add: complete_ledger_def\<close>)
qed (use assms in \<open>simp add: complete_ledger_def\<close>)

text \<open>The fields a transaction leaves alone.\<close>

definition kept_summary_keys :: "string list" where
  "kept_summary_keys = [''protocol_version'', ''epoch'', ''scope'', ''policy_revision'', ''token_limit'',
     ''budget_mode'', ''usd_limit'', ''enforce'', ''enabled'', ''require_verified_bound'']"

lemma mode_of_json_forms:
  "mode_of (summary_json s) = PStr (mode_text (sm_mode s))"
  "mode_of (attempt_json a) = PStr (mode_text (at_mode a))"
  by (cases "sm_mode s"; simp add: mode_of_def dget_or_def summary_json_def json_simps)
     (cases "at_mode a"; simp add: mode_of_def dget_or_def attempt_json_def json_simps)

lemma mode_text_eq: "mode_text m = mode_text n \<longleftrightarrow> m = n" "mode_text m = ''usd'' \<longleftrightarrow> m = Usd"
  by (cases m; cases n; simp)+

lemma token_changes_usd:
  "token_changes s e n st prev True = Inr ch \<Longrightarrow> ch = [(''version'', PInt (int_of (dfield s ''version'') + 1))]"
  by (auto simp: token_changes_def res_simps)

text \<open>A summary whose kept fields are those of \<open>s\<close> reads back with the frame of \<open>s\<close>.\<close>

lemma summary_frame:
  assumes "summary_of_json d = Inr s'" "valid_summary s"
    "\<And>k. k \<in> set kept_summary_keys \<Longrightarrow> dfield d k = dfield (summary_json s) k \<and> has_key d k = has_key (summary_json s) k"
  shows "sm_epoch s' = sm_epoch s" "sm_scope s' = sm_scope s" "policy_revision s' = policy_revision s"
    "token_limit s' = token_limit s" "sm_mode s' = sm_mode s" "usd_limit s' = usd_limit s"
    "enforce s' = enforce s" "enabled s' = enabled s" "require_verified_bound s' = require_verified_bound s"
proof -
  note r = summary_of_json_Inr [OF assms(1)]
  note o = summary_of_json_Inr [OF summary_json_inverse [OF assms(2)]]
  have k: "dfield d k = dfield (summary_json s) k" "has_key d k = has_key (summary_json s) k"
    if "k \<in> set kept_summary_keys" for k using assms(3) [OF that] by blast+
  have m: "mode_field d = mode_field (summary_json s)"
    by (simp add: mode_field_def k kept_summary_keys_def)
  have b: "bool_field d k x = bool_field (summary_json s) k x"
    if "k \<in> {''enforce'', ''enabled'', ''require_verified_bound''}" for k x
    using that by (auto simp: bool_field_dfield k kept_summary_keys_def)
  have i: "int_or_zero d ''policy_revision'' = int_or_zero (summary_json s) ''policy_revision''"
    by (simp add: int_or_zero_def k kept_summary_keys_def)
  show "sm_epoch s' = sm_epoch s" using r(2) o(2) k(1) [of "''epoch''"] by (simp add: kept_summary_keys_def)
  show "sm_scope s' = sm_scope s" using r(3) o(3) k(1) [of "''scope''"] by (simp add: kept_summary_keys_def)
  show "policy_revision s' = policy_revision s" using r(5) o(5) i by simp
  show "token_limit s' = token_limit s" using r(6) o(6) k(1) [of "''token_limit''"] by (simp add: kept_summary_keys_def)
  show "sm_mode s' = sm_mode s" using r(7) o(7) m by simp
  show "usd_limit s' = usd_limit s" using r(8) o(8) k(1) [of "''usd_limit''"] by (simp add: kept_summary_keys_def)
  show "enforce s' = enforce s" using r(9) o(9) b by simp
  show "enabled s' = enabled s" using r(10) o(10) b by simp
  show "require_verified_bound s' = require_verified_bound s" using r(11) o(11) b by simp
qed

lemma attempt_frame:
  assumes "attempt_of_json sha (settled_attempt sha (attempt_json a) e usd amt rn at) = Inr a'" "sound_attempt sha a"
  shows "at_identity a' = at_identity a" "at_epoch a' = at_epoch a" "at_mode a' = at_mode a"
    "reserved_tokens a' = reserved_tokens a" "reserved_usd a' = reserved_usd a"
    "price_snapshot a' = price_snapshot a" "at_state a' = Settled"
    "dfield e ''total_tokens'' = PInt n \<Longrightarrow> actual_tokens a' = Some n"
proof -
  note r = attempt_of_json_Inr [OF assms(1)]
  note o = attempt_of_json_Inr [OF attempt_json_inverse [OF assms(2)]]
  note k = settled_attempt_keeps [where sha = sha and a = "attempt_json a" and e = e and usd = usd and
      amt = amt and rn = rn and at = at]
  show "at_identity a' = at_identity a" using r(2) o(2) k [of "''identity''"] by simp
  show "at_epoch a' = at_epoch a" using r(3) o(3) k [of "''epoch''"] by simp
  show "at_mode a' = at_mode a" using r(6) o(6) k [of "''budget_mode''"]
    by (simp add: mode_field_def split: if_split_asm)
  show "reserved_tokens a' = reserved_tokens a" using r(5) o(5) k [of "''reserved_tokens''"] by simp
  show "reserved_usd a' = reserved_usd a" using r(7) o(7) k [of "''reserved_usd''"] by simp
  show "price_snapshot a' = price_snapshot a" using r(9) o(9) k [of "''price_snapshot''"]
    by (simp add: price_field_def split: if_split_asm)
  show "at_state a' = Settled" using r(4) state_again [of Settled] by (simp add: settled_attempt_fields)
  show "dfield e ''total_tokens'' = PInt n \<Longrightarrow> actual_tokens a' = Some n"
    using r(10) by (simp add: settled_attempt_fields opt_int_def)
qed

lemma complete_facts:
  assumes "complete_ledger sha s a r c now = Inr (Advanced s' a')" "valid_summary s" "sound_attempt sha a"
  obtains evidence total where "validate_completion sha c = Inr evidence"
    "dfield evidence ''total_tokens'' = PInt total"
    "same_frame s a s' a'" "valid_summary s'" "sound_attempt sha a'"
    "at_state a' = Settled" "actual_tokens a' = Some total" "at_mode a = sm_mode s"
    "confirmed_tokens s' = confirmed_tokens s
       + (if sm_mode s = Tokens then total - opt_or (actual_tokens a) 0 else 0)"
    "active_reserved_tokens s' = active_reserved_tokens s - active_share a"
    "upper_bound_tokens s' = upper_bound_tokens s - upper_share a"
  using assms(1)
proof (rule complete_Inr)
  fix updated settled
  assume ct: "completion_transaction sha (summary_json s) (attempt_json a) (receipt_json r) c now
       = Inr (Advanced updated settled)"
    and ps: "summary_of_json updated = Inr s'" and pa: "attempt_of_json sha settled = Inr a'"
  show thesis
    using ct
  proof (rule completion_advanced)
    fix e identity actual previous st prior changed usd_changed su au rn at
    let ?s = "summary_json s" and ?a = "attempt_json a"
    let ?usd = "mode_of ?s = PStr ''usd''"
    assume f: "validate_completion sha c = Inr e" "match_admission ?s ?a (receipt_json r) identity e = Inr ()"
      "mode_of ?a = mode_of ?s" "check_shape ?s ?a = Inr st"
      "prior_charge sha ?a identity e st ?usd actual previous = Inr (Some prior)"
      "token_changes ?s e (int_of (dfield (receipt_json r) ''reserved_tokens'')) st prior ?usd = Inr changed"
      "(if ?usd then usd_changes ?s ?a st actual previous else Inr []) = Inr usd_changed"
      and times: "utc_time (dfield ?s ''updated_at'') = Inr su" "utc_time (dfield ?a ''updated_at'') = Inr au"
        "at = max (max now su) au"
      and u: "updated = dputs ?s (changed @ usd_changed @ [(''updated_at'', PStr (iso_utc at))])"
      and w: "settled = settled_attempt sha ?a e ?usd actual rn at"
      and rng: "in_range now"
    note keys = token_changes_keys [OF f(6)] usd_changed_keys [OF f(7)]
    have usd: "?usd \<longleftrightarrow> sm_mode s = Usd" by (simp add: mode_of_json_forms mode_text_eq)
    have mode: "at_mode a = sm_mode s" using f(3) by (simp add: mode_of_json_forms mode_text_eq)
    have keep: "dfield updated k = dfield ?s k \<and> has_key updated k = has_key ?s k"
      if "k \<in> set kept_summary_keys" for k
      unfolding u using that keys
      by (intro conjI dfield_dputs_other has_key_dputs_other) (auto simp: kept_summary_keys_def)
    note frame = summary_frame [OF ps assms(2) keep]
    note aframe = attempt_frame [OF pa [unfolded w] assms(3)]
    note r = summary_of_json_Inr [OF ps]
    have v: "in_range (sm_updated_at s)" "in_range (at_updated_at a)"
      using assms(2) sound_attemptD(3) [OF assms(3)] by (simp_all add: valid_summary_def attempt_fields_def)
    have times': "su = sm_updated_at s" "au = at_updated_at a"
      using times(1,2) v by (simp_all add: summary_fields attempt_fields_json time_again)
    have "in_range at" using rng v times(3) by (simp add: times' max_def)
    moreover have "dfield updated ''updated_at'' = PStr (iso_utc at)"
      unfolding u by (simp add: dfield_dputs)
    ultimately have later: "sm_updated_at s \<le> sm_updated_at s'"
      using r(18) times(3) times'(1) by (simp add: max_def split: if_split_asm)
    obtain total where total: "dfield e ''total_tokens'' = PInt total"
      using f(1) by (cases rule: validate_completion_Inr) (auto simp: receipt_def dfield_Cons)
    have st: "st = PStr (state_text (at_state a))"
      using check_shape_state [OF f(4)] by (simp add: attempt_fields_json)
    have holding: "st \<in> HOLDING_STATES \<longleftrightarrow> at_state a \<in> HOLDING" "st = PStr ''upper_bound'' \<longleftrightarrow> at_state a = Upper_bound"
      "st = PStr ''settled'' \<longleftrightarrow> at_state a = Settled"
      unfolding st by (cases "at_state a"; simp add: HOLDING_STATES_def)+
    have prior: "prior = opt_or (actual_tokens a) 0"
      using prior_charge_Some [OF f(5)] holding(3)
      by (cases "actual_tokens a") (auto simp: attempt_fields_json split: if_split_asm)
    have held: "int_of (dfield (receipt_json r) ''reserved_tokens'') = reserved_tokens a"
      using f(2) by (auto simp: match_admission_def res_simps dint_iff attempt_fields_json Let_def)
    have ints: "confirmed_tokens s' = int_of (dfield updated ''confirmed_tokens'')"
      "active_reserved_tokens s' = int_of (dfield updated ''active_reserved_tokens'')"
      "upper_bound_tokens s' = int_of (dfield updated ''upper_bound_tokens'')"
      "version s' = int_of (dfield updated ''version'')"
      if "\<And>k. k \<in> {''confirmed_tokens'', ''active_reserved_tokens'', ''upper_bound_tokens'', ''version''} \<Longrightarrow>
        has_key updated k"
      using r(12-14) r(4) that by (auto simp: int_or_zero_def int_field_def split: pv.splits)
    have has: "has_key updated k"
      if "k \<in> {''confirmed_tokens'', ''active_reserved_tokens'', ''upper_bound_tokens'', ''version''}" for k
      unfolding u has_key_dputs using that by (auto simp: summary_json_def json_simps)
    have nums: "version s' = version s + 1"
      "confirmed_tokens s' = confirmed_tokens s + (if sm_mode s = Tokens then total - prior else 0)"
      "active_reserved_tokens s' = active_reserved_tokens s - active_share a"
      "upper_bound_tokens s' = upper_bound_tokens s - upper_share a"
      if "sm_mode s = Usd"
    proof -
      have ch: "changed = [(''version'', PInt (version s + 1))]"
        using token_changes_usd [of ?s e _ st prior changed] f(6) that usd by (simp add: summary_fields)
      have other: "dfield updated k = dfield (dput ''version'' (PInt (version s + 1)) ?s) k"
        if "k \<in> {''confirmed_tokens'', ''active_reserved_tokens'', ''upper_bound_tokens'', ''version''}" for k
        unfolding u ch append_Cons append_Nil dputs_simps
        by (rule dfield_dputs_other) (use that keys(2) in auto)
      show "version s' = version s + 1"
        "confirmed_tokens s' = confirmed_tokens s + (if sm_mode s = Tokens then total - prior else 0)"
        "active_reserved_tokens s' = active_reserved_tokens s - active_share a"
        "upper_bound_tokens s' = upper_bound_tokens s - upper_share a"
        using ints has other that mode by (simp_all add: dfield_dput summary_fields share_defs)
    qed
    moreover have "version s' = version s + 1"
      "confirmed_tokens s' = confirmed_tokens s + (if sm_mode s = Tokens then total - prior else 0)"
      "active_reserved_tokens s' = active_reserved_tokens s - active_share a"
      "upper_bound_tokens s' = upper_bound_tokens s - upper_share a"
      if "sm_mode s = Tokens"
    proof -
      have nu: "?usd = False" using that usd by simp
      then have uc: "usd_changed = []" using f(7) by simp
      note tc = token_changes_Inr [OF f(6) [unfolded nu]]
      show "version s' = version s + 1"
        "confirmed_tokens s' = confirmed_tokens s + (if sm_mode s = Tokens then total - prior else 0)"
        "active_reserved_tokens s' = active_reserved_tokens s - active_share a"
        "upper_bound_tokens s' = upper_bound_tokens s - upper_share a"
        using tc ints has that mode held holding
        by (auto simp: u uc dfield_dput summary_fields share_defs total)
    qed
    ultimately have all: "version s' = version s + 1"
      "confirmed_tokens s' = confirmed_tokens s + (if sm_mode s = Tokens then total - prior else 0)"
      "active_reserved_tokens s' = active_reserved_tokens s - active_share a"
      "upper_bound_tokens s' = upper_bound_tokens s - upper_share a"
      by (cases "sm_mode s"; blast)+
    have "same_frame s a s' a'"
      unfolding same_frame_def using frame aframe all(1) later by simp
    then show thesis
      using that [OF f(1) total] r(1) attempt_of_json_Inr(1) [OF pa] aframe(7) aframe(8) [OF total] mode all prior
      by simp
  qed
qed

interpretation complete: ledger_operation sha "\<lambda>s a. complete_ledger sha s a r c now" for sha r c now
proof
  fix s a s' a'
  assume step: "complete_ledger sha s a r c now = Inr (Advanced s' a')"
  from step show "same_frame s a s' a'" if "valid_summary s" "sound_attempt sha a"
    by (rule complete_facts [OF _ that])
  from step show "valid_summary s' \<and> sound_attempt sha a'"
    by (rule complete_Inr) (blast dest: summary_of_json_Inr(1) attempt_of_json_Inr(1))
  from step show "token_delta s a s' a'" if "valid_summary s" "sound_attempt sha a"
  proof (rule complete_facts [OF _ that])
    fix evidence total
    assume "same_frame s a s' a'" "at_state a' = Settled" "actual_tokens a' = Some total" "at_mode a = sm_mode s"
      "confirmed_tokens s' = confirmed_tokens s + (if sm_mode s = Tokens then total - opt_or (actual_tokens a) 0 else 0)"
      "active_reserved_tokens s' = active_reserved_tokens s - active_share a"
      "upper_bound_tokens s' = upper_bound_tokens s - upper_share a"
    then show ?thesis
      by (cases "sm_mode s") (simp_all add: token_delta_def share_defs same_frame_def)
  qed
qed

section \<open>Stored documents\<close>

theorem summary_round_trip:
  assumes "valid_summary s" shows "summary_of_json (summary_json s) = Inr s"
  using assms by (rule summary_json_inverse)

text \<open>
  C9. An attempt that passes its validators and is written as JSON is read back as itself.
\<close>

theorem attempt_round_trip:
  assumes "sound_attempt sha a" shows "attempt_of_json sha (attempt_json a) = Inr a"
  using assms by (rule attempt_json_inverse)

end
