(* ===== verification/Table_Batch.thy ===== *)
theory Table_Batch
  imports Ledger_Complete
begin

text \<open>
  \<open>turnstile_core/integrations/table_batch.py\<close>: the text of a conditional transaction on one
  partition of the table and the check of the service's answer. The two random boundary names are
  arguments; the answer is given by its status, its content type and the payloads of its
  \<open>application/http\<close> parts, as the MIME parser yields them (\<open>None\<close>: not bytes).
\<close>

section \<open>Texts\<close>

definition crlf :: string where "crlf = [char_of (13::nat), char_of (10::nat)]"

definition quote_mark :: string where "quote_mark = [char_of (39::nat)]"

definition utf8_bytes :: "char \<Rightarrow> nat list" where
  "utf8_bytes c = (let n = code_of c in if n < 128 then [n] else [192 + n div 64, 128 + n mod 64])"

definition utf8_length :: "string \<Rightarrow> nat" where
  "utf8_length s = sum_list (map (length \<circ> utf8_bytes) s)"

definition upper_hex :: "nat \<Rightarrow> char" where "upper_hex n = ''0123456789ABCDEF'' ! n"

text \<open>\<open>quote(text, safe="")\<close>.\<close>

definition quote_char :: "char \<Rightarrow> string" where
  "quote_char c =
     (if c \<in> set (letters @ digits10 @ ''_.-~'') then [c]
      else concat (map (\<lambda>b. ''%'' @ map upper_hex [b div 16, b mod 16]) (utf8_bytes c)))"

definition url_quote :: "string \<Rightarrow> string" where "url_quote s = concat (map quote_char s)"

definition rstrip_slash :: "string \<Rightarrow> string" where
  "rstrip_slash s = rev (dropWhile (\<lambda>c. c = CHR ''/'') (rev s))"

definition entity_url :: "string \<Rightarrow> string \<Rightarrow> string \<Rightarrow> string \<Rightarrow> string" where
  "entity_url endpoint tbl part row =
     rstrip_slash endpoint @ ''/'' @ tbl @ ''(PartitionKey='' @ quote_mark @ url_quote part
     @ quote_mark @ '',RowKey='' @ quote_mark @ url_quote row @ quote_mark @ '')''"

section \<open>The transaction\<close>

definition exact_etag :: "string \<Rightarrow> string res" where
  "exact_etag v =
     guardR (is_blank v \<or> v = ''*'' \<or> char_of (13::nat) \<in> set v \<or> char_of (10::nat) \<in> set v)
       (ValueError ''Ledger updates require an exact ETag'') (Inr v)"

record entity_op =
  eo_row :: string
  eo_values :: dict
  eo_etag :: "string option"

definition check_bound :: "string \<Rightarrow> entity_op \<Rightarrow> unit res" where
  "check_bound part e =
     bindR (case eo_etag e of None \<Rightarrow> Inr [] | Some v \<Rightarrow> exact_etag v) (\<lambda>_.
     guardR (dget_or (eo_values e) ''PartitionKey'' (PStr part) \<noteq> PStr part
         \<or> dget_or (eo_values e) ''RowKey'' (PStr (eo_row e)) \<noteq> PStr (eo_row e))
       (ValueError ''All transaction entities must use the bound partition and row key'') (Inr ()))"

definition entity_lines ::
  "string \<Rightarrow> string \<Rightarrow> string \<Rightarrow> string \<Rightarrow> int \<Rightarrow> entity_op \<Rightarrow> string list res" where
  "entity_lines endpoint tbl part changeset index e =
     bindR (check_bound part e) (\<lambda>_.
     bindR (json_dumps False '','' '':'' (PDict (dputs (eo_values e)
              [(''PartitionKey'', PStr part), (''RowKey'', PStr (eo_row e))]))) (\<lambda>document.
     let put = (eo_etag e \<noteq> None);
         address = (if put then entity_url endpoint tbl part (eo_row e)
                    else endpoint @ ''/'' @ tbl) in
     Inr ([''--'' @ changeset, ''Content-Type: application/http'',
           ''Content-Transfer-Encoding: binary'', ''Content-ID: '' @ show_int index, [],
           (if put then ''PUT'' else ''POST'') @ '' '' @ address @ '' HTTP/1.1'',
           ''Content-Type: application/json'', ''Accept: application/json;odata=nometadata'',
           ''Prefer: return-no-content'', ''DataServiceVersion: 3.0;'']
          @ (case eo_etag e of None \<Rightarrow> [] | Some v \<Rightarrow> [''If-Match: '' @ v])
          @ [[], document])))"

fun batch_lines ::
  "string \<Rightarrow> string \<Rightarrow> string \<Rightarrow> string \<Rightarrow> int \<Rightarrow> entity_op list \<Rightarrow> string list res" where
  "batch_lines endpoint tbl part changeset index [] = Inr []"
| "batch_lines endpoint tbl part changeset index (e # es) =
     bindR (entity_lines endpoint tbl part changeset index e) (\<lambda>ls.
     bindR (batch_lines endpoint tbl part changeset (index + 1) es) (\<lambda>rest. Inr (ls @ rest)))"

definition MAX_BATCH_BYTES :: nat where "MAX_BATCH_BYTES = 4 * 1024 * 1024"

definition conditional_batch ::
  "string \<Rightarrow> string \<Rightarrow> string \<Rightarrow> string \<Rightarrow> string \<Rightarrow> entity_op list \<Rightarrow> (string \<times> string) res" where
  "conditional_batch batch_id changeset_id endpoint tbl part entities =
     guardR (entities = [] \<or> 100 < length entities)
       (ValueError ''A ledger transaction must contain 1 to 100 operations'')
    (guardR (length (remdups (map eo_row entities)) \<noteq> length entities)
       (ValueError ''An entity can occur only once in a ledger transaction'')
    (let boundary = ''batch_'' @ batch_id; changeset = ''changeset_'' @ changeset_id in
     bindR (batch_lines endpoint tbl part changeset 1 entities) (\<lambda>body.
     let payload = join_with crlf
           ([''--'' @ boundary, ''Content-Type: multipart/mixed; boundary='' @ changeset, []]
            @ body @ [''--'' @ changeset @ ''--'', ''--'' @ boundary @ ''--'', []])
     in guardR (MAX_BATCH_BYTES < utf8_length payload)
          (ValueError ''Ledger transaction exceeds the 4 MiB limit'')
          (Inr (''multipart/mixed; boundary='' @ boundary, payload)))))"

section \<open>The answer\<close>

fun split_when :: "(char \<Rightarrow> bool) \<Rightarrow> string \<Rightarrow> string list" where
  "split_when p [] = [[]]"
| "split_when p (c # cs) =
     (if p c then [] # split_when p cs
      else case split_when p cs of [] \<Rightarrow> [[c]] | w # ws \<Rightarrow> (c # w) # ws)"

text \<open>\<open>payload.split(sep, 1)[0]\<close>.\<close>

fun before :: "string \<Rightarrow> string \<Rightarrow> string" where
  "before sep [] = []"
| "before sep (c # cs) = (if prefix_of sep (c # cs) then [] else c # before sep cs)"

text \<open>White space of \<open>bytes\<close>, and \<open>bytes.split()\<close>.\<close>

definition is_ascii_space :: "char \<Rightarrow> bool" where
  "is_ascii_space c \<longleftrightarrow> code_of c \<in> set [9, 10, 11, 12, 13, 32]"

definition py_words :: "string \<Rightarrow> string list" where
  "py_words s = filter (\<lambda>w. w \<noteq> []) (split_when is_ascii_space s)"

definition first_line :: "string \<Rightarrow> string" where
  "first_line payload = before crlf (dropWhile is_ascii_space payload)"

definition part_status :: "string option \<Rightarrow> int res" where
  "part_status answer =
     (case answer of
        None \<Rightarrow> Inl (TableBatchUnavailable ''Ledger batch returned an invalid operation result'')
      | Some payload \<Rightarrow>
          (case py_words (first_line payload) of
             vsn # code # _ \<Rightarrow>
               guardR (vsn \<noteq> ''HTTP/1.1'' \<or> \<not> is_digits code)
                 (TableBatchUnavailable ''Ledger batch returned an invalid HTTP status'')
                 (Inr (opt_or (parse_dec 0 code) 0))
           | _ \<Rightarrow> Inl (TableBatchUnavailable ''Ledger batch returned an invalid HTTP status'')))"

definition validate_batch_response :: "int \<Rightarrow> string \<Rightarrow> string option list \<Rightarrow> nat \<Rightarrow> unit res" where
  "validate_batch_response status content_type parts expected =
     guardR (status \<noteq> 202 \<or> \<not> prefix_of ''multipart/mixed'' (py_lower content_type))
       (TableBatchUnavailable ''Ledger batch did not return a multipart transaction result'')
    (bindR (mapR part_status parts) (\<lambda>outcomes.
     guardR (list_ex (\<lambda>code. code \<in> {409, 412}) outcomes)
       (TableBatchConflict ''Ledger changed during the conditional transaction'')
    (guardR (length outcomes \<noteq> expected \<or> list_ex (\<lambda>code. code \<noteq> 204) outcomes)
       (TableBatchUnavailable ''Ledger batch did not confirm every operation'') (Inr ()))))"

section \<open>What is sent and what is confirmed\<close>

lemma mapR_all: "mapR f xs = Inr ys \<longleftrightarrow> length ys = length xs \<and> list_all2 (\<lambda>x y. f x = Inr y) xs ys"
  by (induction xs arbitrary: ys) (auto simp: res_simps list_all2_Cons1 dest: list_all2_lengthD)

theorem batch_confirmed:
  "validate_batch_response status content_type parts expected = Inr () \<longleftrightarrow>
     status = 202 \<and> prefix_of ''multipart/mixed'' (py_lower content_type) \<and> length parts = expected
     \<and> (\<forall>p \<in> set parts. part_status p = Inr 204)"
proof
  assume "validate_batch_response status content_type parts expected = Inr ()"
  then obtain os where a: "status = 202" "prefix_of ''multipart/mixed'' (py_lower content_type)"
    "mapR part_status parts = Inr os" "length os = expected" "\<forall>c \<in> set os. c = 204"
    by (auto simp: validate_batch_response_def res_simps list_ex_iff)
  have l: "length os = length parts" "list_all2 (\<lambda>p c. part_status p = Inr c) parts os"
    using a(3) unfolding mapR_all by simp_all
  have "part_status p = Inr 204" if "p \<in> set parts" for p
  proof -
    obtain i where i: "i < length parts" "p = parts ! i" using \<open>p \<in> set parts\<close> by (metis in_set_conv_nth)
    then have "part_status p = Inr (os ! i)" using l(2) by (simp add: list_all2_conv_all_nth)
    moreover have "os ! i = 204" using a(5) i(1) l(1) by simp
    ultimately show ?thesis by simp
  qed
  then show "status = 202 \<and> prefix_of ''multipart/mixed'' (py_lower content_type) \<and> length parts = expected
     \<and> (\<forall>p \<in> set parts. part_status p = Inr 204)" using a l(1) by simp
next
  assume a: "status = 202 \<and> prefix_of ''multipart/mixed'' (py_lower content_type) \<and> length parts = expected
     \<and> (\<forall>p \<in> set parts. part_status p = Inr 204)"
  then have "mapR part_status parts = Inr (replicate expected 204)"
    unfolding mapR_all by (simp add: list_all2_conv_all_nth)
  then show "validate_batch_response status content_type parts expected = Inr ()"
    using a by (simp add: validate_batch_response_def list_ex_iff)
qed

theorem batch_confirmed_witness:
  "validate_batch_response 202 ''Multipart/Mixed; boundary=x''
     [Some ''HTTP/1.1 204 No Content'', Some ''HTTP/1.1 204 No Content''] 2 = Inr ()"
proof -
  have "part_status (Some ''HTTP/1.1 204 No Content'') = Inr 204"
    "prefix_of ''multipart/mixed'' (py_lower ''Multipart/Mixed; boundary=x'')" by code_simp+
  then show ?thesis by (subst batch_confirmed) simp
qed

lemma exact_etag_ok: "exact_etag v = Inr x \<longleftrightarrow>
   x = v \<and> \<not> is_blank v \<and> v \<noteq> ''*'' \<and> char_of (13::nat) \<notin> set v \<and> char_of (10::nat) \<notin> set v"
  by (auto simp: exact_etag_def res_simps)

lemma batch_lines_bound:
  "batch_lines ep tb part cs i es = Inr ls \<Longrightarrow> e \<in> set es \<Longrightarrow> eo_etag e = Some t \<Longrightarrow> \<exists>x. exact_etag t = Inr x"
proof (induction es arbitrary: i ls)
  case (Cons y es)
  obtain xs rest where x: "entity_lines ep tb part cs i y = Inr xs"
    "batch_lines ep tb part cs (i + 1) es = Inr rest"
    using Cons.prems(1) unfolding batch_lines.simps bindR_eq_Inr by blast
  obtain u where u: "check_bound part y = Inr u"
    using x(1) unfolding entity_lines_def bindR_eq_Inr by blast
  show ?case
  proof (cases "e = y")
    case True
    then show ?thesis using u Cons.prems(3) by (simp add: check_bound_def bindR_eq_Inr)
  next
    case False
    then show ?thesis using Cons.IH [OF x(2)] Cons.prems(2,3) by simp
  qed
qed simp

theorem batch_within_bounds:
  assumes "conditional_batch b c ep tb part es = Inr (content_type, payload)"
  shows "1 \<le> length es \<and> length es \<le> 100 \<and> distinct (map eo_row es) \<and> utf8_length payload \<le> MAX_BATCH_BYTES
    \<and> (\<forall>e \<in> set es. \<forall>t. eo_etag e = Some t \<longrightarrow>
         \<not> is_blank t \<and> t \<noteq> ''*'' \<and> char_of (13::nat) \<notin> set t \<and> char_of (10::nat) \<notin> set t)"
proof -
  note u = assms [unfolded conditional_batch_def guardR_eq_Inr bindR_eq_Inr Let_def]
  have a: "es \<noteq> []" "length es \<le> 100" "length (remdups (map eo_row es)) = length es"
    "\<exists>ls. batch_lines ep tb part (''changeset_'' @ c) 1 es = Inr ls"
    using u by (meson not_less)+
  have "utf8_length payload \<le> MAX_BATCH_BYTES"
    using u by (elim conjE exE) (simp only: sum.inject prod.inject not_less)
  have "1 \<le> length es" using a(1) by (cases es) simp_all
  moreover have "distinct (map eo_row es)"
  proof -
    have "length (remdups (map eo_row es)) = length (map eo_row es)" using a(3) by simp
    then have "remdups (map eo_row es) = map eo_row es" by (simp only: length_remdups_eq)
    then show ?thesis by (simp only: distinct_remdups_id [symmetric] distinct_remdups remdups_id_iff_distinct)
  qed
  moreover have "\<not> is_blank t \<and> t \<noteq> ''*'' \<and> char_of (13::nat) \<notin> set t \<and> char_of (10::nat) \<notin> set t"
    if "e \<in> set es" "eo_etag e = Some t" for e t
    using batch_lines_bound [OF _ that] a(4) exact_etag_ok by blast
  ultimately show ?thesis using a(2) \<open>utf8_length payload \<le> MAX_BATCH_BYTES\<close> by blast
qed

end
