(* ===== verification/Table_Client.thy ===== *)
theory Table_Client
  imports Table_Batch
begin

text \<open>
  \<open>turnstile_core/integrations/atomic_ledger.py\<close>, the client of the table: reading a document with
  its concurrency token and committing conditional transactions. The table service and the clock
  are a record of functions over a world \<open>'w\<close> that also holds what other clients do. A request
  either raises (\<open>TransportError\<close>: the request may or may not have been carried out) or returns a
  response. The \<open>Document\<close> property is given as the JSON value that its text denotes.
\<close>

section \<open>Actions\<close>

type_synonym ('w, 'a) act = "'w \<Rightarrow> 'a res \<times> 'w"

definition doneA :: "'a \<Rightarrow> ('w, 'a) act" where "doneA x w = (Inr x, w)"

definition raiseA :: "exn \<Rightarrow> ('w, 'a) act" where "raiseA e w = (Inl e, w)"

definition liftA :: "'a res \<Rightarrow> ('w, 'a) act" where "liftA r w = (r, w)"

definition bindA :: "('w, 'a) act \<Rightarrow> ('a \<Rightarrow> ('w, 'b) act) \<Rightarrow> ('w, 'b) act" where
  "bindA m f w = (case m w of (Inl e, w') \<Rightarrow> (Inl e, w') | (Inr x, w') \<Rightarrow> f x w')"

definition guardA :: "bool \<Rightarrow> exn \<Rightarrow> ('w, 'a) act \<Rightarrow> ('w, 'a) act" where
  "guardA bad e k = (if bad then raiseA e else k)"

text \<open>\<open>try: m except ...: h\<close>, the handler decides what it catches.\<close>

definition catchA :: "('w, 'a) act \<Rightarrow> (exn \<Rightarrow> ('w, 'a) act) \<Rightarrow> ('w, 'a) act" where
  "catchA m h w = (case m w of (Inl e, w') \<Rightarrow> h e w' | (Inr x, w') \<Rightarrow> (Inr x, w'))"

section \<open>The table service\<close>

text \<open>A conditional entity: its row, its document and the token the row must still have.\<close>

record conditional_entity =
  ce_row :: string
  ce_document :: dict
  ce_pending :: "bool option"
  ce_etag :: "string option"

text \<open>
  A transaction is sent as the text \<open>conditional_batch\<close> builds; the request also carries the
  entities that text describes.
\<close>

datatype table_request =
    Read_entity string string
  | Batch string "conditional_entity list" string
  | Write_entity string string dict "string option"
  | Recovery_page string int "string option" "string option"

record response =
  rs_status :: int
  rs_etag :: "string option"
  rs_body :: pv
  rs_content_type :: string
  rs_parts :: "string option list"
  rs_next :: "string option \<times> string option"

record 'w service =
  sv_send :: "table_request \<Rightarrow> ('w, response) act"
  sv_now :: "'w \<Rightarrow> instant \<times> 'w"
  sv_uuid :: "'w \<Rightarrow> string \<times> 'w"
  sv_endpoint :: string
  sv_table :: string
  sv_sha :: digest

definition now_utc :: "'w service \<Rightarrow> ('w, instant) act" where
  "now_utc sv w = (case sv_now sv w of (t, w') \<Rightarrow> (Inr t, w'))"

definition fresh_hex :: "'w service \<Rightarrow> ('w, string) act" where
  "fresh_hex sv w = (case sv_uuid sv w of (u, w') \<Rightarrow> (Inr u, w'))"

text \<open>\<open>_request\<close>: a rejected token is renewed and the request sent once more.\<close>

definition request :: "'w service \<Rightarrow> table_request \<Rightarrow> ('w, response) act" where
  "request sv q =
     bindA (sv_send sv q) (\<lambda>r. if rs_status r = 401 then sv_send sv q else doneA r)"

definition raise_for_status :: "response \<Rightarrow> ('w, unit) act" where
  "raise_for_status r =
     guardA (\<not> (200 \<le> rs_status r \<and> rs_status r < 300)) (HTTPStatusError (rs_status r)) (doneA ())"

section \<open>Reading\<close>

definition SUMMARY_ROW :: string where "SUMMARY_ROW = ''S''"
definition PRICE_ROW :: string where "PRICE_ROW = ''P''"
definition PRICE_PARTITION_PREFIX :: string where "PRICE_PARTITION_PREFIX = ''budget-price|''"

text \<open>The concurrency token of a response: the header, or the property of the body.\<close>

definition response_etag :: "response \<Rightarrow> dict \<Rightarrow> pv" where
  "response_etag r body =
     (case rs_etag r of
        Some e \<Rightarrow> if e \<noteq> [] then PStr e else dfield body ''odata.etag''
      | None \<Rightarrow> dfield body ''odata.etag'')"

definition usable_etag :: "pv \<Rightarrow> bool" where
  "usable_etag v \<longleftrightarrow>
     is_str v \<and> text_of v \<noteq> [] \<and> text_of v \<noteq> ''*''
     \<and> char_of (10::nat) \<notin> set (text_of v) \<and> char_of (13::nat) \<notin> set (text_of v)"

definition read_response :: "response \<Rightarrow> (dict \<times> string) res" where
  "read_response r =
     bindR (as_dict (rs_body r)) (\<lambda>body.
     guardR (\<not> usable_etag (response_etag r body))
       (LedgerUnavailable ''Ledger read returned no usable concurrency token'')
    (bindR (dget body ''Document'') (\<lambda>document.
     guardR (\<not> is_dict document) (LedgerUnavailable ''Ledger read returned an invalid document'')
       (Inr (items document, text_of (response_etag r body))))))"

definition read_row :: "'w service \<Rightarrow> string \<Rightarrow> string \<Rightarrow> ('w, (dict \<times> string) option) act" where
  "read_row sv part row =
     bindA (request sv (Read_entity part row)) (\<lambda>r.
       if rs_status r = 404 then doneA None
       else bindA (raise_for_status r) (\<lambda>_. bindA (liftA (read_response r)) (\<lambda>x. doneA (Some x))))"

definition read_scope :: "'w service \<Rightarrow> scope \<Rightarrow> string \<Rightarrow> ('w, (dict \<times> string) option) act" where
  "read_scope sv s row = read_row sv (partition_key (sv_sha sv) s) row"

section \<open>Committing\<close>

text \<open>The text of a document (\<open>model_dump_json\<close>) leaves characters outside ASCII as they are.\<close>

fun model_text :: "pv \<Rightarrow> string" where
  "model_text (PStr s) = json_text_raw s"
| "model_text (PList xs) = ''['' @ join_with '','' (map model_text xs) @ '']''"
| "model_text (PDict d) =
     ''{'' @ join_with '','' (map (\<lambda>(k, s). json_text_raw k @ '':'' @ s)
               (map (\<lambda>(k, v). (k, model_text v)) d)) @ ''}''"
| "model_text v = json_render False '','' '':'' v"

definition entity :: "string \<Rightarrow> dict \<Rightarrow> string option \<Rightarrow> conditional_entity" where
  "entity row doc etag = \<lparr>ce_row = row, ce_document = doc, ce_pending = None, ce_etag = etag\<rparr>"

definition document_text :: "dict \<Rightarrow> string res" where
  "document_text doc =
     (let serialized = model_text (PDict doc) in
      guardR (60000 < 2 * length serialized)
        (LedgerProtocolConflict ''Ledger document exceeds its property limit'') (Inr serialized))"

definition batch_entity :: "conditional_entity \<Rightarrow> entity_op res" where
  "batch_entity e =
     bindR (document_text (ce_document e)) (\<lambda>text.
       Inr \<lparr>eo_row = ce_row e,
            eo_values = (''Document'', PStr text)
              # (case ce_pending e of None \<Rightarrow> [] | Some b \<Rightarrow> [(''RecoveryPending'', PBool b)]),
            eo_etag = ce_etag e\<rparr>)"

definition as_conflict :: "'a res \<Rightarrow> 'a res" where
  "as_conflict m =
     (case m of Inl e \<Rightarrow> Inl (if is_ValueError e then LedgerProtocolConflict (exn_text e) else e)
      | Inr x \<Rightarrow> Inr x)"

definition batch_failure :: "'a res \<Rightarrow> 'a res" where
  "batch_failure m =
     (case m of
        Inl (TableBatchConflict s) \<Rightarrow> Inl (LedgerCompareFailed s)
      | Inl (TableBatchUnavailable s) \<Rightarrow> Inl (LedgerUnavailable s)
      | x \<Rightarrow> x)"

definition commit :: "'w service \<Rightarrow> scope \<Rightarrow> conditional_entity list \<Rightarrow> ('w, unit) act" where
  "commit sv s entities =
     (let part = partition_key (sv_sha sv) s in
      bindA (fresh_hex sv) (\<lambda>b. bindA (fresh_hex sv) (\<lambda>c.
      bindA (liftA (as_conflict (bindR (mapR batch_entity entities) (\<lambda>ops.
               conditional_batch b c (sv_endpoint sv) (sv_table sv) part ops))))
        (\<lambda>(content_type, content).
      bindA (request sv (Batch part entities content)) (\<lambda>r.
      bindA (raise_for_status r) (\<lambda>_.
      liftA (batch_failure (validate_batch_response (rs_status r) (rs_content_type r) (rs_parts r)
               (length entities)))))))))"

end
