(* ===== verification/Table_Ledger.thy ===== *)
theory Table_Ledger
  imports Table_Client
begin

text \<open>
  \<open>turnstile_core/integrations/atomic_ledger.py\<close>, \<open>AtomicTableLedger\<close>: every operation reads the
  current rows, computes the new ones with the functions of the domain and commits both rows under
  the concurrency tokens it read, a bounded number of times. A lost answer is handled as a lost
  race: the rows are read again.
\<close>

section \<open>Bounded retries\<close>

text \<open>\<open>max(1, min(attempts, 5))\<close>.\<close>

definition bounded :: "int \<Rightarrow> nat" where "bounded n = nat (max 1 (min n 5))"

text \<open>\<open>except (LedgerCompareFailed, httpx.TransportError)\<close>.\<close>

fun is_lost_race :: "exn \<Rightarrow> bool" where
  "is_lost_race (LedgerCompareFailed _) = True"
| "is_lost_race TransportError = True"
| "is_lost_race _ = False"

text \<open>Commit; on a lost race go on with \<open>again\<close>, otherwise return \<open>x\<close>.\<close>

definition commit_or ::
  "'w service \<Rightarrow> scope \<Rightarrow> conditional_entity list \<Rightarrow> 'a \<Rightarrow> ('w, 'a) act \<Rightarrow> ('w, 'a) act" where
  "commit_or sv s entities x again =
     bindA (catchA (bindA (commit sv s entities) (\<lambda>_. doneA True))
              (\<lambda>e. if is_lost_race e then doneA False else raiseA e))
       (\<lambda>committed. if committed then doneA x else again)"

definition unavailable :: "string \<Rightarrow> exn" where "unavailable msg = LedgerUnavailable msg"

text \<open>A row that must exist.\<close>

definition needed :: "string \<Rightarrow> 'a option \<Rightarrow> ('w, 'a) act" where
  "needed msg x = (case x of None \<Rightarrow> raiseA (unavailable msg) | Some v \<Rightarrow> doneA v)"

section \<open>Summaries and prices\<close>

definition read_summary :: "'w service \<Rightarrow> scope \<Rightarrow> ('w, summary) act" where
  "read_summary sv s =
     bindA (read_scope sv s SUMMARY_ROW) (\<lambda>v.
     bindA (needed ''Budget execution scope is not initialized'' v) (\<lambda>(d, _).
     bindA (liftA (summary_of_json d)) (\<lambda>m.
     guardA (sm_scope m \<noteq> s) (conflict ''Ledger summary belongs to a different scope'') (doneA m))))"

definition price_partition :: "uuid \<Rightarrow> string" where
  "price_partition mid = PRICE_PARTITION_PREFIX @ mid"

definition read_model_price :: "'w service \<Rightarrow> uuid \<Rightarrow> ('w, projection option) act" where
  "read_model_price sv mid =
     bindA (read_row sv (price_partition mid) PRICE_ROW) (\<lambda>v. case v of
       None \<Rightarrow> doneA None
     | Some (d, _) \<Rightarrow>
         bindA (liftA (projection_of_json (sv_sha sv) (PDict d))) (\<lambda>p.
         guardA (pj_model_id p \<noteq> mid) (conflict ''Projected price belongs to another model'')
           (doneA (Some p))))"

text \<open>\<open>replace_if_match\<close> of \<open>TableStorageLedger\<close>: \<open>False\<close> when the token no longer matches.\<close>

definition replace_if_match ::
  "'w service \<Rightarrow> string \<Rightarrow> string \<Rightarrow> dict \<Rightarrow> string option \<Rightarrow> ('w, bool) act" where
  "replace_if_match sv part row doc etag =
     guardA (case etag of None \<Rightarrow> False
             | Some e \<Rightarrow> is_blank e \<or> e = ''*'' \<or> char_of (13::nat) \<in> set e \<or> char_of (10::nat) \<in> set e)
       (ValueError ''A concrete Table entity version is required'')
    (bindA (request sv (Write_entity part row doc etag)) (\<lambda>r.
       if rs_status r \<in> {409, 412} \<or> (etag \<noteq> None \<and> rs_status r = 404) then doneA False
       else bindA (raise_for_status r) (\<lambda>_. doneA True)))"

text \<open>What the stored projection says about a newer one: \<open>Some b\<close> to return, \<open>None\<close> to write.\<close>

definition projection_decision :: "projection \<Rightarrow> projection \<Rightarrow> bool \<Rightarrow> bool option res" where
  "projection_decision stored p create_only =
     guardR (pj_model_id stored \<noteq> pj_model_id p)
       (conflict ''Projected price row has a foreign model identity'')
    (if create_only \<or> pj_price_sha256 stored = pj_price_sha256 p
        \<or> pj_updated_at p < pj_updated_at stored then Inr (Some False)
     else guardR (pj_updated_at stored = pj_updated_at p)
            (conflict ''A price timestamp cannot identify two snapshots'') (Inr None))"

fun project_price_loop :: "nat \<Rightarrow> 'w service \<Rightarrow> projection \<Rightarrow> bool \<Rightarrow> ('w, bool) act" where
  "project_price_loop 0 sv p create_only =
     raiseA (unavailable ''Price projection exhausted its bounded ETag retries'')"
| "project_price_loop (Suc n) sv p create_only =
     (let part = price_partition (pj_model_id p);
          write = (\<lambda>etag. bindA (replace_if_match sv part PRICE_ROW (items (projection_json p)) etag)
            (\<lambda>ok. if ok then doneA True else project_price_loop n sv p create_only)) in
      bindA (read_row sv part PRICE_ROW) (\<lambda>current. case current of
        None \<Rightarrow> write None
      | Some (d, etag) \<Rightarrow>
          bindA (liftA (projection_of_json (sv_sha sv) (PDict d))) (\<lambda>stored.
          bindA (liftA (projection_decision stored p create_only)) (\<lambda>decided. case decided of
            Some b \<Rightarrow> doneA b
          | None \<Rightarrow> write (Some etag)))))"

definition project_model_price ::
  "'w service \<Rightarrow> projection \<Rightarrow> int \<Rightarrow> bool \<Rightarrow> ('w, bool) act" where
  "project_model_price sv p attempts create_only = project_price_loop (bounded attempts) sv p create_only"

section \<open>Initialising and reserving\<close>

definition initialize :: "'w service \<Rightarrow> summary \<Rightarrow> ('w, unit) act" where
  "initialize sv s =
     bindA (read_scope sv (sm_scope s) SUMMARY_ROW) (\<lambda>existing. case existing of
       Some (d, _) \<Rightarrow>
         bindA (liftA (summary_of_json d)) (\<lambda>m.
         guardA (m \<noteq> s) (conflict ''An initialized budget cannot be replaced'') (doneA ()))
     | None \<Rightarrow> commit sv (sm_scope s) [entity SUMMARY_ROW (summary_json s) None])"

text \<open>The decimal a caller reserved equals the stored amount.\<close>

definition same_usd :: "int option \<Rightarrow> decimal option \<Rightarrow> bool" where
  "same_usd u d =
     (case (u, d) of (None, None) \<Rightarrow> True | (Some n, Some x) \<Rightarrow> dec_eq (Dec n (- 14)) x | _ \<Rightarrow> False)"

fun reserve_loop ::
  "nat \<Rightarrow> 'w service \<Rightarrow> identity \<Rightarrow> int \<Rightarrow> uuid \<Rightarrow> decimal option \<Rightarrow> projection option
     \<Rightarrow> ('w, summary \<times> attempt \<times> bool) act" where
  "reserve_loop 0 sv i n epoch usd price =
     raiseA (unavailable ''Ledger admission exhausted its bounded retries'')"
| "reserve_loop (Suc k) sv i n epoch usd price =
     bindA (read_scope sv (id_scope i) SUMMARY_ROW) (\<lambda>v.
     bindA (needed ''Budget execution scope is not initialized'' v) (\<lambda>(d, etag).
     bindA (liftA (summary_of_json d)) (\<lambda>s.
     guardA (sm_epoch s \<noteq> epoch \<or> sm_scope s \<noteq> id_scope i)
       (conflict ''Budget execution epoch does not match'')
    (bindA (read_scope sv (id_scope i) (attempt_row_key (sv_sha sv) i)) (\<lambda>previous. case previous of
       Some (pd, _) \<Rightarrow>
         bindA (liftA (attempt_of_json (sv_sha sv) pd)) (\<lambda>a.
         guardA (at_identity a \<noteq> i \<or> at_epoch a \<noteq> sm_epoch s \<or> reserved_tokens a \<noteq> n
             \<or> \<not> same_usd (reserved_usd a) usd \<or> price_snapshot a \<noteq> price)
           (conflict ''An attempt cannot change its reservation'') (doneA (s, a, False)))
     | None \<Rightarrow>
         bindA (now_utc sv) (\<lambda>now.
         bindA (liftA (reserve_ledger (sv_sha sv) s i n now usd price ''verified_upper_bound'')) (\<lambda>(s', a).
         commit_or sv (id_scope i)
           [entity SUMMARY_ROW (summary_json s') (Some etag),
            entity (attempt_row_key (sv_sha sv) i) (attempt_json a) None]
           (s', a, True) (reserve_loop k sv i n epoch usd price))))))))"

definition reserve ::
  "'w service \<Rightarrow> identity \<Rightarrow> int \<Rightarrow> uuid \<Rightarrow> decimal option \<Rightarrow> projection option \<Rightarrow> int
     \<Rightarrow> ('w, summary \<times> attempt \<times> bool) act" where
  "reserve sv i n epoch usd price attempts = reserve_loop (bounded attempts) sv i n epoch usd price"

section \<open>Updating an attempt\<close>

type_synonym attempt_step = "summary \<Rightarrow> attempt \<Rightarrow> instant \<Rightarrow> (summary, attempt) outcome res"

fun update_loop ::
  "nat \<Rightarrow> 'w service \<Rightarrow> identity \<Rightarrow> attempt_step \<Rightarrow> ('w, summary \<times> attempt) act" where
  "update_loop 0 sv i step = raiseA (unavailable ''Ledger settlement exhausted its bounded retries'')"
| "update_loop (Suc k) sv i step =
     bindA (read_scope sv (id_scope i) SUMMARY_ROW) (\<lambda>sv_row.
     bindA (read_scope sv (id_scope i) (attempt_row_key (sv_sha sv) i)) (\<lambda>at_row.
     bindA (needed ''Ledger request or summary is not available'' sv_row) (\<lambda>(sd, setag).
     bindA (needed ''Ledger request or summary is not available'' at_row) (\<lambda>(ad, aetag).
     bindA (liftA (summary_of_json sd)) (\<lambda>s.
     bindA (liftA (attempt_of_json (sv_sha sv) ad)) (\<lambda>a.
     guardA (at_identity a \<noteq> i \<or> sm_scope s \<noteq> id_scope i \<or> at_epoch a \<noteq> sm_epoch s)
       (conflict ''Ledger request identity does not match'')
    (bindA (now_utc sv) (\<lambda>now.
     bindA (liftA (step s a now)) (\<lambda>r. case r of
       Kept \<Rightarrow> doneA (s, a)
     | Advanced s' a' \<Rightarrow>
         commit_or sv (id_scope i)
           [entity SUMMARY_ROW (summary_json s') (Some setag),
            entity (attempt_row_key (sv_sha sv) i) (attempt_json a') (Some aetag)]
           (s', a') (update_loop k sv i step))))))))))"

definition update_attempt :: "'w service \<Rightarrow> identity \<Rightarrow> attempt_step \<Rightarrow> ('w, summary \<times> attempt) act" where
  "update_attempt sv i step = update_loop (bounded 3) sv i step"

definition settle_step :: "digest \<Rightarrow> charge \<Rightarrow> attempt_step" where
  "settle_step sha c s a now = settle_ledger sha s a c now"

definition complete_step :: "digest \<Rightarrow> admission_receipt \<Rightarrow> dict \<Rightarrow> attempt_step" where
  "complete_step sha r completion s a now = complete_ledger sha s a r completion now"

definition transition_step :: "digest \<Rightarrow> attempt_state \<Rightarrow> attempt_step" where
  "transition_step sha st s a now = transition_ledger_attempt sha s a st now"

text \<open>The step of \<open>finalize_uncertain\<close>.\<close>

definition finalize_step :: "digest \<Rightarrow> attempt_step" where
  "finalize_step sha s a now =
     (if at_state a \<in> {Settled, Cancelled, Upper_bound} then Inr Kept
      else transition_ledger_attempt sha s a Upper_bound now)"

definition settle :: "'w service \<Rightarrow> charge \<Rightarrow> ('w, summary \<times> attempt) act" where
  "settle sv c = update_attempt sv (ch_identity c) (settle_step (sv_sha sv) c)"

definition complete :: "'w service \<Rightarrow> admission_receipt \<Rightarrow> dict \<Rightarrow> ('w, summary \<times> attempt) act" where
  "complete sv r completion = update_attempt sv (rc_identity r) (complete_step (sv_sha sv) r completion)"

definition transition :: "'w service \<Rightarrow> identity \<Rightarrow> attempt_state \<Rightarrow> ('w, summary \<times> attempt) act" where
  "transition sv i st =
     guardA (st = Cancelled) (conflict ''Cancellation requires a durable cancelled dispatch'')
       (update_attempt sv i (transition_step (sv_sha sv) st))"

definition finalize_uncertain :: "'w service \<Rightarrow> identity \<Rightarrow> ('w, unit) act" where
  "finalize_uncertain sv i = bindA (update_attempt sv i (finalize_step (sv_sha sv))) (\<lambda>_. doneA ())"

definition read_attempt :: "'w service \<Rightarrow> admission_receipt \<Rightarrow> ('w, attempt) act" where
  "read_attempt sv r =
     bindA (read_scope sv (id_scope (rc_identity r)) (attempt_row_key (sv_sha sv) (rc_identity r))) (\<lambda>v.
     bindA (needed ''Execution admission receipt is unavailable'' v) (\<lambda>(d, _).
     bindA (liftA (attempt_of_json (sv_sha sv) d)) (\<lambda>a.
     guardA (at_identity a \<noteq> rc_identity r \<or> at_epoch a \<noteq> rc_epoch r
         \<or> reserved_tokens a \<noteq> rc_tokens r \<or> at_mode a \<noteq> rc_mode r
         \<or> reserved_usd a \<noteq> rc_usd r \<or> price_snapshot a \<noteq> rc_price r)
       (conflict ''Stored attempt does not match its immutable admission'') (doneA a))))"

end
