(* ===== verification/Table_Dispatch.thy ===== *)
theory Table_Dispatch
  imports Table_Ledger
begin

text \<open>
  \<open>turnstile_core/integrations/atomic_ledger.py\<close>, second half: stopping a scope, writing its policy,
  and the life of a dispatch plan (preparing, dispatching or cancelled) with the compensation of a
  cancelled one and its recovery pages.
\<close>

section \<open>Dispatch plans as JSON\<close>

fun dispatch_state_text :: "dispatch_state \<Rightarrow> string" where
  "dispatch_state_text D_preparing = ''preparing''"
| "dispatch_state_text D_dispatching = ''dispatching''"
| "dispatch_state_text D_cancelled = ''cancelled''"

definition dispatch_json :: "dispatch \<Rightarrow> dict" where
  "dispatch_json p =
     [(''owner'', PStr (dp_owner p)), (''caller_request_id'', PStr (caller_request_id p)),
      (''receipts'', PList (map (\<lambda>r. PDict (receipt_json r)) (dp_receipts p))),
      (''state'', PStr (dispatch_state_text (dp_state p))),
      (''recovery_complete'', PBool (recovery_complete p)),
      (''counting_basis'', PDict (counting_basis p)),
      (''expires_at'', time_json (expires_at p)), (''updated_at'', time_json (dp_updated_at p))]"

definition dispatch_state_of_json :: "pv \<Rightarrow> dispatch_state res" where
  "dispatch_state_of_json v =
     (case find (\<lambda>st. v = PStr (dispatch_state_text st)) [D_preparing, D_dispatching, D_cancelled] of
        None \<Rightarrow> read_error ''LedgerDispatch'' | Some st \<Rightarrow> Inr st)"

definition dispatch_of_json :: "digest \<Rightarrow> dict \<Rightarrow> dispatch res" where
  "dispatch_of_json sha d =
     guardR (\<not> only_keys [''owner'', ''caller_request_id'', ''receipts'', ''state'', ''recovery_complete'',
                 ''counting_basis'', ''expires_at'', ''updated_at''] d)
       (ValidationError ''LedgerDispatch'')
    (bindR (field_error ''LedgerDispatch'' (uuid_of (dfield d ''owner''))) (\<lambda>owner.
     bindR (if has_key d ''caller_request_id'' then str_of (dfield d ''caller_request_id'') else Inr [])
       (\<lambda>caller.
     bindR (case dfield d ''receipts'' of
              PList xs \<Rightarrow> mapR (receipt_of_json sha) xs | _ \<Rightarrow> read_error ''LedgerDispatch'') (\<lambda>rs.
     bindR (if has_key d ''state'' then dispatch_state_of_json (dfield d ''state'') else Inr D_preparing)
       (\<lambda>st.
     bindR (bool_field d ''recovery_complete'' (Some False)) (\<lambda>done.
     bindR (if has_key d ''counting_basis'' then as_dict (dfield d ''counting_basis'') else Inr [])
       (\<lambda>basis.
     bindR (field_error ''LedgerDispatch'' (utc_time (dfield d ''expires_at''))) (\<lambda>ex.
     bindR (field_error ''LedgerDispatch'' (utc_time (dfield d ''updated_at''))) (\<lambda>up.
     make_dispatch sha \<lparr>dp_owner = owner, caller_request_id = caller, dp_receipts = rs, dp_state = st,
       recovery_complete = done, counting_basis = basis, expires_at = ex, dp_updated_at = up\<rparr>)))))))))"

definition dispatch_entity :: "digest \<Rightarrow> dispatch \<Rightarrow> string option \<Rightarrow> conditional_entity" where
  "dispatch_entity sha p etag =
     \<lparr>ce_row = dispatch_row_key sha p, ce_document = dispatch_json p,
      ce_pending = Some (\<not> recovery_complete p), ce_etag = etag\<rparr>"

section \<open>Policies of a scope\<close>

fun quiesce_loop :: "nat \<Rightarrow> 'w service \<Rightarrow> scope \<Rightarrow> uuid \<Rightarrow> int \<Rightarrow> bool \<Rightarrow> ('w, summary) act" where
  "quiesce_loop 0 sv s epoch revision ena =
     raiseA (unavailable ''Budget switch could not stop new reservations'')"
| "quiesce_loop (Suc k) sv s epoch revision ena =
     bindA (read_scope sv s SUMMARY_ROW) (\<lambda>v.
     bindA (needed ''Budget execution scope is not initialized'' v) (\<lambda>(d, etag).
     bindA (liftA (summary_of_json d)) (\<lambda>m.
     guardA (sm_scope m \<noteq> s \<or> sm_epoch m \<noteq> epoch)
       (conflict ''Budget switch belongs to another scope or epoch'')
    (if revision \<le> policy_revision m \<or> enabled m = ena then doneA m
     else
       bindA (now_utc sv) (\<lambda>now.
       bindA (liftA (make_summary (m\<lparr>enabled := ena, version := version m + 1, sm_updated_at := now\<rparr>)))
         (\<lambda>m'.
       commit_or sv s [entity SUMMARY_ROW (summary_json m') (Some etag)] m'
         (quiesce_loop k sv s epoch revision ena)))))))"

definition quiesce_budget_scope :: "'w service \<Rightarrow> scope \<Rightarrow> uuid \<Rightarrow> int \<Rightarrow> bool \<Rightarrow> ('w, summary) act" where
  "quiesce_budget_scope sv s epoch revision ena = quiesce_loop 3 sv s epoch revision ena"

record policy_write =
  pw_epoch :: uuid
  pw_revision :: int
  pw_token_limit :: int
  pw_enforce :: bool
  pw_enabled :: bool
  pw_mode :: budget_mode
  pw_usd_limit :: "int option"
  pw_opening :: "int option"

text \<open>
  The summary whose unit is switched: only an idle, disabled scope may change its unit, and it
  starts from the given opening balance (in tokens, or in units of USD).
\<close>

definition switched_unit :: "summary \<Rightarrow> policy_write \<Rightarrow> summary res" where
  "switched_unit m p =
     (if sm_mode m = pw_mode p then Inr m
      else case pw_opening p of
        None \<Rightarrow> Inl (unavailable ''Budget unit switch awaits existing request settlement'')
      | Some opening \<Rightarrow>
          guardR (enabled m \<or> active_reserved_tokens m \<noteq> 0 \<or> upper_bound_tokens m \<noteq> 0
              \<or> active_reserved_usd m \<noteq> 0 \<or> upper_bound_usd m \<noteq> 0)
            (unavailable ''Budget unit switch awaits existing request settlement'')
            (make_summary (m\<lparr>sm_mode := pw_mode p, usd_limit := pw_usd_limit p,
               confirmed_tokens := (if pw_mode p = Tokens then opening else confirmed_tokens m),
               confirmed_usd := (if pw_mode p = Usd then opening else 0)\<rparr>)))"

definition policy_step :: "summary \<Rightarrow> policy_write \<Rightarrow> instant \<Rightarrow> summary option res" where
  "policy_step m p now =
     update_ledger_policy m (pw_epoch p) (pw_revision p) (pw_token_limit p) (pw_enforce p) (pw_enabled p)
       now (pw_mode p) (pw_usd_limit p)"

fun policy_loop :: "nat \<Rightarrow> 'w service \<Rightarrow> scope \<Rightarrow> policy_write \<Rightarrow> ('w, summary) act" where
  "policy_loop 0 sv s p = raiseA (unavailable ''Budget policy exhausted its bounded retries'')"
| "policy_loop (Suc k) sv s p =
     bindA (read_scope sv s SUMMARY_ROW) (\<lambda>v.
     bindA (needed ''Budget execution scope is not initialized'' v) (\<lambda>(d, etag).
     bindA (liftA (summary_of_json d)) (\<lambda>m.
     guardA (sm_scope m \<noteq> s) (conflict ''Budget policy belongs to another scope'')
    (guardA (sm_epoch m \<noteq> pw_epoch p) (conflict ''Budget policy belongs to another epoch'')
    (if pw_revision p < policy_revision m then doneA m
     else
       guardA (pw_revision p = policy_revision m \<and> sm_mode m \<noteq> pw_mode p)
         (conflict ''A budget policy revision cannot change its unit'')
      (bindA (liftA (switched_unit m p)) (\<lambda>base.
       bindA (now_utc sv) (\<lambda>now.
       bindA (liftA (policy_step base p now)) (\<lambda>r. case r of
         None \<Rightarrow> doneA base
       | Some m' \<Rightarrow>
           commit_or sv s [entity SUMMARY_ROW (summary_json m') (Some etag)] m'
             (policy_loop k sv s p))))))))))"

definition write_policy :: "'w service \<Rightarrow> scope \<Rightarrow> policy_write \<Rightarrow> ('w, summary) act" where
  "write_policy sv s p = policy_loop 3 sv s p"

section \<open>Starting a dispatch\<close>

definition begin_dispatch :: "'w service \<Rightarrow> dispatch \<Rightarrow> ('w, dispatch) act" where
  "begin_dispatch sv p =
     bindA (now_utc sv) (\<lambda>now.
     guardA (dp_state p \<noteq> D_preparing \<or> expires_at p \<le> now)
       (conflict ''A new dispatch must have a live preparation lease'')
    (commit_or sv (dispatch_scope p) [dispatch_entity (sv_sha sv) p None] p
      (bindA (read_scope sv (dispatch_scope p) (dispatch_row_key (sv_sha sv) p)) (\<lambda>v.
       bindA (needed ''Dispatch creation was not confirmed'' v) (\<lambda>(d, _).
       bindA (liftA (dispatch_of_json (sv_sha sv) d)) (\<lambda>stored.
       guardA (stored \<noteq> p) (unavailable ''Dispatch creation was not confirmed'') (doneA p)))))))"

text \<open>The plan is still stored as it is, and its lease has not expired.\<close>

definition live_plan :: "'w service \<Rightarrow> dispatch \<Rightarrow> string \<Rightarrow> ('w, string) act" where
  "live_plan sv p msg =
     bindA (read_scope sv (dispatch_scope p) (dispatch_row_key (sv_sha sv) p)) (\<lambda>v. case v of
       None \<Rightarrow> raiseA (conflict msg)
     | Some (d, etag) \<Rightarrow>
         bindA (liftA (dispatch_of_json (sv_sha sv) d)) (\<lambda>stored.
         guardA (stored \<noteq> p) (conflict msg)
        (bindA (now_utc sv) (\<lambda>now.
         guardA (expires_at p \<le> now) (conflict ''Dispatch preparation lease expired'') (doneA etag)))))"

fun reserve_receipts :: "'w service \<Rightarrow> dispatch \<Rightarrow> admission_receipt list \<Rightarrow> ('w, unit) act" where
  "reserve_receipts sv p [] = doneA ()"
| "reserve_receipts sv p (r # rs) =
     bindA (live_plan sv p ''Dispatch preparation was cancelled or fenced'') (\<lambda>_.
     bindA (reserve sv (rc_identity r) (rc_tokens r) (rc_epoch r)
              (map_option (\<lambda>u. Dec u (- 14)) (rc_usd r)) (rc_price r) 3) (\<lambda>(s, a, created).
     guardA (at_state a \<noteq> Reserved)
       (conflict ''An earlier attempt cannot authorize another dispatch'')
       (reserve_receipts sv p rs)))"

definition reserve_dispatch :: "'w service \<Rightarrow> dispatch \<Rightarrow> ('w, unit) act" where
  "reserve_dispatch sv p = reserve_receipts sv p (dp_receipts p)"

fun check_reserved :: "'w service \<Rightarrow> admission_receipt list \<Rightarrow> ('w, unit) act" where
  "check_reserved sv [] = doneA ()"
| "check_reserved sv (r # rs) =
     bindA (read_scope sv (id_scope (rc_identity r)) (attempt_row_key (sv_sha sv) (rc_identity r))) (\<lambda>v.
     case v of
       None \<Rightarrow> raiseA (conflict ''Every required budget must be reserved before dispatch'')
     | Some (d, _) \<Rightarrow>
         bindA (liftA (attempt_of_json (sv_sha sv) d)) (\<lambda>a.
         guardA (at_identity a \<noteq> rc_identity r \<or> at_epoch a \<noteq> rc_epoch r
             \<or> reserved_tokens a \<noteq> rc_tokens r \<or> at_mode a \<noteq> rc_mode r \<or> reserved_usd a \<noteq> rc_usd r
             \<or> price_snapshot a \<noteq> rc_price r \<or> at_state a \<noteq> Reserved)
           (conflict ''Dispatch reservation does not match its plan'') (check_reserved sv rs)))"

definition authorize_dispatch :: "'w service \<Rightarrow> dispatch \<Rightarrow> ('w, bool) act" where
  "authorize_dispatch sv p =
     bindA (live_plan sv p ''Only the current preparing owner can authorize dispatch'') (\<lambda>etag.
     bindA (check_reserved sv (dp_receipts p)) (\<lambda>_.
     bindA (now_utc sv) (\<lambda>now.
     bindA (liftA (make_dispatch (sv_sha sv) (p\<lparr>dp_state := D_dispatching, dp_updated_at := now\<rparr>)))
       (\<lambda>authorized.
     guardA (expires_at p \<le> dp_updated_at authorized)
       (conflict ''Dispatch preparation expired before authorization'')
       (commit_or sv (dispatch_scope p) [dispatch_entity (sv_sha sv) authorized (Some etag)] True
          (doneA False))))))"

section \<open>Cancelling and compensating\<close>

fun cancel_loop :: "nat \<Rightarrow> 'w service \<Rightarrow> dispatch \<Rightarrow> bool \<Rightarrow> ('w, bool) act" where
  "cancel_loop 0 sv p recovery =
     raiseA (unavailable ''Dispatch cancellation exhausted its bounded retries'')"
| "cancel_loop (Suc k) sv p recovery =
     bindA (read_scope sv (dispatch_scope p) (dispatch_row_key (sv_sha sv) p)) (\<lambda>v.
     bindA (needed ''Dispatch cancellation requires its durable plan'' v) (\<lambda>(d, etag).
     bindA (liftA (dispatch_of_json (sv_sha sv) d)) (\<lambda>stored.
     guardA (dp_owner stored \<noteq> dp_owner p \<or> dp_receipts stored \<noteq> dp_receipts p)
       (conflict ''Dispatch cancellation belongs to another owner'')
    (case dp_state stored of
       D_dispatching \<Rightarrow> doneA False
     | D_cancelled \<Rightarrow> doneA True
     | D_preparing \<Rightarrow>
         bindA (if recovery then bindA (now_utc sv) (\<lambda>now. doneA (now < expires_at stored))
                else doneA False) (\<lambda>early.
         if early then doneA False
         else
           bindA (now_utc sv) (\<lambda>now.
           bindA (liftA (make_dispatch (sv_sha sv)
                    (stored\<lparr>dp_state := D_cancelled, dp_updated_at := now\<rparr>))) (\<lambda>cancelled.
           commit_or sv (dispatch_scope p) [dispatch_entity (sv_sha sv) cancelled (Some etag)] True
             (cancel_loop k sv p recovery))))))))"

definition cancel_dispatch :: "'w service \<Rightarrow> dispatch \<Rightarrow> bool \<Rightarrow> ('w, bool) act" where
  "cancel_dispatch sv p recovery = cancel_loop 3 sv p recovery"

definition cancel_step :: "digest \<Rightarrow> attempt_step" where
  "cancel_step sha s a now = transition_ledger_attempt sha s a Cancelled now"

definition tombstone :: "admission_receipt \<Rightarrow> instant \<Rightarrow> attempt" where
  "tombstone r now =
     (new_attempt (rc_identity r) (rc_epoch r) (rc_tokens r) (rc_mode r) (rc_usd r) (rc_price r) now)
       \<lparr>at_state := Cancelled\<rparr>"

text \<open>
  Release one receipt of a cancelled plan: cancel its reservation, or, when none was stored, leave
  a tombstone under the same key so that no late reservation can be created. Yields the number of
  reservations released.
\<close>

fun compensate_loop :: "nat \<Rightarrow> 'w service \<Rightarrow> admission_receipt \<Rightarrow> ('w, nat) act" where
  "compensate_loop 0 sv r = raiseA (unavailable ''Cancellation tombstone was not confirmed'')"
| "compensate_loop (Suc k) sv r =
     (let i = rc_identity r; row = attempt_row_key (sv_sha sv) i in
      bindA (read_scope sv (id_scope i) SUMMARY_ROW) (\<lambda>sv_row.
      bindA (read_scope sv (id_scope i) row) (\<lambda>existing.
      bindA (needed ''Dispatch compensation requires its budget summary'' sv_row) (\<lambda>(sd, setag).
      bindA (liftA (summary_of_json sd)) (\<lambda>s.
      guardA (sm_epoch s \<noteq> rc_epoch r \<or> sm_scope s \<noteq> id_scope i
          \<or> (rc_mode r = Usd \<and> sm_mode s \<noteq> Usd))
        (conflict ''Dispatch compensation epoch does not match'')
     (case existing of
        Some (ad, _) \<Rightarrow>
          bindA (liftA (attempt_of_json (sv_sha sv) ad)) (\<lambda>a.
          guardA (at_identity a \<noteq> i \<or> at_epoch a \<noteq> rc_epoch r \<or> reserved_tokens a \<noteq> rc_tokens r
              \<or> at_mode a \<noteq> sm_mode s
              \<or> (rc_mode r = Usd \<and> (reserved_usd a \<noteq> rc_usd r \<or> price_snapshot a \<noteq> rc_price r)))
            (conflict ''Cancelled reservation identity changed'')
         (if at_state a \<in> {Settled, Cancelled} then doneA 0
          else bindA (update_attempt sv i (cancel_step (sv_sha sv))) (\<lambda>_. doneA 1)))
      | None \<Rightarrow>
          bindA (now_utc sv) (\<lambda>now.
          bindA (liftA (make_attempt (sv_sha sv) (tombstone r now))) (\<lambda>t.
          bindA (liftA (make_summary (s\<lparr>version := version s + 1, sm_updated_at := now\<rparr>))) (\<lambda>s'.
          commit_or sv (id_scope i)
            [entity SUMMARY_ROW (summary_json s') (Some setag), entity row (attempt_json t) None]
            0 (compensate_loop k sv r))))))))))"

fun compensate_receipts :: "'w service \<Rightarrow> admission_receipt list \<Rightarrow> ('w, nat) act" where
  "compensate_receipts sv [] = doneA 0"
| "compensate_receipts sv (r # rs) =
     bindA (compensate_loop 3 sv r) (\<lambda>n. bindA (compensate_receipts sv rs) (\<lambda>m. doneA (n + m)))"

definition compensate_dispatch :: "'w service \<Rightarrow> dispatch \<Rightarrow> ('w, nat) act" where
  "compensate_dispatch sv p =
     bindA (read_scope sv (dispatch_scope p) (dispatch_row_key (sv_sha sv) p)) (\<lambda>v.
     bindA (needed ''Dispatch compensation requires its durable plan'' v) (\<lambda>(d, _).
     bindA (liftA (dispatch_of_json (sv_sha sv) d)) (\<lambda>stored.
     guardA (dp_state stored \<noteq> D_cancelled \<or> dp_owner stored \<noteq> dp_owner p
         \<or> dp_receipts stored \<noteq> dp_receipts p)
       (conflict ''Unknown dispatch outcome cannot release reservations'')
       (compensate_receipts sv (dp_receipts stored)))))"

section \<open>Recovery\<close>

definition page_size :: "int \<Rightarrow> int" where "page_size limit = max 1 (min limit 32)"

definition page_plan :: "digest \<Rightarrow> recovery_cursor \<Rightarrow> pv \<Rightarrow> dispatch res" where
  "page_plan sha c v =
     bindR (as_dict v) (\<lambda>row.
     bindR (dget row ''Document'') (\<lambda>document.
     bindR (as_dict document) (\<lambda>d.
     bindR (dispatch_of_json sha d) (\<lambda>p.
     bindR (if dispatch_scope p \<noteq> cu_scope c \<or> rc_epoch (hd (dp_receipts p)) \<noteq> cu_epoch c then Inr True
            else bindR (dget row ''RowKey'') (\<lambda>key. Inr (key \<noteq> PStr (dispatch_row_key sha p)))) (\<lambda>bad.
     guardR bad (conflict ''Recovery row does not match its scope and epoch'') (Inr p))))))"

definition given :: "string option \<Rightarrow> bool" where "given x \<longleftrightarrow> opt_or x [] \<noteq> []"

definition pending_dispatch_page ::
  "'w service \<Rightarrow> recovery_cursor \<Rightarrow> int
     \<Rightarrow> ('w, dispatch list \<times> string option \<times> string option) act" where
  "pending_dispatch_page sv c limit =
     bindA (request sv (Recovery_page (partition_key (sv_sha sv) (cu_scope c)) (page_size limit)
              (next_partition c) (next_row c))) (\<lambda>r.
     bindA (raise_for_status r) (\<lambda>_.
     bindA (liftA (as_dict (rs_body r))) (\<lambda>body.
     let rows = dfield body ''value'' in
     guardA (\<not> is_list rows \<or> page_size limit < int (length (list_of rows)))
       (unavailable ''Recovery page is malformed or exceeds its bounded size'')
    (bindA (liftA (mapR (page_plan (sv_sha sv) c) (list_of rows))) (\<lambda>plans.
     let nxt = rs_next r in
     guardA ((given (fst nxt) \<or> given (snd nxt)) \<and> nxt = (next_partition c, next_row c))
       (unavailable ''Recovery continuation did not advance'')
       (doneA (plans, nxt)))))))"

definition finish_dispatch_recovery :: "'w service \<Rightarrow> dispatch \<Rightarrow> ('w, unit) act" where
  "finish_dispatch_recovery sv p =
     bindA (read_scope sv (dispatch_scope p) (dispatch_row_key (sv_sha sv) p)) (\<lambda>v.
     bindA (needed ''Recovered dispatch is missing'' v) (\<lambda>(d, etag).
     bindA (liftA (dispatch_of_json (sv_sha sv) d)) (\<lambda>stored.
     guardA (dp_owner stored \<noteq> dp_owner p \<or> dp_receipts stored \<noteq> dp_receipts p)
       (conflict ''Recovered dispatch identity changed'')
    (guardA (dp_state stored = D_preparing)
       (conflict ''A preparing dispatch cannot leave recovery'')
    (if recovery_complete stored then doneA ()
     else
       bindA (now_utc sv) (\<lambda>now.
       bindA (liftA (make_dispatch (sv_sha sv) (stored\<lparr>recovery_complete := True, dp_updated_at := now\<rparr>)))
         (\<lambda>updated. commit sv (dispatch_scope p) [dispatch_entity (sv_sha sv) updated (Some etag)])))))))"

end
