(* ===== verification/Table_Laws.thy ===== *)
theory Table_Laws
  imports Table_Dispatch
begin

text \<open>
  What the client relies on: the table service answers a read with a row that was stored, carries
  out a transaction as a whole or not at all and only when every token matches, and never gives two
  versions of a row the same token. Other clients act between any two requests. On these laws rests
  a small logic of assertions that other clients cannot invalidate.
\<close>

section \<open>What is stored\<close>

type_synonym rows = "string \<Rightarrow> string \<Rightarrow> (dict \<times> string) option"

text \<open>
  The rows of a world, the versions ever stored (by token), and what other clients may do.
\<close>

record 'w table_view =
  tv_rows :: "'w \<Rightarrow> rows"
  tv_hist :: "'w \<Rightarrow> string \<Rightarrow> string \<Rightarrow> string \<Rightarrow> dict option"
  tv_others :: "'w \<Rightarrow> 'w \<Rightarrow> bool"

definition grown :: "'w table_view \<Rightarrow> 'w \<Rightarrow> 'w \<Rightarrow> bool" where
  "grown V w w' \<longleftrightarrow>
     (\<forall>p k e d. tv_hist V w p k e = Some d \<longrightarrow> tv_hist V w' p k e = Some d)"

text \<open>A transaction was carried out: every condition held, and the rows are the new ones.\<close>

definition wrote :: "'w table_view \<Rightarrow> string \<Rightarrow> conditional_entity list \<Rightarrow> 'w \<Rightarrow> 'w \<Rightarrow> bool" where
  "wrote V p es w w' \<longleftrightarrow> grown V w w'
     \<and> (\<forall>e \<in> set es. (case ce_etag e of
            None \<Rightarrow> tv_rows V w p (ce_row e) = None
          | Some t \<Rightarrow> \<exists>d. tv_rows V w p (ce_row e) = Some (d, t))
         \<and> (\<exists>t. tv_rows V w' p (ce_row e) = Some (ce_document e, t)))
     \<and> (\<forall>p' k. p' \<noteq> p \<or> k \<notin> ce_row ` set es \<longrightarrow> tv_rows V w' p' k = tv_rows V w p' k)"

definition carried_out :: "'w table_view \<Rightarrow> string \<Rightarrow> conditional_entity list \<Rightarrow> 'w \<Rightarrow> 'w \<Rightarrow> bool" where
  "carried_out V p es w w' \<longleftrightarrow>
     (\<exists>w1 w2. tv_others V w w1 \<and> wrote V p es w1 w2 \<and> tv_others V w2 w')"

definition confirmed :: "nat \<Rightarrow> response \<Rightarrow> bool" where
  "confirmed n r \<longleftrightarrow>
     validate_batch_response (rs_status r) (rs_content_type r) (rs_parts r) n = Inr ()"

definition read_law :: "'w service \<Rightarrow> 'w table_view \<Rightarrow> bool" where
  "read_law sv V \<longleftrightarrow> (\<forall>p k w r w'. sv_send sv (Read_entity p k) w = (r, w') \<longrightarrow>
     tv_others V w w'
     \<and> (\<forall>x. r = Inr x \<longrightarrow> (rs_status x = 404 \<longrightarrow> tv_rows V w' p k = None)
          \<and> (\<forall>d e. rs_status x \<noteq> 404 \<and> read_response x = Inr (d, e) \<longrightarrow> tv_rows V w' p k = Some (d, e))))"

definition batch_law :: "'w service \<Rightarrow> 'w table_view \<Rightarrow> bool" where
  "batch_law sv V \<longleftrightarrow> (\<forall>p es text w r w'. sv_send sv (Batch p es text) w = (r, w') \<longrightarrow>
     (tv_others V w w' \<or> carried_out V p es w w')
     \<and> (\<forall>x. r = Inr x \<and> confirmed (length es) x \<longrightarrow> carried_out V p es w w'))"

definition write_law :: "'w service \<Rightarrow> 'w table_view \<Rightarrow> bool" where
  "write_law sv V \<longleftrightarrow> (\<forall>p k d t w r w'. sv_send sv (Write_entity p k d t) w = (r, w') \<longrightarrow>
     (tv_others V w w' \<or> carried_out V p [entity k d t] w w'))"

definition table_laws :: "'w service \<Rightarrow> 'w table_view \<Rightarrow> bool" where
  "table_laws sv V \<longleftrightarrow>
     (\<forall>w. tv_others V w w) \<and> (\<forall>w w1 w2. tv_others V w w1 \<longrightarrow> tv_others V w1 w2 \<longrightarrow> tv_others V w w2)
     \<and> (\<forall>w w'. tv_others V w w' \<longrightarrow> grown V w w')
     \<and> (\<forall>w p k d e. tv_rows V w p k = Some (d, e) \<longrightarrow> tv_hist V w p k e = Some d)
     \<and> (\<forall>w. tv_others V w (snd (sv_now sv w))) \<and> (\<forall>w. tv_others V w (snd (sv_uuid sv w)))
     \<and> (\<forall>p n a b w r w'. sv_send sv (Recovery_page p n a b) w = (r, w') \<longrightarrow> tv_others V w w')
     \<and> read_law sv V \<and> batch_law sv V \<and> write_law sv V"

text \<open>Other clients keep an invariant of the rows.\<close>

definition rely :: "'w table_view \<Rightarrow> (rows \<Rightarrow> bool) \<Rightarrow> bool" where
  "rely V I \<longleftrightarrow> (\<forall>w w'. tv_others V w w' \<longrightarrow> I (tv_rows V w) \<longrightarrow> I (tv_rows V w'))"

section \<open>Assertions other clients cannot invalidate\<close>

definition stable :: "'w table_view \<Rightarrow> ('w \<Rightarrow> bool) \<Rightarrow> bool" where
  "stable V K \<longleftrightarrow> (\<forall>w w'. grown V w w' \<longrightarrow> K w \<longrightarrow> K w')"

text \<open>Version \<open>e\<close> of a row held document \<open>d\<close>.\<close>

definition seen :: "'w table_view \<Rightarrow> string \<Rightarrow> string \<Rightarrow> dict \<times> string \<Rightarrow> 'w \<Rightarrow> bool" where
  "seen V p k v w \<longleftrightarrow> tv_hist V w p k (snd v) = Some (fst v)"

text \<open>A document was stored under a row.\<close>

definition stored :: "'w table_view \<Rightarrow> string \<Rightarrow> string \<Rightarrow> dict \<Rightarrow> 'w \<Rightarrow> bool" where
  "stored V p k d w \<longleftrightarrow> (\<exists>e. tv_hist V w p k e = Some d)"

named_theorems stable_intros \<open>assertions that stay true while the table grows\<close>
named_theorems keeps_intros \<open>composition rules for actions that keep an invariant\<close>

lemma stable_seen [stable_intros]: "stable V (seen V p k v)"
  by (auto simp: stable_def seen_def grown_def)

lemma stable_stored [stable_intros]: "stable V (stored V p k d)"
  unfolding stable_def stored_def grown_def by blast

lemma stable_const [stable_intros]: "stable V (\<lambda>_. b)"
  by (simp add: stable_def)

lemma stable_conj [stable_intros]: "stable V P \<Longrightarrow> stable V Q \<Longrightarrow> stable V (\<lambda>w. P w \<and> Q w)"
  by (simp add: stable_def)

lemma stable_case_option [stable_intros]:
  "stable V P \<Longrightarrow> (\<And>x. stable V (Q x)) \<Longrightarrow> stable V (\<lambda>w. case v of None \<Rightarrow> P w | Some x \<Rightarrow> Q x w)"
  by (cases v) simp_all

lemma grown_trans: "grown V w w1 \<Longrightarrow> grown V w1 w2 \<Longrightarrow> grown V w w2"
  by (simp add: grown_def)

text \<open>
  From a world with the invariant \<open>I\<close> and the knowledge \<open>K\<close>, the action ends in one with the
  invariant, whether it raises or not, and its value satisfies \<open>Q\<close>.
\<close>

definition keeps ::
  "'w table_view \<Rightarrow> (rows \<Rightarrow> bool) \<Rightarrow> ('w \<Rightarrow> bool) \<Rightarrow> ('w, 'a) act \<Rightarrow> ('a \<Rightarrow> 'w \<Rightarrow> bool) \<Rightarrow> bool" where
  "keeps V I K m Q \<longleftrightarrow> (\<forall>w r w'. I (tv_rows V w) \<longrightarrow> K w \<longrightarrow> m w = (r, w') \<longrightarrow>
     I (tv_rows V w') \<and> grown V w w' \<and> (\<forall>x. r = Inr x \<longrightarrow> Q x w'))"

lemma keeps_done [keeps_intros]: "(\<And>w. K w \<Longrightarrow> Q x w) \<Longrightarrow> keeps V I K (doneA x) Q"
  by (auto simp: keeps_def doneA_def grown_def)

lemma keeps_raise [keeps_intros]: "keeps V I K (raiseA e) Q"
  by (auto simp: keeps_def raiseA_def grown_def)

lemma keeps_lift [keeps_intros]: "(\<And>w x. K w \<Longrightarrow> r = Inr x \<Longrightarrow> Q x w) \<Longrightarrow> keeps V I K (liftA r) Q"
  by (auto simp: keeps_def liftA_def grown_def)

lemma keeps_guard [keeps_intros]:
  "(\<not> bad \<Longrightarrow> keeps V I K k Q) \<Longrightarrow> keeps V I K (guardA bad e k) Q"
  by (simp add: guardA_def keeps_raise)

lemma keeps_if [keeps_intros]:
  "(b \<Longrightarrow> keeps V I K m Q) \<Longrightarrow> (\<not> b \<Longrightarrow> keeps V I K n Q) \<Longrightarrow> keeps V I K (if b then m else n) Q"
  by simp

lemma keepsD:
  assumes "keeps V I K m Q" "I (tv_rows V w)" "K w" "m w = (r, w')"
  shows "I (tv_rows V w')" "grown V w w'" "r = Inr x \<Longrightarrow> Q x w'"
  using assms by (simp_all add: keeps_def)

lemma keepsI:
  assumes "\<And>w r w'. I (tv_rows V w) \<Longrightarrow> K w \<Longrightarrow> m w = (r, w') \<Longrightarrow> I (tv_rows V w') \<and> grown V w w'"
    "\<And>w x w'. I (tv_rows V w) \<Longrightarrow> K w \<Longrightarrow> m w = (Inr x, w') \<Longrightarrow> Q x w'"
  shows "keeps V I K m Q"
  using assms by (simp add: keeps_def)

lemma keeps_bind:
  assumes "keeps V I K m R" "stable V K" "\<And>x. keeps V I (\<lambda>w. K w \<and> R x w) (f x) Q"
  shows "keeps V I K (bindA m f) Q"
proof -
  have "I (tv_rows V w') \<and> grown V w w' \<and> (\<forall>x. r = Inr x \<longrightarrow> Q x w')"
    if a: "I (tv_rows V w)" "K w" "bindA m f w = (r, w')" for w r w'
  proof -
    obtain q u where m: "m w = (q, u)" by force
    note 1 = keepsD [OF assms(1) a(1,2) m]
    have K: "K u" using assms(2) 1(2) a(2) by (simp add: stable_def)
    show ?thesis
    proof (cases q)
      case (Inl e)
      then have "r = Inl e" "w' = u" using a(3) m by (simp_all add: bindA_def)
      then show ?thesis using 1(1,2) by simp
    next
      case (Inr x)
      then have f: "f x u = (r, w')" using a(3) m by (simp add: bindA_def)
      note 2 = keepsD [OF assms(3) [of x] 1(1) conjI [OF K 1(3) [OF Inr]] f]
      show ?thesis using 2 grown_trans [OF 1(2) 2(2)] by simp
    qed
  qed
  then show ?thesis by (simp add: keeps_def)
qed

lemma keeps_weaken:
  assumes "keeps V I K m R" "\<And>w. K' w \<Longrightarrow> K w" "\<And>x w. R x w \<Longrightarrow> Q x w"
  shows "keeps V I K' m Q"
  using assms unfolding keeps_def by blast

section \<open>The requests of the client\<close>

lemma table_lawsD:
  assumes "table_laws sv V"
  shows others_refl: "tv_others V w w"
    and others_trans: "tv_others V w u \<Longrightarrow> tv_others V u v \<Longrightarrow> tv_others V w v"
    and others_grown: "tv_others V w w' \<Longrightarrow> grown V w w'"
    and rows_hist: "tv_rows V w p k = Some (d, e) \<Longrightarrow> tv_hist V w p k e = Some d"
    and now_law: "sv_now sv w = (t, w') \<Longrightarrow> tv_others V w w'"
    and uuid_law: "sv_uuid sv w = (h, w') \<Longrightarrow> tv_others V w w'"
    and page_law: "sv_send sv (Recovery_page p n a b) w = (r, w') \<Longrightarrow> tv_others V w w'"
    and read_others: "sv_send sv (Read_entity p k) w = (r, w') \<Longrightarrow> tv_others V w w'"
    and read_row_law: "sv_send sv (Read_entity p k) w = (Inr x, w') \<Longrightarrow> rs_status x \<noteq> 404 \<Longrightarrow>
      read_response x = Inr (d, e) \<Longrightarrow> tv_rows V w' p k = Some (d, e)"
    and batch_others: "sv_send sv (Batch p es c) w = (r, w') \<Longrightarrow> tv_others V w w' \<or> carried_out V p es w w'"
    and batch_done: "sv_send sv (Batch p es c) w = (Inr x, w') \<Longrightarrow> confirmed (length es) x \<Longrightarrow>
      carried_out V p es w w'"
    and write_others: "sv_send sv (Write_entity p k d tg) w = (r, w') \<Longrightarrow>
      tv_others V w w' \<or> carried_out V p [entity k d tg] w w'"
proof -
  note u = assms [unfolded table_laws_def]
  show "tv_others V w w" using u by blast
  show "tv_others V w u \<Longrightarrow> tv_others V u v \<Longrightarrow> tv_others V w v" using u by blast
  show "tv_others V w w' \<Longrightarrow> grown V w w'" using u by blast
  show "tv_rows V w p k = Some (d, e) \<Longrightarrow> tv_hist V w p k e = Some d" using u by blast
  show "sv_now sv w = (t, w') \<Longrightarrow> tv_others V w w'" using u by (metis snd_conv)
  show "sv_uuid sv w = (h, w') \<Longrightarrow> tv_others V w w'" using u by (metis snd_conv)
  show "sv_send sv (Recovery_page p n a b) w = (r, w') \<Longrightarrow> tv_others V w w'" using u by blast
  have r: "read_law sv V" and b: "batch_law sv V" and wr: "write_law sv V" using u by blast+
  show "sv_send sv (Read_entity p k) w = (r, w') \<Longrightarrow> tv_others V w w'" using r unfolding read_law_def by blast
  show "sv_send sv (Read_entity p k) w = (Inr x, w') \<Longrightarrow> rs_status x \<noteq> 404 \<Longrightarrow>
      read_response x = Inr (d, e) \<Longrightarrow> tv_rows V w' p k = Some (d, e)"
    using r unfolding read_law_def by blast
  show "sv_send sv (Batch p es c) w = (r, w') \<Longrightarrow> tv_others V w w' \<or> carried_out V p es w w'"
    using b unfolding batch_law_def by blast
  show "sv_send sv (Batch p es c) w = (Inr x, w') \<Longrightarrow> confirmed (length es) x \<Longrightarrow> carried_out V p es w w'"
    using b unfolding batch_law_def by blast
  show "sv_send sv (Write_entity p k d tg) w = (r, w') \<Longrightarrow>
      tv_others V w w' \<or> carried_out V p [entity k d tg] w w'"
    using wr unfolding write_law_def by blast
qed

text \<open>A step of the others keeps an invariant they respect, and all knowledge.\<close>

lemma others_keep:
  assumes "table_laws sv V" "rely V I" "tv_others V w w'" "I (tv_rows V w)"
  shows "I (tv_rows V w') \<and> grown V w w'"
  using assms(2-4) others_grown [OF assms(1,3)] by (simp add: rely_def)

lemma keeps_others:
  assumes "table_laws sv V" "rely V I" "\<And>w r w'. m w = (r, w') \<Longrightarrow> tv_others V w w'"
    "\<And>w x w'. m w = (Inr x, w') \<Longrightarrow> Q x w'"
  shows "keeps V I K m Q"
  by (rule keepsI) (use assms(3,4) others_keep [OF assms(1,2)] in blast)+

lemma keeps_now [keeps_intros]:
  assumes "table_laws sv V" "rely V I" shows "keeps V I K (now_utc sv) (\<lambda>_ _. True)"
  by (rule keeps_others [OF assms]) (auto simp: now_utc_def split: prod.splits intro: now_law [OF assms(1)])

lemma keeps_fresh [keeps_intros]:
  assumes "table_laws sv V" "rely V I" shows "keeps V I K (fresh_hex sv) (\<lambda>_ _. True)"
  by (rule keeps_others [OF assms]) (auto simp: fresh_hex_def split: prod.splits intro: uuid_law [OF assms(1)])

text \<open>A request is one answer of the service, or its second after a rejected token.\<close>

lemma request_cases:
  assumes "request sv q w = (r, w')"
  obtains (once) "sv_send sv q w = (r, w')"
    | (again) x u where "sv_send sv q w = (Inr x, u)" "sv_send sv q u = (r, w')"
proof -
  obtain s u where s: "sv_send sv q w = (s, u)" by force
  show thesis
  proof (cases s)
    case (Inl e)
    with assms s have "(r, w') = (s, u)" by (simp add: request_def bindA_def)
    then show thesis using once s by simp
  next
    case (Inr x)
    then show thesis using assms s once again
      by (cases "rs_status x = 401") (simp_all add: request_def bindA_def doneA_def)
  qed
qed

lemma request_read_others:
  assumes "table_laws sv V" "request sv (Read_entity p k) w = (r, w')" shows "tv_others V w w'"
  using assms(2)
proof (cases rule: request_cases)
  case once
  then show ?thesis by (rule read_others [OF assms(1)])
next
  case (again x v)
  show ?thesis by (rule others_trans [OF assms(1) read_others [OF assms(1) again(1)]
        read_others [OF assms(1) again(2)]])
qed

text \<open>What reading a row comes down to.\<close>

lemma read_row_result:
  assumes "read_row sv p k w = (r, w')"
  obtains s where "request sv (Read_entity p k) w = (s, w')"
    "\<And>v. r = Inr (Some v) \<Longrightarrow> \<exists>y. s = Inr y \<and> rs_status y \<noteq> 404 \<and> read_response y = Inr v"
proof -
  obtain s u where s: "request sv (Read_entity p k) w = (s, u)" by force
  have "u = w' \<and> (\<forall>v. r = Inr (Some v) \<longrightarrow> (\<exists>y. s = Inr y \<and> rs_status y \<noteq> 404 \<and> read_response y = Inr v))"
  proof (cases s)
    case (Inl e)
    then show ?thesis using assms s by (auto simp: read_row_def bindA_def)
  next
    case (Inr y)
    then show ?thesis using assms s
      by (cases "rs_status y = 404"; cases "read_response y")
        (auto simp: read_row_def bindA_def doneA_def raise_for_status_def guardA_def raiseA_def liftA_def
          split: if_splits)
  qed
  then have "request sv (Read_entity p k) w = (s, w')"
    "\<And>v. r = Inr (Some v) \<Longrightarrow> \<exists>y. s = Inr y \<and> rs_status y \<noteq> 404 \<and> read_response y = Inr v"
    using s by blast+
  then show thesis by (rule that)
qed

lemma keeps_read_row:
  assumes "table_laws sv V" "rely V I"
  shows "keeps V I K (read_row sv p k) (\<lambda>v w. case v of None \<Rightarrow> True | Some x \<Rightarrow> seen V p k x w)"
proof (rule keeps_others [OF assms])
  fix w r w' assume "read_row sv p k w = (r, w')"
  then show "tv_others V w w'"
    by (rule read_row_result) (rule request_read_others [OF assms(1)])
next
  fix w x w' assume a: "read_row sv p k w = (Inr x, w')"
  show "case x of None \<Rightarrow> True | Some v \<Rightarrow> seen V p k v w'"
  proof (cases x)
    case (Some v)
    obtain d e where v: "v = (d, e)" by force
    from a Some obtain y where y: "request sv (Read_entity p k) w = (Inr y, w')" "rs_status y \<noteq> 404"
        "read_response y = Inr (d, e)"
      using v by (metis read_row_result)
    from y(1) have "tv_rows V w' p k = Some (d, e)"
    proof (cases rule: request_cases)
      case once
      then show ?thesis by (rule read_row_law [OF assms(1) _ y(2,3)])
    next
      case (again x v')
      then show ?thesis by (intro read_row_law [OF assms(1) _ y(2,3)])
    qed
    then show ?thesis using rows_hist [OF assms(1)] Some v by (simp add: seen_def)
  qed simp
qed

lemmas keeps_read_scope = keeps_read_row [of sv V I K "partition_key (sv_sha sv) s" k for sv V I K s k,
    folded read_scope_def]

section \<open>Transactions\<close>

text \<open>Every entity of a transaction that was carried out is stored from then on.\<close>

definition all_stored :: "'w table_view \<Rightarrow> string \<Rightarrow> conditional_entity list \<Rightarrow> 'w \<Rightarrow> bool" where
  "all_stored V p es w \<longleftrightarrow> (\<forall>e \<in> set es. stored V p (ce_row e) (ce_document e) w)"

text \<open>Carrying the transaction out on rows with the invariant keeps it.\<close>

definition harmless ::
  "'w table_view \<Rightarrow> (rows \<Rightarrow> bool) \<Rightarrow> ('w \<Rightarrow> bool) \<Rightarrow> string \<Rightarrow> conditional_entity list \<Rightarrow> bool" where
  "harmless V I K p es \<longleftrightarrow> (\<forall>w1 w2. I (tv_rows V w1) \<longrightarrow> K w1 \<longrightarrow> wrote V p es w1 w2 \<longrightarrow> I (tv_rows V w2))"

lemma stored_grown: "stored V p k d w \<Longrightarrow> grown V w w' \<Longrightarrow> stored V p k d w'"
  unfolding stored_def grown_def by blast

lemma carried_out_effect:
  assumes laws: "table_laws sv V" and rely: "rely V I" and K: "stable V K" "K w" "I (tv_rows V w)"
    and step: "harmless V I K p es" and c: "carried_out V p es w w'"
  shows "I (tv_rows V w') \<and> grown V w w' \<and> all_stored V p es w'"
proof -
  from c obtain w1 w2 where o: "tv_others V w w1" "wrote V p es w1 w2" "tv_others V w2 w'"
    unfolding carried_out_def by blast
  have 1: "I (tv_rows V w1)" "grown V w w1" using others_keep [OF laws rely o(1) K(3)] by simp_all
  have "K w1" using K(1,2) 1(2) by (simp add: stable_def)
  then have 2: "I (tv_rows V w2)" using step o(2) 1(1) unfolding harmless_def by blast
  have g: "grown V w1 w2" using o(2) by (simp add: wrote_def)
  have 3: "I (tv_rows V w')" "grown V w2 w'" using others_keep [OF laws rely o(3) 2] by simp_all
  have "stored V p (ce_row e) (ce_document e) w'" if e: "e \<in> set es" for e
  proof -
    obtain t where "tv_rows V w2 p (ce_row e) = Some (ce_document e, t)"
      using o(2) e unfolding wrote_def by blast
    then have "stored V p (ce_row e) (ce_document e) w2" using rows_hist [OF laws] unfolding stored_def by blast
    then show ?thesis using 3(2) by (rule stored_grown)
  qed
  then show ?thesis using 3 grown_trans [OF grown_trans [OF 1(2) g] 3(2)] by (simp add: all_stored_def)
qed

text \<open>The answer to a request for a transaction, sent once or twice.\<close>

lemma keeps_batch_once:
  assumes laws: "table_laws sv V" and rely: "rely V I" and K: "stable V K"
    and step: "harmless V I K p es"
  shows "keeps V I K (sv_send sv (Batch p es c)) (\<lambda>x w. confirmed (length es) x \<longrightarrow> all_stored V p es w)"
proof (rule keepsI)
  fix w r w' assume a: "I (tv_rows V w)" "K w" "sv_send sv (Batch p es c) w = (r, w')"
  show "I (tv_rows V w') \<and> grown V w w'"
    using batch_others [OF laws a(3)]
  proof
    assume "tv_others V w w'"
    then show ?thesis using others_keep [OF laws rely _ a(1)] by blast
  next
    assume "carried_out V p es w w'"
    then show ?thesis using carried_out_effect [OF laws rely K a(2,1) step] by blast
  qed
next
  fix w x w' assume a: "I (tv_rows V w)" "K w" "sv_send sv (Batch p es c) w = (Inr x, w')"
  show "confirmed (length es) x \<longrightarrow> all_stored V p es w'"
    using carried_out_effect [OF laws rely K a(2,1) step] batch_done [OF laws a(3)] by blast
qed

lemma keeps_request:
  assumes once: "keeps V I K (sv_send sv q) Q" and K: "stable V K"
  shows "keeps V I K (request sv q) Q"
  unfolding request_def
proof (rule keeps_bind [OF once K])
  fix x
  have "keeps V I (\<lambda>w. K w \<and> Q x w) (sv_send sv q) Q" by (rule keeps_weaken [OF once]) simp_all
  then show "keeps V I (\<lambda>w. K w \<and> Q x w) (if rs_status x = 401 then sv_send sv q else doneA x) Q"
    by (auto intro: keeps_done)
qed

lemmas keeps_batch = keeps_request [OF keeps_batch_once]

lemma keeps_write_once:
  assumes laws: "table_laws sv V" and rely: "rely V I" and K: "stable V K"
    and step: "harmless V I K p [entity k d tg]"
  shows "keeps V I K (sv_send sv (Write_entity p k d tg)) (\<lambda>_ _. True)"
proof (rule keepsI)
  fix w r w' assume a: "I (tv_rows V w)" "K w" "sv_send sv (Write_entity p k d tg) w = (r, w')"
  show "I (tv_rows V w') \<and> grown V w w'"
    using write_others [OF laws a(3)]
  proof
    assume "tv_others V w w'"
    then show ?thesis using others_keep [OF laws rely _ a(1)] by blast
  next
    assume "carried_out V p [entity k d tg] w w'"
    then show ?thesis using carried_out_effect [OF laws rely K a(2,1) step] by blast
  qed
qed simp

lemmas keeps_write = keeps_request [OF keeps_write_once]

section \<open>Commits\<close>

lemma batch_failure_Inr: "batch_failure m = Inr x \<longleftrightarrow> m = Inr x"
  by (auto simp: batch_failure_def split: sum.splits exn.splits)

lemma harmless_weaken: "harmless V I K p es \<Longrightarrow> (\<And>w. K' w \<Longrightarrow> K w) \<Longrightarrow> harmless V I K' p es"
  by (auto simp: harmless_def)

lemma keeps_case_prod [keeps_intros]:
  "(\<And>a b. x = (a, b) \<Longrightarrow> keeps V I K (f a b) Q) \<Longrightarrow> keeps V I K (case x of (a, b) \<Rightarrow> f a b) Q"
  by (cases x) simp

lemma keeps_commit:
  assumes laws: "table_laws sv V" and rely: "rely V I" and K: "stable V K"
    and step: "harmless V I K (partition_key (sv_sha sv) s) es"
  shows "keeps V I K (commit sv s es) (\<lambda>_. all_stored V (partition_key (sv_sha sv) s) es)"
proof -
  let ?p = "partition_key (sv_sha sv) s"
  have last: "keeps V I (\<lambda>w. K w \<and> (confirmed (length es) r \<longrightarrow> all_stored V ?p es w))
     (bindA (raise_for_status r) (\<lambda>_. liftA (batch_failure
        (validate_batch_response (rs_status r) (rs_content_type r) (rs_parts r) (length es)))))
     (\<lambda>_. all_stored V ?p es)" for r
    by (rule keepsI)
      (auto simp: bindA_def raise_for_status_def guardA_def raiseA_def doneA_def liftA_def grown_def
        batch_failure_Inr confirmed_def split: if_splits)
  have sent: "keeps V I K (bindA (request sv (Batch ?p es content)) (\<lambda>r. bindA (raise_for_status r)
      (\<lambda>_. liftA (batch_failure
        (validate_batch_response (rs_status r) (rs_content_type r) (rs_parts r) (length es))))))
      (\<lambda>_. all_stored V ?p es)" for content
    by (rule keeps_bind [OF keeps_batch [OF laws rely K step K] K last])
  have prepared: "keeps V I K (bindA (liftA t) (\<lambda>(content_type, content).
      bindA (request sv (Batch ?p es content)) (\<lambda>r. bindA (raise_for_status r)
      (\<lambda>_. liftA (batch_failure
        (validate_batch_response (rs_status r) (rs_content_type r) (rs_parts r) (length es)))))))
      (\<lambda>_. all_stored V ?p es)" for t :: "('b \<times> string) res"
    by (rule keeps_bind [where R = "\<lambda>_ _. True"]) (auto intro: keeps_lift K sent)
  show ?thesis
    unfolding commit_def Let_def
    by (rule keeps_bind [OF keeps_fresh [OF laws rely] K], rule keeps_weaken [where K = K],
        rule keeps_bind [OF keeps_fresh [OF laws rely] K], rule keeps_weaken [where K = K], rule prepared)
      simp_all
qed

text \<open>A commit that may lose its race: the value is only returned when it was confirmed.\<close>

lemma keeps_commit_or:
  assumes laws: "table_laws sv V" and rely: "rely V I" and K: "stable V K"
    and step: "harmless V I K (partition_key (sv_sha sv) s) es"
    and won: "\<And>w. K w \<Longrightarrow> all_stored V (partition_key (sv_sha sv) s) es w \<Longrightarrow> Q x w"
    and lost: "keeps V I K again Q"
  shows "keeps V I K (commit_or sv s es x again) Q"
proof -
  let ?done = "all_stored V (partition_key (sv_sha sv) s) es"
  have c: "keeps V I K (catchA (bindA (commit sv s es) (\<lambda>_. doneA True))
      (\<lambda>e. if is_lost_race e then doneA False else raiseA e)) (\<lambda>b w. b \<longrightarrow> ?done w)"
  proof (rule keepsI)
    fix w r w' assume a: "I (tv_rows V w)" "K w" "catchA (bindA (commit sv s es) (\<lambda>_. doneA True))
      (\<lambda>e. if is_lost_race e then doneA False else raiseA e) w = (r, w')"
    obtain q u where q: "commit sv s es w = (q, u)" by force
    note k = keepsD [OF keeps_commit [OF laws rely K step] a(1,2) q]
    have "w' = u" using a(3) q
      by (cases q) (auto simp: catchA_def bindA_def doneA_def raiseA_def split: if_splits)
    then show "I (tv_rows V w') \<and> grown V w w'" using k by simp
  next
    fix w b w' assume a: "I (tv_rows V w)" "K w" "catchA (bindA (commit sv s es) (\<lambda>_. doneA True))
      (\<lambda>e. if is_lost_race e then doneA False else raiseA e) w = (Inr b, w')"
    obtain q u where q: "commit sv s es w = (q, u)" by force
    note k = keepsD [OF keeps_commit [OF laws rely K step] a(1,2) q]
    show "b \<longrightarrow> ?done w'" using a(3) q k(3)
      by (cases q) (auto simp: catchA_def bindA_def doneA_def raiseA_def split: if_splits)
  qed
  show ?thesis
    unfolding commit_or_def
  proof (rule keeps_bind [OF c K])
    fix b
    show "keeps V I (\<lambda>w. K w \<and> (b \<longrightarrow> ?done w)) (if b then doneA x else again) Q"
      using won by (cases b) (auto intro: keeps_done keeps_weaken [OF lost])
  qed
qed

lemma keeps_replace:
  assumes laws: "table_laws sv V" and rely: "rely V I" and K: "stable V K"
    and step: "harmless V I K p [entity k d tg]"
  shows "keeps V I K (replace_if_match sv p k d tg) (\<lambda>_ _. True)"
  unfolding replace_if_match_def raise_for_status_def
  by (intro keeps_guard keeps_bind [OF keeps_write [OF laws rely K step K] K] keeps_if keeps_done
      keeps_bind [where R = "\<lambda>_ _. True"] stable_conj stable_const K) simp_all

end
