(* ===== verification/Ledger_Runs.thy ===== *)
theory Ledger_Runs
  imports Ledger_Complete
begin

text \<open>
  Runs of one ledger: reservations, charges, resolutions, transitions, completions and policy
  updates in any order. Whatever their order and however many of them fail, the balances of the
  summary stay the sums of what its attempts hold.
\<close>

section \<open>Runs of a ledger\<close>

inductive ledger_step :: "digest \<Rightarrow> ledger \<Rightarrow> ledger \<Rightarrow> bool" for sha where
  reserving: "reserve_ledger sha (ld_summary l) i n now usd price assurance = Inr (s, a) \<Longrightarrow>
     ledger_step sha l (l\<lparr>ld_summary := s, ld_attempts := ld_attempts l @ [a]\<rparr>)"
| settling: "i < length (ld_attempts l) \<Longrightarrow>
     step_at (\<lambda>s a. settle_ledger sha s a c now) i l = Inr l' \<Longrightarrow> ledger_step sha l l'"
| resolving: "i < length (ld_attempts l) \<Longrightarrow>
     step_at (\<lambda>s a. resolve_ledger sha s a d now) i l = Inr l' \<Longrightarrow> ledger_step sha l l'"
| transitioning: "i < length (ld_attempts l) \<Longrightarrow>
     step_at (\<lambda>s a. transition_ledger_attempt sha s a st now) i l = Inr l' \<Longrightarrow> ledger_step sha l l'"
| completing: "i < length (ld_attempts l) \<Longrightarrow>
     step_at (\<lambda>s a. complete_ledger sha s a r c now) i l = Inr l' \<Longrightarrow> ledger_step sha l l'"
| repolicing: "update_ledger_policy (ld_summary l) epoch rv lim enf ena now mode usd = Inr (Some s) \<Longrightarrow>
     ledger_step sha l (l\<lparr>ld_summary := s\<rparr>)"

inductive_cases ledger_stepE: "ledger_step sha l l'"

definition opened :: "summary \<Rightarrow> ledger" where
  "opened s = \<lparr>ld_summary = s, ld_opening = confirmed_tokens s, ld_opening_usd = confirmed_usd s,
     ld_attempts = []\<rparr>"

inductive reachable :: "digest \<Rightarrow> summary \<Rightarrow> ledger \<Rightarrow> bool" for sha seed where
  start: "reachable sha seed (opened seed)"
| step: "reachable sha seed l \<Longrightarrow> ledger_step sha l l' \<Longrightarrow> reachable sha seed l'"

definition ledger_ok :: "digest \<Rightarrow> ledger \<Rightarrow> bool" where
  "ledger_ok sha l \<longleftrightarrow>
     balanced l \<and> valid_summary (ld_summary l) \<and> list_all (sound_attempt sha) (ld_attempts l)"

lemma policy_Inr:
  assumes "update_ledger_policy s epoch rv lim enf ena now mode usd = Inr (Some s')"
  shows "policy_revision s < rv" "epoch = sm_epoch s" "sm_updated_at s \<le> now" "valid_summary s'"
    "s' = s\<lparr>policy_revision := rv, token_limit := lim, sm_mode := mode, usd_limit := usd,
            enforce := enf, enabled := ena, version := version s + 1, sm_updated_at := now\<rparr>"
proof -
  let ?p = "\<lambda>x::summary. x\<lparr>policy_revision := rv, token_limit := lim, sm_mode := mode,
       usd_limit := usd, enforce := enf, enabled := ena\<rparr>"
  note u = assms [unfolded update_ledger_policy_def Let_def guardR_eq_Inr]
  then obtain cand where c: "make_summary (?p s) = Inr cand" by (cases "make_summary (?p s)") auto
  note v = u [unfolded c bindR_simps]
  then show rv: "policy_revision s < rv" "epoch = sm_epoch s"
    by (auto simp: guardR_eq_Inr split: if_split_asm)
  then have "bindR (advance_summary s now ?p) (\<lambda>s'. Inr (Some s')) = Inr (Some s')" using v by simp
  then have "advance_summary s now ?p = Inr s'" by (cases "advance_summary s now ?p") auto
  then show "sm_updated_at s \<le> now" "valid_summary s'"
    "s' = s\<lparr>policy_revision := rv, token_limit := lim, sm_mode := mode, usd_limit := usd,
            enforce := enf, enabled := ena, version := version s + 1, sm_updated_at := now\<rparr>"
    by (auto simp: advance_summary_Inr)
qed

lemma ledger_ok_nth: "ledger_ok sha l \<Longrightarrow> i < length (ld_attempts l) \<Longrightarrow> sound_attempt sha (ld_attempts l ! i)"
  by (simp add: ledger_ok_def list_all_length)

lemma reserve_shares:
  assumes "reserve_ledger sha s i n now usd price assurance = Inr (s', a)"
  shows "confirmed_tokens s' = confirmed_tokens s + confirmed_share a
    \<and> active_reserved_tokens s' = active_reserved_tokens s + active_share a
    \<and> upper_bound_tokens s' = upper_bound_tokens s + upper_share a
    \<and> valid_summary s' \<and> sound_attempt sha a"
proof (cases "sm_mode s")
  case Tokens
  note r = reserve_tokens_Inr [OF assms Tokens]
  have "valid_summary s'" "sound_attempt sha a" by (fact r)+
  then show ?thesis by (simp add: r(11) r(5) share_defs new_attempt_def)
next
  case Usd
  then show ?thesis using reserve_usd_Inr [OF assms Usd] by (auto simp: share_defs new_attempt_def)
qed

lemma ledger_step_ok:
  assumes "ledger_step sha l l'" "ledger_ok sha l" shows "ledger_ok sha l'"
  using assms
proof (induction rule: ledger_step.induct)
  case (reserving l i n now usd price assurance s a)
  then show ?case using reserve_shares [OF reserving(1)] by (simp add: ledger_ok_def balanced_def)
next
  case (settling i l c now l')
  then show ?case
    using settle.balanced_step settle.sound_step ledger_ok_nth unfolding ledger_ok_def by blast
next
  case (resolving i l d now l')
  then show ?case
    using resolve.balanced_step resolve.sound_step ledger_ok_nth unfolding ledger_ok_def by blast
next
  case (transitioning i l st now l')
  then show ?case
    using transition.balanced_step transition.sound_step ledger_ok_nth unfolding ledger_ok_def by blast
next
  case (completing i l r c now l')
  then show ?case
    using complete.balanced_step complete.sound_step ledger_ok_nth unfolding ledger_ok_def by blast
next
  case (repolicing l epoch rv lim enf ena now mode usd s)
  note p = policy_Inr [OF repolicing(1)]
  show ?case using repolicing(2) p(4) by (simp add: ledger_ok_def balanced_def p(5))
qed

lemma step_at_opening: "step_at f i l = Inr l' \<Longrightarrow> ld_opening l' = ld_opening l"
proof (cases "f (ld_summary l) (ld_attempts l ! i)")
  case (Inr r)
  assume "step_at f i l = Inr l'"
  with Inr show ?thesis by (cases r) (auto simp: step_at_def)
qed (simp add: step_at_def)


end
