(* ===== verification/Table_Transactions.thy ===== *)
theory Table_Transactions
  imports Table_Laws Ledger_Runs
begin

text \<open>
  The transactions a client of the table ever commits, given what it knows: on the two rows of an
  attempt's ledger, on a summary alone, on a dispatch plan and on a price. The operations refine
  this specification; an invariant is shown once for each kind of transaction.
\<close>

section \<open>Legitimate transactions\<close>

text \<open>The rows of an attempt, of a plan and the summary differ.\<close>

lemma attempt_row_prefix [simp]: "prefix_of ''A|'' (attempt_row_key sha i)"
  by (simp add: prefix_of_def attempt_row_key_def)

lemma summary_row_prefix [simp]: "\<not> prefix_of ''A|'' SUMMARY_ROW"
  by (simp add: prefix_of_def SUMMARY_ROW_def)

lemma attempt_row_ne [simp]: "attempt_row_key sha i \<noteq> SUMMARY_ROW" "SUMMARY_ROW \<noteq> attempt_row_key sha i"
  by (simp_all add: SUMMARY_ROW_def attempt_row_key_def)

lemma dispatch_row_other [simp]:
  "\<not> prefix_of ''A|'' (dispatch_row_key sha p)" "dispatch_row_key sha p \<noteq> SUMMARY_ROW"
  "\<not> prefix_of ''A|'' PRICE_ROW" "PRICE_ROW \<noteq> SUMMARY_ROW"
  "dispatch_row_key sha p \<noteq> attempt_row_key sha' i" "dispatch_row_key sha p \<noteq> PRICE_ROW"
  by (simp_all add: prefix_of_def dispatch_row_key_def SUMMARY_ROW_def PRICE_ROW_def attempt_row_key_def)

text \<open>How a stored plan may change.\<close>

definition plan_moves :: "dispatch \<Rightarrow> dispatch \<Rightarrow> bool" where
  "plan_moves q q' \<longleftrightarrow> dp_owner q' = dp_owner q \<and> dp_receipts q' = dp_receipts q
     \<and> (dp_state q = D_preparing \<or> dp_state q' = dp_state q)"

text \<open>The plan \<open>q\<close> was stored under its key, as version \<open>e\<close>.\<close>

definition seen_plan :: "'w service \<Rightarrow> 'w table_view \<Rightarrow> string \<Rightarrow> dispatch \<Rightarrow> string \<Rightarrow> 'w \<Rightarrow> bool" where
  "seen_plan sv V p q e w \<longleftrightarrow>
     (\<exists>d. dispatch_of_json (sv_sha sv) d = Inr q \<and> seen V p (dispatch_row_key (sv_sha sv) q) (d, e) w)"

lemma stable_seen_plan [stable_intros]: "stable V (seen_plan sv V p q e)"
  unfolding seen_plan_def stable_def using stable_seen [unfolded stable_def] by meson

text \<open>
  \<open>op\<close> gives the opening balance of the partitions whose unit never changes. \<open>K\<close> is what the client
  knows when it commits.
\<close>

inductive ledger_tx ::
  "'w service \<Rightarrow> 'w table_view \<Rightarrow> (string \<Rightarrow> int option) \<Rightarrow> ('w \<Rightarrow> bool) \<Rightarrow> string
     \<Rightarrow> conditional_entity list \<Rightarrow> bool"
  for sv V op K p where
  attempt_moved:
    "(\<And>w. K w \<Longrightarrow> seen V p SUMMARY_ROW (d, e) w) \<Longrightarrow> (\<And>w. K w \<Longrightarrow> seen V p row (ad, ae) w) \<Longrightarrow>
     row = attempt_row_key (sv_sha sv) i \<Longrightarrow>
     summary_of_json d = Inr s \<Longrightarrow> attempt_of_json (sv_sha sv) ad = Inr a \<Longrightarrow>
     valid_summary s' \<Longrightarrow> sound_attempt (sv_sha sv) a' \<Longrightarrow> token_delta s a s' a' \<Longrightarrow>
     ledger_tx sv V op K p
       [entity SUMMARY_ROW (summary_json s') (Some e), entity row (attempt_json a') (Some ae)]"
| attempt_created:
    "(\<And>w. K w \<Longrightarrow> seen V p SUMMARY_ROW (d, e) w) \<Longrightarrow> row = attempt_row_key (sv_sha sv) i \<Longrightarrow>
     summary_of_json d = Inr s \<Longrightarrow> valid_summary s' \<Longrightarrow> sound_attempt (sv_sha sv) a \<Longrightarrow>
     confirmed_tokens s' = confirmed_tokens s + confirmed_share a \<Longrightarrow>
     active_reserved_tokens s' = active_reserved_tokens s + active_share a \<Longrightarrow>
     upper_bound_tokens s' = upper_bound_tokens s + upper_share a \<Longrightarrow>
     ledger_tx sv V op K p
       [entity SUMMARY_ROW (summary_json s') (Some e), entity row (attempt_json a) None]"
| summary_changed:
    "(\<And>w. K w \<Longrightarrow> seen V p SUMMARY_ROW (d, e) w) \<Longrightarrow> summary_of_json d = Inr s \<Longrightarrow>
     valid_summary s' \<Longrightarrow> active_reserved_tokens s' = active_reserved_tokens s \<Longrightarrow>
     upper_bound_tokens s' = upper_bound_tokens s \<Longrightarrow>
     (op p \<noteq> None \<Longrightarrow> confirmed_tokens s' = confirmed_tokens s) \<Longrightarrow>
     ledger_tx sv V op K p [entity SUMMARY_ROW (summary_json s') (Some e)]"
| summary_created:
    "valid_summary s \<Longrightarrow> active_reserved_tokens s = 0 \<Longrightarrow> upper_bound_tokens s = 0 \<Longrightarrow>
     (\<And>c. op p = Some c \<Longrightarrow> confirmed_tokens s = c) \<Longrightarrow>
     ledger_tx sv V op K p [entity SUMMARY_ROW (summary_json s) None]"
| plan_created: "dp_state q = D_preparing \<Longrightarrow> ledger_tx sv V op K p [dispatch_entity (sv_sha sv) q None]"
| plan_moved:
    "(\<And>w. K w \<Longrightarrow> seen_plan sv V p q e w) \<Longrightarrow> plan_moves q q' \<Longrightarrow>
     ledger_tx sv V op K p [dispatch_entity (sv_sha sv) q' (Some e)]"
| price_written: "ledger_tx sv V op K p [entity PRICE_ROW d t]"

text \<open>An invariant of the rows that every client of this kind respects.\<close>

definition client_safe ::
  "'w service \<Rightarrow> 'w table_view \<Rightarrow> (string \<Rightarrow> int option) \<Rightarrow> (rows \<Rightarrow> bool) \<Rightarrow> bool" where
  "client_safe sv V op I \<longleftrightarrow> table_laws sv V \<and> rely V I
     \<and> (\<forall>K p es. ledger_tx sv V op K p es \<longrightarrow> harmless V I K p es)"

lemma client_safeD:
  assumes "client_safe sv V op I"
  shows "table_laws sv V" "rely V I" "ledger_tx sv V op K p es \<Longrightarrow> harmless V I K p es"
  using assms by (auto simp: client_safe_def)

section \<open>What a transaction did\<close>

text \<open>A version that was seen is the current one when its token still matches.\<close>

lemma seen_current:
  assumes "table_laws sv V" "seen V p k (d, e) w" "tv_rows V w p k = Some (d', e)" shows "d' = d"
  using rows_hist [OF assms(1,3)] assms(2) by (simp add: seen_def)

lemma wrote_two:
  assumes "wrote V p [entity k1 d1 (Some e1), entity k2 d2 t] w1 w2"
  obtains x1 t1 t2 where "tv_rows V w1 p k1 = Some (x1, e1)"
    "t = None \<Longrightarrow> tv_rows V w1 p k2 = None" "\<And>u. t = Some u \<Longrightarrow> \<exists>x. tv_rows V w1 p k2 = Some (x, u)"
    "tv_rows V w2 p k1 = Some (d1, t1)" "tv_rows V w2 p k2 = Some (d2, t2)"
    "\<And>p' k. p' \<noteq> p \<or> (k \<noteq> k1 \<and> k \<noteq> k2) \<Longrightarrow> tv_rows V w2 p' k = tv_rows V w1 p' k"
  using assms by (cases t) (auto simp: wrote_def entity_def)

lemma wrote_one:
  assumes "wrote V p [e] w1 w2"
  obtains t1 where "case ce_etag e of None \<Rightarrow> tv_rows V w1 p (ce_row e) = None
      | Some t \<Rightarrow> \<exists>d. tv_rows V w1 p (ce_row e) = Some (d, t)"
    "tv_rows V w2 p (ce_row e) = Some (ce_document e, t1)"
    "\<And>p' k. p' \<noteq> p \<or> k \<noteq> ce_row e \<Longrightarrow> tv_rows V w2 p' k = tv_rows V w1 p' k"
proof -
  note u = assms [unfolded wrote_def]
  have e: "(case ce_etag e of None \<Rightarrow> tv_rows V w1 p (ce_row e) = None
      | Some t \<Rightarrow> \<exists>d. tv_rows V w1 p (ce_row e) = Some (d, t))
      \<and> (\<exists>t. tv_rows V w2 p (ce_row e) = Some (ce_document e, t))"
    using u by (meson list.set_intros(1))
  then obtain t1 where t1: "tv_rows V w2 p (ce_row e) = Some (ce_document e, t1)" by blast
  show thesis by (rule that [OF conjunct1 [OF e] t1]) (use u in simp)
qed

end
