(* ===== verification/Table_Safety.thy ===== *)
theory Table_Safety
  imports Table_Transactions
begin

text \<open>
  Every operation of the table client commits legitimate transactions only, so that it keeps any
  invariant these respect: from any world, on every path, with other clients acting between its
  requests and with answers lost. What an operation reports as done is stored.
\<close>

section \<open>Composition rules for the client's code\<close>

lemma keeps_bind_lift:
  "(\<And>x. r = Inr x \<Longrightarrow> keeps V I K (f x) Q) \<Longrightarrow> keeps V I K (bindA (liftA r) f) Q"
  by (cases r) (auto simp: keeps_def bindA_def liftA_def grown_def)

lemma keeps_bind_needed:
  "(\<And>x. v = Some x \<Longrightarrow> keeps V I K (f x) Q) \<Longrightarrow> keeps V I K (bindA (needed msg v) f) Q"
  by (cases v) (auto simp: keeps_def bindA_def needed_def doneA_def raiseA_def grown_def)

lemma keeps_bind_done: "keeps V I K (f x) Q \<Longrightarrow> keeps V I K (bindA (doneA x) f) Q"
  by (simp add: keeps_def bindA_def doneA_def)

lemma keeps_bind_now:
  assumes "client_safe sv V op I" "stable V K" "\<And>t. keeps V I K (f t) Q"
  shows "keeps V I K (bindA (now_utc sv) f) Q"
  by (rule keeps_bind [OF keeps_now [OF client_safeD(1,2) [OF assms(1)]] assms(2)]) (use assms(3) in simp)

lemma keeps_bind_read:
  assumes "client_safe sv V op I" "stable V K" "keeps V I K (f None) Q"
    "\<And>d e. keeps V I (\<lambda>w. K w \<and> seen V (partition_key (sv_sha sv) s) k (d, e) w) (f (Some (d, e))) Q"
  shows "keeps V I K (bindA (read_scope sv s k) f) Q"
proof (rule keeps_bind [OF keeps_read_scope [OF client_safeD(1,2) [OF assms(1)]] assms(2)])
  fix v
  show "keeps V I (\<lambda>w. K w \<and> (case v of None \<Rightarrow> True
      | Some x \<Rightarrow> seen V (partition_key (sv_sha sv) s) k x w)) (f v) Q"
    using assms(3,4) by (cases v) auto
qed

text \<open>A legitimate transaction is committed, or its race is lost.\<close>

lemma keeps_bind_commit:
  assumes "client_safe sv V op I" "stable V K" "ledger_tx sv V op K (partition_key (sv_sha sv) s) es"
    "\<And>w. K w \<Longrightarrow> all_stored V (partition_key (sv_sha sv) s) es w \<Longrightarrow> Q x w" "keeps V I K again Q"
  shows "keeps V I K (commit_or sv s es x again) Q"
  by (rule keeps_commit_or [OF client_safeD(1,2) [OF assms(1)] assms(2)
        client_safeD(3) [OF assms(1,3)] assms(4,5)])

lemma keeps_bind_any:
  assumes "keeps V I K m R" "stable V K" "\<And>x. keeps V I K (f x) Q"
  shows "keeps V I K (bindA m f) Q"
  by (rule keeps_bind [OF assms(1,2)]) (rule keeps_weaken [OF assms(3)], simp_all)

lemma keeps_outcome:
  "(r = Kept \<Longrightarrow> keeps V I K m Q) \<Longrightarrow> (\<And>s a. r = Advanced s a \<Longrightarrow> keeps V I K (f s a) Q) \<Longrightarrow>
     keeps V I K (case r of Kept \<Rightarrow> m | Advanced s a \<Rightarrow> f s a) Q"
  by (cases r) simp_all

lemma keeps_option:
  "(v = None \<Longrightarrow> keeps V I K m Q) \<Longrightarrow> (\<And>x. v = Some x \<Longrightarrow> keeps V I K (f x) Q) \<Longrightarrow>
     keeps V I K (case v of None \<Rightarrow> m | Some x \<Rightarrow> f x) Q"
  by (cases v) simp_all

lemma seen_stored: "seen V p k (d, e) w \<Longrightarrow> stored V p k d w"
  by (auto simp: seen_def stored_def)

text \<open>The attempt is stored under its own key, as a document that reads back as it.\<close>

definition durable :: "'w service \<Rightarrow> 'w table_view \<Rightarrow> identity \<Rightarrow> attempt \<Rightarrow> 'w \<Rightarrow> bool" where
  "durable sv V i a w \<longleftrightarrow> (\<exists>d. attempt_of_json (sv_sha sv) d = Inr a
     \<and> stored V (partition_key (sv_sha sv) (id_scope i)) (attempt_row_key (sv_sha sv) i) d w)"

lemma durable_commit:
  assumes "all_stored V (partition_key (sv_sha sv) (id_scope i)) es w" "sound_attempt (sv_sha sv) a"
    "entity (attempt_row_key (sv_sha sv) i) (attempt_json a) t \<in> set es"
  shows "durable sv V i a w"
  using assms attempt_json_inverse [OF assms(2)] by (force simp: durable_def all_stored_def entity_def)

section \<open>Reservations\<close>

definition reserved_ok :: "'w service \<Rightarrow> 'w table_view \<Rightarrow> identity \<Rightarrow> int \<Rightarrow> summary \<times> attempt \<times> bool \<Rightarrow> 'w \<Rightarrow> bool" where
  "reserved_ok sv V i n = (\<lambda>(s, a, created) w.
     at_identity a = i \<and> reserved_tokens a = n \<and> durable sv V i a w)"

lemma reserve_frame:
  assumes "reserve_ledger sha s i n now usd price asr = Inr (s', a)"
  shows "at_identity a = i \<and> reserved_tokens a = n"
proof (cases "sm_mode s")
  case Tokens
  show ?thesis using reserve_tokens_Inr [OF assms Tokens] by (auto simp: new_attempt_def)
next
  case Usd
  show ?thesis using reserve_usd_Inr [OF assms Usd] by (auto simp: new_attempt_def)
qed

lemma keeps_reserve_loop:
  assumes safe: "client_safe sv V op I"
  shows "keeps V I (\<lambda>_. True) (reserve_loop k sv i n epoch usd price)
     (reserved_ok sv V i n)"
proof (induction k)
  case 0
  then show ?case by (simp add: keeps_raise)
next
  case (Suc k)
  show ?case
    unfolding reserve_loop.simps
  proof (rule keeps_bind_read [OF safe stable_const])
    fix d e
    let ?p = "partition_key (sv_sha sv) (id_scope i)" and ?row = "attempt_row_key (sv_sha sv) i"
    let ?K = "\<lambda>w. True \<and> seen V ?p SUMMARY_ROW (d, e) w"
    have K: "stable V ?K" by (intro stable_intros)
    have none: "keeps V I ?K
      (bindA (now_utc sv) (\<lambda>now.
         bindA (liftA (reserve_ledger (sv_sha sv) s i n now usd price ''verified_upper_bound'')) (\<lambda>(s', a).
         commit_or sv (id_scope i)
           [entity SUMMARY_ROW (summary_json s') (Some e), entity ?row (attempt_json a) None]
           (s', a, True) (reserve_loop k sv i n epoch usd price))))
      (reserved_ok sv V i n)" if s: "summary_of_json d = Inr s" for s
    proof (intro keeps_bind_now [OF safe K] keeps_bind_lift keeps_case_prod)
      fix now x s' a
      assume "reserve_ledger (sv_sha sv) s i n now usd price ''verified_upper_bound'' = Inr x" "x = (s', a)"
      then have r: "reserve_ledger (sv_sha sv) s i n now usd price ''verified_upper_bound'' = Inr (s', a)" by simp
      note sh = reserve_shares [OF r]
      show "keeps V I ?K (commit_or sv (id_scope i)
          [entity SUMMARY_ROW (summary_json s') (Some e), entity ?row (attempt_json a) None]
          (s', a, True) (reserve_loop k sv i n epoch usd price)) (reserved_ok sv V i n)"
      proof (rule keeps_bind_commit [OF safe K])
        show "ledger_tx sv V op ?K ?p
            [entity SUMMARY_ROW (summary_json s') (Some e), entity ?row (attempt_json a) None]"
          by (rule ledger_tx.attempt_created [OF _ refl s]) (use sh in simp_all)
        show "reserved_ok sv V i n (s', a, True) w" if "all_stored V ?p
            [entity SUMMARY_ROW (summary_json s') (Some e), entity ?row (attempt_json a) None] w" for w
          using durable_commit [OF that, of a None] sh reserve_frame [OF r] by (simp add: reserved_ok_def)
        show "keeps V I ?K (reserve_loop k sv i n epoch usd price) (reserved_ok sv V i n)"
          by (rule keeps_weaken [OF Suc.IH]) simp_all
      qed
    qed
    show "keeps V I ?K
      (bindA (needed ''Budget execution scope is not initialized'' (Some (d, e))) (\<lambda>(d, etag).
       bindA (liftA (summary_of_json d)) (\<lambda>s.
       guardA (sm_epoch s \<noteq> epoch \<or> sm_scope s \<noteq> id_scope i)
         (conflict ''Budget execution epoch does not match'')
      (bindA (read_scope sv (id_scope i) ?row) (\<lambda>previous. case previous of
         None \<Rightarrow> bindA (now_utc sv) (\<lambda>now.
           bindA (liftA (reserve_ledger (sv_sha sv) s i n now usd price ''verified_upper_bound'')) (\<lambda>(s', a).
           commit_or sv (id_scope i)
             [entity SUMMARY_ROW (summary_json s') (Some etag), entity ?row (attempt_json a) None]
             (s', a, True) (reserve_loop k sv i n epoch usd price)))
       | Some (pd, _) \<Rightarrow>
           bindA (liftA (attempt_of_json (sv_sha sv) pd)) (\<lambda>a.
           guardA (at_identity a \<noteq> i \<or> at_epoch a \<noteq> sm_epoch s \<or> reserved_tokens a \<noteq> n
               \<or> \<not> same_usd (reserved_usd a) usd \<or> price_snapshot a \<noteq> price)
             (conflict ''An attempt cannot change its reservation'') (doneA (s, a, False))))))))
      (reserved_ok sv V i n)"
      apply (rule keeps_bind_needed, simp only: option.inject prod.inject)
      apply clarify
      apply (rule keeps_bind_lift, rule keeps_guard, rule keeps_bind_read [OF safe K])
       apply (simp only: option.case, erule none)
      apply (simp only: option.case prod.case, rule keeps_bind_lift, rule keeps_guard, rule keeps_done)
      apply (auto simp: reserved_ok_def durable_def dest: seen_stored)
      done
  qed (rule keeps_bind_needed, simp)
qed

section \<open>Updates of an attempt\<close>

definition updated_ok :: "'w service \<Rightarrow> 'w table_view \<Rightarrow> identity \<Rightarrow> summary \<times> attempt \<Rightarrow> 'w \<Rightarrow> bool" where
  "updated_ok sv V i = (\<lambda>(s, a) w. at_identity a = i \<and> durable sv V i a w)"

text \<open>The commit of an operation that respects the contract of an attempt's ledger.\<close>

lemma keeps_advance:
  assumes safe: "client_safe sv V op I" and K: "stable V K"
    and seen: "\<And>w. K w \<Longrightarrow> seen V (partition_key (sv_sha sv) (id_scope i)) SUMMARY_ROW (d, e) w"
      "\<And>w. K w \<Longrightarrow> seen V (partition_key (sv_sha sv) (id_scope i)) (attempt_row_key (sv_sha sv) i) (ad, ae) w"
    and s: "summary_of_json d = Inr s" and a: "attempt_of_json (sv_sha sv) ad = Inr a" "at_identity a = i"
    and step: "ledger_operation (sv_sha sv) f" "f s a = Inr (Advanced s' a')"
    and again: "keeps V I K again (updated_ok sv V i)"
  shows "keeps V I K
     (commit_or sv (id_scope i)
       [entity SUMMARY_ROW (summary_json s') (Some e),
        entity (attempt_row_key (sv_sha sv) i) (attempt_json a') (Some ae)] (s', a') again)
     (updated_ok sv V i)"
proof (rule keeps_bind_commit [OF safe K])
  note valid = summary_of_json_Inr(1) [OF s] attempt_of_json_Inr(1) [OF a(1)]
  have new: "valid_summary s'" "sound_attempt (sv_sha sv) a'"
    using ledger_operation.accepted [OF step] by simp_all
  have delta: "token_delta s a s' a'" by (rule ledger_operation.tokens [OF step valid])
  have frame: "same_frame s a s' a'" by (rule ledger_operation.frame [OF step valid])
  show "ledger_tx sv V op K (partition_key (sv_sha sv) (id_scope i))
      [entity SUMMARY_ROW (summary_json s') (Some e),
       entity (attempt_row_key (sv_sha sv) i) (attempt_json a') (Some ae)]"
    by (rule ledger_tx.attempt_moved [OF seen refl s a(1) new delta])
  fix w
  assume "all_stored V (partition_key (sv_sha sv) (id_scope i))
      [entity SUMMARY_ROW (summary_json s') (Some e),
       entity (attempt_row_key (sv_sha sv) i) (attempt_json a') (Some ae)] w"
  then show "updated_ok sv V i (s', a') w"
    using durable_commit [of V sv i _ w a' "Some ae"] new(2) frame a(2)
    by (simp add: updated_ok_def same_frame_def)
qed (rule again)

lemma keeps_update_loop:
  assumes safe: "client_safe sv V op I"
    and step: "\<And>now. ledger_operation (sv_sha sv) (\<lambda>s a. step s a now)"
  shows "keeps V I (\<lambda>_. True) (update_loop k sv i step) (updated_ok sv V i)"
proof (induction k)
  case 0
  then show ?case by (simp add: keeps_raise)
next
  case (Suc k)
  show ?case
    unfolding update_loop.simps
    apply (rule keeps_bind_read [OF safe stable_const])
     apply (rule keeps_bind_read [OF safe stable_const])
      apply (rule keeps_bind_needed, simp)
     apply (rule keeps_bind_needed, simp)
    subgoal for d e
      apply (rule keeps_bind_read [OF safe])
        apply (intro stable_intros)
       apply (rule keeps_bind_needed)
       apply (simp only: option.inject)
       apply clarify
       apply (rule keeps_bind_needed, simp)
      subgoal for ad ae
        apply (rule keeps_bind_needed, simp only: option.inject, clarify)
        apply (rule keeps_bind_needed, simp only: option.inject, clarify)
        apply (intro keeps_bind_lift keeps_guard keeps_bind_now [OF safe] stable_intros keeps_outcome
            keeps_done)
         apply (auto simp: updated_ok_def durable_def dest: seen_stored)[1]
        apply (rule keeps_advance [where d = d and ad = ad, OF safe])
                apply (intro stable_intros)
               apply simp
              apply simp
             apply assumption
            apply assumption
           apply simp
          apply (rule step)
         apply (hypsubst, assumption)
        apply (rule keeps_weaken [OF Suc.IH], simp_all)
        done
      done
    done
qed

section \<open>The steps of the client respect the contract\<close>

lemma settle_step_contract: "ledger_operation sha (\<lambda>s a. settle_step sha c s a now)"
  using settle.ledger_operation_axioms [of sha c now] by (simp add: settle_step_def)

lemma complete_step_contract: "ledger_operation sha (\<lambda>s a. complete_step sha r completion s a now)"
  using complete.ledger_operation_axioms [of sha r completion now] by (simp add: complete_step_def)

lemma transition_step_contract: "ledger_operation sha (\<lambda>s a. transition_step sha st s a now)"
  using transition.ledger_operation_axioms [of sha st now] by (simp add: transition_step_def)

lemma cancel_step_contract: "ledger_operation sha (\<lambda>s a. cancel_step sha s a now)"
  using transition.ledger_operation_axioms [of sha Cancelled now] by (simp add: cancel_step_def)

lemma finalize_step_advanced:
  "finalize_step sha s a now = Inr (Advanced s' a') \<Longrightarrow>
     transition_ledger_attempt sha s a Upper_bound now = Inr (Advanced s' a')"
  by (simp add: finalize_step_def split: if_splits)

lemma finalize_step_contract: "ledger_operation sha (\<lambda>s a. finalize_step sha s a now)"
proof unfold_locales
  fix s a s' a' assume f: "finalize_step sha s a now = Inr (Advanced s' a')"
  note t = finalize_step_advanced [OF f]
  show "valid_summary s' \<and> sound_attempt sha a'" by (rule transition.accepted [OF t])
  assume v: "valid_summary s" "sound_attempt sha a"
  show "same_frame s a s' a'" by (rule transition.frame [OF t v])
  show "token_delta s a s' a'" by (rule transition.tokens [OF t v])
qed

section \<open>Summaries, prices and dispatch plans\<close>

lemma keeps_initialize:
  assumes safe: "client_safe sv V op I"
    and s: "valid_summary s" "active_reserved_tokens s = 0" "upper_bound_tokens s = 0"
      "\<And>c. op (partition_key (sv_sha sv) (sm_scope s)) = Some c \<Longrightarrow> confirmed_tokens s = c"
  shows "keeps V I (\<lambda>_. True) (initialize sv s) (\<lambda>_ _. True)"
proof -
  note new = client_safeD(3) [OF safe ledger_tx.summary_created [OF s]]
  show ?thesis
    unfolding initialize_def
    apply (rule keeps_bind_read [OF safe stable_const])
     apply (simp, rule keeps_weaken [OF keeps_commit [OF client_safeD(1,2) [OF safe] stable_const new]])
      apply simp_all
    apply (intro keeps_bind_lift keeps_guard keeps_done, simp)
    done
qed

lemma keeps_quiesce_loop:
  assumes safe: "client_safe sv V op I"
  shows "keeps V I (\<lambda>_. True) (quiesce_loop k sv s epoch revision ena) (\<lambda>_ _. True)"
proof (induction k)
  case (Suc k)
  show ?case
    unfolding quiesce_loop.simps
    apply (rule keeps_bind_read [OF safe stable_const])
     apply (rule keeps_bind_needed, simp)
    subgoal for d e
      apply (rule keeps_bind_needed, simp only: option.inject, clarify)
      apply (intro keeps_bind_lift keeps_guard keeps_if keeps_bind_now [OF safe] keeps_done TrueI
          keeps_bind_commit [OF safe] stable_intros)
       apply (rule ledger_tx.summary_changed [where d = d], simp, assumption)
          apply (auto simp: make_summary_def res_simps checked_eq_Inr)[4]
      apply (rule keeps_weaken [OF Suc.IH], simp_all)
      done
    done
qed (simp add: keeps_raise)

lemma switched_unit_keeps:
  assumes "switched_unit m p = Inr b"
  shows "active_reserved_tokens b = active_reserved_tokens m \<and> upper_bound_tokens b = upper_bound_tokens m"
  using assms
  by (auto simp: switched_unit_def make_summary_def res_simps checked_eq_Inr split: if_splits option.splits)

lemma keeps_policy_loop:
  assumes safe: "client_safe sv V op I"
    and op: "op (partition_key (sv_sha sv) s) = None"
  shows "keeps V I (\<lambda>_. True) (policy_loop k sv s p) (\<lambda>_ _. True)"
proof (induction k)
  case (Suc k)
  have new: "valid_summary m'" "active_reserved_tokens m' = active_reserved_tokens m"
    "upper_bound_tokens m' = upper_bound_tokens m"
    if "switched_unit m p = Inr b" "policy_step b p now = Inr (Some m')" for m b now m'
    using policy_Inr [OF that(2) [unfolded policy_step_def]] switched_unit_keeps [OF that(1)] by simp_all
  show ?case
    unfolding policy_loop.simps
    apply (rule keeps_bind_read [OF safe stable_const])
     apply (rule keeps_bind_needed, simp)
    subgoal for d e
      apply (rule keeps_bind_needed, simp only: option.inject, clarify)
      apply (intro keeps_bind_lift keeps_guard keeps_if keeps_bind_now [OF safe] keeps_done TrueI
          keeps_option keeps_bind_commit [OF safe] stable_intros)
       apply (rule ledger_tx.summary_changed [where d = d], simp, assumption)
          apply (hypsubst, rule new, assumption, assumption)+
       apply (simp add: op)
      apply (rule keeps_weaken [OF Suc.IH], simp_all)
      done
    done
qed (simp add: keeps_raise)

section \<open>Dispatch plans\<close>

lemma keeps_begin_dispatch:
  assumes safe: "client_safe sv V op I"
  shows "keeps V I (\<lambda>_. True) (begin_dispatch sv p) (\<lambda>_ _. True)"
  unfolding begin_dispatch_def
  apply (intro keeps_bind_now [OF safe] keeps_guard keeps_bind_commit [OF safe]
      ledger_tx.plan_created stable_intros TrueI)
   apply simp
  apply (rule keeps_bind_read [OF safe stable_const])
   apply (intro keeps_bind_needed, simp)
  apply (intro keeps_bind_needed keeps_case_prod keeps_bind_lift keeps_guard keeps_done TrueI)
  done

lemma keeps_live_plan:
  assumes safe: "client_safe sv V op I"
  shows "keeps V I (\<lambda>_. True) (live_plan sv p msg)
     (\<lambda>e. seen_plan sv V (partition_key (sv_sha sv) (dispatch_scope p)) p e)"
  unfolding live_plan_def
  apply (rule keeps_bind_read [OF safe stable_const])
   apply (simp add: keeps_raise)
  apply (simp only: option.case)
  apply (intro keeps_case_prod keeps_bind_lift keeps_guard keeps_bind_now [OF safe] keeps_done
      stable_intros)
  apply (auto simp: seen_plan_def)
  done

lemma keeps_live_plan_any:
  assumes safe: "client_safe sv V op I"
  shows "keeps V I (\<lambda>_. True) (live_plan sv p msg) (\<lambda>_ _. True)"
  by (rule keeps_weaken [OF keeps_live_plan [OF safe]]) simp_all

lemma keeps_reserve_receipts:
  assumes safe: "client_safe sv V op I"
  shows "keeps V I (\<lambda>_. True) (reserve_receipts sv p rs) (\<lambda>_ _. True)"
proof (induction rs)
  case (Cons r rs)
  show ?case
    unfolding reserve_receipts.simps reserve_def
    by (intro keeps_bind_any [OF keeps_live_plan_any [OF safe]] stable_const keeps_case_prod keeps_guard
        keeps_bind_any [OF keeps_reserve_loop [OF safe]] Cons.IH)
qed (simp add: keeps_done)

lemma keeps_check_reserved:
  assumes safe: "client_safe sv V op I"
  shows "keeps V I (\<lambda>_. True) (check_reserved sv rs) (\<lambda>_ _. True)"
proof (induction rs)
  case (Cons r rs)
  show ?case
    unfolding check_reserved.simps
    apply (rule keeps_bind_read [OF safe stable_const])
     apply (simp add: keeps_raise)
    apply (simp only: option.case)
    apply (intro keeps_case_prod keeps_bind_lift keeps_guard)
    apply (rule keeps_weaken [OF Cons.IH], simp_all)
    done
qed (simp add: keeps_done)

lemma keeps_authorize_dispatch:
  assumes safe: "client_safe sv V op I" and p: "dp_state p \<noteq> D_cancelled"
  shows "keeps V I (\<lambda>_. True) (authorize_dispatch sv p) (\<lambda>_ _. True)"
  unfolding authorize_dispatch_def
  apply (rule keeps_bind [OF keeps_live_plan [OF safe] stable_const])
  subgoal for etag
    apply (rule keeps_bind_any [OF keeps_weaken [OF keeps_check_reserved [OF safe]]])
       apply (simp_all only: )
     apply (intro stable_intros)
    apply (intro keeps_bind_now [OF safe] keeps_bind_lift keeps_guard keeps_bind_commit [OF safe]
        stable_intros TrueI keeps_done)
    apply (rule ledger_tx.plan_moved [where q = p])
     apply (simp add: dispatch_scope_def)
    using p apply (cases "dp_state p")
      apply (auto simp: plan_moves_def make_dispatch_def checked_eq_Inr)
    done
  done

lemma keeps_cancel_loop:
  assumes safe: "client_safe sv V op I"
  shows "keeps V I (\<lambda>_. True) (cancel_loop k sv p recovery) (\<lambda>_ _. True)"
proof (induction k)
  case (Suc k)
  let ?q = "partition_key (sv_sha sv) (dispatch_scope p)"
  have moved: "keeps V I (\<lambda>w. True \<and> seen V ?q (dispatch_row_key (sv_sha sv) p) (d, e) w)
     (commit_or sv (dispatch_scope p) [dispatch_entity (sv_sha sv) c (Some e)] True (cancel_loop k sv p recovery))
     (\<lambda>_ _. True)"
    if "dispatch_of_json (sv_sha sv) d = Inr s" "dp_receipts s = dp_receipts p" "dp_state s = D_preparing"
      "make_dispatch (sv_sha sv) (s\<lparr>dp_state := D_cancelled, dp_updated_at := t\<rparr>) = Inr c" for d e s t c
  proof (rule keeps_bind_commit [OF safe])
    show "ledger_tx sv V op (\<lambda>w. True \<and> seen V ?q (dispatch_row_key (sv_sha sv) p) (d, e) w) ?q
        [dispatch_entity (sv_sha sv) c (Some e)]"
      using that by (intro ledger_tx.plan_moved [where q = s])
        (auto simp: seen_plan_def dispatch_row_key_def plan_moves_def make_dispatch_def checked_eq_Inr)
  qed (auto intro: stable_intros keeps_weaken [OF Suc.IH])
  have early: "keeps V I K (if recovery then bindA (now_utc sv) (\<lambda>now. doneA (now < expires_at s))
      else doneA False) (\<lambda>_ _. True)" if "stable V K" for s K
    using that by (intro keeps_if keeps_bind_now [OF safe] keeps_done) simp_all
  show ?case
    unfolding cancel_loop.simps
    apply (rule keeps_bind_read [OF safe stable_const])
     apply (rule keeps_bind_needed, simp)
    subgoal for d e
      apply (rule keeps_bind_needed, simp only: option.inject, clarify)
      apply (rule keeps_bind_lift, rule keeps_guard)
      subgoal for a b s
        apply (cases "dp_state s"; simp only: dispatch_state.case)
          apply (rule keeps_bind_any [OF early])
            apply (intro stable_intros)+
          apply (intro keeps_if keeps_done TrueI keeps_bind_now [OF safe] keeps_bind_lift moved stable_intros)
             apply simp_all
         apply (intro keeps_done TrueI)+
        done
      done
    done
qed (simp add: keeps_raise)

section \<open>Compensation and recovery\<close>

lemma tombstone_shares:
  "confirmed_share (tombstone r now) = 0" "active_share (tombstone r now) = 0"
  "upper_share (tombstone r now) = 0"
  by (simp_all add: tombstone_def new_attempt_def confirmed_share_def active_share_def upper_share_def)

lemma keeps_compensate_loop:
  assumes safe: "client_safe sv V op I"
  shows "keeps V I (\<lambda>_. True) (compensate_loop k sv r) (\<lambda>_ _. True)"
proof (induction k)
  case (Suc k)
  let ?i = "rc_identity r"
  let ?p = "partition_key (sv_sha sv) (id_scope ?i)" and ?row = "attempt_row_key (sv_sha sv) ?i"
  have absent: "keeps V I (\<lambda>w. True \<and> seen V ?p SUMMARY_ROW (d, e) w)
     (commit_or sv (id_scope ?i)
       [entity SUMMARY_ROW (summary_json s') (Some e), entity ?row (attempt_json a) None] 0
       (compensate_loop k sv r)) (\<lambda>_ _. True)"
    if "summary_of_json d = Inr s" "make_attempt (sv_sha sv) (tombstone r t) = Inr a"
      "make_summary (s\<lparr>version := version s + 1, sm_updated_at := t\<rparr>) = Inr s'" for d e s s' a t
  proof (rule keeps_bind_commit [OF safe])
    show "ledger_tx sv V op (\<lambda>w. True \<and> seen V ?p SUMMARY_ROW (d, e) w) ?p
        [entity SUMMARY_ROW (summary_json s') (Some e), entity ?row (attempt_json a) None]"
      by (rule ledger_tx.attempt_created [OF _ refl that(1)])
        (use that(2,3) in \<open>auto simp: make_attempt_sound make_summary_def res_simps checked_eq_Inr tombstone_shares\<close>)
  qed (auto intro: stable_intros keeps_weaken [OF Suc.IH])
  have cancel: "keeps V I K (update_attempt sv ?i (cancel_step (sv_sha sv))) (\<lambda>_ _. True)" for K
    unfolding update_attempt_def
    by (rule keeps_weaken [OF keeps_update_loop [OF safe cancel_step_contract]]) simp_all
  show ?case
    unfolding compensate_loop.simps Let_def
    apply (rule keeps_bind_read [OF safe stable_const])
     apply (rule keeps_bind_read [OF safe stable_const])
      apply (rule keeps_bind_needed, simp)
     apply (rule keeps_bind_needed, simp)
    subgoal for d e
      apply (rule keeps_bind_read [OF safe])
        apply (intro stable_intros)
       apply (rule keeps_bind_needed, simp only: option.inject, clarify)
       apply (simp only: option.case)
       apply (intro keeps_bind_lift keeps_guard keeps_bind_now [OF safe] absent stable_intros)
         apply assumption+
      apply (rule keeps_bind_needed, simp only: option.inject, clarify)
      apply (simp only: option.case prod.case)
      apply (intro keeps_bind_lift keeps_guard keeps_if keeps_done TrueI)
      apply (rule keeps_bind_any [OF cancel])
       apply (intro stable_intros)
      apply (rule keeps_done, rule TrueI)
      done
    done
qed (simp add: keeps_raise)

lemma keeps_compensate_receipts:
  assumes safe: "client_safe sv V op I"
  shows "keeps V I (\<lambda>_. True) (compensate_receipts sv rs) (\<lambda>_ _. True)"
  by (induction rs)
    (auto intro!: keeps_done keeps_bind_any [OF keeps_compensate_loop [OF safe]] keeps_bind_any stable_const
      simp: compensate_receipts.simps)

lemma keeps_compensate_dispatch:
  assumes safe: "client_safe sv V op I"
  shows "keeps V I (\<lambda>_. True) (compensate_dispatch sv p) (\<lambda>_ _. True)"
  unfolding compensate_dispatch_def
  apply (rule keeps_bind_read [OF safe stable_const])
   apply (rule keeps_bind_needed, simp)
  apply (rule keeps_bind_needed, simp only: option.inject, clarify)
  apply (intro keeps_bind_lift keeps_guard)
  apply (rule keeps_weaken [OF keeps_compensate_receipts [OF safe]], simp_all)
  done

lemma keeps_finish_dispatch_recovery:
  assumes safe: "client_safe sv V op I"
  shows "keeps V I (\<lambda>_. True) (finish_dispatch_recovery sv p) (\<lambda>_ _. True)"
proof -
  let ?q = "partition_key (sv_sha sv) (dispatch_scope p)"
  let ?K = "\<lambda>d e w. True \<and> seen V ?q (dispatch_row_key (sv_sha sv) p) (d, e) w"
  have K: "stable V (?K d e)" for d e by (intro stable_intros)
  have moved: "keeps V I (?K d e) (commit sv (dispatch_scope p) [dispatch_entity (sv_sha sv) c (Some e)]) (\<lambda>_ _. True)"
    if "dispatch_of_json (sv_sha sv) d = Inr s" "dp_receipts s = dp_receipts p"
      "make_dispatch (sv_sha sv) (s\<lparr>recovery_complete := True, dp_updated_at := t\<rparr>) = Inr c" for d e s t c
  proof -
    have "ledger_tx sv V op (?K d e) ?q [dispatch_entity (sv_sha sv) c (Some e)]"
      using that by (intro ledger_tx.plan_moved [where q = s])
        (auto simp: seen_plan_def dispatch_row_key_def plan_moves_def make_dispatch_def checked_eq_Inr)
    then show ?thesis
      by (intro keeps_weaken [OF keeps_commit [OF client_safeD(1,2) [OF safe] K client_safeD(3) [OF safe]]]) auto
  qed
  show ?thesis
    unfolding finish_dispatch_recovery_def
    apply (rule keeps_bind_read [OF safe stable_const])
     apply (rule keeps_bind_needed, simp)
    apply (rule keeps_bind_needed, simp only: option.inject, clarify)
    apply (intro keeps_bind_lift keeps_guard keeps_if keeps_done TrueI keeps_bind_now [OF safe] moved K)
      apply simp_all
    done
qed

section \<open>Prices\<close>

lemma keeps_bind_replace:
  assumes safe: "client_safe sv V op I" and K: "stable V K"
    and k: "\<And>b. keeps V I K (f b) Q"
  shows "keeps V I K (bindA (replace_if_match sv p PRICE_ROW d t) f) Q"
  by (rule keeps_bind_any [OF keeps_replace [OF client_safeD(1,2) [OF safe] K
        client_safeD(3) [OF safe ledger_tx.price_written]] K k])

lemma keeps_read_price:
  assumes "client_safe sv V op I"
  shows "keeps V I (\<lambda>_. True) (read_row sv p k) (\<lambda>_ _. True)"
  by (rule keeps_weaken [OF keeps_read_row [OF client_safeD(1,2) [OF assms]]]) simp_all

lemma keeps_project_price_loop:
  assumes safe: "client_safe sv V op I"
  shows "keeps V I (\<lambda>_. True) (project_price_loop k sv p create_only) (\<lambda>_ _. True)"
  by (induction k)
    (auto simp: project_price_loop.simps Let_def intro!: keeps_raise keeps_bind_any [OF keeps_read_price [OF safe]]
      stable_const keeps_option keeps_case_prod keeps_bind_lift keeps_done keeps_bind_replace [OF safe] keeps_if)

section \<open>Reads\<close>

lemma keeps_read_summary:
  assumes safe: "client_safe sv V op I"
  shows "keeps V I (\<lambda>_. True) (read_summary sv s) (\<lambda>_ _. True)"
  unfolding read_summary_def
  by (rule keeps_bind_read [OF safe stable_const]; rule keeps_bind_needed)
    (auto intro!: keeps_case_prod keeps_bind_lift keeps_guard keeps_done)

lemma keeps_read_model_price:
  assumes safe: "client_safe sv V op I"
  shows "keeps V I (\<lambda>_. True) (read_model_price sv m) (\<lambda>_ _. True)"
  unfolding read_model_price_def
  by (intro keeps_bind_any [OF keeps_read_price [OF safe]] stable_const keeps_option keeps_case_prod
      keeps_bind_lift keeps_guard keeps_done TrueI)

lemma keeps_read_attempt:
  assumes safe: "client_safe sv V op I"
  shows "keeps V I (\<lambda>_. True) (read_attempt sv r) (\<lambda>_ _. True)"
  unfolding read_attempt_def
  by (rule keeps_bind_read [OF safe stable_const]; rule keeps_bind_needed)
    (auto intro!: keeps_case_prod keeps_bind_lift keeps_guard keeps_done)

lemma keeps_pending_dispatch_page:
  assumes safe: "client_safe sv V op I"
  shows "keeps V I (\<lambda>_. True) (pending_dispatch_page sv c limit) (\<lambda>_ _. True)"
proof -
  have page: "keeps V I (\<lambda>_. True) (sv_send sv (Recovery_page a n b d)) (\<lambda>_ _. True)" for a n b d
    by (rule keeps_others [OF client_safeD(1,2) [OF safe]]) (auto intro: page_law [OF client_safeD(1) [OF safe]])
  show ?thesis
    unfolding pending_dispatch_page_def raise_for_status_def Let_def
    by (intro keeps_bind_any [OF keeps_request [OF page stable_const]] stable_const
        keeps_bind_any [where m = "guardA _ _ _" and R = "\<lambda>_ _. True"] keeps_guard keeps_bind_lift keeps_done TrueI)
qed

end
