(* ===== verification/Table_Accounting.thy ===== *)
theory Table_Accounting
  imports Table_Transactions
begin

text \<open>
  The accounting invariant of the stored rows: in every partition the balances of the summary are
  the sums over the attempt rows. Each transaction the client can commit keeps it, whatever other
  clients do between its requests and however often an answer is lost.
\<close>

section \<open>Balances of the stored rows\<close>

definition att_rows :: "rows \<Rightarrow> string \<Rightarrow> string set" where
  "att_rows T p = {k. prefix_of ''A|'' k \<and> T p k \<noteq> None}"

definition share_at :: "digest \<Rightarrow> (attempt \<Rightarrow> int) \<Rightarrow> rows \<Rightarrow> string \<Rightarrow> string \<Rightarrow> int" where
  "share_at sha f T p k =
     (case T p k of
        None \<Rightarrow> 0
      | Some (d, _) \<Rightarrow> (case attempt_of_json sha d of Inl _ \<Rightarrow> 0 | Inr a \<Rightarrow> f a))"

definition shares :: "digest \<Rightarrow> (attempt \<Rightarrow> int) \<Rightarrow> rows \<Rightarrow> string \<Rightarrow> int" where
  "shares sha f T p = (\<Sum>k \<in> att_rows T p. share_at sha f T p k)"

text \<open>
  \<open>c\<close> is the opening balance of the partition, when it is known: the confirmed tokens that do not
  come from its attempts.
\<close>

definition balances_ok :: "digest \<Rightarrow> int option \<Rightarrow> rows \<Rightarrow> string \<Rightarrow> summary \<Rightarrow> bool" where
  "balances_ok sha c T p s \<longleftrightarrow>
     active_reserved_tokens s = shares sha active_share T p
     \<and> upper_bound_tokens s = shares sha upper_share T p
     \<and> (case c of None \<Rightarrow> True | Some b \<Rightarrow> confirmed_tokens s = b + shares sha confirmed_share T p)"

definition partition_ok :: "digest \<Rightarrow> int option \<Rightarrow> rows \<Rightarrow> string \<Rightarrow> bool" where
  "partition_ok sha c T p \<longleftrightarrow> finite (att_rows T p)
     \<and> (case T p SUMMARY_ROW of
          None \<Rightarrow> att_rows T p = {}
        | Some (d, _) \<Rightarrow> (\<forall>s. summary_of_json d = Inr s \<longrightarrow> balances_ok sha c T p s))"

definition accounted :: "digest \<Rightarrow> (string \<Rightarrow> int option) \<Rightarrow> rows \<Rightarrow> bool" where
  "accounted sha op T \<longleftrightarrow> (\<forall>p. partition_ok sha (op p) T p)"

text \<open>A change of one attempt row moves the sums by the change of its share.\<close>

lemma shares_update:
  assumes fin: "finite (att_rows T p)" and row: "prefix_of ''A|'' row" "T' p row \<noteq> None"
    and same: "\<And>k. prefix_of ''A|'' k \<Longrightarrow> k \<noteq> row \<Longrightarrow> T' p k = T p k"
  shows "att_rows T' p = insert row (att_rows T p)"
    "shares sha f T' p = shares sha f T p - share_at sha f T p row + share_at sha f T' p row"
proof -
  show r: "att_rows T' p = insert row (att_rows T p)"
  proof (rule set_eqI)
    fix k show "k \<in> att_rows T' p \<longleftrightarrow> k \<in> insert row (att_rows T p)"
      using row same [of k]
      by (cases "k = row"; cases "prefix_of ''A|'' k") (simp_all add: att_rows_def)
  qed
  let ?A = "att_rows T p - {row}"
  have "(\<Sum>k \<in> ?A. share_at sha f T' p k) = (\<Sum>k \<in> ?A. share_at sha f T p k)"
    by (rule sum.cong) (auto simp: share_at_def att_rows_def same)
  then have 1: "shares sha f T' p = share_at sha f T' p row + (\<Sum>k \<in> ?A. share_at sha f T p k)"
    unfolding shares_def r using fin by (simp add: sum.insert_remove)
  have 2: "shares sha f T p = share_at sha f T p row + (\<Sum>k \<in> ?A. share_at sha f T p k)"
  proof (cases "row \<in> att_rows T p")
    case True
    then show ?thesis unfolding shares_def by (rule sum.remove [OF fin])
  next
    case False
    then have "T p row = None" using row(1) by (cases "T p row") (auto simp: att_rows_def)
    then show ?thesis using False by (simp add: shares_def share_at_def)
  qed
  show "shares sha f T' p = shares sha f T p - share_at sha f T p row + share_at sha f T' p row"
    using 1 2 by simp
qed

lemma shares_same:
  assumes "\<And>k. prefix_of ''A|'' k \<Longrightarrow> T' p k = T p k"
  shows "att_rows T' p = att_rows T p" "shares sha f T' p = shares sha f T p"
proof -
  show r: "att_rows T' p = att_rows T p" using assms by (auto simp: att_rows_def)
  show "shares sha f T' p = shares sha f T p"
    unfolding shares_def r by (rule sum.cong) (auto simp: share_at_def att_rows_def assms)
qed

lemma partition_same:
  assumes "\<And>k. prefix_of ''A|'' k \<or> k = SUMMARY_ROW \<Longrightarrow> T' p k = T p k"
  shows "partition_ok sha c T' p = partition_ok sha c T p"
  using shares_same [of T' p T] assms
  by (auto simp: partition_ok_def balances_ok_def split: option.splits)

section \<open>Transactions that keep the balances\<close>

lemma share_at_doc: "T p k = Some (d, e) \<Longrightarrow> attempt_of_json sha d = Inr a \<Longrightarrow> share_at sha f T p k = f a"
  by (simp add: share_at_def)

lemma accountedI:
  assumes "accounted sha op T" "\<And>p' k. p' \<noteq> p \<Longrightarrow> T' p' k = T p' k" "partition_ok sha (op p) T' p"
  shows "accounted sha op T'"
  unfolding accounted_def
proof
  fix q show "partition_ok sha (op q) T' q"
  proof (cases "q = p")
    case False
    then have "partition_ok sha (op q) T' q = partition_ok sha (op q) T q"
      by (intro partition_same) (simp add: assms(2))
    then show ?thesis using assms(1) by (simp add: accounted_def)
  qed (use assms(3) in simp)
qed

text \<open>The summary and one attempt row change together, by the change of the attempt's shares.\<close>

lemma accounted_move:
  assumes I: "accounted sha op T" and S: "T p SUMMARY_ROW = Some (d, e)" "summary_of_json d = Inr s"
    and S': "T' p SUMMARY_ROW = Some (summary_json s', t1)" "valid_summary s'"
    and A': "prefix_of ''A|'' row" "T' p row = Some (attempt_json a', t2)" "sound_attempt sha a'"
    and same: "\<And>p' k. p' \<noteq> p \<or> (k \<noteq> SUMMARY_ROW \<and> k \<noteq> row) \<Longrightarrow> T' p' k = T p' k"
    and deltas: "confirmed_tokens s' = confirmed_tokens s - share_at sha confirmed_share T p row + confirmed_share a'"
      "active_reserved_tokens s' = active_reserved_tokens s - share_at sha active_share T p row + active_share a'"
      "upper_bound_tokens s' = upper_bound_tokens s - share_at sha upper_share T p row + upper_share a'"
  shows "accounted sha op T'"
proof -
  have ok: "partition_ok sha (op p) T p" using I by (simp add: accounted_def)
  have fin: "finite (att_rows T p)" using ok by (simp add: partition_ok_def)
  have bal: "balances_ok sha (op p) T p s" using ok S by (simp add: partition_ok_def)
  have att: "T' p k = T p k" if "prefix_of ''A|'' k" "k \<noteq> row" for k
  proof -
    have "k \<noteq> SUMMARY_ROW" using that(1) by auto
    then show ?thesis using same that(2) by blast
  qed
  have some: "T' p row \<noteq> None" using A'(2) by simp
  have sh: "shares sha f T' p = shares sha f T p - share_at sha f T p row + f a'" for f
    using shares_update(2) [where T = T and T' = T' and p = p and row = row and sha = sha and f = f,
        OF fin A'(1) some att]
      share_at_doc [of T' p row _ t2 sha a' f, OF A'(2) attempt_json_inverse [OF A'(3)]]
    by simp
  have fin': "finite (att_rows T' p)" using fin
    by (simp add: shares_update(1) [where T = T and T' = T' and p = p and row = row, OF fin A'(1) some att])
  have "balances_ok sha (op p) T' p s'"
    using bal deltas by (auto simp: balances_ok_def sh split: option.splits)
  then have "partition_ok sha (op p) T' p"
    using fin' S'(1) summary_json_inverse [OF S'(2)] by (simp add: partition_ok_def)
  moreover have "T' p' k = T p' k" if "p' \<noteq> p" for p' k using same that by blast
  ultimately show ?thesis using accountedI [where T = T and T' = T' and p = p, OF I] by blast
qed

text \<open>Only the summary changes, and its balances do not.\<close>

lemma accounted_summary:
  assumes I: "accounted sha op T" and S: "T p SUMMARY_ROW = Some (d, e)" "summary_of_json d = Inr s"
    and S': "T' p SUMMARY_ROW = Some (summary_json s', t1)" "valid_summary s'"
    and same: "\<And>p' k. p' \<noteq> p \<or> k \<noteq> SUMMARY_ROW \<Longrightarrow> T' p' k = T p' k"
    and keep: "active_reserved_tokens s' = active_reserved_tokens s" "upper_bound_tokens s' = upper_bound_tokens s"
      "op p \<noteq> None \<Longrightarrow> confirmed_tokens s' = confirmed_tokens s"
  shows "accounted sha op T'"
proof -
  have ok: "partition_ok sha (op p) T p" using I by (simp add: accounted_def)
  have bal: "balances_ok sha (op p) T p s" using ok S by (simp add: partition_ok_def)
  have "T' p k = T p k" if "prefix_of ''A|'' k" for k
  proof -
    have "k \<noteq> SUMMARY_ROW" using that by auto
    then show ?thesis using same by blast
  qed
  note sh = shares_same [of T' p T, OF this]
  have "balances_ok sha (op p) T' p s'"
    using bal keep by (auto simp: balances_ok_def sh split: option.splits)
  then have "partition_ok sha (op p) T' p"
    using ok S'(1) summary_json_inverse [OF S'(2)] by (simp add: partition_ok_def sh)
  moreover have "T' p' k = T p' k" if "p' \<noteq> p" for p' k using same that by blast
  ultimately show ?thesis using accountedI [where T = T and T' = T' and p = p, OF I] by blast
qed

text \<open>Only rows change that are neither the summary nor an attempt.\<close>

lemma accounted_other:
  assumes "accounted sha op T" "\<And>p k. prefix_of ''A|'' k \<or> k = SUMMARY_ROW \<Longrightarrow> T' p k = T p k"
  shows "accounted sha op T'"
  using assms partition_same [of T' _ T] by (simp add: accounted_def)

section \<open>Harmless transactions\<close>

lemma harmless_pair:
  assumes laws: "table_laws sv V" and pre: "prefix_of ''A|'' row"
    and K: "\<And>w. K w \<Longrightarrow> seen V p SUMMARY_ROW (d, e) w" "\<And>w. K w \<Longrightarrow> seen V p row (ad, ae) w"
    and s: "summary_of_json d = Inr s" and a: "attempt_of_json sha ad = Inr a"
    and new: "valid_summary s'" "sound_attempt sha a'" "token_delta s a s' a'"
  shows "harmless V (accounted sha op) K p
    [entity SUMMARY_ROW (summary_json s') (Some e), entity row (attempt_json a') (Some ae)]"
  unfolding harmless_def
proof (intro allI impI)
  fix w1 w2
  assume I: "accounted sha op (tv_rows V w1)" and k: "K w1"
    and "wrote V p [entity SUMMARY_ROW (summary_json s') (Some e), entity row (attempt_json a') (Some ae)] w1 w2"
  from this(3) obtain d1 t1 t2 where w: "tv_rows V w1 p SUMMARY_ROW = Some (d1, e)"
    "\<exists>x. tv_rows V w1 p row = Some (x, ae)"
    "tv_rows V w2 p SUMMARY_ROW = Some (summary_json s', t1)" "tv_rows V w2 p row = Some (attempt_json a', t2)"
    "\<And>p' k. p' \<noteq> p \<or> (k \<noteq> SUMMARY_ROW \<and> k \<noteq> row) \<Longrightarrow> tv_rows V w2 p' k = tv_rows V w1 p' k"
    by (rule wrote_two) blast
  obtain ad1 where ad1: "tv_rows V w1 p row = Some (ad1, ae)" using w(2) by blast
  have S: "tv_rows V w1 p SUMMARY_ROW = Some (d, e)" using w(1) seen_current [OF laws K(1) [OF k] w(1)] by simp
  have A: "tv_rows V w1 p row = Some (ad, ae)" using ad1 seen_current [OF laws K(2) [OF k] ad1] by simp
  have sh: "share_at sha f (tv_rows V w1) p row = f a" for f
    using A a by (simp add: share_at_def)
  show "accounted sha op (tv_rows V w2)"
    by (rule accounted_move [OF I S s w(3) new(1) pre w(4) new(2) w(5)])
      (use new(3) in \<open>simp_all add: token_delta_def sh\<close>)
qed

lemma harmless_new:
  assumes laws: "table_laws sv V" and pre: "prefix_of ''A|'' row"
    and K: "\<And>w. K w \<Longrightarrow> seen V p SUMMARY_ROW (d, e) w" and s: "summary_of_json d = Inr s"
    and new: "valid_summary s'" "sound_attempt sha a"
      "confirmed_tokens s' = confirmed_tokens s + confirmed_share a"
      "active_reserved_tokens s' = active_reserved_tokens s + active_share a"
      "upper_bound_tokens s' = upper_bound_tokens s + upper_share a"
  shows "harmless V (accounted sha op) K p
    [entity SUMMARY_ROW (summary_json s') (Some e), entity row (attempt_json a) None]"
  unfolding harmless_def
proof (intro allI impI)
  fix w1 w2
  assume I: "accounted sha op (tv_rows V w1)" and k: "K w1"
    and "wrote V p [entity SUMMARY_ROW (summary_json s') (Some e), entity row (attempt_json a) None] w1 w2"
  from this(3) obtain d1 t1 t2 where w: "tv_rows V w1 p SUMMARY_ROW = Some (d1, e)"
    "tv_rows V w1 p row = None"
    "tv_rows V w2 p SUMMARY_ROW = Some (summary_json s', t1)" "tv_rows V w2 p row = Some (attempt_json a, t2)"
    "\<And>p' k. p' \<noteq> p \<or> (k \<noteq> SUMMARY_ROW \<and> k \<noteq> row) \<Longrightarrow> tv_rows V w2 p' k = tv_rows V w1 p' k"
    by (rule wrote_two) blast
  have S: "tv_rows V w1 p SUMMARY_ROW = Some (d, e)" using w(1) seen_current [OF laws K [OF k] w(1)] by simp
  show "accounted sha op (tv_rows V w2)"
    by (rule accounted_move [OF I S s w(3) new(1) pre w(4) new(2) w(5)])
      (use new(3-5) w(2) in \<open>simp_all add: share_at_def\<close>)
qed

lemma harmless_summary:
  assumes laws: "table_laws sv V"
    and K: "\<And>w. K w \<Longrightarrow> seen V p SUMMARY_ROW (d, e) w" and s: "summary_of_json d = Inr s"
    and new: "valid_summary s'" "active_reserved_tokens s' = active_reserved_tokens s"
      "upper_bound_tokens s' = upper_bound_tokens s"
      "op p \<noteq> None \<Longrightarrow> confirmed_tokens s' = confirmed_tokens s"
  shows "harmless V (accounted sha op) K p [entity SUMMARY_ROW (summary_json s') (Some e)]"
  unfolding harmless_def
proof (intro allI impI)
  fix w1 w2
  assume I: "accounted sha op (tv_rows V w1)" and k: "K w1"
    and "wrote V p [entity SUMMARY_ROW (summary_json s') (Some e)] w1 w2"
  from this(3) obtain d1 t1 where w: "tv_rows V w1 p SUMMARY_ROW = Some (d1, e)"
    "tv_rows V w2 p SUMMARY_ROW = Some (summary_json s', t1)"
    "\<And>p' k. p' \<noteq> p \<or> k \<noteq> SUMMARY_ROW \<Longrightarrow> tv_rows V w2 p' k = tv_rows V w1 p' k"
    by (rule wrote_one) (auto simp: entity_def)
  have S: "tv_rows V w1 p SUMMARY_ROW = Some (d, e)" using w(1) seen_current [OF laws K [OF k] w(1)] by simp
  show "accounted sha op (tv_rows V w2)"
    by (rule accounted_summary [OF I S s w(2) new(1) w(3) new(2-4)])
qed

text \<open>The first summary of a partition.\<close>

lemma harmless_first:
  assumes new: "valid_summary s" "active_reserved_tokens s = 0" "upper_bound_tokens s = 0"
      "\<And>c. op p = Some c \<Longrightarrow> confirmed_tokens s = c"
  shows "harmless V (accounted sha op) K p [entity SUMMARY_ROW (summary_json s) None]"
  unfolding harmless_def
proof (intro allI impI)
  fix w1 w2
  assume I: "accounted sha op (tv_rows V w1)" and k: "K w1"
    and "wrote V p [entity SUMMARY_ROW (summary_json s) None] w1 w2"
  from this(3) obtain t1 where w: "tv_rows V w1 p SUMMARY_ROW = None"
    "tv_rows V w2 p SUMMARY_ROW = Some (summary_json s, t1)"
    "\<And>p' k. p' \<noteq> p \<or> k \<noteq> SUMMARY_ROW \<Longrightarrow> tv_rows V w2 p' k = tv_rows V w1 p' k"
    by (rule wrote_one) (auto simp: entity_def)
  let ?T = "tv_rows V w1" and ?T' = "tv_rows V w2"
  have none: "att_rows ?T p = {}" using I w(1) by (auto simp: accounted_def partition_ok_def dest: spec [of _ p])
  have "?T' p k = ?T p k" if "prefix_of ''A|'' k" for k
  proof -
    have "k \<noteq> SUMMARY_ROW" using that by auto
    then show ?thesis using w(3) by blast
  qed
  note sh = shares_same [of ?T' p ?T, OF this]
  have z: "shares sha f ?T' p = 0" for f by (simp add: sh none shares_def)
  have "balances_ok sha (op p) ?T' p s"
    using new(2-4) by (auto simp: balances_ok_def z split: option.splits)
  then have "partition_ok sha (op p) ?T' p"
    using w(2) summary_json_inverse [OF new(1)] by (simp add: partition_ok_def sh none)
  moreover have "?T' p' k = ?T p' k" if "p' \<noteq> p" for p' k using w(3) that by blast
  ultimately show "accounted sha op ?T'" using accountedI [where T = ?T and T' = ?T' and p = p, OF I] by blast
qed

text \<open>A dispatch plan or a price.\<close>

lemma harmless_other:
  assumes "\<not> prefix_of ''A|'' (ce_row e)" "ce_row e \<noteq> SUMMARY_ROW"
  shows "harmless V (accounted sha op) K p [e]"
  unfolding harmless_def
proof (intro allI impI)
  fix w1 w2
  assume I: "accounted sha op (tv_rows V w1)" and "wrote V p [e] w1 w2"
  from this(2) obtain t1 where
    "\<And>p' k. p' \<noteq> p \<or> k \<noteq> ce_row e \<Longrightarrow> tv_rows V w2 p' k = tv_rows V w1 p' k"
    by (rule wrote_one) blast
  note same = this
  show "accounted sha op (tv_rows V w2)"
  proof (rule accounted_other [OF I])
    fix p' k assume "prefix_of ''A|'' k \<or> k = SUMMARY_ROW"
    then have "k \<noteq> ce_row e" using assms by auto
    then show "tv_rows V w2 p' k = tv_rows V w1 p' k" using same by blast
  qed
qed

text \<open>Every transaction of a client keeps the balances.\<close>

lemma accounted_safe:
  assumes laws: "table_laws sv V" and rely: "rely V (accounted (sv_sha sv) op)"
  shows "client_safe sv V op (accounted (sv_sha sv) op)"
  unfolding client_safe_def
proof (intro conjI allI impI laws rely)
  fix K p es assume "ledger_tx sv V op K p es"
  then show "harmless V (accounted (sv_sha sv) op) K p es"
  proof cases
    case (attempt_moved d e row ad ae i s a s' a')
    show ?thesis unfolding attempt_moved(1)
      by (rule harmless_pair [OF laws _ attempt_moved(2,3,5-9)]) (simp_all add: attempt_moved(4))
  next
    case (attempt_created d e row i s s' a)
    show ?thesis unfolding attempt_created(1)
      by (rule harmless_new [OF laws _ attempt_created(2,4-9)]) (simp_all add: attempt_created(3))
  next
    case (summary_changed d e s s')
    show ?thesis unfolding summary_changed(1) by (rule harmless_summary [OF laws summary_changed(2-7)])
  next
    case (summary_created s)
    show ?thesis unfolding summary_created(1) by (rule harmless_first [OF summary_created(2-5)])
  next
    case (plan_created q)
    show ?thesis unfolding plan_created(1) by (rule harmless_other) (simp_all add: dispatch_entity_def)
  next
    case (plan_moved q e q')
    show ?thesis unfolding plan_moved(1) by (rule harmless_other) (simp_all add: dispatch_entity_def)
  next
    case (price_written d t)
    show ?thesis unfolding price_written by (rule harmless_other) (simp_all add: entity_def)
  qed
qed

end
