(* ===== verification/Table_Guarantees.thy ===== *)
theory Table_Guarantees
  imports Table_Safety Table_Accounting
begin

text \<open>
  What the table client guarantees, whatever other clients do between its requests and however
  often an answer is lost: the balances of the stored rows, the durability of what it returns, and
  the exclusion of authorising and cancelling one dispatch plan.
\<close>

section \<open>Runs of the client\<close>

text \<open>
  One step: other clients act, or an operation of this client runs, whether it returns or raises.
  A scope with a fixed opening is initialised at it and never switches its unit, and only plans
  their owner did not cancel are authorised.
\<close>

inductive client_step :: "'w service \<Rightarrow> 'w table_view \<Rightarrow> (string \<Rightarrow> int option) \<Rightarrow> 'w \<Rightarrow> 'w \<Rightarrow> bool"
  for sv V op where
  cs_others: "tv_others V w w' \<Longrightarrow> client_step sv V op w w'"
| cs_initialize: "initialize sv s w = (r, w') \<Longrightarrow> valid_summary s \<Longrightarrow> active_reserved_tokens s = 0 \<Longrightarrow>
    upper_bound_tokens s = 0 \<Longrightarrow>
    (\<And>c. op (partition_key (sv_sha sv) (sm_scope s)) = Some c \<Longrightarrow> confirmed_tokens s = c) \<Longrightarrow>
    client_step sv V op w w'"
| cs_summary: "read_summary sv sc w = (r, w') \<Longrightarrow> client_step sv V op w w'"
| cs_price: "read_model_price sv m w = (r, w') \<Longrightarrow> client_step sv V op w w'"
| cs_project: "project_model_price sv pj n c w = (r, w') \<Longrightarrow> client_step sv V op w w'"
| cs_reserve: "reserve sv i n ep u pj k w = (r, w') \<Longrightarrow> client_step sv V op w w'"
| cs_settle: "settle sv ch w = (r, w') \<Longrightarrow> client_step sv V op w w'"
| cs_complete: "complete sv rc cm w = (r, w') \<Longrightarrow> client_step sv V op w w'"
| cs_transition: "transition sv i st w = (r, w') \<Longrightarrow> client_step sv V op w w'"
| cs_finalize: "finalize_uncertain sv i w = (r, w') \<Longrightarrow> client_step sv V op w w'"
| cs_attempt: "read_attempt sv rc w = (r, w') \<Longrightarrow> client_step sv V op w w'"
| cs_quiesce: "quiesce_budget_scope sv sc ep pr ena w = (r, w') \<Longrightarrow> client_step sv V op w w'"
| cs_policy: "write_policy sv sc pw w = (r, w') \<Longrightarrow>
    op (partition_key (sv_sha sv) sc) = None \<Longrightarrow> client_step sv V op w w'"
| cs_begin: "begin_dispatch sv p w = (r, w') \<Longrightarrow> client_step sv V op w w'"
| cs_reserve_dispatch: "reserve_dispatch sv p w = (r, w') \<Longrightarrow> client_step sv V op w w'"
| cs_authorize: "authorize_dispatch sv p w = (r, w') \<Longrightarrow> dp_state p \<noteq> D_cancelled \<Longrightarrow>
    client_step sv V op w w'"
| cs_cancel: "cancel_dispatch sv p rcv w = (r, w') \<Longrightarrow> client_step sv V op w w'"
| cs_compensate: "compensate_dispatch sv p w = (r, w') \<Longrightarrow> client_step sv V op w w'"
| cs_page: "pending_dispatch_page sv c n w = (r, w') \<Longrightarrow> client_step sv V op w w'"
| cs_finish: "finish_dispatch_recovery sv p w = (r, w') \<Longrightarrow> client_step sv V op w w'"

inductive client_run :: "'w service \<Rightarrow> 'w table_view \<Rightarrow> (string \<Rightarrow> int option) \<Rightarrow> 'w \<Rightarrow> 'w \<Rightarrow> bool"
  for sv V op where
  run_start: "client_run sv V op w w"
| run_step: "client_run sv V op w u \<Longrightarrow> client_step sv V op u w' \<Longrightarrow> client_run sv V op w w'"

lemma keeps_world:
  assumes "keeps V I (\<lambda>_. True) m Q" "I (tv_rows V w)" "m w = (r, w')"
  shows "I (tv_rows V w') \<and> grown V w w'"
  using keepsD [OF assms(1,2) TrueI assms(3)] by simp

lemma keeps_transition:
  assumes safe: "client_safe sv V op I"
  shows "keeps V I (\<lambda>_. True) (transition sv i st) (updated_ok sv V i)"
  unfolding transition_def update_attempt_def
  by (intro keeps_guard keeps_update_loop [OF safe transition_step_contract])

lemma keeps_finalize:
  assumes safe: "client_safe sv V op I"
  shows "keeps V I (\<lambda>_. True) (finalize_uncertain sv i) (\<lambda>_ _. True)"
  unfolding finalize_uncertain_def update_attempt_def
  by (intro keeps_bind_any [OF keeps_update_loop [OF safe finalize_step_contract]] stable_const keeps_done TrueI)

lemma keeps_step:
  assumes safe: "client_safe sv V op I" and step: "client_step sv V op w w'" and I: "I (tv_rows V w)"
  shows "I (tv_rows V w') \<and> grown V w w'"
  using step
proof cases
  case cs_others
  show ?thesis by (rule others_keep [OF client_safeD(1,2) [OF safe] cs_others I])
next
  case (cs_initialize s r)
  show ?thesis by (rule keeps_world [OF keeps_initialize [OF safe cs_initialize(2-5)] I cs_initialize(1)])
next
  case (cs_summary sc r)
  show ?thesis by (rule keeps_world [OF keeps_read_summary [OF safe] I cs_summary])
next
  case (cs_price m r)
  show ?thesis by (rule keeps_world [OF keeps_read_model_price [OF safe] I cs_price])
next
  case (cs_project pj n c r)
  show ?thesis by (rule keeps_world [OF keeps_project_price_loop [OF safe] I cs_project [unfolded project_model_price_def]])
next
  case (cs_reserve i n ep u pj k r)
  show ?thesis by (rule keeps_world [OF keeps_reserve_loop [OF safe] I cs_reserve [unfolded reserve_def]])
next
  case (cs_settle ch r)
  show ?thesis
    by (rule keeps_world [OF keeps_update_loop [OF safe settle_step_contract] I
          cs_settle [unfolded settle_def update_attempt_def]])
next
  case (cs_complete rc cm r)
  show ?thesis
    by (rule keeps_world [OF keeps_update_loop [OF safe complete_step_contract] I
          cs_complete [unfolded complete_def update_attempt_def]])
next
  case (cs_transition i st r)
  show ?thesis by (rule keeps_world [OF keeps_transition [OF safe] I cs_transition])
next
  case (cs_finalize i r)
  show ?thesis by (rule keeps_world [OF keeps_finalize [OF safe] I cs_finalize])
next
  case (cs_attempt rc r)
  show ?thesis by (rule keeps_world [OF keeps_read_attempt [OF safe] I cs_attempt])
next
  case (cs_quiesce sc ep pr ena r)
  show ?thesis by (rule keeps_world [OF keeps_quiesce_loop [OF safe] I cs_quiesce [unfolded quiesce_budget_scope_def]])
next
  case (cs_policy sc pw r)
  show ?thesis
    by (rule keeps_world [OF keeps_policy_loop [OF safe cs_policy(2)] I cs_policy(1) [unfolded write_policy_def]])
next
  case (cs_begin p r)
  show ?thesis by (rule keeps_world [OF keeps_begin_dispatch [OF safe] I cs_begin])
next
  case (cs_reserve_dispatch p r)
  show ?thesis
    by (rule keeps_world [OF keeps_reserve_receipts [OF safe] I cs_reserve_dispatch [unfolded reserve_dispatch_def]])
next
  case (cs_authorize p r)
  show ?thesis by (rule keeps_world [OF keeps_authorize_dispatch [OF safe cs_authorize(2)] I cs_authorize(1)])
next
  case (cs_cancel p rcv r)
  show ?thesis by (rule keeps_world [OF keeps_cancel_loop [OF safe] I cs_cancel [unfolded cancel_dispatch_def]])
next
  case (cs_compensate p r)
  show ?thesis by (rule keeps_world [OF keeps_compensate_dispatch [OF safe] I cs_compensate])
next
  case (cs_page c n r)
  show ?thesis by (rule keeps_world [OF keeps_pending_dispatch_page [OF safe] I cs_page])
next
  case (cs_finish p r)
  show ?thesis by (rule keeps_world [OF keeps_finish_dispatch_recovery [OF safe] I cs_finish])
qed

lemma keeps_run:
  assumes safe: "client_safe sv V op I" and run: "client_run sv V op w w'" and I: "I (tv_rows V w)"
  shows "I (tv_rows V w')"
  using run I
proof induction
  case (run_step w u w')
  then show ?case using keeps_step [OF safe run_step.hyps(2)] by simp
qed


section \<open>What is returned is stored\<close>

text \<open>The trivial invariant: durability needs no more than the laws of the service.\<close>

lemma trivial_safe: "table_laws sv V \<Longrightarrow> client_safe sv V op (\<lambda>_. True)"
  by (simp add: client_safe_def rely_def harmless_def)

text \<open>
  C13. A reservation that returns, on its first attempt or after lost races, returns an attempt of
  the requested identity and tokens that is stored in the table as a document that reads back as
  it.
\<close>

theorem reserve_durable:
  assumes "table_laws sv V" "reserve sv i n epoch usd price attempts w = (Inr (s, a, created), w')"
  shows "at_identity a = i \<and> reserved_tokens a = n \<and> durable sv V i a w'"
  using keepsD(3) [OF keeps_reserve_loop [OF trivial_safe [OF assms(1), of Map.empty]] TrueI TrueI
      assms(2) [unfolded reserve_def]]
  by (simp add: reserved_ok_def)

lemma settle_stored:
  assumes "table_laws sv V" "settle sv c w = (Inr (s, a), w')"
  shows "at_identity a = ch_identity c \<and> durable sv V (ch_identity c) a w'"
  using keepsD(3) [OF keeps_update_loop [OF trivial_safe [OF assms(1), of Map.empty] settle_step_contract]
      TrueI TrueI assms(2) [unfolded settle_def update_attempt_def]]
  by (simp add: updated_ok_def)

text \<open>
  C14. A settlement that returns, returns an attempt of the charge's identity that is stored in
  the table as a document that reads back as it.
\<close>

theorem settle_durable:
  assumes "table_laws sv V" "settle sv c w = (Inr (s, a), w')"
  shows "at_identity a = ch_identity c \<and> durable sv V (ch_identity c) a w'"
  by (rule settle_stored [OF assms])

end
