(* ===== verification/Table_Plans.thy ===== *)
theory Table_Plans
  imports Table_Guarantees
begin

text \<open>
  A dispatch plan is decided once: when it was authorised no client can cancel it, and when it was
  cancelled its preparing owner can no longer authorise it.
\<close>

section \<open>Decided plans\<close>

text \<open>The plan stored under the key is in state \<open>st\<close>.\<close>

definition decided :: "string \<Rightarrow> string \<Rightarrow> dispatch_state \<Rightarrow> rows \<Rightarrow> bool" where
  "decided p k st T \<longleftrightarrow>
     (\<exists>d e. T p k = Some (d, e) \<and> dfield d ''state'' = PStr (dispatch_state_text st))"

lemma state_text_inject: "dispatch_state_text a = dispatch_state_text b \<longleftrightarrow> a = b"
  by (cases a; cases b) simp_all

lemma decided_json: "dfield (dispatch_json q) ''state'' = PStr (dispatch_state_text (dp_state q))"
  by (simp add: dispatch_json_def dfield_def)

lemma dispatch_of_json_state:
  assumes "dispatch_of_json sha d = Inr q" "dfield d ''state'' = PStr (dispatch_state_text st)"
  shows "dp_state q = st"
proof -
  have key: "has_key d ''state''"
    using assms(2) by (force simp: has_key_def dfield_def image_iff dest!: map_of_SomeD split: option.splits)
  have st: "dispatch_state_of_json (PStr (dispatch_state_text st)) = Inr st"
    by (cases st) (simp_all add: dispatch_state_of_json_def)
  obtain ow ca rs dn ba ex up where
    "make_dispatch sha \<lparr>dp_owner = ow, caller_request_id = ca, dp_receipts = rs, dp_state = st,
       recovery_complete = dn, counting_basis = ba, expires_at = ex, dp_updated_at = up\<rparr> = Inr q"
    using assms(1) unfolding dispatch_of_json_def guardR_eq_Inr bindR_eq_Inr
    by (simp only: key assms(2) st if_True sum.inject) blast
  then show ?thesis by (auto simp: make_dispatch_def checked_eq_Inr)
qed

lemma decided_elsewhere:
  assumes "decided p k st (tv_rows V w1)" "wrote V p' es w1 w2" "k \<notin> ce_row ` set es"
  shows "decided p k st (tv_rows V w2)"
  using assms by (auto simp: decided_def wrote_def)

lemma wrote_plan:
  assumes "wrote V p [dispatch_entity sha q t] w1 w2"
  shows "\<exists>t1. tv_rows V w2 p (dispatch_row_key sha q) = Some (dispatch_json q, t1)"
    and "t = None \<Longrightarrow> tv_rows V w1 p (dispatch_row_key sha q) = None"
    and "t = Some e \<Longrightarrow> \<exists>x. tv_rows V w1 p (dispatch_row_key sha q) = Some (x, e)"
    and "\<not> (p' = p \<and> dispatch_row_key sha q = k) \<Longrightarrow> tv_rows V w2 p' k = tv_rows V w1 p' k"
proof -
  let ?e = "dispatch_entity sha q t"
  have e: "ce_row ?e = dispatch_row_key sha q" "ce_document ?e = dispatch_json q" "ce_etag ?e = t"
    by (simp_all add: dispatch_entity_def)
  note u = assms [unfolded wrote_def]
  have 1: "(case t of None \<Rightarrow> tv_rows V w1 p (dispatch_row_key sha q) = None
        | Some x \<Rightarrow> \<exists>d. tv_rows V w1 p (dispatch_row_key sha q) = Some (d, x))
      \<and> (\<exists>x. tv_rows V w2 p (dispatch_row_key sha q) = Some (dispatch_json q, x))"
    using bspec [OF conjunct1 [OF conjunct2 [OF u]] list.set_intros(1)] unfolding e .
  show "\<exists>t1. tv_rows V w2 p (dispatch_row_key sha q) = Some (dispatch_json q, t1)" using 1 by blast
  show "t = None \<Longrightarrow> tv_rows V w1 p (dispatch_row_key sha q) = None" using 1 by simp
  show "t = Some e \<Longrightarrow> \<exists>x. tv_rows V w1 p (dispatch_row_key sha q) = Some (x, e)" using 1 by simp
  show "\<not> (p' = p \<and> dispatch_row_key sha q = k) \<Longrightarrow> tv_rows V w2 p' k = tv_rows V w1 p' k"
    using u e by auto
qed

lemma decided_plan_moved:
  assumes laws: "table_laws sv V" and seen: "seen_plan sv V p' q e w1" and st: "st \<noteq> D_preparing"
    and moves: "plan_moves q q'" and I: "decided p k st (tv_rows V w1)"
    and wr: "wrote V p' [dispatch_entity (sv_sha sv) q' (Some e)] w1 w2"
  shows "decided p k st (tv_rows V w2)"
proof (cases "p' = p \<and> dispatch_row_key (sv_sha sv) q' = k")
  case True
  have row: "dispatch_row_key (sv_sha sv) q = k"
    using moves True by (simp add: plan_moves_def dispatch_row_key_def)
  obtain d e1 where d: "tv_rows V w1 p k = Some (d, e1)" "dfield d ''state'' = PStr (dispatch_state_text st)"
    using I by (auto simp: decided_def)
  obtain t1 where w: "\<exists>x. tv_rows V w1 p k = Some (x, e)" "tv_rows V w2 p k = Some (dispatch_json q', t1)"
    using wrote_plan(1,3) [OF wr] True by force
  obtain ds where ds: "dispatch_of_json (sv_sha sv) ds = Inr q" "seen V p k (ds, e) w1"
    using seen True row by (auto simp: seen_plan_def)
  have "tv_rows V w1 p k = Some (d, e)" using w(1) d(1) by auto
  then have "ds = d" using seen_current [OF laws ds(2)] by simp
  then have "dp_state q = st" using dispatch_of_json_state [OF ds(1)] d(2) by simp
  then have "dp_state q' = st" using moves st by (simp add: plan_moves_def)
  then show ?thesis using w(2) decided_json [of q'] by (auto simp: decided_def)
next
  case False
  then have "\<not> (p = p' \<and> dispatch_row_key (sv_sha sv) q' = k)" by blast
  then show ?thesis using I wrote_plan(4) [OF wr] by (simp add: decided_def)
qed

lemma decided_plan_created:
  assumes I: "decided p k st (tv_rows V w1)" and wr: "wrote V p' [dispatch_entity sha q None] w1 w2"
  shows "decided p k st (tv_rows V w2)"
proof (cases "p' = p \<and> dispatch_row_key sha q = k")
  case True
  then have "tv_rows V w1 p k = None" using wrote_plan(2) [OF wr] by simp
  then show ?thesis using I by (simp add: decided_def)
next
  case False
  then have "\<not> (p = p' \<and> dispatch_row_key sha q = k)" by blast
  then show ?thesis using I wrote_plan(4) [OF wr] by (simp add: decided_def)
qed

lemma decided_safe:
  assumes laws: "table_laws sv V" and st: "st \<noteq> D_preparing"
    and rely: "rely V (decided p (dispatch_row_key (sv_sha sv) q0) st)"
  shows "client_safe sv V op (decided p (dispatch_row_key (sv_sha sv) q0) st)"
  unfolding client_safe_def
proof (intro conjI allI impI laws rely)
  let ?k = "dispatch_row_key (sv_sha sv) q0"
  have row [simp]: "SUMMARY_ROW \<noteq> ?k" "PRICE_ROW \<noteq> ?k" "attempt_row_key (sv_sha sv) i \<noteq> ?k" for i
    using dispatch_row_other by metis+
  fix K p' es assume tx: "ledger_tx sv V op K p' es"
  show "harmless V (decided p ?k st) K p' es"
    unfolding harmless_def
  proof (intro allI impI)
    fix w1 w2
    assume a: "decided p ?k st (tv_rows V w1)" "K w1" "wrote V p' es w1 w2"
    show "decided p ?k st (tv_rows V w2)"
      using tx
    proof cases
      case (plan_created q)
      show ?thesis by (rule decided_plan_created [OF a(1) a(3) [unfolded plan_created(1)]])
    next
      case (plan_moved q e q')
      show ?thesis
        by (rule decided_plan_moved [OF laws plan_moved(2) [OF a(2)] st plan_moved(3) a(1)
              a(3) [unfolded plan_moved(1)]])
    qed (rule decided_elsewhere [OF a(1,3)], simp add: entity_def)+
  qed
qed

section \<open>What a confirmed commit did\<close>

text \<open>The only request of an action that can have written is its last.\<close>

lemma request_batch_confirmed:
  assumes laws: "table_laws sv V" and r: "request sv (Batch p es c) w = (Inr x, w')" "confirmed (length es) x"
  shows "\<exists>u. carried_out V p es u w'"
  using r(1)
proof (cases rule: request_cases)
  case once
  then show ?thesis using batch_done [OF laws once r(2)] by blast
next
  case (again y v)
  then show ?thesis using batch_done [OF laws again(2) r(2)] by blast
qed

lemma bindA_Inr:
  assumes "bindA m f w = (Inr x, w')"
  obtains y u where "m w = (Inr y, u)" "f y u = (Inr x, w')"
proof (cases "m w")
  case (Pair q u)
  show thesis
  proof (cases q)
    case (Inl e)
    then show thesis using assms Pair by (simp add: bindA_def)
  next
    case (Inr y)
    then show thesis using assms Pair that by (simp add: bindA_def)
  qed
qed

lemma guardA_Inr: "guardA bad e k w = (Inr x, w') \<longleftrightarrow> \<not> bad \<and> k w = (Inr x, w')"
  by (simp add: guardA_def raiseA_def)

lemma doneA_Inr: "doneA y w = (Inr x, w') \<longleftrightarrow> x = y \<and> w' = w"
  by (auto simp: doneA_def)

lemma liftA_Inr: "liftA r w = (Inr x, w') \<longleftrightarrow> r = Inr x \<and> w' = w"
  by (auto simp: liftA_def)

lemma commit_confirmed:
  assumes laws: "table_laws sv V" and c: "commit sv s es w = (Inr x, w')"
  shows "\<exists>u. carried_out V (partition_key (sv_sha sv) s) es u w'"
proof -
  let ?p = "partition_key (sv_sha sv) s"
  let ?last = "\<lambda>r. bindA (raise_for_status r) (\<lambda>_. liftA (batch_failure
       (validate_batch_response (rs_status r) (rs_content_type r) (rs_parts r) (length es))))"
  obtain u where "\<exists>ct. bindA (request sv (Batch ?p es ct)) ?last u = (Inr x, w')"
    using c unfolding commit_def Let_def by (elim bindA_Inr) (simp add: liftA_Inr split: prod.splits, blast)
  then obtain ct r u1 where r: "request sv (Batch ?p es ct) u = (Inr r, u1)" "?last r u1 = (Inr x, w')"
    by (auto elim: bindA_Inr)
  have "w' = u1" "confirmed (length es) r"
    using r(2) by (auto elim!: bindA_Inr simp: raise_for_status_def guardA_Inr doneA_Inr liftA_Inr
        batch_failure_Inr confirmed_def)
  then show ?thesis using request_batch_confirmed [OF laws r(1)] by blast
qed

lemma commit_or_confirmed:
  assumes laws: "table_laws sv V" and c: "commit_or sv s es x again w = (Inr y, w')"
  shows "(\<exists>u. carried_out V (partition_key (sv_sha sv) s) es u w' \<and> y = x) \<or> (\<exists>u. again u = (Inr y, w'))"
proof -
  obtain b u where b: "catchA (bindA (commit sv s es) (\<lambda>_. doneA True))
      (\<lambda>e. if is_lost_race e then doneA False else raiseA e) w = (Inr b, u)"
    "(if b then doneA x else again) u = (Inr y, w')"
    using c unfolding commit_or_def by (rule bindA_Inr)
  show ?thesis
  proof (cases b)
    case True
    then have "\<exists>z. commit sv s es w = (Inr z, u)" using b(1)
      by (cases "commit sv s es w"; cases "fst (commit sv s es w)")
        (auto simp: catchA_def bindA_def doneA_def raiseA_def split: if_splits)
    then show ?thesis using commit_confirmed [OF laws] b(2) True by (auto simp: doneA_Inr)
  next
    case False
    then show ?thesis using b(2) by auto
  qed
qed

text \<open>After a confirmed transaction on a plan, the plan is in the state written.\<close>

lemma carried_out_decided:
  assumes laws: "table_laws sv V" and rely: "rely V (decided p (dispatch_row_key (sv_sha sv) q) (dp_state q))"
    and c: "carried_out V p [dispatch_entity (sv_sha sv) q t] u w'"
  shows "decided p (dispatch_row_key (sv_sha sv) q) (dp_state q) (tv_rows V w')"
proof -
  obtain w1 w2 where w: "wrote V p [dispatch_entity (sv_sha sv) q t] w1 w2" "tv_others V w2 w'"
    using c by (auto simp: carried_out_def)
  obtain t1 where "tv_rows V w2 p (dispatch_row_key (sv_sha sv) q) = Some (dispatch_json q, t1)"
    using wrote_plan(1) [OF w(1)] by blast
  then have "decided p (dispatch_row_key (sv_sha sv) q) (dp_state q) (tv_rows V w2)"
    using decided_json [of q] by (auto simp: decided_def)
  then show ?thesis using rely w(2) by (auto simp: rely_def)
qed

section \<open>Reading a decided plan\<close>

lemma read_absent_law:
  assumes "table_laws sv V" "sv_send sv (Read_entity p k) w = (Inr x, w')" "rs_status x = 404"
  shows "tv_rows V w' p k = None"
proof -
  have "read_law sv V" using assms(1) unfolding table_laws_def by blast
  then show ?thesis using assms(2,3) unfolding read_law_def by blast
qed

lemma read_row_current:
  assumes laws: "table_laws sv V" and r: "read_row sv p k w = (Inr v, w')"
  shows "tv_rows V w' p k = v"
proof -
  have send: "tv_rows V u2 p k = v"
    if s: "sv_send sv (Read_entity p k) u1 = (Inr x, u2)"
      and v: "rs_status x = 404 \<and> v = None \<or> rs_status x \<noteq> 404 \<and> (\<exists>y. v = Some y \<and> read_response x = Inr y)" for u1 x u2
  proof (cases "rs_status x = 404")
    case True
    then show ?thesis using read_absent_law [OF laws s] v by simp
  next
    case False
    then show ?thesis using read_row_law [OF laws s False] v by auto
  qed
  obtain x u where x: "request sv (Read_entity p k) w = (Inr x, u)"
    "(if rs_status x = 404 then doneA None
      else bindA (raise_for_status x) (\<lambda>_. bindA (liftA (read_response x)) (\<lambda>x. doneA (Some x)))) u = (Inr v, w')"
    using r unfolding read_row_def by (rule bindA_Inr)
  have v: "rs_status x = 404 \<and> v = None \<or> rs_status x \<noteq> 404 \<and> (\<exists>y. v = Some y \<and> read_response x = Inr y)"
    and w': "w' = u"
    using x(2) by (auto simp: doneA_Inr liftA_Inr raise_for_status_def guardA_Inr elim!: bindA_Inr split: if_splits)
  have "tv_rows V u p k = v"
    using x(1)
  proof (cases rule: request_cases)
    case once
    then show ?thesis by (rule send [OF _ v])
  next
    case (again y z)
    show ?thesis by (rule send [OF again(2) v])
  qed
  then show ?thesis by (simp add: w')
qed

lemma keeps_bind_decided:
  assumes safe: "client_safe sv V op (decided (partition_key (sv_sha sv) s) k st)" and K: "stable V K"
    and f: "\<And>d e. dfield d ''state'' = PStr (dispatch_state_text st) \<Longrightarrow>
      keeps V (decided (partition_key (sv_sha sv) s) k st) K (f (Some (d, e))) Q"
  shows "keeps V (decided (partition_key (sv_sha sv) s) k st) K (bindA (read_scope sv s k) f) Q"
proof -
  let ?I = "decided (partition_key (sv_sha sv) s) k st"
  note laws = client_safeD(1) [OF safe] and rely = client_safeD(2) [OF safe]
  have r: "keeps V ?I K (read_scope sv s k)
      (\<lambda>v _. \<exists>d e. v = Some (d, e) \<and> dfield d ''state'' = PStr (dispatch_state_text st))"
  proof (rule keepsI)
    fix w r w' assume a: "?I (tv_rows V w)" "read_scope sv s k w = (r, w')"
    show "?I (tv_rows V w') \<and> grown V w w'"
      using keepsD(1,2) [OF keeps_read_scope [OF laws rely] a(1) TrueI a(2)] by blast
  next
    fix w x w' assume a: "?I (tv_rows V w)" "read_scope sv s k w = (Inr x, w')"
    have g: "?I (tv_rows V w')"
      using keepsD(1) [OF keeps_read_scope [OF laws rely] a(1) TrueI a(2)] by blast
    have "tv_rows V w' (partition_key (sv_sha sv) s) k = x"
      using read_row_current [OF laws] a(2) by (simp add: read_scope_def)
    then show "\<exists>d e. x = Some (d, e) \<and> dfield d ''state'' = PStr (dispatch_state_text st)"
      using g by (auto simp: decided_def)
  qed
  show ?thesis
  proof (rule keeps_bind [OF r K])
    fix v
    show "keeps V ?I (\<lambda>w. K w \<and> (\<exists>d e. v = Some (d, e) \<and> dfield d ''state'' = PStr (dispatch_state_text st)))
        (f v) Q"
    proof (cases "\<exists>d e. v = Some (d, e) \<and> dfield d ''state'' = PStr (dispatch_state_text st)")
      case True
      then obtain d e where v: "v = Some (d, e)" "dfield d ''state'' = PStr (dispatch_state_text st)" by blast
      show ?thesis unfolding v(1) by (rule keeps_weaken [OF f [OF v(2)]]) simp_all
    next
      case False
      then show ?thesis unfolding keeps_def by blast
    qed
  qed
qed

section \<open>Authorising and cancelling exclude each other\<close>

lemma cancel_of_dispatching:
  assumes safe: "client_safe sv V op (decided (partition_key (sv_sha sv) (dispatch_scope p))
    (dispatch_row_key (sv_sha sv) p) D_dispatching)"
  shows "keeps V (decided (partition_key (sv_sha sv) (dispatch_scope p))
    (dispatch_row_key (sv_sha sv) p) D_dispatching) (\<lambda>_. True) (cancel_loop k sv p recovery) (\<lambda>b _. \<not> b)"
proof (cases k)
  case (Suc n)
  show ?thesis
    unfolding Suc cancel_loop.simps
    apply (rule keeps_bind_decided [OF safe stable_const])
    apply (rule keeps_bind_needed, simp only: option.inject prod.case)
    apply clarify
    apply (rule keeps_bind_lift, rule keeps_guard)
    apply (drule dispatch_of_json_state, assumption)
    apply (simp add: keeps_done)
    done
qed (simp add: keeps_raise)

lemma authorize_of_cancelled:
  assumes safe: "client_safe sv V op (decided (partition_key (sv_sha sv) (dispatch_scope p))
    (dispatch_row_key (sv_sha sv) p) D_cancelled)" and p: "dp_state p \<noteq> D_cancelled"
  shows "keeps V (decided (partition_key (sv_sha sv) (dispatch_scope p))
    (dispatch_row_key (sv_sha sv) p) D_cancelled) (\<lambda>_. True) (authorize_dispatch sv p) (\<lambda>_ _. False)"
proof -
  have "keeps V (decided (partition_key (sv_sha sv) (dispatch_scope p))
    (dispatch_row_key (sv_sha sv) p) D_cancelled) (\<lambda>_. True) (live_plan sv p msg) (\<lambda>_ _. False)" for msg
    unfolding live_plan_def
    apply (rule keeps_bind_decided [OF safe stable_const])
    apply (simp only: option.case prod.case)
    apply (rule keeps_bind_lift, rule keeps_guard)
    apply (drule dispatch_of_json_state, assumption)
    using p apply simp
    done
  then show ?thesis unfolding authorize_dispatch_def
    by (rule keeps_bind [OF _ stable_const]) (simp add: keeps_def)
qed

lemma authorized_plan:
  assumes laws: "table_laws sv V" and a: "authorize_dispatch sv p w = (Inr True, w')"
  shows "\<exists>u q e. carried_out V (partition_key (sv_sha sv) (dispatch_scope p)) [dispatch_entity (sv_sha sv) q (Some e)] u w'
    \<and> dp_state q = D_dispatching \<and> dispatch_row_key (sv_sha sv) q = dispatch_row_key (sv_sha sv) p"
proof -
  obtain e q now u where c: "commit_or sv (dispatch_scope p) [dispatch_entity (sv_sha sv) q (Some e)] True (doneA False) u
      = (Inr True, w')" and q: "make_dispatch (sv_sha sv) (p\<lparr>dp_state := D_dispatching, dp_updated_at := now\<rparr>) = Inr q"
    using a unfolding authorize_dispatch_def
    by (elim bindA_Inr) (auto simp: guardA_Inr liftA_Inr)
  obtain u' where "carried_out V (partition_key (sv_sha sv) (dispatch_scope p)) [dispatch_entity (sv_sha sv) q (Some e)] u' w'"
    using commit_or_confirmed [OF laws c] by (auto simp: doneA_Inr)
  moreover have "dp_state q = D_dispatching" "dispatch_row_key (sv_sha sv) q = dispatch_row_key (sv_sha sv) p"
    using q by (simp_all add: make_dispatch_def checked_eq_Inr dispatch_row_key_def)
  ultimately show ?thesis by blast
qed

lemma dispatch_of_json_text:
  assumes "dispatch_of_json sha d = Inr q" "dp_state q \<noteq> D_preparing"
  shows "dfield d ''state'' = PStr (dispatch_state_text (dp_state q))"
proof -
  obtain st ow ca rs dn ba ex up where
    st: "(if has_key d ''state'' then dispatch_state_of_json (dfield d ''state'') else Inr D_preparing) = Inr st"
    and "make_dispatch sha \<lparr>dp_owner = ow, caller_request_id = ca, dp_receipts = rs, dp_state = st,
       recovery_complete = dn, counting_basis = ba, expires_at = ex, dp_updated_at = up\<rparr> = Inr q"
    using assms(1) unfolding dispatch_of_json_def guardR_eq_Inr bindR_eq_Inr by blast
  then have q: "dp_state q = st" by (auto simp: make_dispatch_def checked_eq_Inr)
  then have "dispatch_state_of_json (dfield d ''state'') = Inr st"
    using st assms(2) by (simp split: if_splits)
  then have "find (\<lambda>st. dfield d ''state'' = PStr (dispatch_state_text st))
      [D_preparing, D_dispatching, D_cancelled] = Some st"
    unfolding dispatch_state_of_json_def read_error_def
    by (cases "find (\<lambda>st. dfield d ''state'' = PStr (dispatch_state_text st))
      [D_preparing, D_dispatching, D_cancelled]") (simp_all del: find.simps)
  then show ?thesis unfolding q find_Some_iff by blast
qed

lemma cancelled_plan:
  assumes laws: "table_laws sv V" and rely: "rely V (decided (partition_key (sv_sha sv) (dispatch_scope p))
    (dispatch_row_key (sv_sha sv) p) D_cancelled)"
  shows "cancel_loop k sv p recovery w = (Inr True, w') \<Longrightarrow>
    decided (partition_key (sv_sha sv) (dispatch_scope p)) (dispatch_row_key (sv_sha sv) p) D_cancelled (tv_rows V w')"
proof (induction k arbitrary: w)
  case (Suc k)
  let ?p = "partition_key (sv_sha sv) (dispatch_scope p)" and ?k = "dispatch_row_key (sv_sha sv) p"
  obtain v u where r: "read_scope sv (dispatch_scope p) ?k w = (Inr v, u)"
    and rest: "bindA (needed ''Dispatch cancellation requires its durable plan'' v) (\<lambda>(d, etag).
     bindA (liftA (dispatch_of_json (sv_sha sv) d)) (\<lambda>stored.
     guardA (dp_owner stored \<noteq> dp_owner p \<or> dp_receipts stored \<noteq> dp_receipts p)
       (conflict ''Dispatch cancellation belongs to another owner'')
    (case dp_state stored of
       D_dispatching \<Rightarrow> doneA False
     | D_cancelled \<Rightarrow> doneA True
     | D_preparing \<Rightarrow>
         bindA (if recovery then bindA (now_utc sv) (\<lambda>now. doneA (now < expires_at stored))
                else doneA False) (\<lambda>early.
         if early then doneA False
         else
           bindA (now_utc sv) (\<lambda>now.
           bindA (liftA (make_dispatch (sv_sha sv)
                    (stored\<lparr>dp_state := D_cancelled, dp_updated_at := now\<rparr>))) (\<lambda>cancelled.
           commit_or sv (dispatch_scope p) [dispatch_entity (sv_sha sv) cancelled (Some etag)] True
             (cancel_loop k sv p recovery))))))) u = (Inr True, w')"
    using Suc.prems unfolding cancel_loop.simps by (rule bindA_Inr)
  obtain d e where v: "v = Some (d, e)"
    using rest by (cases v) (auto simp: needed_def bindA_def raiseA_def)
  have row: "tv_rows V u ?p ?k = Some (d, e)"
    using read_row_current [OF laws r [unfolded read_scope_def]] v by simp
  obtain s where s: "dispatch_of_json (sv_sha sv) d = Inr s" "dp_receipts s = dp_receipts p"
    and go: "(case dp_state s of
       D_dispatching \<Rightarrow> doneA False
     | D_cancelled \<Rightarrow> doneA True
     | D_preparing \<Rightarrow>
         bindA (if recovery then bindA (now_utc sv) (\<lambda>now. doneA (now < expires_at s))
                else doneA False) (\<lambda>early.
         if early then doneA False
         else
           bindA (now_utc sv) (\<lambda>now.
           bindA (liftA (make_dispatch (sv_sha sv)
                    (s\<lparr>dp_state := D_cancelled, dp_updated_at := now\<rparr>))) (\<lambda>cancelled.
           commit_or sv (dispatch_scope p) [dispatch_entity (sv_sha sv) cancelled (Some e)] True
             (cancel_loop k sv p recovery))))) u = (Inr True, w')"
    using rest unfolding v by (cases "dispatch_of_json (sv_sha sv) d")
      (simp_all add: needed_def bindA_def [where m = "doneA _"] bindA_def [where m = "liftA _"]
        doneA_def [where x = "(_, _)"] liftA_def guardA_Inr)
  show ?case
  proof (cases "dp_state s")
    case D_preparing
    obtain b u1 where "(if recovery then bindA (now_utc sv) (\<lambda>now. doneA (now < expires_at s)) else doneA False) u
        = (Inr b, u1)" and go1: "(if b then doneA False
         else
           bindA (now_utc sv) (\<lambda>now.
           bindA (liftA (make_dispatch (sv_sha sv)
                    (s\<lparr>dp_state := D_cancelled, dp_updated_at := now\<rparr>))) (\<lambda>cancelled.
           commit_or sv (dispatch_scope p) [dispatch_entity (sv_sha sv) cancelled (Some e)] True
             (cancel_loop k sv p recovery)))) u1 = (Inr True, w')"
      using go unfolding D_preparing dispatch_state.case by (rule bindA_Inr)
    then have "\<not> b" by (auto simp: doneA_Inr)
    then obtain now u2 c where c: "make_dispatch (sv_sha sv) (s\<lparr>dp_state := D_cancelled, dp_updated_at := now\<rparr>) = Inr c"
      "commit_or sv (dispatch_scope p) [dispatch_entity (sv_sha sv) c (Some e)] True
             (cancel_loop k sv p recovery) u2 = (Inr True, w')"
      using go1 by (auto elim!: bindA_Inr simp: liftA_Inr)
    have "dp_state c = D_cancelled" "dispatch_row_key (sv_sha sv) c = ?k"
      using c(1) s(2) by (simp_all add: make_dispatch_def checked_eq_Inr dispatch_row_key_def)
    then show ?thesis
      using commit_or_confirmed [OF laws c(2)] Suc.IH carried_out_decided [OF laws, of ?p c] rely by auto
  next
    case D_dispatching
    then show ?thesis using go by (simp add: doneA_Inr)
  next
    case D_cancelled
    then have "w' = u" using go by (simp add: doneA_Inr)
    then show ?thesis using row dispatch_of_json_text [OF s(1)] D_cancelled by (auto simp: decided_def)
  qed
qed (simp add: raiseA_def)

text \<open>
  C11. Once a dispatch was authorised, no later run of clients cancels it: a cancellation answers
  False and the plan stays in the dispatching state.
\<close>

theorem authorized_not_cancelled:
  assumes "table_laws sv V"
    "rely V (decided (partition_key (sv_sha sv) (dispatch_scope p)) (dispatch_row_key (sv_sha sv) p) D_dispatching)"
    "authorize_dispatch sv p w = (Inr True, w1)" "client_run sv V op w1 w2"
    "cancel_dispatch sv p recovery w2 = (Inr b, w3)"
  shows "\<not> b \<and> decided (partition_key (sv_sha sv) (dispatch_scope p)) (dispatch_row_key (sv_sha sv) p)
    D_dispatching (tv_rows V w3)"
proof -
  let ?I = "decided (partition_key (sv_sha sv) (dispatch_scope p)) (dispatch_row_key (sv_sha sv) p) D_dispatching"
  have safe: "client_safe sv V op ?I" by (rule decided_safe [OF assms(1) _ assms(2)]) simp
  obtain u q e where q: "carried_out V (partition_key (sv_sha sv) (dispatch_scope p)) [dispatch_entity (sv_sha sv) q (Some e)] u w1"
    "dp_state q = D_dispatching" "dispatch_row_key (sv_sha sv) q = dispatch_row_key (sv_sha sv) p"
    using authorized_plan [OF assms(1,3)] by blast
  have "?I (tv_rows V w1)" using carried_out_decided [OF assms(1) _ q(1)] q(2,3) assms(2) by simp
  then have "?I (tv_rows V w2)" by (rule keeps_run [OF safe assms(4)])
  then show ?thesis
    using keepsD(1,3) [OF cancel_of_dispatching [OF safe] _ TrueI assms(5) [unfolded cancel_dispatch_def]] by blast
qed


end
