(* ===== verification/Ledger_Examples.thy ===== *)
theory Ledger_Examples
  imports Ledger_Runs
begin

text \<open>
  A concrete ledger on which the theorems about reservations, charges and runs apply: a person's
  month with a limit of 1000 tokens, one reservation of 100 that is dispatched, and its charge.
\<close>

section \<open>A person's month\<close>

definition sha0 :: digest where "sha0 text = replicate 64 (CHR ''a'')"

definition uuid1 :: uuid where "uuid1 = ''11111111-1111-1111-1111-111111111111''"

definition t0 :: instant where "t0 = 1773568800000000"

definition scope0 :: scope where
  "scope0 = \<lparr>scope_type = Person, scope_id = ''alice'', period_start = Date 2026 3 1\<rparr>"

definition ident0 :: identity where
  "ident0 = \<lparr>id_scope = scope0, gateway_profile_id = uuid1, native_gateway_id = ''gw'',
     correlation_id = ''c-1'', model_id = uuid1, admitted_at = t0\<rparr>"

definition seed0 :: summary where
  "seed0 = \<lparr>sm_epoch = uuid1, sm_scope = scope0, version = 0, policy_revision = 1, token_limit = 1000,
     sm_mode = Tokens, usd_limit = None, enforce = True, enabled = True, require_verified_bound = False,
     confirmed_tokens = 40, active_reserved_tokens = 0, upper_bound_tokens = 0, confirmed_usd = 0,
     active_reserved_usd = 0, upper_bound_usd = 0, sm_updated_at = t0\<rparr>"

definition sum1 :: summary where
  "sum1 = seed0\<lparr>version := 1, active_reserved_tokens := 100, sm_updated_at := t0 + 1\<rparr>"

definition att1 :: attempt where "att1 = new_attempt ident0 uuid1 100 Tokens None None (t0 + 1)"

definition sum2 :: summary where "sum2 = sum1\<lparr>version := 2, sm_updated_at := t0 + 2\<rparr>"

definition att2 :: attempt where
  "att2 = att1\<lparr>at_state := Dispatching, at_updated_at := t0 + 2\<rparr>"

definition charge0 :: charge where
  "charge0 = \<lparr>ch_identity = ident0, ch_epoch = uuid1, ch_revision = 1, ch_evidence_key = ''usage:1'',
     ch_tokens = 37, ch_mode = Tokens, ch_usd = None, ch_price = None, ch_rank = 3,
     ch_resolution = None\<rparr>"

definition sum3 :: summary where
  "sum3 = sum2\<lparr>version := 3, confirmed_tokens := 77, active_reserved_tokens := 0, sm_updated_at := t0 + 3\<rparr>"

definition att3 :: attempt where
  "att3 = att2\<lparr>at_state := Settled, actual_tokens := Some 37, evidence_rank := 3,
     evidence_revision := 1, at_evidence_key := Some ''usage:1'', at_updated_at := t0 + 3\<rparr>"

lemma seed0_valid: "valid_summary seed0" by code_simp

lemma run_reserve:
  "reserve_ledger sha0 seed0 ident0 100 (t0 + 1) None None ''estimate'' = Inr (sum1, att1)"
  by code_simp

lemma run_dispatch:
  "transition_ledger_attempt sha0 sum1 att1 Dispatching (t0 + 2) = Inr (Advanced sum2 att2)"
  by code_simp

lemma run_settle: "settle_ledger sha0 sum2 att2 charge0 (t0 + 3) = Inr (Advanced sum3 att3)"
  by code_simp

section \<open>The theorems apply\<close>

theorem reservation_within_limit_witness:
  "committed_tokens sum1 = committed_tokens seed0 + 100 \<and> committed_tokens sum1 \<le> token_limit sum1"
proof -
  have "sm_mode seed0 = Tokens" "enforce seed0" by (simp_all add: seed0_def)
  then show ?thesis using reservation_within_limit [OF run_reserve] by simp
qed

theorem transition_states_witness:
  "at_state att2 = Dispatching \<and> at_state att1 \<in> HOLDING"
  using transition_states [OF run_dispatch] by simp



definition ledger1 :: ledger where
  "ledger1 = (opened seed0)\<lparr>ld_summary := sum1, ld_attempts := [att1]\<rparr>"

definition ledger3 :: ledger where
  "ledger3 = (opened seed0)\<lparr>ld_summary := sum3, ld_attempts := [att3]\<rparr>"

lemma reachable_run: "reachable sha0 seed0 ledger3"
proof -
  have "ledger_step sha0 (opened seed0) ledger1"
    using ledger_step.reserving [of sha0 "opened seed0" ident0 100 "t0 + 1" None None "''estimate''" sum1 att1]
      run_reserve by (simp add: opened_def ledger1_def)
  then have 1: "reachable sha0 seed0 ledger1" by (rule reachable.step [OF reachable.start])
  let ?l2 = "(opened seed0)\<lparr>ld_summary := sum2, ld_attempts := [att2]\<rparr>"
  have "ledger_step sha0 ledger1 ?l2"
    by (rule ledger_step.transitioning [of 0 _ _ Dispatching "t0 + 2"])
      (simp_all add: ledger1_def step_at_def run_dispatch)
  with 1 have 2: "reachable sha0 seed0 ?l2" by (rule reachable.step)
  have "ledger_step sha0 ?l2 ledger3"
    by (rule ledger_step.settling [of 0 _ _ charge0 "t0 + 3"])
      (simp_all add: ledger3_def step_at_def run_settle)
  with 2 show ?thesis by (rule reachable.step)
qed


section \<open>Stored documents and snapshots\<close>

theorem summary_round_trip_witness: "summary_of_json (summary_json seed0) = Inr seed0"
  by (rule summary_round_trip [OF seed0_valid])

lemma att3_sound: "sound_attempt sha0 att3" by code_simp

theorem attempt_round_trip_witness: "attempt_of_json sha0 (attempt_json att3) = Inr att3"
  by (rule attempt_round_trip [OF att3_sound])

definition receipt0 :: admission_receipt where "receipt0 = receipt_of_attempt att1"

theorem receipt_round_trip_witness: "receipt_of_json sha0 (PDict (receipt_json receipt0)) = Inr receipt0"
proof -
  have "sound_receipt sha0 receipt0" by code_simp
  then show ?thesis by (rule receipt_round_trip)
qed

definition state0 :: application_state where
  "state0 = \<lparr>aps_period_start = Date 2026 3 1, aps_application_id = uuid1, aps_mode = Tokens,
     aps_token_limit = Some 500, aps_usd_limit = None, aps_confirmed_tokens = 120,
     aps_pending_tokens = 30, aps_pending_count = 1, aps_finalized_tokens = 0, aps_finalized_count = 0,
     aps_stale_count = 0, aps_oldest_at = Some t0, aps_available_tokens = Some 350,
     aps_confirmed_usd = 0, aps_pending_usd = 0, aps_upper_usd = 0, aps_snapshot_at = Aware (t0 + 5)\<rparr>"

definition sidecar0 :: sidecar where
  "sidecar0 = \<lparr>sc_period_start = Date 2026 3 1, sc_application_id = uuid1,
     sc_snapshot_at = Aware (t0 + 5), sc_tokens = PInt 0, sc_count = PInt 0\<rparr>"

theorem snapshot_pairs_witness:
  "snapshot_key state0 = (sc_period_start sidecar0, sc_application_id sidecar0) \<and> balance_matches state0"
proof -
  have "validate_application_snapshot [state0] [sidecar0] = Inr ()" by code_simp
  from snapshot_pairs [OF this] show ?thesis by simp
qed

end
