(* ===== verification/Table_Examples.thy ===== *)
theory Table_Examples
  imports Table_Plans Ledger_Examples "HOL-Library.Code_Target_Nat"
begin

text \<open>
  A table service that obeys the laws: a log of the written rows, newest first, whose tokens are
  the positions in the log. On it the theorems about the table client apply.
\<close>

section \<open>A log of rows\<close>

type_synonym log = "(string \<times> string \<times> dict) list"

definition token :: "nat \<Rightarrow> string" where "token n = replicate (Suc n) (CHR ''x'')"

fun log_row :: "log \<Rightarrow> rows" where
  "log_row [] p k = None"
| "log_row ((p', k', d) # l) p k = (if p' = p \<and> k' = k then Some (d, token (length l)) else log_row l p k)"

fun log_hist :: "log \<Rightarrow> string \<Rightarrow> string \<Rightarrow> string \<Rightarrow> dict option" where
  "log_hist [] p k e = None"
| "log_hist ((p', k', d) # l) p k e =
     (if p' = p \<and> k' = k \<and> e = token (length l) then Some d else log_hist l p k e)"

definition log_view :: "log table_view" where
  "log_view = \<lparr>tv_rows = log_row, tv_hist = log_hist, tv_others = (=)\<rparr>"

fun log_write :: "string \<Rightarrow> conditional_entity list \<Rightarrow> log \<Rightarrow> log" where
  "log_write p [] l = l"
| "log_write p (e # es) l = log_write p es ((p, ce_row e, ce_document e) # l)"

definition log_allows :: "log \<Rightarrow> string \<Rightarrow> conditional_entity \<Rightarrow> bool" where
  "log_allows l p e \<longleftrightarrow> (case ce_etag e of
     None \<Rightarrow> log_row l p (ce_row e) = None
   | Some t \<Rightarrow> (case log_row l p (ce_row e) of None \<Rightarrow> False | Some (d, t') \<Rightarrow> t' = t))"

definition answer :: "int \<Rightarrow> response" where
  "answer st = \<lparr>rs_status = st, rs_etag = None, rs_body = PDict [(''value'', PList [])],
     rs_content_type = ''multipart/mixed'', rs_parts = [], rs_next = (None, None)\<rparr>"

fun log_send :: "table_request \<Rightarrow> (log, response) act" where
  "log_send (Read_entity p k) l =
     (Inr (case log_row l p k of
        None \<Rightarrow> answer 404
      | Some (d, t) \<Rightarrow> (answer 200)\<lparr>rs_etag := Some t, rs_body := PDict [(''Document'', PDict d)]\<rparr>), l)"
| "log_send (Batch p es content) l =
     (if distinct (map ce_row es) \<and> list_all (log_allows l p) es
      then (Inr ((answer 202)\<lparr>rs_parts := map (\<lambda>_. Some ''HTTP/1.1 204 No Content'') es\<rparr>), log_write p es l)
      else (Inr ((answer 202)\<lparr>rs_parts := [Some ''HTTP/1.1 412 Precondition Failed'']\<rparr>), l))"
| "log_send (Write_entity p k d t) l =
     (if log_allows l p (entity k d t) then (Inr (answer 204), log_write p [entity k d t] l)
      else (Inr (answer 412), l))"
| "log_send (Recovery_page p n a b) l = (Inr (answer 200), l)"

definition log_service :: "log service" where
  "log_service = \<lparr>sv_send = log_send, sv_now = (\<lambda>l. (t0 + 5, l)), sv_uuid = (\<lambda>l. (''b'', l)),
     sv_endpoint = ''https://t'', sv_table = ''ledger'', sv_sha = sha0\<rparr>"

lemma token_inject [simp]: "token m = token n \<longleftrightarrow> m = n"
  by (metis Suc_inject length_replicate token_def)

lemma log_hist_bound: "log_hist l p k e = Some d \<Longrightarrow> \<exists>n < length l. e = token n"
  by (induction l p k e rule: log_hist.induct) (force split: if_splits)+

lemma log_row_hist: "log_row l p k = Some (d, e) \<Longrightarrow> log_hist l p k e = Some d"
proof (induction l p k rule: log_row.induct)
  case (2 p' k' d' l p k)
  show ?case
  proof (cases "p' = p \<and> k' = k")
    case False
    with 2 have "log_hist l p k e = Some d" by auto
    then show ?thesis using False by auto
  qed (use 2 in simp)
qed simp

lemma log_hist_cons: "log_hist l p k e = Some d \<Longrightarrow> log_hist (x # l) p k e = Some d"
  using log_hist_bound [of l p k e d] by (cases x) auto

lemma log_hist_write: "log_hist l p k e = Some d \<Longrightarrow> log_hist (log_write q es l) p k e = Some d"
  by (induction q es l rule: log_write.induct) (auto simp: log_hist_cons simp del: log_hist.simps)

lemma log_row_write_other:
  "p' \<noteq> p \<or> k \<notin> ce_row ` set es \<Longrightarrow> log_row (log_write p es l) p' k = log_row l p' k"
  by (induction p es l rule: log_write.induct) auto

lemma log_row_write:
  "distinct (map ce_row es) \<Longrightarrow> e \<in> set es \<Longrightarrow> \<exists>t. log_row (log_write p es l) p (ce_row e) = Some (ce_document e, t)"
proof (induction p es l rule: log_write.induct)
  case (2 p x es l)
  then show ?case using log_row_write_other [of p p "ce_row e" es] by (auto simp: image_iff)
qed simp

lemma log_allowsD:
  assumes "log_allows l p e"
  shows "case ce_etag e of None \<Rightarrow> log_row l p (ce_row e) = None
     | Some t \<Rightarrow> \<exists>d. log_row l p (ce_row e) = Some (d, t)"
  using assms by (cases "ce_etag e"; cases "log_row l p (ce_row e)") (auto simp: log_allows_def)

lemma log_wrote:
  assumes "distinct (map ce_row es)" "list_all (log_allows l p) es"
  shows "wrote log_view p es l (log_write p es l)"
  unfolding wrote_def
proof (intro conjI ballI allI impI)
  show "grown log_view l (log_write p es l)" by (simp add: grown_def log_view_def log_hist_write)
  fix e assume e: "e \<in> set es"
  show "case ce_etag e of None \<Rightarrow> tv_rows log_view l p (ce_row e) = None
     | Some t \<Rightarrow> \<exists>d. tv_rows log_view l p (ce_row e) = Some (d, t)"
    unfolding log_view_def table_view.simps by (rule log_allowsD) (use assms(2) e in \<open>simp add: list_all_iff\<close>)
  show "\<exists>t. tv_rows log_view (log_write p es l) p (ce_row e) = Some (ce_document e, t)"
    using log_row_write [OF assms(1) e] by (simp add: log_view_def)
next
  fix p' k assume "p' \<noteq> p \<or> k \<notin> ce_row ` set es"
  then show "tv_rows log_view (log_write p es l) p' k = tv_rows log_view l p' k"
    using log_row_write_other by (simp add: log_view_def)
qed

lemma log_carried_out:
  assumes "distinct (map ce_row es)" "list_all (log_allows l p) es"
  shows "carried_out log_view p es l (log_write p es l)"
  using log_wrote [OF assms] unfolding carried_out_def by (simp add: log_view_def)

lemma log_refused: "\<not> confirmed n ((answer 202)\<lparr>rs_parts := [Some ''HTTP/1.1 412 Precondition Failed'']\<rparr>)"
proof -
  have "part_status (Some ''HTTP/1.1 412 Precondition Failed'') = Inr 412" by code_simp
  then show ?thesis by (simp add: confirmed_def validate_batch_response_def res_simps answer_def)
qed

lemma log_row_token: "log_row l p k = Some (d, e) \<Longrightarrow> \<exists>n. e = token n"
  using log_hist_bound [OF log_row_hist] by blast

lemma log_read_response:
  "read_response ((answer 200)\<lparr>rs_etag := Some (token n), rs_body := PDict [(''Document'', PDict d)]\<rparr>)
     = Inr (d, token n)"
proof -
  have "token n \<noteq> []" "token n \<noteq> ''*''" "set (token n) \<subseteq> {CHR ''x''}" by (auto simp: token_def)
  moreover have "char_of (10::nat) \<noteq> CHR ''x''" "char_of (13::nat) \<noteq> CHR ''x''" by code_simp+
  ultimately have "usable_etag (PStr (token n))" by (auto simp: usable_etag_def)
  then show ?thesis using \<open>token n \<noteq> []\<close>
    by (simp add: read_response_def answer_def response_etag_def as_dict_def dget_def has_key_def dfield_def)
qed

lemma log_read_law: "read_law log_service log_view"
  unfolding read_law_def
proof (intro allI impI conjI)
  fix p k l r l' assume s: "sv_send log_service (Read_entity p k) l = (r, l')"
  then show "tv_others log_view l l'" by (simp add: log_service_def log_view_def)
  fix x assume x: "r = Inr x"
  show "tv_rows log_view l' p k = None" if "rs_status x = 404"
    using s x that by (auto simp: log_service_def log_view_def answer_def split: option.splits)
  show "tv_rows log_view l' p k = Some (d, e)" if r: "rs_status x \<noteq> 404 \<and> read_response x = Inr (d, e)" for d e
  proof (cases "log_row l p k")
    case None
    then have "x = answer 404" using s x by (simp add: log_service_def)
    then show ?thesis using r by (simp add: answer_def)
  next
    case (Some y)
    obtain d' n where y: "y = (d', token n)" using log_row_token [of l p k] Some by (cases y) auto
    have "x = (answer 200)\<lparr>rs_etag := Some (token n), rs_body := PDict [(''Document'', PDict d')]\<rparr>" "l' = l"
      using s x Some y by (simp_all add: log_service_def)
    then show ?thesis using log_read_response r Some y by (simp add: log_view_def)
  qed
qed

lemma log_batch_law: "batch_law log_service log_view"
  unfolding batch_law_def
proof (intro allI impI)
  fix p es c l r l' assume s: "sv_send log_service (Batch p es c) l = (r, l')"
  show "(tv_others log_view l l' \<or> carried_out log_view p es l l')
     \<and> (\<forall>x. r = Inr x \<and> confirmed (length es) x \<longrightarrow> carried_out log_view p es l l')"
  proof (cases "distinct (map ce_row es) \<and> list_all (log_allows l p) es")
    case True
    then have "l' = log_write p es l" using s by (simp add: log_service_def)
    then show ?thesis using log_carried_out True by blast
  next
    case False
    then have "l' = l" "r = Inr ((answer 202)\<lparr>rs_parts := [Some ''HTTP/1.1 412 Precondition Failed'']\<rparr>)"
      using s by (simp_all only: log_service_def service.simps log_send.simps if_False prod.inject)
    then show ?thesis using log_refused by (simp add: log_view_def)
  qed
qed

lemma log_write_law: "write_law log_service log_view"
  unfolding write_law_def
proof (intro allI impI)
  fix p k d t l r l' assume s: "sv_send log_service (Write_entity p k d t) l = (r, l')"
  show "tv_others log_view l l' \<or> carried_out log_view p [entity k d t] l l'"
  proof (cases "log_allows l p (entity k d t)")
    case True
    then show ?thesis using s log_carried_out [of "[entity k d t]" l p] by (simp add: log_service_def)
  next
    case False
    then show ?thesis using s by (simp add: log_service_def log_view_def)
  qed
qed

lemma log_laws: "table_laws log_service log_view"
  unfolding table_laws_def
  using log_read_law log_batch_law log_write_law log_row_hist
  by (simp add: log_service_def log_view_def grown_def)

lemma log_rely: "rely log_view I"
  by (simp add: rely_def log_view_def)

text \<open>A commit whose text can be built and whose conditions hold is confirmed.\<close>

definition batch_text :: "scope \<Rightarrow> conditional_entity list \<Rightarrow> (string \<times> string) res" where
  "batch_text s es = bindR (mapR batch_entity es) (\<lambda>ops.
     conditional_batch ''b'' ''b'' ''https://t'' ''ledger'' (partition_key sha0 s) ops)"

lemma log_confirmed:
  "validate_batch_response 202 ''multipart/mixed'' (map (\<lambda>_. Some ''HTTP/1.1 204 No Content'') es) (length es) = Inr ()"
proof -
  have "part_status (Some ''HTTP/1.1 204 No Content'') = Inr 204" by code_simp
  then have "mapR part_status (map (\<lambda>_. Some ''HTTP/1.1 204 No Content'') es) = Inr (map (\<lambda>_. 204) es)"
    by (induction es) simp_all
  moreover have "prefix_of ''multipart/mixed'' (py_lower ''multipart/mixed'')" by code_simp
  ultimately show ?thesis by (simp add: validate_batch_response_def list_ex_iff)
qed

lemma log_commit:
  assumes "is_ok (batch_text s es)" "distinct (map ce_row es)"
    "list_all (log_allows l (partition_key sha0 s)) es"
  shows "commit log_service s es l = (Inr (), log_write (partition_key sha0 s) es l)"
proof -
  let ?p = "partition_key sha0 s"
  obtain ct c where t: "bindR (mapR batch_entity es)
      (\<lambda>ops. conditional_batch ''b'' ''b'' ''https://t'' ''ledger'' ?p ops) = Inr (ct, c)"
    using assms(1) by (auto simp: batch_text_def is_ok_iff)
  let ?r = "(answer 202)\<lparr>rs_parts := map (\<lambda>_. Some ''HTTP/1.1 204 No Content'') es\<rparr>"
  have "sv_send log_service (Batch ?p es c) l = (Inr ?r, log_write ?p es l)"
    using assms(2,3) by (simp add: log_service_def)
  then have r: "request log_service (Batch ?p es c) l = (Inr ?r, log_write ?p es l)"
    by (simp add: request_def bindA_def doneA_def answer_def)
  have ok: "validate_batch_response (rs_status ?r) (rs_content_type ?r) (rs_parts ?r) (length es) = Inr ()"
    using log_confirmed [of es] by (simp add: answer_def)
  have hex: "fresh_hex log_service l = (Inr ''b'', l)" by (simp add: fresh_hex_def log_service_def)
  have sv: "sv_sha log_service = sha0" "sv_endpoint log_service = ''https://t''" "sv_table log_service = ''ledger''"
    by (simp_all add: log_service_def)
  show ?thesis
    unfolding commit_def Let_def sv bindA_def hex prod.case sum.case liftA_def t as_conflict_def r ok
    by (simp add: raise_for_status_def guardA_def doneA_def answer_def batch_failure_def)
qed

section \<open>A ledger in the log\<close>

definition part0 :: string where "part0 = partition_key sha0 scope0"

definition plan0 :: dispatch where
  "plan0 = \<lparr>dp_owner = uuid1, caller_request_id = ''r-1'', dp_receipts = [receipt_of_attempt att1],
     dp_state = D_preparing, recovery_complete = False, counting_basis = [], expires_at = t0 + 30,
     dp_updated_at = t0 + 1\<rparr>"

definition cancelled0 :: dispatch where
  "cancelled0 = plan0\<lparr>dp_state := D_cancelled, dp_updated_at := t0 + 5\<rparr>"

definition log1 :: log where "log1 = [(part0, SUMMARY_ROW, summary_json seed0)]"

definition log_of :: "summary \<Rightarrow> attempt \<Rightarrow> dispatch \<Rightarrow> log" where
  "log_of s a p = (part0, dispatch_row_key sha0 p, dispatch_json p)
     # (part0, attempt_row_key sha0 ident0, attempt_json a) # (part0, SUMMARY_ROW, summary_json s) # log1"

lemma run_initialize: "initialize log_service seed0 [] = (Inr (), log1)"
  by code_simp

lemma run_reserve_again:
  "reserve log_service ident0 100 uuid1 None None 3 (log_of sum1 att1 plan0)
     = (Inr (sum1, att1, False), log_of sum1 att1 plan0)"
  by code_simp

lemma run_settle_again:
  "settle log_service charge0 (log_of sum3 att3 plan0) = (Inr (sum3, att3), log_of sum3 att3 plan0)"
  by code_simp

text \<open>Authorising a stored plan whose attempt is reserved, in four parts.\<close>

definition authorized0 :: dispatch where
  "authorized0 = plan0\<lparr>dp_state := D_dispatching, dp_updated_at := t0 + 5\<rparr>"

lemma make_authorized:
  "make_dispatch sha0 (p\<lparr>dp_state := D_dispatching, dp_updated_at := t0 + 5\<rparr>) = Inr authorized0"
  if "p = plan0 \<or> p = cancelled0"
proof -
  have p: "p\<lparr>dp_state := D_dispatching, dp_updated_at := t0 + 5\<rparr> = authorized0"
    using that by (auto simp: authorized0_def cancelled0_def)
  have "make_dispatch sha0 authorized0 = Inr authorized0" by code_simp
  then show ?thesis by (simp add: p)
qed

lemma authorized_text:
  "is_ok (batch_text (dispatch_scope plan0) [dispatch_entity sha0 authorized0 (Some (token 3))])"
  by code_simp

lemma live_preparing: "live_plan log_service plan0 msg (log_of sum1 att1 plan0)
   = (Inr (token 3), log_of sum1 att1 plan0)"
  by code_simp

lemma live_cancelled: "live_plan log_service cancelled0 msg (log_of sum1 att1 cancelled0)
   = (Inr (token 3), log_of sum1 att1 cancelled0)"
  by code_simp

lemma log_of_plan: "p = plan0 \<or> p = cancelled0 \<Longrightarrow>
   log_allows (log_of sum1 att1 p) (partition_key sha0 (dispatch_scope plan0))
     (dispatch_entity sha0 authorized0 (Some (token 3)))"
proof -
  assume p: "p = plan0 \<or> p = cancelled0"
  have row: "dispatch_row_key sha0 p = dispatch_row_key sha0 authorized0" "part0 = partition_key sha0 (dispatch_scope plan0)"
    using p by (auto simp: dispatch_row_key_def cancelled0_def authorized0_def part0_def dispatch_scope_def
        plan0_def receipt_of_attempt_def att1_def new_attempt_def ident0_def)
  show ?thesis
    by (simp add: log_allows_def log_of_def log1_def dispatch_entity_def row)
qed

lemma check_preparing: "check_reserved log_service (dp_receipts plan0) (log_of sum1 att1 plan0)
   = (Inr (), log_of sum1 att1 plan0)"
  by code_simp

lemma check_cancelled: "check_reserved log_service (dp_receipts cancelled0) (log_of sum1 att1 cancelled0)
   = (Inr (), log_of sum1 att1 cancelled0)"
  by code_simp

lemma authorize_log:
  assumes p: "p = plan0 \<or> p = cancelled0"
    and live: "\<And>msg. live_plan log_service p msg l = (Inr (token 3), l)"
    and reserved: "check_reserved log_service (dp_receipts p) l = (Inr (), l)" and l: "l = log_of sum1 att1 p"
  shows "fst (authorize_dispatch log_service p l) = Inr True"
proof -
  have s: "dispatch_scope p = dispatch_scope plan0" "expires_at p = t0 + 30" "dp_updated_at authorized0 = t0 + 5"
    using p by (auto simp: dispatch_scope_def cancelled0_def authorized0_def plan0_def)
  have c: "commit log_service (dispatch_scope plan0) [dispatch_entity sha0 authorized0 (Some (token 3))] l
      = (Inr (), log_write (partition_key sha0 (dispatch_scope plan0)) [dispatch_entity sha0 authorized0 (Some (token 3))] l)"
    by (rule log_commit [OF authorized_text]) (simp_all add: log_of_plan [OF p] l)
  have now: "now_utc log_service l = (Inr (t0 + 5), l)" by (simp add: now_utc_def log_service_def)
  have sv: "sv_sha log_service = sha0" by (simp add: log_service_def)
  show ?thesis
    unfolding authorize_dispatch_def bindA_def live prod.case sum.case reserved now sv make_authorized [OF p]
      liftA_def s guardA_def commit_or_def catchA_def
    by (simp add: c doneA_def)
qed

lemma run_authorize: "fst (authorize_dispatch log_service plan0 (log_of sum1 att1 plan0)) = Inr True"
  by (rule authorize_log [OF _ live_preparing check_preparing refl]) simp

lemma run_cancel_again:
  "cancel_dispatch log_service plan0 False (log_of sum1 att1 cancelled0)
     = (Inr True, log_of sum1 att1 cancelled0)"
  by code_simp

text \<open>
  Authorising checks that the plan is the stored one, not that it is being prepared: given the
  cancelled plan itself it authorises it.
\<close>

theorem cancelled_plan_authorized:
  "dp_state cancelled0 = D_cancelled
     \<and> fst (authorize_dispatch log_service cancelled0 (log_of sum1 att1 cancelled0)) = Inr True"
proof
  show "dp_state cancelled0 = D_cancelled" by (simp add: cancelled0_def)
  show "fst (authorize_dispatch log_service cancelled0 (log_of sum1 att1 cancelled0)) = Inr True"
    by (rule authorize_log [OF _ live_cancelled check_cancelled refl]) simp
qed

section \<open>The theorems apply\<close>

lemma log0_accounted: "accounted sha0 (\<lambda>_. Some 40) (tv_rows log_view [])"
  by (simp add: accounted_def partition_ok_def att_rows_def log_view_def)


theorem reserve_durable_witness:
  "durable log_service log_view ident0 att1 (log_of sum1 att1 plan0) \<and> reserved_tokens att1 = 100"
  using reserve_durable [OF log_laws run_reserve_again] by simp

theorem settle_durable_witness:
  "durable log_service log_view ident0 att3 (log_of sum3 att3 plan0)"
  using settle_durable [OF log_laws run_settle_again] by (simp add: charge0_def)

theorem authorized_not_cancelled_witness:
  "\<exists>w. authorize_dispatch log_service plan0 (log_of sum1 att1 plan0) = (Inr True, w)
     \<and> (\<forall>b. fst (cancel_dispatch log_service plan0 False w) \<noteq> Inr True)"
proof -
  obtain w where w: "authorize_dispatch log_service plan0 (log_of sum1 att1 plan0) = (Inr True, w)"
    using run_authorize by (metis prod.collapse)
  have "b = False" if "cancel_dispatch log_service plan0 False w = (Inr b, w')" for b w'
    using authorized_not_cancelled [OF log_laws log_rely w client_run.run_start that] by simp
  then have "fst (cancel_dispatch log_service plan0 False w) \<noteq> Inr True" by (metis prod.collapse)
  then show ?thesis using w by blast
qed


theorem batch_within_bounds_witness:
  "\<exists>ops content_type payload.
     mapR batch_entity [dispatch_entity sha0 authorized0 (Some (token 3))] = Inr ops
     \<and> conditional_batch ''b'' ''b'' ''https://t'' ''ledger'' (partition_key sha0 (dispatch_scope plan0)) ops
         = Inr (content_type, payload)
     \<and> length ops \<le> 100 \<and> utf8_length payload \<le> MAX_BATCH_BYTES"
proof -
  obtain ops ct payload where o: "mapR batch_entity [dispatch_entity sha0 authorized0 (Some (token 3))] = Inr ops"
    "conditional_batch ''b'' ''b'' ''https://t'' ''ledger'' (partition_key sha0 (dispatch_scope plan0)) ops
       = Inr (ct, payload)"
    using authorized_text unfolding batch_text_def is_ok_iff bindR_eq_Inr by force
  then show ?thesis using batch_within_bounds [OF o(2)] by blast
qed

end
