(* ===== verification/Budget_Evidence.thy ===== *)
theory Budget_Evidence
  imports Ledger_Evidence "HOL-Library.AList"
begin

text \<open>
  \<open>turnstile_core/persistence/in_memory_budget_evidence.py\<close> and the evidence part of
  \<open>in_memory_budgets.py\<close>: admissions and finalizations of gateway reservations, and the choice of
  one token count per request among the evidence of the provider, of the gateway's logs and of the
  usage records. The dictionaries that are iterated are lists in insertion order, the others are
  maps. \<open>now\<close> is the clock, read once per operation.
\<close>

section \<open>State\<close>

text \<open>The holder of a budget: a scope of the ledger, or the system itself.\<close>

datatype owner = Owner scope_kind | System

text \<open>A billable request attempt (\<open>domain/billable_requests.py\<close>).\<close>

datatype billable_state = Started | Exact | Uncertain

record billable =
  bl_id :: uuid
  bl_operation_key :: string
  bl_plan_sha256 :: string
  bl_owner :: owner
  bl_scope_id :: string
  bl_period_start :: date
  bl_model_id :: string
  bl_model_key :: string
  bl_reserved_tokens :: int
  bl_authorization_id :: "uuid option"
  bl_attempt_index :: int
  bl_state :: billable_state
  bl_actual_tokens :: "int option"
  bl_correlation_id :: "string option"
  bl_evidence :: dict
  bl_created_at :: instant
  bl_updated_at :: instant

text \<open>A usage record with the fields that tie it to a request and a scope.\<close>

record billed_record = usage_record +
  br_id :: string
  br_request_id :: string
  br_user_id :: string
  br_model_id :: string
  br_request_source :: string
  br_status_code :: int

type_synonym conflict_entry = "owner \<times> string \<times> string \<times> int \<times> int"

record evidence_state =
  es_effective_at :: "pydt option"
  es_admissions :: "scope_kind \<times> string \<times> string \<rightharpoonup> reservation_admission"
  es_finalizations :: "finalization list"
  es_received_at :: "string \<rightharpoonup> instant"
  es_conflicts :: "conflict_entry set"
  es_reconciled :: "string set"
  es_billables :: "billable list"
  es_records :: "billed_record list"
  es_attributions :: "string \<rightharpoonup> uuid"

definition strict :: "evidence_state \<Rightarrow> instant \<Rightarrow> pydt \<Rightarrow> bool res" where
  "strict st now t = strict_budget_evidence now t (es_effective_at st)"

fun filterR :: "('a \<Rightarrow> bool res) \<Rightarrow> 'a list \<Rightarrow> 'a list res" where
  "filterR p [] = Inr []"
| "filterR p (x # xs) =
     bindR (p x) (\<lambda>b. bindR (filterR p xs) (\<lambda>ys. Inr (if b then x # ys else ys)))"

text \<open>\<open>a and b\<close> where only \<open>b\<close> may raise.\<close>

definition andR :: "bool \<Rightarrow> bool res \<Rightarrow> bool res" where
  "andR a b = (if a then b else Inr False)"

section \<open>Admissions\<close>

definition admission_key :: "reservation_admission \<Rightarrow> scope_kind \<times> string \<times> string" where
  "admission_key a = (adm_scope_type a, adm_scope_id a, adm_correlation_id a)"

text \<open>The loop of \<open>register_budget_reservations\<close>; \<open>p\<close> is \<open>pending\<close>.\<close>

fun pend_admissions ::
  "(scope_kind \<times> string \<times> string \<rightharpoonup> reservation_admission)
     \<Rightarrow> (scope_kind \<times> string \<times> string \<rightharpoonup> reservation_admission) \<Rightarrow> reservation_admission list
     \<Rightarrow> (scope_kind \<times> string \<times> string \<rightharpoonup> reservation_admission) res" where
  "pend_admissions stored p [] = Inr p"
| "pend_admissions stored p (a # as) =
     (let existing = (case p (admission_key a) of None \<Rightarrow> stored (admission_key a) | x \<Rightarrow> x) in
      guardR (existing \<noteq> None \<and> existing \<noteq> Some a)
        (ValueError ''Budget reservation admission is immutable'')
        (pend_admissions stored (p(admission_key a \<mapsto> a)) as))"

definition register_budget_reservations ::
  "evidence_state \<Rightarrow> reservation_admission list \<Rightarrow> evidence_state res" where
  "register_budget_reservations st as =
     bindR (pend_admissions (es_admissions st) Map.empty as) (\<lambda>p.
       Inr (st\<lparr>es_admissions := es_admissions st ++ p\<rparr>))"

section \<open>Finalizations\<close>

definition finalization_key ::
  "finalization \<Rightarrow> scope_kind \<times> string \<times> string \<times> finalization_kind \<times> finalization_source \<times> instant" where
  "finalization_key f = (fin_scope_type f, fin_scope_id f, fin_correlation_id f, fin_kind f,
     fin_source f, fin_evidence_at f)"

fun kind_text :: "finalization_kind \<Rightarrow> string" where
  "kind_text Exact_usage = ''exact_usage''"
| "kind_text Terminal_zero = ''terminal_zero''"
| "kind_text Unverified_upper_bound = ''unverified_upper_bound''"

fun source_text :: "finalization_source \<Rightarrow> string" where
  "source_text Apim_llm_log = ''apim_gateway_llm_log''"
| "source_text Apim_gateway_log = ''apim_gateway_log''"
| "source_text Reservation_timeout = ''reservation_timeout''"

definition finalization_evidence_key :: "finalization \<Rightarrow> string" where
  "finalization_evidence_key f = scope_kind_text (fin_scope_type f) @ '':'' @ fin_scope_id f @ '':''
     @ fin_correlation_id f @ '':'' @ kind_text (fin_kind f) @ '':'' @ source_text (fin_source f)
     @ '':'' @ iso_utc (fin_evidence_at f)"

definition setdefault :: "('k \<rightharpoonup> 'v) \<Rightarrow> 'k \<Rightarrow> 'v \<Rightarrow> 'k \<rightharpoonup> 'v" where
  "setdefault m k v = (if m k = None then m(k \<mapsto> v) else m)"

text \<open>\<open>_finalization_evidence_key\<close>: the first time the evidence is looked at is when it was received.\<close>

definition note_received :: "evidence_state \<Rightarrow> instant \<Rightarrow> finalization \<Rightarrow> evidence_state" where
  "note_received st now f = st\<lparr>es_received_at := setdefault (es_received_at st) (finalization_evidence_key f) now\<rparr>"

text \<open>
  \<open>save_budget_reservation_finalizations\<close>: what was written before an error stays written.
\<close>

fun save_finalizations ::
  "evidence_state \<Rightarrow> instant \<Rightarrow> finalization list \<Rightarrow> nat \<Rightarrow> evidence_state \<times> nat res" where
  "save_finalizations st now [] written = (st, Inr written)"
| "save_finalizations st now (f # fs) written =
     (case find (\<lambda>g. finalization_key g = finalization_key f) (es_finalizations st) of
        Some g \<Rightarrow>
          if g \<noteq> f then (st, Inl (ValueError ''Budget reservation finalization is immutable''))
          else save_finalizations st now fs written
      | None \<Rightarrow>
          save_finalizations
            (note_received (st\<lparr>es_finalizations := es_finalizations st @ [f]\<rparr>) now f)
            now fs (written + 1))"

fun strength :: "finalization_kind \<Rightarrow> nat" where
  "strength Unverified_upper_bound = 1"
| "strength Terminal_zero = 2"
| "strength Exact_usage = 3"

text \<open>\<open>max(candidates, key=...)\<close>: the first of the strongest.\<close>

fun first_max :: "('a \<Rightarrow> 'b::linorder) \<Rightarrow> 'a \<Rightarrow> 'a list \<Rightarrow> 'a" where
  "first_max f x [] = x"
| "first_max f x (y # ys) = first_max f (if f x < f y then y else x) ys"

definition kinds_of :: "evidence_state \<Rightarrow> scope_kind \<Rightarrow> string \<Rightarrow> string \<Rightarrow> finalization_kind list" where
  "kinds_of st k sid c =
     map fin_kind (filter (\<lambda>f. fin_scope_type f = k \<and> fin_scope_id f = sid \<and> fin_correlation_id f = c)
       (es_finalizations st))"

definition reservation_finalization_kind ::
  "evidence_state \<Rightarrow> scope_kind \<Rightarrow> string \<Rightarrow> string \<Rightarrow> finalization_kind option" where
  "reservation_finalization_kind st k sid c =
     (case kinds_of st k sid c of [] \<Rightarrow> None | x # xs \<Rightarrow> Some (first_max strength x xs))"

definition reservation_finalization_kinds ::
  "evidence_state \<Rightarrow> scope_kind \<Rightarrow> string \<Rightarrow> string list \<Rightarrow> (string \<times> finalization_kind) list" where
  "reservation_finalization_kinds st k sid cs =
     concat (map (\<lambda>c. case reservation_finalization_kind st k sid c of
                        None \<Rightarrow> [] | Some x \<Rightarrow> [(c, x)]) cs)"

section \<open>Which admission an evidence belongs to\<close>

definition reservation_evidence_correlations ::
  "evidence_state \<Rightarrow> instant \<Rightarrow> owner \<Rightarrow> string \<Rightarrow> string list \<Rightarrow> (string \<times> string) list res" where
  "reservation_evidence_correlations st now ow sid request_ids =
     bindR (filterR (\<lambda>a. andR (bl_id a \<in> set request_ids \<and> bl_owner a = ow \<and> bl_scope_id a = sid
                               \<and> bl_correlation_id a \<noteq> None) (strict st now (Aware (bl_created_at a))))
             (es_billables st)) (\<lambda>as.
       Inr (map (\<lambda>a. (bl_id a, opt_or (bl_correlation_id a) [])) as))"

definition bound_attempt ::
  "evidence_state \<Rightarrow> instant \<Rightarrow> owner \<Rightarrow> string \<Rightarrow> string \<Rightarrow> billable option res" where
  "bound_attempt st now ow sid correlation =
     bindR (filterR (\<lambda>a. andR (bl_owner a = ow \<and> bl_scope_id a = sid)
              (if bl_id a = correlation then Inr True
               else andR (bl_correlation_id a = Some correlation) (strict st now (Aware (bl_created_at a)))))
             (es_billables st)) (\<lambda>candidates.
     guardR (1 < length candidates) (ValueError ''Budget reservation attempt binding is ambiguous'')
       (Inr (case candidates of [] \<Rightarrow> None | a # _ \<Rightarrow> Some a)))"

fun admission_of :: "evidence_state \<Rightarrow> owner \<Rightarrow> string \<Rightarrow> string \<Rightarrow> reservation_admission option" where
  "admission_of st (Owner k) sid correlation = es_admissions st (k, sid, correlation)"
| "admission_of st System sid correlation = None"

definition evidence_admitted_at ::
  "evidence_state \<Rightarrow> instant \<Rightarrow> owner \<Rightarrow> string \<Rightarrow> string \<Rightarrow> pydt \<Rightarrow> pydt res" where
  "evidence_admitted_at st now ow sid correlation fallback =
     bindR (bound_attempt st now ow sid correlation) (\<lambda>bound. Inr (
       case bound of
         Some a \<Rightarrow> Aware (bl_created_at a)
       | None \<Rightarrow> (case admission_of st ow sid correlation of
           Some ad \<Rightarrow> Aware (adm_created_at ad)
         | None \<Rightarrow> (case find (\<lambda>f. Owner (fin_scope_type f) = ow \<and> fin_scope_id f = sid
                              \<and> fin_correlation_id f = correlation) (es_finalizations st) of
             Some f \<Rightarrow> Aware (fin_created_at f)
           | None \<Rightarrow> fallback))))"

text \<open>The request a usage record was made for.\<close>

definition made_for :: "billed_record \<Rightarrow> owner \<Rightarrow> string \<Rightarrow> billable \<Rightarrow> bool" where
  "made_for r ow sid a \<longleftrightarrow>
     br_request_id r = bl_id a \<and> br_model_id r = bl_model_id a
     \<and> Some (ur_correlation_id r) = bl_correlation_id a \<and> bl_owner a = ow \<and> bl_scope_id a = sid"

definition record_identity ::
  "evidence_state \<Rightarrow> instant \<Rightarrow> billed_record \<Rightarrow> owner \<Rightarrow> string \<Rightarrow> (string \<times> pydt) res" where
  "record_identity st now r ow sid =
     (case find (made_for r ow sid) (es_billables st) of
        Some a \<Rightarrow> Inr (bl_id a, Aware (bl_created_at a))
      | None \<Rightarrow>
          bindR (evidence_admitted_at st now ow sid (ur_correlation_id r) (ur_ts r)) (\<lambda>t.
            Inr (ur_correlation_id r, t)))"

definition strict_record ::
  "evidence_state \<Rightarrow> instant \<Rightarrow> billed_record \<Rightarrow> owner \<Rightarrow> string \<Rightarrow> bool res" where
  "strict_record st now r ow sid =
     bindR (record_identity st now r ow sid) (\<lambda>(_, t). strict st now t)"

section \<open>The choice among the evidence\<close>

text \<open>
  An evidence that is offered to \<open>accept\<close>: for which request, when that was admitted, its tokens,
  its rank and when it was received.
\<close>

record offer =
  of_identity :: string
  of_admitted :: pydt
  of_tokens :: int
  of_rank :: int
  of_received :: instant

type_synonym choices = "(string \<times> offer) list"

definition better :: "offer \<Rightarrow> offer \<Rightarrow> bool" where
  "better x y \<longleftrightarrow>
     of_rank y < of_rank x \<or> (of_rank x = of_rank y \<and> of_received x < of_received y)"

definition accept ::
  "evidence_state \<Rightarrow> instant \<Rightarrow> owner \<Rightarrow> string \<Rightarrow> offer \<Rightarrow> choices \<times> conflict_entry set
     \<Rightarrow> (choices \<times> conflict_entry set) res" where
  "accept st now ow sid x = (\<lambda>(ch, cf).
     bindR (strict st now (of_admitted x)) (\<lambda>b.
     if \<not> b then Inr (ch, cf)
     else case map_of ch (of_identity x) of
       None \<Rightarrow> Inr (AList.update (of_identity x) x ch, cf)
     | Some prev \<Rightarrow>
         Inr (if better x prev then AList.update (of_identity x) x ch else ch,
              if of_tokens prev \<noteq> of_tokens x
              then insert (ow, sid, of_identity x, of_tokens prev, of_tokens x) cf else cf)))"

definition billable_offer :: "owner \<Rightarrow> string \<Rightarrow> billable \<Rightarrow> offer option" where
  "billable_offer ow sid a =
     (if bl_owner a = ow \<and> bl_scope_id a = sid
      then map_option (\<lambda>n. \<lparr>of_identity = bl_id a, of_admitted = Aware (bl_created_at a), of_tokens = n,
             of_rank = 2, of_received = bl_updated_at a\<rparr>) (bl_actual_tokens a)
      else None)"

definition finalization_offer ::
  "evidence_state \<Rightarrow> instant \<Rightarrow> owner \<Rightarrow> string \<Rightarrow> finalization \<Rightarrow> offer option res" where
  "finalization_offer st now ow sid f =
     (if Owner (fin_scope_type f) = ow \<and> fin_scope_id f = sid \<and> fin_kind f \<noteq> Unverified_upper_bound
      then bindR (bound_attempt st now ow sid (fin_correlation_id f)) (\<lambda>bound.
           bindR (evidence_admitted_at st now ow sid (fin_correlation_id f) (Aware (fin_created_at f))) (\<lambda>t.
             Inr (Some \<lparr>of_identity = (case bound of Some a \<Rightarrow> bl_id a | None \<Rightarrow> fin_correlation_id f),
               of_admitted = t, of_tokens = fin_total_tokens f, of_rank = 1,
               of_received = opt_or (es_received_at st (finalization_evidence_key f)) now\<rparr>)))
      else Inr None)"

text \<open>The time of a usage record that has canonical tokens carries a timezone.\<close>

fun aware_time :: "pydt \<Rightarrow> instant" where
  "aware_time (Aware t) = t"
| "aware_time (Naive t) = t"

definition record_tokens :: "evidence_state \<Rightarrow> billed_record \<Rightarrow> int option" where
  "record_tokens st r =
     canonical_budget_tokens (br_id r \<in> es_reconciled st) (usage_record.truncate r)"

definition attributed :: "evidence_state \<Rightarrow> billed_record \<Rightarrow> string \<Rightarrow> bool" where
  "attributed st r sid \<longleftrightarrow> es_attributions st (br_id r) = Some sid"

definition probe_source :: string where "probe_source = ''gateway-publication-probe''"

fun record_matches :: "evidence_state \<Rightarrow> billed_record \<Rightarrow> owner \<Rightarrow> string \<Rightarrow> bool" where
  "record_matches st r (Owner Person) sid = (br_user_id r = sid)"
| "record_matches st r (Owner Application) sid = attributed st r sid"
| "record_matches st r System sid =
     (br_request_source r = probe_source \<and> list_ex (made_for r System sid) (es_billables st))"

definition record_offer ::
  "evidence_state \<Rightarrow> instant \<Rightarrow> owner \<Rightarrow> string \<Rightarrow> billed_record \<Rightarrow> offer option res" where
  "record_offer st now ow sid r =
     (if \<not> record_matches st r ow sid then Inr None
      else case record_tokens st r of
        None \<Rightarrow> Inr None
      | Some n \<Rightarrow>
          bindR (record_identity st now r ow sid) (\<lambda>(i, t).
            let rank = (if \<not> ur_estimated r \<and> ur_ingest_error r = None then 3 else 1);
                key = (if rank = 3 then ''usage:'' else ''reconciled:'') @ br_id r in
            Inr (Some \<lparr>of_identity = i, of_admitted = t, of_tokens = n, of_rank = rank,
              of_received = opt_or (es_received_at st key) (aware_time (ur_ts r))\<rparr>)))"

text \<open>A loop that computes an offer for each element and accepts it.\<close>

fun accept_all ::
  "evidence_state \<Rightarrow> instant \<Rightarrow> owner \<Rightarrow> string \<Rightarrow> ('a \<Rightarrow> offer option res) \<Rightarrow> 'a list
     \<Rightarrow> choices \<times> conflict_entry set \<Rightarrow> (choices \<times> conflict_entry set) res" where
  "accept_all st now ow sid f [] acc = Inr acc"
| "accept_all st now ow sid f (x # xs) acc =
     bindR (f x) (\<lambda>v.
     bindR (case v of None \<Rightarrow> Inr acc | Some y \<Rightarrow> accept st now ow sid y acc) (\<lambda>acc'.
     accept_all st now ow sid f xs acc'))"

text \<open>The finalizations of the scope are looked at, in order.\<close>

definition note_all :: "evidence_state \<Rightarrow> instant \<Rightarrow> owner \<Rightarrow> string \<Rightarrow> evidence_state" where
  "note_all st now ow sid =
     fold (\<lambda>f s. if Owner (fin_scope_type f) = ow \<and> fin_scope_id f = sid
                    \<and> fin_kind f \<noteq> Unverified_upper_bound
                 then note_received s now f else s) (es_finalizations st) st"

definition strict_budget_choices ::
  "evidence_state \<Rightarrow> instant \<Rightarrow> owner \<Rightarrow> string \<Rightarrow> (choices \<times> evidence_state) res" where
  "strict_budget_choices st now ow sid =
     (let st' = note_all st now ow sid in
      bindR (accept_all st' now ow sid (\<lambda>a. Inr (billable_offer ow sid a)) (es_billables st)
               ([], es_conflicts st)) (\<lambda>acc1.
      bindR (accept_all st' now ow sid (finalization_offer st' now ow sid) (es_finalizations st) acc1)
        (\<lambda>acc2.
      bindR (accept_all st' now ow sid (record_offer st' now ow sid) (es_records st) acc2) (\<lambda>(ch, cf).
        Inr (ch, st'\<lparr>es_conflicts := cf\<rparr>)))))"

section \<open>Evidence that was admitted stays\<close>

lemma pend_admissions_keeps:
  assumes "pend_admissions stored p as = Inr q"
    "\<And>k a b. p k = Some a \<Longrightarrow> stored k = Some b \<Longrightarrow> a = b"
  shows "(\<forall>k a b. q k = Some a \<longrightarrow> stored k = Some b \<longrightarrow> a = b)
    \<and> (\<forall>k a. p k = Some a \<longrightarrow> q k = Some a) \<and> (\<forall>a \<in> set as. q (admission_key a) = Some a)"
  using assms
proof (induction as arbitrary: p)
  case (Cons a as)
  let ?p = "p(admission_key a \<mapsto> a)"
  have ok: "case p (admission_key a) of None \<Rightarrow> stored (admission_key a) = None \<or> stored (admission_key a) = Some a
      | Some x \<Rightarrow> x = a"
    and rest: "pend_admissions stored ?p as = Inr q"
    using Cons.prems(1) by (auto simp: Let_def guardR_eq_Inr split: option.splits)
  have "x = b" if "?p k = Some x" "stored k = Some b" for k x b
    using that ok Cons.prems(2) by (auto split: if_splits option.splits)
  then have r: "(\<forall>k a b. q k = Some a \<longrightarrow> stored k = Some b \<longrightarrow> a = b)
    \<and> (\<forall>k a. ?p k = Some a \<longrightarrow> q k = Some a) \<and> (\<forall>a \<in> set as. q (admission_key a) = Some a)"
    using Cons.IH [OF rest] by blast
  have "q k = Some x" if "p k = Some x" for k x
  proof -
    have "?p k = Some x" using that ok by (cases "k = admission_key a") auto
    then show ?thesis using r by blast
  qed
  moreover have "q (admission_key a) = Some a" using r fun_upd_same [of p "admission_key a" "Some a"] by blast
  ultimately show ?case using r by (simp del: split_paired_All)
qed simp

theorem admissions_immutable:
  assumes "register_budget_reservations st as = Inr st'"
  shows "(\<forall>k a. es_admissions st k = Some a \<longrightarrow> es_admissions st' k = Some a)
    \<and> (\<forall>a \<in> set as. es_admissions st' (admission_key a) = Some a)"
proof -
  obtain p where p: "pend_admissions (es_admissions st) Map.empty as = Inr p"
    and st': "es_admissions st' = es_admissions st ++ p"
    using assms by (auto simp: register_budget_reservations_def res_simps)
  have k: "(\<forall>k a b. p k = Some a \<longrightarrow> es_admissions st k = Some b \<longrightarrow> a = b)
    \<and> (\<forall>a \<in> set as. p (admission_key a) = Some a)"
    using pend_admissions_keeps [OF p] by simp
  have "es_admissions st' k = Some a" if "es_admissions st k = Some a" for k a
  proof (cases "p k")
    case None
    then show ?thesis using that by (simp add: st' map_add_def)
  next
    case (Some b)
    then have "b = a" using k that by blast
    then show ?thesis using Some by (simp add: st' map_add_def)
  qed
  then show ?thesis using k by (simp add: st' map_add_def)
qed

lemma save_finalizations_appends:
  "save_finalizations st now fs n = (st', r) \<Longrightarrow> \<exists>gs. es_finalizations st' = es_finalizations st @ gs"
proof (induction st now fs n rule: save_finalizations.induct)
  case (2 st now f fs written)
  show ?case
  proof (cases "find (\<lambda>g. finalization_key g = finalization_key f) (es_finalizations st)")
    case None
    then show ?thesis using "2.IH"(1) [OF None] "2.prems" by (auto simp: note_received_def)
  next
    case (Some g)
    then show ?thesis using "2.IH"(2) [OF Some] "2.prems" by (cases "g = f") auto
  qed
qed auto

lemma first_max_ge: "x \<in> set (y # ys) \<Longrightarrow> f x \<le> f (first_max f y ys)"
proof (induction ys arbitrary: x y)
  case (Cons z zs)
  let ?m = "if f y < f z then z else y"
  have m: "f ?m \<le> f (first_max f ?m zs)" by (rule Cons.IH) simp
  show ?case
  proof (cases "x \<in> set zs")
    case True
    then have "f x \<le> f (first_max f ?m zs)" by (intro Cons.IH) simp
    then show ?thesis by simp
  next
    case False
    then have "f x \<le> f ?m" using Cons.prems by auto
    then show ?thesis using m by simp
  qed
qed simp

lemma first_max_mem: "first_max f y ys \<in> set (y # ys)"
proof (induction ys arbitrary: y)
  case (Cons z zs)
  show ?case using Cons.IH [of y] Cons.IH [of z] by auto
qed simp

text \<open>
  C20. Saving finalizations, also when the call raises half way, never weakens the kind under
  which a reservation is finalized.
\<close>

theorem finalization_never_weakens:
  assumes "save_finalizations st now fs n = (st', r)" "reservation_finalization_kind st k sid c = Some x"
  shows "\<exists>y. reservation_finalization_kind st' k sid c = Some y \<and> strength x \<le> strength y"
proof -
  obtain gs where gs: "es_finalizations st' = es_finalizations st @ gs"
    using save_finalizations_appends [OF assms(1)] by blast
  obtain h hs where h: "kinds_of st k sid c = h # hs" "x = first_max strength h hs"
    using assms(2) by (auto simp: reservation_finalization_kind_def split: list.splits)
  obtain ks where ks: "kinds_of st' k sid c = h # hs @ ks"
    using h(1) by (simp add: kinds_of_def gs)
  have "x \<in> set (h # hs @ ks)" using first_max_mem [of strength h hs] h(2) by auto
  then show ?thesis using first_max_ge [of x h "hs @ ks" strength] ks
    by (auto simp: reservation_finalization_kind_def)
qed

section \<open>The choice is the best evidence\<close>

text \<open>All offers that count, in the order of the three loops.\<close>

fun offers :: "('a \<Rightarrow> offer option res) \<Rightarrow> 'a list \<Rightarrow> offer list res" where
  "offers f [] = Inr []"
| "offers f (x # xs) =
     bindR (f x) (\<lambda>v. bindR (offers f xs) (\<lambda>ys. Inr (case v of None \<Rightarrow> ys | Some y \<Rightarrow> y # ys)))"

definition strict_offers :: "evidence_state \<Rightarrow> instant \<Rightarrow> owner \<Rightarrow> string \<Rightarrow> offer list res" where
  "strict_offers st now ow sid =
     (let st' = note_all st now ow sid in
      bindR (offers (\<lambda>a. Inr (billable_offer ow sid a)) (es_billables st)) (\<lambda>xs.
      bindR (offers (finalization_offer st' now ow sid) (es_finalizations st)) (\<lambda>ys.
      bindR (offers (record_offer st' now ow sid) (es_records st)) (\<lambda>zs.
      filterR (\<lambda>x. strict st' now (of_admitted x)) (xs @ ys @ zs)))))"

text \<open>What the loops maintain over the offers seen so far.\<close>

definition chosen ::
  "owner \<Rightarrow> string \<Rightarrow> offer list \<Rightarrow> (string \<rightharpoonup> offer) \<times> conflict_entry set \<Rightarrow> bool" where
  "chosen ow sid os = (\<lambda>(ch, cf).
     (\<forall>i x. ch i = Some x \<longrightarrow> x \<in> set os \<and> of_identity x = i
        \<and> (\<forall>y \<in> set os. of_identity y = i \<longrightarrow> \<not> better y x))
     \<and> (\<forall>y \<in> set os. ch (of_identity y) \<noteq> None)
     \<and> (\<forall>y \<in> set os. \<forall>z \<in> set os. of_identity y = of_identity z \<longrightarrow> of_tokens y \<noteq> of_tokens z \<longrightarrow>
          (\<exists>a b. (ow, sid, of_identity y, a, b) \<in> cf)))"

lemma better_trans: "better x y \<Longrightarrow> \<not> better z y \<Longrightarrow> \<not> better z x"
  by (auto simp: better_def)

lemma better_irrefl: "\<not> better x x"
  by (simp add: better_def)

lemma chosenD:
  assumes "chosen ow sid os (ch, cf)"
  shows "ch i = Some x \<Longrightarrow> x \<in> set os \<and> of_identity x = i"
    and "ch i = Some x \<Longrightarrow> y \<in> set os \<Longrightarrow> of_identity y = i \<Longrightarrow> \<not> better y x"
    and "y \<in> set os \<Longrightarrow> ch (of_identity y) \<noteq> None"
    and "y \<in> set os \<Longrightarrow> z \<in> set os \<Longrightarrow> of_identity y = of_identity z \<Longrightarrow> of_tokens y \<noteq> of_tokens z \<Longrightarrow>
      \<exists>a b. (ow, sid, of_identity y, a, b) \<in> cf"
proof -
  note c = assms [unfolded chosen_def prod.case]
  show "ch i = Some x \<Longrightarrow> x \<in> set os \<and> of_identity x = i" using c by blast
  show "ch i = Some x \<Longrightarrow> y \<in> set os \<Longrightarrow> of_identity y = i \<Longrightarrow> \<not> better y x" using c by blast
  show "y \<in> set os \<Longrightarrow> ch (of_identity y) \<noteq> None" using c by blast
  show "y \<in> set os \<Longrightarrow> z \<in> set os \<Longrightarrow> of_identity y = of_identity z \<Longrightarrow> of_tokens y \<noteq> of_tokens z \<Longrightarrow>
      \<exists>a b. (ow, sid, of_identity y, a, b) \<in> cf" using c by blast
qed

lemma chosenI:
  assumes "\<And>i x. ch i = Some x \<Longrightarrow> x \<in> set os \<and> of_identity x = i"
    "\<And>i x y. ch i = Some x \<Longrightarrow> y \<in> set os \<Longrightarrow> of_identity y = i \<Longrightarrow> \<not> better y x"
    "\<And>y. y \<in> set os \<Longrightarrow> ch (of_identity y) \<noteq> None"
    "\<And>y z. y \<in> set os \<Longrightarrow> z \<in> set os \<Longrightarrow> of_identity y = of_identity z \<Longrightarrow> of_tokens y \<noteq> of_tokens z \<Longrightarrow>
      \<exists>a b. (ow, sid, of_identity y, a, b) \<in> cf"
  shows "chosen ow sid os (ch, cf)"
  unfolding chosen_def prod.case using assms by blast

lemma chosen_new:
  assumes c: "chosen ow sid os (ch, cf)" and none: "ch (of_identity x) = None"
  shows "chosen ow sid (os @ [x]) (ch(of_identity x \<mapsto> x), cf)"
proof -
  have new: "of_identity y \<noteq> of_identity x" if "y \<in> set os" for y
  proof
    assume "of_identity y = of_identity x"
    then show False using chosenD(3) [OF c that] none by simp
  qed
  show ?thesis
  proof (rule chosenI)
    fix i z assume z: "(ch(of_identity x \<mapsto> x)) i = Some z"
    then show "z \<in> set (os @ [x]) \<and> of_identity z = i"
      using chosenD(1) [OF c, of i z] by (cases "i = of_identity x") auto
    fix y assume y: "y \<in> set (os @ [x])" "of_identity y = i"
    show "\<not> better y z"
    proof (cases "i = of_identity x")
      case True
      then have "y = x" "z = x" using y new z by auto
      then show ?thesis by (simp add: better_irrefl)
    next
      case False
      then have "y \<in> set os" "ch i = Some z" using y z by auto
      then show ?thesis using chosenD(2) [OF c _ _ y(2)] by blast
    qed
  next
    fix y assume "y \<in> set (os @ [x])"
    then show "(ch(of_identity x \<mapsto> x)) (of_identity y) \<noteq> None"
      using chosenD(3) [OF c, of y] by (cases "y = x") auto
  next
    fix y z assume yz: "y \<in> set (os @ [x])" "z \<in> set (os @ [x])" "of_identity y = of_identity z"
      "of_tokens y \<noteq> of_tokens z"
    have "y \<noteq> x" using yz(2-4) new [of z] by (cases "z = x") auto
    moreover have "z \<noteq> x" using yz new [of y] by (cases "y = x") auto
    ultimately show "\<exists>a b. (ow, sid, of_identity y, a, b) \<in> cf"
      using chosenD(4) [OF c, of y z] yz by simp
  qed
qed

lemma chosen_old:
  assumes c: "chosen ow sid os (ch, cf)" and old: "ch (of_identity x) = Some prev"
  defines "ch' \<equiv> if better x prev then ch(of_identity x \<mapsto> x) else ch"
    and "cf' \<equiv> if of_tokens prev \<noteq> of_tokens x
      then insert (ow, sid, of_identity x, of_tokens prev, of_tokens x) cf else cf"
  shows "chosen ow sid (os @ [x]) (ch', cf')"
proof (rule chosenI)
  note prev = chosenD(1,2) [OF c old]
  fix i z assume z: "ch' i = Some z"
  have z': "(i \<noteq> of_identity x \<and> ch i = Some z) \<or> (i = of_identity x \<and> better x prev \<and> z = x)
      \<or> (i = of_identity x \<and> \<not> better x prev \<and> z = prev)"
    using z old by (auto simp: ch'_def split: if_splits)
  then show "z \<in> set (os @ [x]) \<and> of_identity z = i" using chosenD(1) [OF c, of i z] prev(1) by auto
  fix y assume y: "y \<in> set (os @ [x])" "of_identity y = i"
  have y': "(y = x \<and> i = of_identity x) \<or> y \<in> set os" using y by auto
  show "\<not> better y z"
    using z'
  proof (elim disjE conjE)
    assume "i \<noteq> of_identity x" "ch i = Some z"
    then show ?thesis using chosenD(2) [OF c _ _ y(2)] y' by blast
  next
    assume "i = of_identity x" "better x prev" "z = x"
    then show ?thesis using y' prev(2) [of y] y(2) better_irrefl better_trans [of x prev y] by blast
  next
    assume "i = of_identity x" "\<not> better x prev" "z = prev"
    then show ?thesis using y' prev(2) [of y] y(2) by blast
  qed
next
  fix y assume "y \<in> set (os @ [x])"
  then show "ch' (of_identity y) \<noteq> None"
    using chosenD(3) [OF c, of y] old by (cases "y = x") (auto simp: ch'_def)
next
  fix y z assume yz: "y \<in> set (os @ [x])" "z \<in> set (os @ [x])" "of_identity y = of_identity z"
    "of_tokens y \<noteq> of_tokens z"
  have sub: "cf \<subseteq> cf'" by (auto simp: cf'_def)
  have both: "\<exists>a b. (ow, sid, of_identity u, a, b) \<in> cf'"
    if "u \<in> set os" "v \<in> set os" "of_identity u = of_identity v" "of_tokens u \<noteq> of_tokens v" for u v
    using chosenD(4) [OF c that] sub by blast
  have last: "\<exists>a b. (ow, sid, of_identity x, a, b) \<in> cf'"
    if "u \<in> set os" "of_identity u = of_identity x" "of_tokens u \<noteq> of_tokens x" for u
  proof (cases "of_tokens prev = of_tokens x")
    case True
    then show ?thesis using both [of prev u] that chosenD(1) [OF c old] by simp
  next
    case False
    then show ?thesis by (auto simp: cf'_def)
  qed
  consider "y \<in> set os" "z \<in> set os" | "y \<in> set os" "z = x" | "y = x" "z \<in> set os" | "y = x" "z = x"
    using yz(1,2) by auto
  then show "\<exists>a b. (ow, sid, of_identity y, a, b) \<in> cf'"
  proof cases
    case 1
    then show ?thesis using both yz(3,4) by blast
  next
    case 2
    then show ?thesis using last [of y] yz(3,4) by simp
  next
    case 3
    then show ?thesis using last [of z] yz(3,4) by simp
  qed (use yz(4) in simp)
qed

definition looked_up :: "choices \<times> conflict_entry set \<Rightarrow> (string \<rightharpoonup> offer) \<times> conflict_entry set" where
  "looked_up acc = (map_of (fst acc), snd acc)"

lemma accept_chosen:
  assumes "accept st now ow sid x acc = Inr acc'" "chosen ow sid os (looked_up acc)"
  shows "\<exists>b. strict st now (of_admitted x) = Inr b \<and> chosen ow sid (if b then os @ [x] else os) (looked_up acc')"
proof -
  obtain ch cf where acc: "acc = (ch, cf)" by (cases acc)
  have c: "chosen ow sid os (map_of ch, cf)" using assms(2) by (simp add: looked_up_def acc)
  obtain b where b: "strict st now (of_admitted x) = Inr b"
    using assms(1) by (auto simp: accept_def acc res_simps)
  show ?thesis
  proof (cases b)
    case True
    show ?thesis
    proof (cases "map_of ch (of_identity x)")
      case None
      then have "acc' = (AList.update (of_identity x) x ch, cf)" using assms(1) b True by (simp add: accept_def acc)
      then have "looked_up acc' = ((map_of ch)(of_identity x \<mapsto> x), cf)"
        by (simp add: looked_up_def update_conv')
      then have "chosen ow sid (os @ [x]) (looked_up acc')" using chosen_new [OF c None] by (simp only:)
      then show ?thesis using b True by (intro exI [of _ True]) simp
    next
      case (Some prev)
      have "acc' = (if better x prev then AList.update (of_identity x) x ch else ch,
          if of_tokens prev \<noteq> of_tokens x
          then insert (ow, sid, of_identity x, of_tokens prev, of_tokens x) cf else cf)"
        using assms(1) b True Some by (simp add: accept_def acc)
      then have "looked_up acc' = (if better x prev then (map_of ch)(of_identity x \<mapsto> x) else map_of ch,
          if of_tokens prev \<noteq> of_tokens x
          then insert (ow, sid, of_identity x, of_tokens prev, of_tokens x) cf else cf)"
        by (cases "better x prev") (simp_all only: looked_up_def fst_conv snd_conv if_True if_False update_conv')
      then have "chosen ow sid (os @ [x]) (looked_up acc')" using chosen_old [OF c Some] by (simp only:)
      then show ?thesis using b True by (intro exI [of _ True]) simp
    qed
  next
    case False
    then have "acc' = acc" using assms(1) b by (simp add: accept_def acc)
    then show ?thesis using b False assms(2) by (intro exI [of _ False]) simp
  qed
qed

lemma filterR_append:
  "filterR p (xs @ ys) = bindR (filterR p xs) (\<lambda>us. bindR (filterR p ys) (\<lambda>vs. Inr (us @ vs)))"
proof (induction xs)
  case (Cons x xs)
  show ?case
    by (cases "p x"; cases "filterR p xs"; cases "filterR p ys") (simp_all add: Cons.IH)
next
  case Nil
  show ?case by (cases "filterR p ys") simp_all
qed

lemma accept_all_chosen:
  "accept_all st now ow sid f xs acc = Inr acc' \<Longrightarrow> chosen ow sid os (looked_up acc) \<Longrightarrow>
     \<exists>ys us. offers f xs = Inr ys \<and> filterR (\<lambda>x. strict st now (of_admitted x)) ys = Inr us
       \<and> chosen ow sid (os @ us) (looked_up acc')"
proof (induction xs arbitrary: acc os)
  case (Cons x xs)
  obtain v acc1 where v: "f x = Inr v"
    and one: "(case v of None \<Rightarrow> Inr acc | Some y \<Rightarrow> accept st now ow sid y acc) = Inr acc1"
    and rest: "accept_all st now ow sid f xs acc1 = Inr acc'"
    using Cons.prems(1) by (auto simp: res_simps)
  show ?case
  proof (cases v)
    case None
    then have "acc1 = acc" using one by simp
    then show ?thesis using Cons.IH [OF rest] Cons.prems(2) v None by (force simp: bindR_def)
  next
    case (Some y)
    obtain b where b: "strict st now (of_admitted y) = Inr b"
      "chosen ow sid (if b then os @ [y] else os) (looked_up acc1)"
      using accept_chosen [of st now ow sid y acc acc1 os] one Some Cons.prems(2) by auto
    obtain ys us where "offers f xs = Inr ys" "filterR (\<lambda>x. strict st now (of_admitted x)) ys = Inr us"
      "chosen ow sid ((if b then os @ [y] else os) @ us) (looked_up acc')"
      using Cons.IH [OF rest b(2)] by blast
    then show ?thesis using v Some b(1) by (cases b) auto
  qed
qed simp

text \<open>
  C19. The three loops that choose one token count per request compute what a declarative reading
  says: each chosen entry is an offered evidence, none offered for the same request is better
  (higher rank, or same rank and received earlier), every request with evidence has an entry, and
  every disagreement in tokens is recorded as a conflict.
\<close>

theorem strict_choices_best:
  assumes "strict_budget_choices st now ow sid = Inr (ch, st')"
  shows "\<exists>os. strict_offers st now ow sid = Inr os
    \<and> (\<forall>i x. map_of ch i = Some x \<longrightarrow> x \<in> set os \<and> of_identity x = i
         \<and> (\<forall>y \<in> set os. of_identity y = i \<longrightarrow> \<not> better y x))
    \<and> (\<forall>y \<in> set os. map_of ch (of_identity y) \<noteq> None)
    \<and> (\<forall>y \<in> set os. \<forall>z \<in> set os. of_identity y = of_identity z \<longrightarrow> of_tokens y \<noteq> of_tokens z \<longrightarrow>
         (\<exists>a b. (ow, sid, of_identity y, a, b) \<in> es_conflicts st'))"
proof -
  let ?st = "note_all st now ow sid"
  obtain acc1 acc2 cf where a:
    "accept_all ?st now ow sid (\<lambda>a. Inr (billable_offer ow sid a)) (es_billables st) ([], es_conflicts st) = Inr acc1"
    "accept_all ?st now ow sid (finalization_offer ?st now ow sid) (es_finalizations st) acc1 = Inr acc2"
    "accept_all ?st now ow sid (record_offer ?st now ow sid) (es_records st) acc2 = Inr (ch, cf)"
    "es_conflicts st' = cf"
    using assms by (auto simp: strict_budget_choices_def Let_def res_simps)
  have "chosen ow sid [] (looked_up ([], es_conflicts st))" by (simp add: chosen_def looked_up_def)
  from accept_all_chosen [OF a(1) this] obtain xs us where 1:
    "offers (\<lambda>a. Inr (billable_offer ow sid a)) (es_billables st) = Inr xs"
    "filterR (\<lambda>x. strict ?st now (of_admitted x)) xs = Inr us" "chosen ow sid us (looked_up acc1)" by auto
  from accept_all_chosen [OF a(2) 1(3)] obtain ys vs where 2:
    "offers (finalization_offer ?st now ow sid) (es_finalizations st) = Inr ys"
    "filterR (\<lambda>x. strict ?st now (of_admitted x)) ys = Inr vs" "chosen ow sid (us @ vs) (looked_up acc2)" by auto
  from accept_all_chosen [OF a(3) 2(3)] obtain zs ws where 3:
    "offers (record_offer ?st now ow sid) (es_records st) = Inr zs"
    "filterR (\<lambda>x. strict ?st now (of_admitted x)) zs = Inr ws" "chosen ow sid ((us @ vs) @ ws) (looked_up (ch, cf))" by auto
  have "strict_offers st now ow sid = Inr (us @ vs @ ws)"
    by (simp add: strict_offers_def Let_def 1(1,2) 2(1,2) 3(1,2) filterR_append)
  then show ?thesis using 3(3) a(4) by (simp only: chosen_def prod.case append_assoc looked_up_def fst_conv snd_conv) blast
qed

end
