(* ===== verification/Token_Budgets.thy ===== *)
theory Token_Budgets
  imports Budget_Evidence Ledger_Types
begin

text \<open>
  \<open>turnstile_core/persistence/in_memory_budgets.py\<close>: the hierarchy of monthly budgets
  (organization, department, user), its audit trail and the inheritance of a month's budgets by a
  later one. A budget is counted in tokens or in units of \<open>10 ^ -14\<close> USD; sums of USD are rounded to
  28 digits as the default decimal context does. \<open>now\<close> and \<open>fresh\<close> are the clock and \<open>uuid4\<close>.
\<close>

section \<open>State\<close>

datatype level = Organization | Department | User

record budget_row =
  bg_period :: date
  bg_level :: level
  bg_id :: string
  bg_parent :: "string option"
  bg_mode :: budget_mode
  bg_token_limit :: "int option"
  bg_usd_limit :: "int option"
  bg_warning :: int
  bg_updated_at :: instant
  bg_updated_by :: string

datatype budget_action = Assigned | Updated | Removed

record budget_audit =
  au_id :: uuid
  au_period :: date
  au_level :: level
  au_scope_id :: string
  au_action :: budget_action
  au_previous :: "(budget_mode \<times> int option \<times> int option \<times> int) option"
  au_new :: "(budget_mode \<times> int option \<times> int option \<times> int) option"
  au_changed_at :: instant
  au_changed_by :: string

record roll_mark =
  rm_source :: "date option"
  rm_count :: nat

record budget_state =
  bt_rows :: "budget_row list"
  bt_audit :: "budget_audit list"
  bt_rolled :: "date \<rightharpoonup> roll_mark"

type_synonym budget_key = "date \<times> level \<times> string"

definition row_key :: "budget_row \<Rightarrow> budget_key" where
  "row_key r = (bg_period r, bg_level r, bg_id r)"

definition row_at :: "budget_row list \<Rightarrow> budget_key \<Rightarrow> budget_row option" where
  "row_at rs k = find (\<lambda>r. row_key r = k) rs"

text \<open>Assigning a key of a dictionary keeps its place; a new key comes last.\<close>

fun put_row :: "budget_row list \<Rightarrow> budget_row \<Rightarrow> budget_row list" where
  "put_row [] x = [x]"
| "put_row (r # rs) x = (if row_key r = row_key x then x # rs else r # put_row rs x)"

definition limit_of :: "budget_mode \<Rightarrow> budget_row \<Rightarrow> int option" where
  "limit_of m r = (case m of Usd \<Rightarrow> bg_usd_limit r | Tokens \<Rightarrow> bg_token_limit r)"

text \<open>\<open>sum(...)\<close> and \<open>+\<close> of limits.\<close>

definition plus_limit :: "budget_mode \<Rightarrow> int \<Rightarrow> int \<Rightarrow> int" where
  "plus_limit m a b = (case m of Usd \<Rightarrow> usd28 (a + b) | Tokens \<Rightarrow> a + b)"

definition total :: "budget_mode \<Rightarrow> int list \<Rightarrow> int" where
  "total m xs = foldl (plus_limit m) 0 xs"

fun parent_level :: "level \<Rightarrow> level option" where
  "parent_level Department = Some Organization"
| "parent_level User = Some Department"
| "parent_level Organization = None"

fun child_level :: "level \<Rightarrow> level option" where
  "child_level Organization = Some Department"
| "child_level Department = Some User"
| "child_level User = None"

definition snapshot_of :: "budget_row \<Rightarrow> budget_mode \<times> int option \<times> int option \<times> int" where
  "snapshot_of r = (bg_mode r, bg_token_limit r, bg_usd_limit r, bg_warning r)"

definition list_token_budgets :: "budget_state \<Rightarrow> date \<Rightarrow> budget_row list" where
  "list_token_budgets st period = filter (\<lambda>r. bg_period r = period) (bt_rows st)"

section \<open>Assigning a budget\<close>

definition violation :: "string \<Rightarrow> exn" where "violation msg = ValueError msg"

definition siblings_of :: "budget_row list \<Rightarrow> budget_row \<Rightarrow> budget_row list" where
  "siblings_of rs x = filter (\<lambda>r. bg_period r = bg_period x \<and> bg_level r = bg_level x
     \<and> bg_parent r = bg_parent x \<and> bg_id r \<noteq> bg_id x) rs"

definition children_of :: "budget_row list \<Rightarrow> date \<Rightarrow> level \<Rightarrow> string \<Rightarrow> budget_row list" where
  "children_of rs period l sid = filter (\<lambda>r. bg_period r = period \<and> Some (bg_level r) = child_level l
     \<and> bg_parent r = Some sid) rs"

text \<open>The guards on the parent and the siblings of the new row \<open>x\<close>, whose limit is \<open>amount\<close>.\<close>

definition check_parent :: "budget_row list \<Rightarrow> budget_row \<Rightarrow> int \<Rightarrow> unit res" where
  "check_parent rs x amount =
     (case (parent_level (bg_level x), bg_parent x) of
        (Some pl, Some pid) \<Rightarrow>
          (let par = row_at rs (bg_period x, pl, pid);
               sibs = siblings_of rs x;
               limits = map (limit_of (bg_mode x)) sibs in
           guardR (par \<noteq> None \<and> map_option bg_mode par \<noteq> Some (bg_mode x))
             (violation ''Parent and child budgets must use the same mode'')
          (guardR (list_ex (\<lambda>r. bg_mode r \<noteq> bg_mode x) sibs)
             (violation ''Sibling budgets must use the same mode'')
          (guardR (None \<in> set limits) (violation ''Budget hierarchy has an incomplete limit'')
          (case par of
             None \<Rightarrow> Inr ()
           | Some p \<Rightarrow> (case limit_of (bg_mode x) p of
               None \<Rightarrow> Inr ()
             | Some pl \<Rightarrow>
                 guardR (pl < plus_limit (bg_mode x) (total (bg_mode x) (map (\<lambda>v. opt_or v 0) limits)) amount)
                   (violation ''Child budgets exceed parent budget'') (Inr ()))))))
      | _ \<Rightarrow> Inr ())"

definition check_children :: "budget_row list \<Rightarrow> budget_row \<Rightarrow> int \<Rightarrow> unit res" where
  "check_children rs x amount =
     (if child_level (bg_level x) = None then Inr ()
      else
        let kids = children_of rs (bg_period x) (bg_level x) (bg_id x);
            limits = map (limit_of (bg_mode x)) kids in
        guardR (list_ex (\<lambda>r. bg_mode r \<noteq> bg_mode x) kids)
          (violation ''Parent and child budgets must use the same mode'')
       (guardR (None \<in> set limits) (violation ''Budget hierarchy has an incomplete limit'')
       (guardR (amount < total (bg_mode x) (map (\<lambda>v. opt_or v 0) limits))
          (violation ''Parent budget is below allocated child budgets'') (Inr ()))))"

definition same_budget :: "budget_row \<Rightarrow> budget_row \<Rightarrow> bool" where
  "same_budget r x \<longleftrightarrow> bg_parent r = bg_parent x \<and> snapshot_of r = snapshot_of x"

definition audit_of ::
  "uuid \<Rightarrow> budget_row \<Rightarrow> budget_action \<Rightarrow> budget_row option \<Rightarrow> budget_row option \<Rightarrow> instant \<Rightarrow> string
     \<Rightarrow> budget_audit" where
  "audit_of fresh r act previous new now changed_by =
     \<lparr>au_id = fresh, au_period = bg_period r, au_level = bg_level r, au_scope_id = bg_id r,
      au_action = act, au_previous = map_option snapshot_of previous,
      au_new = map_option snapshot_of new, au_changed_at = now, au_changed_by = changed_by\<rparr>"

text \<open>
  \<open>upsert_token_budget\<close>; the new row \<open>x\<close> carries the arguments, \<open>now\<close> and \<open>changed_by\<close>.
\<close>

definition upsert_token_budget :: "budget_state \<Rightarrow> uuid \<Rightarrow> budget_row \<Rightarrow> budget_state res" where
  "upsert_token_budget st fresh x =
     (case limit_of (bg_mode x) x of
        None \<Rightarrow> Inl (violation ''Budget limit does not match its mode'')
      | Some amount \<Rightarrow>
          bindR (check_parent (bt_rows st) x amount) (\<lambda>_.
          bindR (check_children (bt_rows st) x amount) (\<lambda>_.
          let previous = row_at (bt_rows st) (row_key x) in
          if (case previous of None \<Rightarrow> False | Some r \<Rightarrow> same_budget r x) then Inr st
          else Inr (st\<lparr>bt_rows := put_row (bt_rows st) x,
                 bt_audit := audit_of fresh x (if previous = None then Assigned else Updated)
                   previous (Some x) (bg_updated_at x) (bg_updated_by x) # bt_audit st\<rparr>))))"

section \<open>Removing a budget\<close>

definition delete_token_budget ::
  "budget_state \<Rightarrow> uuid \<Rightarrow> instant \<Rightarrow> date \<Rightarrow> level \<Rightarrow> string \<Rightarrow> string \<Rightarrow> budget_state \<times> bool" where
  "delete_token_budget st fresh now period l sid changed_by =
     (case row_at (bt_rows st) (period, l, sid) of
        None \<Rightarrow> (st, False)
      | Some r \<Rightarrow>
          (st\<lparr>bt_rows := filter (\<lambda>x. row_key x \<noteq> (period, l, sid)) (bt_rows st),
              bt_audit := audit_of fresh r Removed (Some r) None now changed_by # bt_audit st\<rparr>, True))"

section \<open>Inheriting the budgets of an earlier month\<close>

definition date_le :: "date \<Rightarrow> date \<Rightarrow> bool" where
  "date_le a b \<longleftrightarrow> d_year a < d_year b
     \<or> d_year a = d_year b \<and> (d_month a < d_month b \<or> d_month a = d_month b \<and> d_day a \<le> d_day b)"

definition date_before :: "date \<Rightarrow> date \<Rightarrow> bool" where "date_before a b \<longleftrightarrow> date_le a b \<and> a \<noteq> b"

fun latest :: "date list \<Rightarrow> date option" where
  "latest [] = None"
| "latest (d # ds) =
     (case latest ds of None \<Rightarrow> Some d | Some e \<Rightarrow> Some (if date_le e d then d else e))"

definition source_period :: "budget_row list \<Rightarrow> date \<Rightarrow> date option" where
  "source_period rs period =
     (if list_ex (\<lambda>r. bg_period r = period) rs then None
      else latest (filter (\<lambda>d. date_before d period) (map bg_period rs)))"

definition inherited :: "date \<Rightarrow> instant \<Rightarrow> string \<Rightarrow> budget_row \<Rightarrow> budget_row" where
  "inherited period now by r = r\<lparr>bg_period := period, bg_updated_at := now, bg_updated_by := by\<rparr>"

text \<open>
  The rows of the source month are copied in order; \<open>fresh n\<close> is the identifier of the \<open>n\<close>-th audit
  entry. Written even when nothing was copied: a month inherits once.
\<close>

fun copy_rows ::
  "date \<Rightarrow> instant \<Rightarrow> string \<Rightarrow> (nat \<Rightarrow> uuid) \<Rightarrow> nat \<Rightarrow> budget_row list \<Rightarrow> budget_state \<Rightarrow> budget_state" where
  "copy_rows period now by fresh n [] st = st"
| "copy_rows period now by fresh n (r # rs) st =
     (let x = inherited period now by r in
      copy_rows period now by fresh (n + 1) rs
        (st\<lparr>bt_rows := put_row (bt_rows st) x,
            bt_audit := audit_of (fresh n) x Assigned None (Some x) now by # bt_audit st\<rparr>))"

definition roll_forward_budgets ::
  "budget_state \<Rightarrow> (nat \<Rightarrow> uuid) \<Rightarrow> instant \<Rightarrow> date \<Rightarrow> string \<Rightarrow> budget_state \<times> roll_mark option" where
  "roll_forward_budgets st fresh now period by =
     (case bt_rolled st period of
        Some _ \<Rightarrow> (st, None)
      | None \<Rightarrow>
          let src = source_period (bt_rows st) period;
              rows = (case src of None \<Rightarrow> [] | Some s \<Rightarrow> list_token_budgets st s);
              mark = \<lparr>rm_source = src, rm_count = length rows\<rparr>;
              st' = copy_rows period now by fresh 0 rows st in
          (st'\<lparr>bt_rolled := (bt_rolled st)(period \<mapsto> mark)\<rparr>, Some mark))"

section \<open>Allocating the users of a department\<close>

text \<open>The loop over the entries: what was assigned before an error stays assigned.\<close>

fun upsert_users ::
  "budget_state \<Rightarrow> (nat \<Rightarrow> uuid) \<Rightarrow> nat \<Rightarrow> budget_row list \<Rightarrow> budget_state \<times> unit res" where
  "upsert_users st fresh n [] = (st, Inr ())"
| "upsert_users st fresh n (x # xs) =
     (case upsert_token_budget st (fresh n) x of
        Inl e \<Rightarrow> (st, Inl e)
      | Inr st' \<Rightarrow> upsert_users st' fresh (n + 1) xs)"

definition user_row ::
  "date \<Rightarrow> string \<Rightarrow> budget_mode \<Rightarrow> int \<Rightarrow> instant \<Rightarrow> string \<Rightarrow> string \<times> int \<Rightarrow> budget_row" where
  "user_row period dep m warning now by = (\<lambda>(sid, n).
     \<lparr>bg_period = period, bg_level = User, bg_id = sid, bg_parent = Some dep, bg_mode = m,
      bg_token_limit = (if m = Tokens then Some n else None),
      bg_usd_limit = (if m = Usd then Some n else None), bg_warning = warning,
      bg_updated_at = now, bg_updated_by = by\<rparr>)"

definition unselected ::
  "budget_row list \<Rightarrow> date \<Rightarrow> string \<Rightarrow> (string \<times> int) list \<Rightarrow> budget_row list" where
  "unselected rs period dep entries =
     filter (\<lambda>r. bg_period r = period \<and> bg_level r = User \<and> bg_parent r = Some dep
                 \<and> bg_id r \<notin> fst ` set entries) rs"

text \<open>A missing limit in the sum or the comparison is a \<open>TypeError\<close>.\<close>

definition check_department ::
  "budget_row list \<Rightarrow> date \<Rightarrow> string \<Rightarrow> budget_mode \<Rightarrow> (string \<times> int) list \<Rightarrow> unit res" where
  "check_department rs period dep m entries =
     (case row_at rs (period, Department, dep) of
        None \<Rightarrow> Inl (ValueError ''Assign the department budget before allocating user budgets'')
      | Some p \<Rightarrow>
          (let others = unselected rs period dep entries;
               limits = map (limit_of m) others in
           guardR (bg_mode p \<noteq> m) (violation ''Parent and child budgets must use the same mode'')
          (guardR (list_ex (\<lambda>r. bg_mode r \<noteq> m) others)
             (violation ''Parent and child budgets must use the same mode'')
          (guardR (None \<in> set limits) (TypeError ''unsupported operand type(s) for +'')
          (case limit_of m p of
             None \<Rightarrow> Inl (TypeError ''not supported between instances'')
           | Some l \<Rightarrow>
               guardR (l < plus_limit m (total m (map (\<lambda>v. opt_or v 0) limits)) (total m (map snd entries)))
                 (violation ''User allocations would exceed the department budget'') (Inr ()))))))"

definition bulk_upsert_user_budgets ::
  "budget_state \<Rightarrow> (nat \<Rightarrow> uuid) \<Rightarrow> instant \<Rightarrow> date \<Rightarrow> string \<Rightarrow> (string \<times> int) list \<Rightarrow> int \<Rightarrow> string
     \<Rightarrow> budget_mode \<Rightarrow> budget_state \<times> unit res" where
  "bulk_upsert_user_budgets st fresh now period dep entries warning by m =
     (if entries = [] then (st, Inr ())
      else case check_department (bt_rows st) period dep m entries of
        Inl e \<Rightarrow> (st, Inl e)
      | Inr _ \<Rightarrow> upsert_users st fresh 0 (map (user_row period dep m warning now by) entries))"

section \<open>The hierarchy of limits\<close>

definition row_limit :: "budget_row \<Rightarrow> int" where
  "row_limit r = opt_or (limit_of (bg_mode r) r) 0"

definition kids :: "budget_row list \<Rightarrow> budget_row \<Rightarrow> budget_row list" where
  "kids rs r = children_of rs (bg_period r) (bg_level r) (bg_id r)"

text \<open>
  Every row has a nonnegative limit in its unit, the children of a row have its unit, and their
  limits fit in its own.
\<close>

definition tree_ok :: "budget_row list \<Rightarrow> bool" where
  "tree_ok rs \<longleftrightarrow> distinct (map row_key rs)
     \<and> (\<forall>r \<in> set rs. limit_of (bg_mode r) r \<noteq> None \<and> 0 \<le> row_limit r
          \<and> (\<forall>k \<in> set (kids rs r). bg_mode k = bg_mode r)
          \<and> sum_by row_limit (kids rs r) \<le> row_limit r)"

lemma foldl_exact:
  "0 \<le> a \<Longrightarrow> (\<And>v. v \<in> set xs \<Longrightarrow> 0 \<le> v) \<Longrightarrow> (m = Usd \<Longrightarrow> a + sum_list xs < 10 ^ 28) \<Longrightarrow>
     foldl (plus_limit m) a xs = a + sum_list xs"
proof (induction xs arbitrary: a)
  case (Cons v xs)
  have s: "0 \<le> sum_list xs" using Cons.prems(2) by (intro sum_list_nonneg) simp
  have v: "0 \<le> v" using Cons.prems(2) by simp
  have "plus_limit m a v = a + v"
  proof (cases m)
    case Usd
    then have "\<bar>a + v\<bar> < 10 ^ 28" using Cons.prems(1,3) s v by simp
    then show ?thesis using usd28_exact Usd by (simp add: plus_limit_def)
  qed (simp add: plus_limit_def)
  then show ?case using Cons.IH [of "a + v"] Cons.prems v by (simp add: add.assoc)
qed simp

lemma total_exact:
  assumes "\<And>v. v \<in> set xs \<Longrightarrow> 0 \<le> v" "m = Usd \<Longrightarrow> sum_list xs < 10 ^ 28"
  shows "total m xs = sum_list xs"
  using foldl_exact [of 0 xs m] assms by (simp add: total_def)

lemma row_at_unique:
  assumes "distinct (map row_key rs)" "r \<in> set rs" shows "row_at rs (row_key r) = Some r"
proof -
  obtain y where y: "row_at rs (row_key r) = Some y"
    using assms(2) by (cases "row_at rs (row_key r)") (auto simp: row_at_def find_None_iff)
  then have "y \<in> set rs" "row_key y = row_key r" using find_Some_iff_mem unfolding row_at_def by fastforce+
  then have "y = r" using assms by (metis distinct_map inj_onD)
  then show ?thesis using y by simp
qed

lemma key_other: "distinct (map row_key (r # rs)) \<Longrightarrow> y \<in> set rs \<Longrightarrow> row_key y \<noteq> row_key r"
proof
  assume "distinct (map row_key (r # rs))" "y \<in> set rs" "row_key y = row_key r"
  moreover from this(2) have "row_key y \<in> set (map row_key rs)" by simp
  ultimately show False by simp
qed

lemma put_row_keys: "set (map row_key (put_row rs x)) = insert (row_key x) (set (map row_key rs))"
  by (induction rs) auto

lemma put_row_distinct: "distinct (map row_key rs) \<Longrightarrow> distinct (map row_key (put_row rs x))"
proof (induction rs)
  case (Cons r rs)
  then show ?case using put_row_keys [of rs x] by (cases "row_key r = row_key x") auto
qed simp

lemma put_row_set:
  "distinct (map row_key rs) \<Longrightarrow> set (put_row rs x) = insert x {r \<in> set rs. row_key r \<noteq> row_key x}"
proof (induction rs)
  case (Cons r rs)
  have "row_key y \<noteq> row_key r" if "y \<in> set rs" for y by (rule key_other [OF Cons.prems that])
  then show ?case using Cons by auto
qed simp

lemma put_row_sum:
  "distinct (map row_key rs) \<Longrightarrow> sum_by f (filter P (put_row rs x))
     = sum_by f (filter (\<lambda>r. P r \<and> row_key r \<noteq> row_key x) rs) + (if P x then f x else 0)"
proof (induction rs)
  case (Cons r rs)
  show ?case
  proof (cases "row_key r = row_key x")
    case True
    have "row_key y \<noteq> row_key x" if "y \<in> set rs" for y using key_other [OF Cons.prems that] True by simp
    then have "filter (\<lambda>r. P r \<and> row_key r \<noteq> row_key x) rs = filter P rs" by (intro filter_cong) auto
    then show ?thesis using True by simp
  next
    case False
    then show ?thesis using Cons by simp
  qed
qed simp

lemma sum_by_filter_le:
  assumes "\<And>r. r \<in> set rs \<Longrightarrow> 0 \<le> f r" "\<And>r. P r \<Longrightarrow> Q r"
  shows "sum_by f (filter P rs) \<le> sum_by f (filter Q rs)"
  using assms by (induction rs) force+

lemma sum_by_filter_all:
  assumes "\<And>r. r \<in> set rs \<Longrightarrow> 0 \<le> f r"
  shows "sum_by f (filter P rs) \<le> sum_by f rs"
  using assms by (induction rs) force+

lemma tree_okD:
  assumes "tree_ok rs"
  shows "distinct (map row_key rs)" "r \<in> set rs \<Longrightarrow> limit_of (bg_mode r) r \<noteq> None"
    "r \<in> set rs \<Longrightarrow> 0 \<le> row_limit r"
    "r \<in> set rs \<Longrightarrow> k \<in> set (kids rs r) \<Longrightarrow> bg_mode k = bg_mode r"
    "r \<in> set rs \<Longrightarrow> sum_by row_limit (kids rs r) \<le> row_limit r"
  using assms by (auto simp: tree_ok_def)

text \<open>Limits read in one unit, when all rows have it, are the limits of the rows.\<close>

lemma limits_in_unit:
  assumes "\<And>r. r \<in> set rs \<Longrightarrow> bg_mode r = m"
  shows "map (\<lambda>v. opt_or v 0) (map (limit_of m) rs) = map row_limit rs"
  using assms by (simp add: row_limit_def)

lemma sub_total:
  assumes pos: "\<And>r. r \<in> set rs \<Longrightarrow> 0 \<le> row_limit r" and unit: "\<And>r. r \<in> set (filter P rs) \<Longrightarrow> bg_mode r = m"
    and small: "m = Usd \<Longrightarrow> sum_by row_limit rs < 10 ^ 28"
  shows "total m (map (\<lambda>v. opt_or v 0) (map (limit_of m) (filter P rs))) = sum_by row_limit (filter P rs)"
proof -
  have "total m (map row_limit (filter P rs)) = sum_list (map row_limit (filter P rs))"
  proof (rule total_exact)
    assume "m = Usd"
    then show "sum_list (map row_limit (filter P rs)) < 10 ^ 28"
      using small sum_by_filter_all [of rs row_limit P] pos by (force simp: sum_by_def)
  qed (use pos in auto)
  moreover have "map (\<lambda>v. opt_or v 0) (map (limit_of m) (filter P rs)) = map row_limit (filter P rs)"
    by (rule limits_in_unit) (rule unit)
  ultimately show ?thesis by (simp only: sum_by_def)
qed

definition small_sums :: "budget_row list \<Rightarrow> budget_row \<Rightarrow> bool" where
  "small_sums rs x \<longleftrightarrow> 0 \<le> row_limit x
     \<and> (bg_mode x = Usd \<longrightarrow> sum_by row_limit rs + row_limit x < 10 ^ 28)"

lemma check_parent_fits:
  assumes ok: "tree_ok rs" and small: "small_sums rs x" and c: "check_parent rs x (row_limit x) = Inr ()"
    and r: "r \<in> set rs" and child: "bg_period r = bg_period x" "child_level (bg_level r) = Some (bg_level x)"
      "bg_parent x = Some (bg_id r)"
  shows "bg_mode x = bg_mode r \<and> (\<forall>k \<in> set (siblings_of rs x). bg_mode k = bg_mode r)
    \<and> sum_by row_limit (siblings_of rs x) + row_limit x \<le> row_limit r"
proof -
  have pl: "parent_level (bg_level x) = Some (bg_level r)"
    using child(2) by (cases "bg_level r") auto
  have "row_key r = (bg_period x, bg_level r, bg_id r)" using child(1) by (simp add: row_key_def)
  then have par: "row_at rs (bg_period x, bg_level r, bg_id r) = Some r"
    using row_at_unique [OF tree_okD(1) [OF ok] r] by simp
  obtain l where l: "limit_of (bg_mode r) r = Some l" using tree_okD(2) [OF ok r] by auto
  have modes: "bg_mode r = bg_mode x" "\<forall>k \<in> set (siblings_of rs x). bg_mode k = bg_mode x"
    using c unfolding check_parent_def pl child(3)
    by (auto simp: Let_def guardR_eq_Inr list_ex_iff par)
  have le: "plus_limit (bg_mode x) (total (bg_mode x) (map (\<lambda>v. opt_or v 0) (map (limit_of (bg_mode x)) (siblings_of rs x))))
      (row_limit x) \<le> l"
    using c l modes(1) unfolding check_parent_def pl child(3)
    by (auto simp: Let_def guardR_eq_Inr par)
  have t: "total (bg_mode x) (map (\<lambda>v. opt_or v 0) (map (limit_of (bg_mode x)) (siblings_of rs x)))
      = sum_by row_limit (siblings_of rs x)"
    unfolding siblings_of_def
    by (rule sub_total)
      (use tree_okD(3) [OF ok] modes(2) small in \<open>auto simp: siblings_of_def small_sums_def\<close>)
  have "plus_limit (bg_mode x) (sum_by row_limit (siblings_of rs x)) (row_limit x)
      = sum_by row_limit (siblings_of rs x) + row_limit x"
  proof (cases "bg_mode x")
    case Usd
    have "0 \<le> sum_by row_limit (siblings_of rs x)"
      using tree_okD(3) [OF ok] by (intro sum_by_nonneg) (simp add: siblings_of_def)
    moreover have "sum_by row_limit (siblings_of rs x) \<le> sum_by row_limit rs"
      unfolding siblings_of_def by (intro sum_by_filter_all tree_okD(3) [OF ok])
    ultimately have "\<bar>sum_by row_limit (siblings_of rs x) + row_limit x\<bar> < 10 ^ 28"
      using small Usd by (simp add: small_sums_def)
    then show ?thesis using usd28_exact Usd by (simp add: plus_limit_def)
  qed (simp add: plus_limit_def)
  then show ?thesis using le t l modes by (simp add: row_limit_def)
qed

lemma check_children_fits:
  assumes ok: "tree_ok rs" and small: "small_sums rs x" and c: "check_children rs x (row_limit x) = Inr ()"
  shows "(\<forall>k \<in> set (kids rs x). bg_mode k = bg_mode x) \<and> sum_by row_limit (kids rs x) \<le> row_limit x"
proof (cases "child_level (bg_level x)")
  case None
  then have "kids rs x = []" by (simp add: kids_def children_of_def)
  then show ?thesis using small by (simp add: small_sums_def)
next
  case (Some l)
  have modes: "\<forall>k \<in> set (kids rs x). bg_mode k = bg_mode x"
    and le: "total (bg_mode x) (map (\<lambda>v. opt_or v 0) (map (limit_of (bg_mode x)) (kids rs x))) \<le> row_limit x"
    using c Some unfolding check_children_def kids_def by (auto simp: Let_def guardR_eq_Inr list_ex_iff)
  have "total (bg_mode x) (map (\<lambda>v. opt_or v 0) (map (limit_of (bg_mode x)) (kids rs x)))
      = sum_by row_limit (kids rs x)"
    unfolding kids_def children_of_def
    by (rule sub_total)
      (use tree_okD(3) [OF ok] modes small in \<open>auto simp: kids_def children_of_def small_sums_def\<close>)
  then show ?thesis using modes le by simp
qed

lemma put_row_tree:
  assumes ok: "tree_ok rs" and small: "small_sums rs x" and lim: "limit_of (bg_mode x) x \<noteq> None"
    and cp: "check_parent rs x (row_limit x) = Inr ()" and cc: "check_children rs x (row_limit x) = Inr ()"
  shows "tree_ok (put_row rs x)"
  unfolding tree_ok_def
proof (intro conjI ballI)
  let ?rs = "put_row rs x"
  note dis = tree_okD(1) [OF ok]
  show "distinct (map row_key ?rs)" by (rule put_row_distinct [OF dis])
  have mem: "r = x \<or> (r \<in> set rs \<and> row_key r \<noteq> row_key x)" if "r \<in> set ?rs" for r
    using that put_row_set [OF dis] by auto
  have pos: "0 \<le> row_limit r" if "r \<in> set rs" for r using tree_okD(3) [OF ok that] .
  have kidset: "k \<in> set (kids ?rs r) \<Longrightarrow> k = x \<or> (k \<in> set (kids rs r) \<and> row_key k \<noteq> row_key x)" for k r
    using mem by (auto simp: kids_def children_of_def)
  fix r assume "r \<in> set ?rs"
  note r = mem [OF this]
  show "limit_of (bg_mode r) r \<noteq> None" using r lim tree_okD(2) [OF ok] by blast
  show "0 \<le> row_limit r" using r small pos by (auto simp: small_sums_def)
  define child :: "budget_row \<Rightarrow> bool" where "child k \<longleftrightarrow> bg_period k = bg_period r \<and> Some (bg_level k) = child_level (bg_level r)
      \<and> bg_parent k = Some (bg_id r)" for k
  have kids: "kids ?rs r = filter child ?rs" "kids rs r = filter child rs"
    by (simp_all add: kids_def children_of_def child_def [abs_def])
  have sum: "sum_by row_limit (kids ?rs r)
      = sum_by row_limit (filter (\<lambda>k. child k \<and> row_key k \<noteq> row_key x) rs) + (if child x then row_limit x else 0)"
    unfolding kids by (rule put_row_sum [OF dis])
  have less: "sum_by row_limit (filter (\<lambda>k. child k \<and> row_key k \<noteq> row_key x) rs) \<le> sum_by row_limit (kids rs r)"
    unfolding kids by (rule sum_by_filter_le) (use pos in auto)
  have main: "(\<forall>k \<in> set (kids ?rs r). bg_mode k = bg_mode r) \<and> sum_by row_limit (kids ?rs r) \<le> row_limit r"
  proof (cases "r = x")
    case True
    have self: "\<not> child x" using True by (cases "bg_level x") (simp_all add: child_def)
    have "k \<noteq> x" if "k \<in> set (kids ?rs r)" for k using that self unfolding kids by auto
    then show ?thesis using check_children_fits [OF ok small cc] kidset sum less self True by fastforce
  next
    case False
    then have old: "r \<in> set rs" "row_key r \<noteq> row_key x" using r by simp_all
    show ?thesis
    proof (cases "child x")
      case True
      have c: "bg_period r = bg_period x" "child_level (bg_level r) = Some (bg_level x)" "bg_parent x = Some (bg_id r)"
        using True by (simp_all add: child_def)
      note fit = check_parent_fits [OF ok small cp old(1) c]
      have sib: "filter (\<lambda>k. child k \<and> row_key k \<noteq> row_key x) rs = siblings_of rs x"
        unfolding siblings_of_def using c by (intro filter_cong) (auto simp: child_def row_key_def)
      have "bg_mode k = bg_mode r" if "k \<in> set (kids ?rs r)" for k
        using kidset [OF that] fit tree_okD(4) [OF ok old(1)] by blast
      then show ?thesis using sum sib fit True by simp
    next
      case False
      have "bg_mode k = bg_mode r" if "k \<in> set (kids ?rs r)" for k
      proof -
        have "k \<noteq> x" using that False unfolding kids by auto
        then show ?thesis using kidset [OF that] tree_okD(4) [OF ok old(1)] by blast
      qed
      then show ?thesis using sum less tree_okD(5) [OF ok old(1)] False by simp
    qed
  qed
  show "sum_by row_limit (kids ?rs r) \<le> row_limit r" using main by simp
  fix k assume "k \<in> set (kids ?rs r)"
  then show "bg_mode k = bg_mode r" using main by blast
qed

lemma upsert_keeps_tree:
  assumes "upsert_token_budget st fresh x = Inr st'" "tree_ok (bt_rows st)" "small_sums (bt_rows st) x"
  shows "tree_ok (bt_rows st') \<and> row_at (bt_rows st') (row_key x) \<noteq> None"
proof -
  obtain amount where amount: "limit_of (bg_mode x) x = Some amount"
    using assms(1) by (auto simp: upsert_token_budget_def split: option.splits)
  then have lim: "row_limit x = amount" "limit_of (bg_mode x) x \<noteq> None" by (simp_all add: row_limit_def)
  have c: "check_parent (bt_rows st) x (row_limit x) = Inr ()" "check_children (bt_rows st) x (row_limit x) = Inr ()"
    using assms(1) amount lim(1) by (auto simp: upsert_token_budget_def res_simps)
  have st': "bt_rows st' = put_row (bt_rows st) x
      \<or> (st' = st \<and> row_at (bt_rows st) (row_key x) \<noteq> None)"
    using assms(1) amount
    by (auto simp: upsert_token_budget_def res_simps Let_def split: if_splits option.splits)
  have tree: "tree_ok (put_row (bt_rows st) x)"
    by (rule put_row_tree [OF assms(2,3) lim(2) c])
  have "x \<in> set (put_row (bt_rows st) x)"
    using put_row_set [OF tree_okD(1) [OF assms(2)]] by simp
  then have "row_at (put_row (bt_rows st) x) (row_key x) \<noteq> None"
    using row_at_unique [OF tree_okD(1) [OF tree]] by simp
  then show ?thesis using st' tree assms(2) by auto
qed

text \<open>
  C21. Assigning a budget keeps the hierarchy: one row per month and scope, children counted in
  the unit of their parent, and the limits of the children of every row within its own.
\<close>

theorem upsert_keeps_hierarchy:
  assumes "upsert_token_budget st fresh x = Inr st'" "tree_ok (bt_rows st)" "small_sums (bt_rows st) x"
  shows "tree_ok (bt_rows st') \<and> row_at (bt_rows st') (row_key x) \<noteq> None"
  by (rule upsert_keeps_tree [OF assms])

lemma tree_ok_filter:
  assumes ok: "tree_ok rs" shows "tree_ok (filter P rs)"
  unfolding tree_ok_def
proof (intro conjI ballI)
  show "distinct (map row_key (filter P rs))" using tree_okD(1) [OF ok] by (rule distinct_map_filter)
  fix r assume r: "r \<in> set (filter P rs)"
  then have old: "r \<in> set rs" by simp
  show "limit_of (bg_mode r) r \<noteq> None" "0 \<le> row_limit r" using tree_okD(2,3) [OF ok old] by simp_all
  have "kids (filter P rs) r = filter P (kids rs r)"
    by (simp add: kids_def children_of_def conj_commute)
  then show "sum_by row_limit (kids (filter P rs) r) \<le> row_limit r"
    using sum_by_filter_all [of "kids rs r" row_limit P] tree_okD(3,5) [OF ok] old
    by (fastforce simp: kids_def children_of_def)
  fix k assume "k \<in> set (kids (filter P rs) r)"
  then show "bg_mode k = bg_mode r"
    using tree_okD(4) [OF ok old, of k] by (simp add: kids_def children_of_def)
qed

theorem delete_keeps_hierarchy:
  assumes "tree_ok (bt_rows st)" "delete_token_budget st fresh now period l sid by = (st', found)"
  shows "tree_ok (bt_rows st') \<and> row_at (bt_rows st') (period, l, sid) = None"
proof (cases "row_at (bt_rows st) (period, l, sid)")
  case None
  then show ?thesis using assms by (simp add: delete_token_budget_def)
next
  case (Some r)
  then have "bt_rows st' = filter (\<lambda>x. row_key x \<noteq> (period, l, sid)) (bt_rows st)"
    using assms(2) by (auto simp: delete_token_budget_def)
  then show ?thesis using tree_ok_filter [OF assms(1)] by (simp add: row_at_def find_None_iff)
qed

text \<open>Copying a month into one that has no rows.\<close>

lemma put_row_new: "row_key x \<notin> set (map row_key rs) \<Longrightarrow> put_row rs x = rs @ [x]"
  by (induction rs) auto

lemma copy_rows_rows:
  assumes "distinct (map row_key rs)" "\<And>r. r \<in> set rs \<Longrightarrow> bg_period r = s"
    "\<And>r. r \<in> set rs \<Longrightarrow> row_key (inherited period now by r) \<notin> set (map row_key (bt_rows st))"
  shows "bt_rows (copy_rows period now by fresh n rs st) = bt_rows st @ map (inherited period now by) rs"
  using assms
proof (induction rs arbitrary: n st)
  case (Cons r rs)
  let ?x = "inherited period now by r"
  have put: "put_row (bt_rows st) ?x = bt_rows st @ [?x]" using Cons.prems(3) by (intro put_row_new) simp
  have "row_key (inherited period now by y) \<noteq> row_key ?x" if "y \<in> set rs" for y
  proof
    assume "row_key (inherited period now by y) = row_key ?x"
    then have "row_key y = row_key r"
      using Cons.prems(2) [of y] Cons.prems(2) [of r] that by (simp add: row_key_def inherited_def)
    then show False using key_other [OF Cons.prems(1) that] by simp
  qed
  then have "row_key (inherited period now by y) \<notin> set (map row_key (bt_rows st @ [?x]))" if "y \<in> set rs" for y
    using Cons.prems(3) [of y] that by simp
  then show ?case using Cons.IH Cons.prems(1,2) put by (simp add: Let_def)
qed simp

lemma latest_mem: "latest ds = Some d \<Longrightarrow> d \<in> set ds"
  by (induction ds arbitrary: d) (auto split: option.splits if_splits)

lemma inherited_simps [simp]:
  "bg_period (inherited p now by r) = p" "bg_level (inherited p now by r) = bg_level r"
  "bg_id (inherited p now by r) = bg_id r" "bg_parent (inherited p now by r) = bg_parent r"
  "bg_mode (inherited p now by r) = bg_mode r" "row_limit (inherited p now by r) = row_limit r"
  "limit_of m (inherited p now by r) = limit_of m r"
  by (simp_all add: inherited_def row_limit_def limit_of_def split: budget_mode.split)

lemma sum_by_map: "sum_by f (map g xs) = sum_by (f \<circ> g) xs"
  by (simp add: sum_by_def)

lemma inherit_tree:
  assumes ok: "tree_ok rs" and new: "\<And>r. r \<in> set rs \<Longrightarrow> bg_period r \<noteq> period" and s: "s \<noteq> period"
  defines "src \<equiv> filter (\<lambda>r. bg_period r = s) rs"
  shows "tree_ok (rs @ map (inherited period now by) src)"
  unfolding tree_ok_def
proof (intro conjI ballI)
  let ?f = "inherited period now by"
  have dsrc: "distinct (map row_key src)" unfolding src_def by (rule distinct_map_filter [OF tree_okD(1) [OF ok]])
  have "inj_on (row_key \<circ> ?f) (set src)"
  proof (rule inj_onI)
    fix a b assume a: "a \<in> set src" "b \<in> set src" "(row_key \<circ> ?f) a = (row_key \<circ> ?f) b"
    then have "row_key a = row_key b" by (simp add: row_key_def src_def)
    then show "a = b" using dsrc a(1,2) by (metis distinct_map inj_onD)
  qed
  moreover have "distinct src" using dsrc by (simp add: distinct_map)
  ultimately have "distinct (map row_key (map ?f src))" by (simp add: distinct_map comp_def)
  moreover have "set (map row_key rs) \<inter> set (map row_key (map ?f src)) = {}"
    using new by (auto simp: row_key_def)
  ultimately show "distinct (map row_key (rs @ map ?f src))" using tree_okD(1) [OF ok] by simp
  have old: "kids (rs @ map ?f src) r = kids rs r" if "r \<in> set rs" for r
    using new [OF that] by (simp add: kids_def children_of_def filter_map comp_def)
  have copied: "kids (rs @ map ?f src) (?f r) = map ?f (kids rs r)" if "r \<in> set src" for r
  proof -
    have r: "bg_period r = s" using that by (simp add: src_def)
    have "filter (\<lambda>y. bg_period y = period \<and> Some (bg_level y) = child_level (bg_level r)
        \<and> bg_parent y = Some (bg_id r)) rs = []"
      using new by (simp add: filter_empty_conv)
    then show ?thesis using r
      by (simp add: kids_def children_of_def filter_map comp_def src_def conj_ac)
  qed
  fix r assume "r \<in> set (rs @ map ?f src)"
  then consider (kept) "r \<in> set rs" | (copy) q where "q \<in> set src" "r = ?f q" by auto
  then have "limit_of (bg_mode r) r \<noteq> None \<and> 0 \<le> row_limit r
      \<and> (\<forall>k \<in> set (kids (rs @ map ?f src) r). bg_mode k = bg_mode r)
      \<and> sum_by row_limit (kids (rs @ map ?f src) r) \<le> row_limit r"
  proof cases
    case kept
    then show ?thesis using old [OF kept] tree_okD(2-5) [OF ok kept] by simp
  next
    case copy
    then have q: "q \<in> set rs" by (simp add: src_def)
    show ?thesis unfolding copy(2) copied [OF copy(1)] sum_by_map
      using tree_okD(2-5) [OF ok q] by (simp add: comp_def)
  qed
  then show "limit_of (bg_mode r) r \<noteq> None" "0 \<le> row_limit r"
    "sum_by row_limit (kids (rs @ map ?f src) r) \<le> row_limit r" by simp_all
  fix k assume "k \<in> set (kids (rs @ map ?f src) r)"
  then show "bg_mode k = bg_mode r"
    using \<open>limit_of (bg_mode r) r \<noteq> None \<and> 0 \<le> row_limit r
      \<and> (\<forall>k \<in> set (kids (rs @ map ?f src) r). bg_mode k = bg_mode r)
      \<and> sum_by row_limit (kids (rs @ map ?f src) r) \<le> row_limit r\<close> by blast
qed

text \<open>
  C22. Inheriting the budgets of an earlier month keeps the hierarchy and happens once for a
  month.
\<close>

theorem roll_forward_keeps_hierarchy:
  assumes "tree_ok (bt_rows st)" "roll_forward_budgets st fresh now period by = (st', mark)"
  shows "tree_ok (bt_rows st')
    \<and> (\<forall>m. mark = Some m \<longrightarrow> bt_rolled st' period = Some m \<and> roll_forward_budgets st' fresh' now' period by' = (st', None))"
proof (cases "bt_rolled st period")
  case (Some m)
  then show ?thesis using assms by (simp add: roll_forward_budgets_def)
next
  case None
  define src where "src = source_period (bt_rows st) period"
  define rows where "rows = (case src of None \<Rightarrow> [] | Some s \<Rightarrow> list_token_budgets st s)"
  have st': "bt_rows st' = bt_rows (copy_rows period now by fresh 0 rows st)"
    "bt_rolled st' = (bt_rolled st)(period \<mapsto> \<lparr>rm_source = src, rm_count = length rows\<rparr>)"
    "mark = Some \<lparr>rm_source = src, rm_count = length rows\<rparr>"
    using assms(2) None by (auto simp: roll_forward_budgets_def Let_def src_def rows_def)
  have "tree_ok (bt_rows st')"
  proof (cases src)
    case None
    then show ?thesis using st'(1) assms(1) by (simp add: rows_def)
  next
    case (Some s)
    have new: "bg_period r \<noteq> period" if "r \<in> set (bt_rows st)" for r
      using Some that by (auto simp: src_def source_period_def list_ex_iff split: if_splits)
    have "s \<in> set (map bg_period (bt_rows st))"
      using Some latest_mem by (fastforce simp: src_def source_period_def split: if_splits)
    then have s: "s \<noteq> period" using new by auto
    have rows: "rows = filter (\<lambda>r. bg_period r = s) (bt_rows st)" using Some by (simp add: rows_def list_token_budgets_def)
    have "bt_rows st' = bt_rows st @ map (inherited period now by) rows"
      unfolding st'(1)
    proof (rule copy_rows_rows)
      show "distinct (map row_key rows)" unfolding rows by (rule distinct_map_filter [OF tree_okD(1) [OF assms(1)]])
      show "bg_period r = s" if "r \<in> set rows" for r using that by (simp add: rows)
      show "row_key (inherited period now by r) \<notin> set (map row_key (bt_rows st))" for r
        using new by (auto simp: row_key_def)
    qed
    then show ?thesis using inherit_tree [OF assms(1) new s] by (simp add: rows)
  qed
  then show ?thesis using st' by (simp add: roll_forward_budgets_def)
qed

text \<open>
  Allocating the users of a department keeps the hierarchy, also when it stops at an error.
\<close>

lemma upsert_users_tree:
  "upsert_users st fresh n xs = (st', r) \<Longrightarrow> tree_ok (bt_rows st) \<Longrightarrow>
     (\<And>x. x \<in> set xs \<Longrightarrow> bg_mode x = Tokens \<and> 0 \<le> row_limit x) \<Longrightarrow> tree_ok (bt_rows st')"
proof (induction xs arbitrary: st n)
  case (Cons x xs)
  show ?case
  proof (cases "upsert_token_budget st (fresh n) x")
    case (Inr u)
    have "small_sums (bt_rows st) x" using Cons.prems(3) by (simp add: small_sums_def)
    then have "tree_ok (bt_rows u)" using upsert_keeps_tree [OF Inr Cons.prems(2)] by simp
    then show ?thesis using Cons.IH [of u "n + 1"] Cons.prems(1,3) Inr by simp
  qed (use Cons.prems in simp)
qed simp

theorem bulk_keeps_hierarchy:
  assumes "bulk_upsert_user_budgets st fresh now period dep entries warning by Tokens = (st', r)"
    "tree_ok (bt_rows st)" "\<And>sid n. (sid, n) \<in> set entries \<Longrightarrow> 0 \<le> n"
  shows "tree_ok (bt_rows st')"
proof (cases "entries = [] \<or> (\<exists>e. check_department (bt_rows st) period dep Tokens entries = Inl e)")
  case True
  then show ?thesis using assms(1,2) by (auto simp: bulk_upsert_user_budgets_def split: if_splits)
next
  case False
  then obtain u where "entries \<noteq> []" "check_department (bt_rows st) period dep Tokens entries = Inr u"
    by (cases "check_department (bt_rows st) period dep Tokens entries") auto
  then have "upsert_users st fresh 0 (map (user_row period dep Tokens warning now by) entries) = (st', r)"
    using assms(1) by (simp add: bulk_upsert_user_budgets_def)
  then show ?thesis
    by (rule upsert_users_tree [OF _ assms(2)])
      (use assms(3) in \<open>auto simp: user_row_def row_limit_def limit_of_def\<close>)
qed

end
