(* ===== verification/Billable_Requests.thy ===== *)
theory Billable_Requests
  imports Token_Budgets "HOL-Library.Product_Lexorder"
begin

text \<open>
  \<open>turnstile_core/domain/billable_requests.py\<close>,
  \<open>turnstile_core/persistence/in_memory_billable_requests.py\<close> and the confirmed tokens of a scope in
  \<open>in_memory_budgets.py\<close>: the attempts of the requests the control plane pays for itself, their
  admission against the budget of a person or an application, and their acknowledgement.
\<close>

section \<open>Plans\<close>

datatype authority = Postgresql | Apim_execution

fun authority_text :: "authority \<Rightarrow> string" where
  "authority_text Postgresql = ''postgresql''"
| "authority_text Apim_execution = ''apim_execution''"

record plan =
  pl_operation_key :: string
  pl_plan_sha256 :: string
  pl_owner :: owner
  pl_scope_id :: string
  pl_period_start :: date
  pl_model_id :: string
  pl_model_key :: string
  pl_reserved_tokens :: int
  pl_authorization_id :: "uuid option"
  pl_attempt_limit :: int
  pl_reuse_requires :: dict
  pl_authority :: authority

definition valid_plan :: "plan \<Rightarrow> bool" where
  "valid_plan p \<longleftrightarrow>
     text_between 1 512 (pl_operation_key p) \<and> is_sha256_hex (pl_plan_sha256 p)
     \<and> text_between 1 255 (pl_scope_id p) \<and> text_between 1 255 (pl_model_id p)
     \<and> text_between 1 255 (pl_model_key p) \<and> 1 \<le> pl_reserved_tokens p
     \<and> 1 \<le> pl_attempt_limit p \<and> pl_attempt_limit p \<le> 32 \<and> d_day (pl_period_start p) = 1"

definition make_plan :: "plan \<Rightarrow> plan res" where
  "make_plan p = checked (valid_plan p) ''BillableRequestPlan'' p"

text \<open>\<open>measured_state\<close>: exactly the exact attempts have a measured total.\<close>

definition measured_state :: "billable \<Rightarrow> bool" where
  "measured_state a \<longleftrightarrow> (bl_state a = Exact \<longleftrightarrow> bl_actual_tokens a \<noteq> None)"

definition make_billable :: "billable \<Rightarrow> billable res" where
  "make_billable a =
     checked (measured_state a \<and> opt_all (\<lambda>n. 0 \<le> n) (bl_actual_tokens a)) ''BillableRequestAttempt'' a"

definition authority_of :: "billable \<Rightarrow> pv" where
  "authority_of a = (if has_key (bl_evidence a) ''admission_authority''
     then dfield (bl_evidence a) ''admission_authority'' else PStr ''postgresql'')"

text \<open>The evidence has every entry a reuse requires.\<close>

definition reusable :: "dict \<Rightarrow> dict \<Rightarrow> bool" where
  "reusable evidence requires \<longleftrightarrow>
     list_all (\<lambda>(k, v). has_key evidence k \<and> py_eq (dfield evidence k) v) requires"

definition recovered_by :: "plan \<Rightarrow> billable \<Rightarrow> bool" where
  "recovered_by p a \<longleftrightarrow>
     bl_operation_key a = pl_operation_key p \<and> bl_plan_sha256 a = pl_plan_sha256 p
     \<and> bl_owner a = pl_owner p \<and> bl_scope_id a = pl_scope_id p
     \<and> bl_model_id a = pl_model_id p \<and> bl_model_key a = pl_model_key p
     \<and> bl_authorization_id a = pl_authorization_id p
     \<and> bl_state a = Exact \<and> bl_actual_tokens a \<noteq> None
     \<and> authority_of a = PStr (authority_text (pl_authority p))
     \<and> reusable (bl_evidence a) (pl_reuse_requires p)"

definition recover_billable_attempt :: "plan \<Rightarrow> billable list \<Rightarrow> billable res" where
  "recover_billable_attempt p as =
     (let matches = filter (recovered_by p) as in
      guardR (32 < length as \<or> length matches \<noteq> 1)
        (BillableOutcomeUncertain ''Original validated billable evidence is unavailable'')
        (Inr (hd matches)))"

section \<open>Repository\<close>

record app_budget =
  ab_enforce :: bool
  ab_token_limit :: int

record repository =
  rp_evidence :: evidence_state
  rp_budgets :: budget_state
  rp_enforcement :: "string \<rightharpoonup> string"
  rp_app_budgets :: "date \<times> uuid \<rightharpoonup> app_budget"

definition record_total :: "billed_record \<Rightarrow> int" where
  "record_total r = ur_input r + ur_cached r + ur_output r"

fun billable_scope_matches :: "evidence_state \<Rightarrow> billed_record \<Rightarrow> owner \<Rightarrow> string \<Rightarrow> bool" where
  "billable_scope_matches st r (Owner Person) sid = (br_user_id r = sid)"
| "billable_scope_matches st r System sid = (br_request_source r = probe_source)"
| "billable_scope_matches st r (Owner Application) sid = attributed st r sid"

definition canonical_tokens :: "evidence_state \<Rightarrow> instant \<Rightarrow> billable \<Rightarrow> int option res" where
  "canonical_tokens st now a =
     bindR (filterR (\<lambda>r.
              andR (br_request_id r = bl_id a \<and> Some (ur_correlation_id r) = bl_correlation_id a
                    \<and> br_model_id r = bl_model_id a \<and> ur_domain r = ''apim'')
                (bindR (strict st now (Aware (bl_created_at a))) (\<lambda>b.
                 Inr ((if b then record_tokens st r \<noteq> None
                       else \<not> ur_estimated r \<or> 400 \<le> br_status_code r)
                      \<and> billable_scope_matches st r (bl_owner a) (bl_scope_id a))))) (es_records st))
       (\<lambda>rs. Inr (if rs = [] then None else Some (sum_by record_total rs)))"

definition recoveries :: "evidence_state \<Rightarrow> billable \<Rightarrow> finalization list" where
  "recoveries st a =
     filter (\<lambda>f. fin_correlation_id f = bl_id a \<and> Owner (fin_scope_type f) = bl_owner a
                 \<and> fin_scope_id f = bl_scope_id a \<and> fin_period_start f = bl_period_start a
                 \<and> fin_kind f \<noteq> Unverified_upper_bound) (es_finalizations st)"

text \<open>
  \<open>_billable_effective_tokens\<close>. Looking at the strict choices notes the finalizations and conflicts
  it meets, so the state is returned too. The second test of the cut-over at the end of the method
  repeats the first, which was negative.
\<close>

definition effective_tokens ::
  "evidence_state \<Rightarrow> instant \<Rightarrow> billable \<Rightarrow> (int option \<times> evidence_state) res" where
  "effective_tokens st now a =
     bindR (strict st now (Aware (bl_created_at a))) (\<lambda>b.
     if b then
       bindR (strict_budget_choices st now (bl_owner a) (bl_scope_id a)) (\<lambda>(ch, st').
         Inr (map_option of_tokens (map_of ch (bl_id a)), st'))
     else
       bindR (canonical_tokens st now a) (\<lambda>c.
       Inr (case c of
              Some n \<Rightarrow> Some n
            | None \<Rightarrow>
                if bl_state a = Exact then bl_actual_tokens a
                else (case recoveries st a of
                        [] \<Rightarrow> None
                      | f # fs \<Rightarrow> Some (fin_total_tokens
                          (first_max (\<lambda>f. (fin_kind f = Exact_usage, fin_evidence_at f)) f fs))), st)))"

section \<open>Confirmed tokens of a scope\<close>

definition day_of :: "pydt \<Rightarrow> date" where "day_of t = utc_date (aware_time t)"

definition in_period :: "date \<Rightarrow> date \<Rightarrow> date \<Rightarrow> bool" where
  "in_period d start stop \<longleftrightarrow> date_le start d \<and> date_before d stop"

definition budget_record_matches :: "evidence_state \<Rightarrow> billed_record \<Rightarrow> owner \<Rightarrow> string \<Rightarrow> bool" where
  "budget_record_matches st r ow sid =
     (if ow = Owner Person then br_user_id r = sid else attributed st r sid)"

definition stream_error :: string where "stream_error = ''stream_cache_usage_unavailable''"

text \<open>The tokens of the usage records, one per correlation (the last).\<close>

fun canonical_by_correlation ::
  "evidence_state \<Rightarrow> instant \<Rightarrow> owner \<Rightarrow> string \<Rightarrow> date \<Rightarrow> date \<Rightarrow> billed_record list
     \<Rightarrow> (string \<times> int) list \<Rightarrow> (string \<times> int) list res" where
  "canonical_by_correlation st now ow sid start stop [] acc = Inr acc"
| "canonical_by_correlation st now ow sid start stop (r # rs) acc =
     bindR (andR (ur_domain r = ''apim'' \<and> in_period (day_of (ur_ts r)) start stop
                  \<and> budget_record_matches st r ow sid
                  \<and> (\<not> ur_estimated r \<or> ur_ingest_error r = Some stream_error))
              (bindR (strict_record st now r ow sid) (\<lambda>b. Inr (\<not> b)))) (\<lambda>counts.
     canonical_by_correlation st now ow sid start stop rs
       (if counts then AList.update (ur_correlation_id r) (record_total r) acc else acc))"

text \<open>The strongest finalization per correlation that has no such record.\<close>

fun strongest_by_correlation ::
  "evidence_state \<Rightarrow> instant \<Rightarrow> owner \<Rightarrow> string \<Rightarrow> date \<Rightarrow> (string \<times> int) list \<Rightarrow> finalization list
     \<Rightarrow> (string \<times> finalization) list \<Rightarrow> (string \<times> finalization) list res" where
  "strongest_by_correlation st now ow sid start canonical [] acc = Inr acc"
| "strongest_by_correlation st now ow sid start canonical (f # fs) acc =
     bindR (andR (Owner (fin_scope_type f) = ow \<and> fin_scope_id f = sid \<and> fin_period_start f = start
                  \<and> map_of canonical (fin_correlation_id f) = None \<and> fin_kind f \<noteq> Unverified_upper_bound)
              (bindR (evidence_admitted_at st now ow sid (fin_correlation_id f) (Aware (fin_created_at f))) (\<lambda>t.
               bindR (strict st now t) (\<lambda>b. Inr (\<not> b))))) (\<lambda>counts.
     strongest_by_correlation st now ow sid start canonical fs
       (if counts \<and> (case map_of acc (fin_correlation_id f) of
                       None \<Rightarrow> True | Some g \<Rightarrow> strength (fin_kind g) < strength (fin_kind f))
        then AList.update (fin_correlation_id f) f acc else acc))"

definition base_confirmed ::
  "evidence_state \<Rightarrow> instant \<Rightarrow> owner \<Rightarrow> string \<Rightarrow> date \<Rightarrow> date \<Rightarrow> (int \<times> evidence_state) res" where
  "base_confirmed st now ow sid start stop =
     bindR (canonical_by_correlation st now ow sid start stop (es_records st) []) (\<lambda>canonical.
     bindR (strongest_by_correlation st now ow sid start canonical (es_finalizations st) []) (\<lambda>strongest.
     bindR (strict_budget_choices st now ow sid) (\<lambda>(ch, st').
     Inr (sum_by snd canonical + sum_by (fin_total_tokens \<circ> snd) strongest
          + sum_by (of_tokens \<circ> snd) (filter (\<lambda>(i, x). in_period (day_of (of_admitted x)) start stop) ch),
          st'))))"

section \<open>The adjustment for billable requests\<close>

fun add_canonical ::
  "evidence_state \<Rightarrow> owner \<Rightarrow> string \<Rightarrow> date \<Rightarrow> date \<Rightarrow> billable list \<Rightarrow> billed_record list
     \<Rightarrow> (string \<times> int) list \<times> string set \<Rightarrow> (string \<times> int) list \<times> string set" where
  "add_canonical st ow sid start stop attempts [] acc = acc"
| "add_canonical st ow sid start stop attempts (r # rs) (canonical, correlations) =
     add_canonical st ow sid start stop attempts rs
       (if ur_domain r \<noteq> ''apim'' \<or> \<not> in_period (day_of (ur_ts r)) start stop
           \<or> \<not> billable_scope_matches st r ow sid
        then (canonical, correlations)
        else
          (case find (\<lambda>a. bl_id a = br_request_id r) attempts of
             Some a \<Rightarrow>
               if br_model_id r = bl_model_id a \<and> Some (ur_correlation_id r) = bl_correlation_id a
               then AList.update (ur_correlation_id r) (record_total r) canonical else canonical
           | None \<Rightarrow> canonical, insert (ur_correlation_id r) correlations))"

definition add_recovered ::
  "owner \<Rightarrow> string \<Rightarrow> date \<Rightarrow> billable list \<Rightarrow> string set \<Rightarrow> finalization
     \<Rightarrow> (string \<times> finalization) list \<Rightarrow> (string \<times> finalization) list" where
  "add_recovered ow sid start attempts correlations f acc =
     (if Owner (fin_scope_type f) \<noteq> ow \<or> fin_scope_id f \<noteq> sid \<or> fin_period_start f \<noteq> start
         \<or> find (\<lambda>a. bl_id a = fin_correlation_id f) attempts = None
         \<or> fin_correlation_id f \<in> correlations \<or> fin_kind f = Unverified_upper_bound
      then acc
      else if (case map_of acc (fin_correlation_id f) of
                 None \<Rightarrow> True
               | Some g \<Rightarrow> fin_kind f = Exact_usage \<and> fin_kind g \<noteq> Exact_usage)
      then AList.update (fin_correlation_id f) f acc else acc)"

fun sum_effective ::
  "evidence_state \<Rightarrow> instant \<Rightarrow> billable list \<Rightarrow> (int \<times> evidence_state) res" where
  "sum_effective st now [] = Inr (0, st)"
| "sum_effective st now (a # as) =
     bindR (effective_tokens st now a) (\<lambda>(n, st').
     bindR (sum_effective st' now as) (\<lambda>(m, st''). Inr (opt_or n 0 + m, st'')))"

definition billable_budget_adjustment ::
  "evidence_state \<Rightarrow> instant \<Rightarrow> owner \<Rightarrow> string \<Rightarrow> date \<Rightarrow> date \<Rightarrow> (int \<times> evidence_state) res" where
  "billable_budget_adjustment st now ow sid start stop =
     bindR (filterR (\<lambda>a. andR (bl_owner a = ow \<and> bl_scope_id a = sid)
              (bindR (strict st now (Aware (bl_created_at a))) (\<lambda>b. Inr (\<not> b)))) (es_billables st))
       (\<lambda>attempts.
     let (canonical, correlations) = add_canonical st ow sid start stop attempts (es_records st) ([], {});
         recovered = fold (add_recovered ow sid start attempts correlations) (es_finalizations st) [] in
     bindR (sum_effective st now (filter (\<lambda>a. bl_period_start a = start) attempts)) (\<lambda>(exact, st').
       Inr (exact - sum_by snd canonical - sum_by (fin_total_tokens \<circ> snd) recovered, st')))"

definition budget_scope_confirmed_tokens ::
  "evidence_state \<Rightarrow> instant \<Rightarrow> owner \<Rightarrow> string \<Rightarrow> date \<Rightarrow> date \<Rightarrow> (int \<times> evidence_state) res" where
  "budget_scope_confirmed_tokens st now ow sid start stop =
     bindR (base_confirmed st now ow sid start stop) (\<lambda>(n, st').
     bindR (billable_budget_adjustment st' now ow sid start stop) (\<lambda>(m, st''). Inr (n + m, st'')))"

section \<open>Quotas\<close>

record quota =
  qt_token_limit :: "int option"
  qt_mode :: string
  qt_used_tokens :: int

definition with_evidence :: "repository \<Rightarrow> evidence_state \<Rightarrow> repository" where
  "with_evidence rp st = rp\<lparr>rp_evidence := st\<rparr>"

text \<open>\<open>person_budget_state\<close>; the mode of the budget and the department are not used by its callers here.\<close>

definition person_budget_state ::
  "repository \<Rightarrow> instant \<Rightarrow> string \<Rightarrow> date \<Rightarrow> date \<Rightarrow> (quota option \<times> evidence_state) res" where
  "person_budget_state rp now user start stop =
     (case row_at (bt_rows (rp_budgets rp)) (start, User, user) of
        None \<Rightarrow> Inr (None, rp_evidence rp)
      | Some r \<Rightarrow>
          bindR (budget_scope_confirmed_tokens (rp_evidence rp) now (Owner Person) user start stop) (\<lambda>(used, st).
            Inr (Some \<lparr>qt_token_limit = bg_token_limit r,
                 qt_mode = opt_or (rp_enforcement rp (opt_or (bg_parent r) [])) ''audit'',
                 qt_used_tokens = used\<rparr>, st)))"

definition application_budget_state ::
  "repository \<Rightarrow> instant \<Rightarrow> string \<Rightarrow> date \<Rightarrow> date \<Rightarrow> (quota option \<times> evidence_state) res" where
  "application_budget_state rp now sid start stop =
     (case uuid_canon sid of
        None \<Rightarrow> Inl (ValueError ''badly formed hexadecimal UUID string'')
      | Some u \<Rightarrow>
          (case rp_app_budgets rp (start, u) of
             None \<Rightarrow> Inr (None, rp_evidence rp)
           | Some b \<Rightarrow>
               bindR (budget_scope_confirmed_tokens (rp_evidence rp) now (Owner Application) sid start stop)
                 (\<lambda>(used, st).
                 Inr (Some \<lparr>qt_token_limit = Some (ab_token_limit b),
                      qt_mode = (if ab_enforce b then ''block'' else ''audit''),
                      qt_used_tokens = used\<rparr>, st))))"

definition plan_quota ::
  "repository \<Rightarrow> instant \<Rightarrow> plan \<Rightarrow> date \<Rightarrow> (quota option \<times> evidence_state) res" where
  "plan_quota rp now p stop =
     (if pl_authority p \<noteq> Postgresql then Inr (None, rp_evidence rp)
      else case pl_owner p of
        Owner Person \<Rightarrow> person_budget_state rp now (pl_scope_id p) (pl_period_start p) stop
      | Owner Application \<Rightarrow> application_budget_state rp now (pl_scope_id p) (pl_period_start p) stop
      | System \<Rightarrow> Inr (None, rp_evidence rp))"

definition period_end :: "date \<Rightarrow> date res" where
  "period_end d =
     (let y = (if d_month d = 12 then d_year d + 1 else d_year d) in
      guardR (9999 < y) (ValueError ''year 10000 is out of range'')
        (Inr (Date y (if d_month d = 12 then 1 else d_month d + 1) 1)))"

section \<open>Admission\<close>

definition by_apim :: "billable \<Rightarrow> bool" where
  "by_apim a \<longleftrightarrow> has_key (bl_evidence a) ''admission_authority''
     \<and> dfield (bl_evidence a) ''admission_authority'' = PStr ''apim_execution''"

definition previous_attempts :: "evidence_state \<Rightarrow> plan \<Rightarrow> billable list" where
  "previous_attempts st p = filter (\<lambda>a. bl_operation_key a = pl_operation_key p) (es_billables st)"

definition reused_by :: "plan \<Rightarrow> billable \<Rightarrow> bool" where
  "reused_by p a \<longleftrightarrow>
     bl_plan_sha256 a = pl_plan_sha256 p \<and> bl_state a = Exact
     \<and> authority_of a = PStr (authority_text (pl_authority p))
     \<and> reusable (bl_evidence a) (pl_reuse_requires p)"

text \<open>The tokens of requests whose outcome is still unknown.\<close>

definition holds_tokens :: "owner \<Rightarrow> string \<Rightarrow> date \<Rightarrow> billable \<Rightarrow> bool" where
  "holds_tokens ow sid start a \<longleftrightarrow>
     bl_owner a = ow \<and> \<not> by_apim a \<and> bl_scope_id a = sid \<and> bl_period_start a = start
     \<and> bl_state a \<noteq> Exact"

fun pending_tokens ::
  "evidence_state \<Rightarrow> instant \<Rightarrow> owner \<Rightarrow> string \<Rightarrow> date \<Rightarrow> billable list \<Rightarrow> (int \<times> evidence_state) res" where
  "pending_tokens st now ow sid start [] = Inr (0, st)"
| "pending_tokens st now ow sid start (a # as) =
     bindR (if holds_tokens ow sid start a then effective_tokens st now a else Inr (Some 0, st)) (\<lambda>(n, st').
     bindR (pending_tokens st' now ow sid start as) (\<lambda>(m, st'').
       Inr ((if n = None then bl_reserved_tokens a else 0) + m, st'')))"

text \<open>The comparison with a missing limit is a \<open>TypeError\<close>.\<close>

definition check_quota :: "quota option \<Rightarrow> int \<Rightarrow> int \<Rightarrow> unit res" where
  "check_quota q pending reserved =
     (case q of
        None \<Rightarrow> Inr ()
      | Some v \<Rightarrow>
          if qt_mode v \<noteq> ''block'' then Inr ()
          else (case qt_token_limit v of
            None \<Rightarrow> Inl (TypeError ''not supported between instances of int and NoneType'')
          | Some l \<Rightarrow>
              guardR (l < qt_used_tokens v + pending + reserved)
                (BillableBudgetExceeded ''The remaining budget cannot cover this request'') (Inr ())))"

definition started_attempt :: "plan \<Rightarrow> uuid \<Rightarrow> instant \<Rightarrow> nat \<Rightarrow> billable" where
  "started_attempt p fresh now n =
     \<lparr>bl_id = fresh, bl_operation_key = pl_operation_key p, bl_plan_sha256 = pl_plan_sha256 p,
      bl_owner = pl_owner p, bl_scope_id = pl_scope_id p, bl_period_start = pl_period_start p,
      bl_model_id = pl_model_id p, bl_model_key = pl_model_key p,
      bl_reserved_tokens = pl_reserved_tokens p, bl_authorization_id = pl_authorization_id p,
      bl_attempt_index = int n + 1, bl_state = Started, bl_actual_tokens = None,
      bl_correlation_id = None,
      bl_evidence = (if pl_authority p = Apim_execution
                     then [(''admission_authority'', PStr ''apim_execution'')] else []),
      bl_created_at = now, bl_updated_at = now\<rparr>"

fun put_billable :: "billable list \<Rightarrow> billable \<Rightarrow> billable list" where
  "put_billable [] x = [x]"
| "put_billable (a # as) x = (if bl_id a = bl_id x then x # as else a # put_billable as x)"

text \<open>\<open>fresh\<close> is the result of \<open>uuid4\<close>.\<close>

definition begin_billable_request ::
  "repository \<Rightarrow> instant \<Rightarrow> uuid \<Rightarrow> plan \<Rightarrow> (billable \<times> repository) res" where
  "begin_billable_request rp now fresh p =
     (let previous = previous_attempts (rp_evidence rp) p in
      case find (reused_by p) previous of
        Some a \<Rightarrow> Inr (a, rp)
      | None \<Rightarrow>
          guardR (pl_attempt_limit p \<le> int (length previous)
                  \<or> list_ex (\<lambda>a. bl_authorization_id a = pl_authorization_id p) previous)
            (BillableOutcomeUncertain ''Billable attempt already exists; new authorization required'')
         (bindR (period_end (pl_period_start p)) (\<lambda>stop.
          bindR (plan_quota rp now p stop) (\<lambda>(q, st).
          bindR (pending_tokens st now (pl_owner p) (pl_scope_id p) (pl_period_start p) (es_billables st))
            (\<lambda>(pending, st').
          bindR (check_quota q pending (pl_reserved_tokens p)) (\<lambda>_.
          bindR (make_billable (started_attempt p fresh now (length previous))) (\<lambda>a.
            Inr (a, with_evidence rp (st'\<lparr>es_billables := put_billable (es_billables st') a\<rparr>)))))))))"

section \<open>Acknowledgement\<close>

record outcome_report =
  oc_actual_tokens :: "int option"
  oc_correlation_id :: "string option"
  oc_evidence :: dict

definition make_outcome :: "outcome_report \<Rightarrow> outcome_report res" where
  "make_outcome x = checked (opt_all (\<lambda>n. 0 \<le> n) (oc_actual_tokens x)) ''BillableRequestOutcome'' x"

definition authority_key :: string where "authority_key = ''admission_authority''"

definition finished_attempt :: "billable \<Rightarrow> outcome_report \<Rightarrow> instant \<Rightarrow> billable" where
  "finished_attempt a x now =
     a\<lparr>bl_actual_tokens := oc_actual_tokens x,
       bl_correlation_id := (case oc_correlation_id x of
          None \<Rightarrow> bl_correlation_id a | Some c \<Rightarrow> if c = [] then bl_correlation_id a else Some c),
       bl_evidence := filter (\<lambda>(k, v). k \<noteq> authority_key) (oc_evidence x)
          @ (if has_key (bl_evidence a) authority_key
             then [(authority_key, dfield (bl_evidence a) authority_key)] else []),
       bl_state := (if oc_actual_tokens x \<noteq> None then Exact else Uncertain),
       bl_updated_at := now\<rparr>"

definition finish_billable_request ::
  "repository \<Rightarrow> instant \<Rightarrow> uuid \<Rightarrow> outcome_report \<Rightarrow> repository res" where
  "finish_billable_request rp now request_id x =
     bindR (make_outcome x) (\<lambda>x.
     case find (\<lambda>a. bl_id a = request_id) (es_billables (rp_evidence rp)) of
       None \<Rightarrow> Inl (KeyError request_id)
     | Some a \<Rightarrow>
         if bl_state a = Exact then
           guardR (oc_actual_tokens x \<noteq> None \<and> bl_actual_tokens a \<noteq> oc_actual_tokens x)
             (ValueError ''An exact acknowledgement cannot be changed'') (Inr rp)
         else
           bindR (make_billable (finished_attempt a x now)) (\<lambda>b.
             Inr (with_evidence rp ((rp_evidence rp)\<lparr>es_billables :=
                    put_billable (es_billables (rp_evidence rp)) b\<rparr>))))"

definition recover_billable_request :: "repository \<Rightarrow> plan \<Rightarrow> billable res" where
  "recover_billable_request rp p = recover_billable_attempt p (previous_attempts (rp_evidence rp) p)"

section \<open>Reports\<close>

text \<open>The attempts that satisfy \<open>p\<close> and whose effective tokens satisfy \<open>q\<close>.\<close>

fun filter_effective ::
  "(billable \<Rightarrow> bool) \<Rightarrow> (int option \<Rightarrow> bool) \<Rightarrow> evidence_state \<Rightarrow> instant \<Rightarrow> billable list
     \<Rightarrow> (billable list \<times> evidence_state) res" where
  "filter_effective p q st now [] = Inr ([], st)"
| "filter_effective p q st now (a # as) =
     (if \<not> p a then filter_effective p q st now as
      else bindR (effective_tokens st now a) (\<lambda>(n, st').
           bindR (filter_effective p q st' now as) (\<lambda>(bs, st'').
             Inr (if q n then a # bs else bs, st''))))"

definition upper_bound_of :: "evidence_state \<Rightarrow> billable \<Rightarrow> finalization_kind option" where
  "upper_bound_of st a =
     map_option fin_kind (find (\<lambda>f. fin_correlation_id f = bl_id a \<and> fin_kind f = Unverified_upper_bound)
       (es_finalizations st))"

definition pending_billable_requests ::
  "evidence_state \<Rightarrow> instant \<Rightarrow> ((billable \<times> finalization_kind option) list \<times> evidence_state) res" where
  "pending_billable_requests st now =
     bindR (filter_effective
              (\<lambda>a. bl_owner a \<noteq> System \<and> \<not> by_apim a \<and> bl_state a \<noteq> Exact)
              (\<lambda>n. n = None) st now (es_billables st)) (\<lambda>(as, st').
       Inr (map (\<lambda>a. (a, upper_bound_of st a)) as, st'))"

definition settled_billable_requests ::
  "evidence_state \<Rightarrow> instant \<Rightarrow> uuid list \<Rightarrow> owner \<Rightarrow> string option \<Rightarrow> (uuid list \<times> evidence_state) res" where
  "settled_billable_requests st now request_ids ow sid =
     bindR (filter_effective
              (\<lambda>a. bl_id a \<in> set request_ids \<and> bl_owner a = ow \<and> Some (bl_scope_id a) = sid)
              (\<lambda>n. n \<noteq> None) st now (es_billables st)) (\<lambda>(as, st').
       Inr (map bl_id as, st'))"

end
