(* ===== verification/Billable_Quota.thy ===== *)
theory Billable_Quota
  imports Billable_Requests
begin

text \<open>
  Admission of a billable request keeps its scope within the budget: what the scope has used and
  what is reserved for requests in flight, computed again after the admission, fit in the limit.
\<close>

section \<open>States that differ by attempts without any evidence\<close>

text \<open>When the evidence of a scope was received, after it was looked at.\<close>

definition seen_at ::
  "finalization list \<Rightarrow> instant \<Rightarrow> owner \<Rightarrow> string \<Rightarrow> (string \<rightharpoonup> instant) \<Rightarrow> string \<rightharpoonup> instant" where
  "seen_at fs now ow sid m = (\<lambda>k.
     if m k \<noteq> None then m k
     else if \<exists>f \<in> set fs. Owner (fin_scope_type f) = ow \<and> fin_scope_id f = sid
               \<and> fin_kind f \<noteq> Unverified_upper_bound \<and> finalization_evidence_key f = k
     then Some now else None)"

lemma note_fold:
  "fold (\<lambda>f s. if Owner (fin_scope_type f) = ow \<and> fin_scope_id f = sid
                    \<and> fin_kind f \<noteq> Unverified_upper_bound
                 then note_received s now f else s) fs st
   = st\<lparr>es_received_at := seen_at fs now ow sid (es_received_at st)\<rparr>"
proof (induction fs arbitrary: st)
  case Nil
  have "seen_at [] now ow sid (es_received_at st) = es_received_at st" by (auto simp: seen_at_def)
  then show ?case by simp
next
  case (Cons f fs)
  let ?in = "Owner (fin_scope_type f) = ow \<and> fin_scope_id f = sid \<and> fin_kind f \<noteq> Unverified_upper_bound"
  let ?m = "if ?in then setdefault (es_received_at st) (finalization_evidence_key f) now else es_received_at st"
  have "seen_at fs now ow sid ?m = seen_at (f # fs) now ow sid (es_received_at st)"
    by (rule ext) (auto simp: seen_at_def setdefault_def)
  then have m: "seen_at fs now ow sid (es_received_at (st\<lparr>es_received_at := ?m\<rparr>))
      = seen_at (f # fs) now ow sid (es_received_at st)" by simp
  have s: "(if ?in then note_received st now f else st) = st\<lparr>es_received_at := ?m\<rparr>"
    by (simp add: note_received_def)
  show ?case unfolding fold_Cons o_apply s Cons.IH m by simp
qed

lemma note_all_seen:
  "note_all st now ow sid
   = st\<lparr>es_received_at := seen_at (es_finalizations st) now ow sid (es_received_at st)\<rparr>"
  unfolding note_all_def by (rule note_fold)

lemma seen_twice: "seen_at fs now ow sid (seen_at fs now ow sid m) = seen_at fs now ow sid m"
  by (rule ext) (auto simp: seen_at_def)

text \<open>An identifier that no evidence mentions.\<close>

definition unmentioned :: "evidence_state \<Rightarrow> string \<Rightarrow> bool" where
  "unmentioned st i \<longleftrightarrow>
     (\<forall>a \<in> set (es_billables st). bl_id a \<noteq> i)
     \<and> (\<forall>f \<in> set (es_finalizations st). fin_correlation_id f \<noteq> i)
     \<and> (\<forall>r \<in> set (es_records st). br_request_id r \<noteq> i \<and> ur_correlation_id r \<noteq> i)"

definition silent :: "evidence_state \<Rightarrow> billable \<Rightarrow> bool" where
  "silent st a \<longleftrightarrow> unmentioned st (bl_id a) \<and> bl_actual_tokens a = None
     \<and> bl_correlation_id a = None \<and> bl_state a \<noteq> Exact"

text \<open>
  \<open>st'\<close> has the attempts \<open>as\<close> more than \<open>st\<close>, and has looked at more of the evidence of the scope.
\<close>

definition grown ::
  "instant \<Rightarrow> owner \<Rightarrow> string \<Rightarrow> billable list \<Rightarrow> evidence_state \<Rightarrow> evidence_state \<Rightarrow> bool" where
  "grown now ow sid as st st' \<longleftrightarrow>
     st' = st\<lparr>es_billables := es_billables st @ as, es_received_at := es_received_at st',
              es_conflicts := es_conflicts st'\<rparr>
     \<and> seen_at (es_finalizations st) now ow sid (es_received_at st)
       = seen_at (es_finalizations st) now ow sid (es_received_at st')
     \<and> list_all (silent st) as"

lemma grown_fields:
  assumes "grown now ow sid as st st'"
  shows "es_effective_at st' = es_effective_at st" "es_admissions st' = es_admissions st"
    "es_finalizations st' = es_finalizations st" "es_reconciled st' = es_reconciled st"
    "es_records st' = es_records st" "es_attributions st' = es_attributions st"
    "es_billables st' = es_billables st @ as"
proof -
  obtain r c where "st' = st\<lparr>es_billables := es_billables st @ as, es_received_at := r, es_conflicts := c\<rparr>"
    using assms unfolding grown_def by blast
  then show "es_effective_at st' = es_effective_at st" "es_admissions st' = es_admissions st"
    "es_finalizations st' = es_finalizations st" "es_reconciled st' = es_reconciled st"
    "es_records st' = es_records st" "es_attributions st' = es_attributions st"
    "es_billables st' = es_billables st @ as" by simp_all
qed

lemma grown_seen:
  assumes "grown now ow sid as st st'"
  shows "es_received_at (note_all st' now ow sid) = es_received_at (note_all st now ow sid)"
proof -
  have "seen_at (es_finalizations st) now ow sid (es_received_at st)
      = seen_at (es_finalizations st) now ow sid (es_received_at st')"
    using assms unfolding grown_def by blast
  then show ?thesis by (simp add: note_all_seen grown_fields [OF assms])
qed

lemma grown_silent: "grown now ow sid as st st' \<Longrightarrow> a \<in> set as \<Longrightarrow> silent st a"
  by (simp add: grown_def list_all_iff)

lemma silentD:
  assumes "silent st a"
  shows "b \<in> set (es_billables st) \<Longrightarrow> bl_id b \<noteq> bl_id a"
    "f \<in> set (es_finalizations st) \<Longrightarrow> fin_correlation_id f \<noteq> bl_id a"
    "r \<in> set (es_records st) \<Longrightarrow> br_request_id r \<noteq> bl_id a"
    "r \<in> set (es_records st) \<Longrightarrow> ur_correlation_id r \<noteq> bl_id a"
    "bl_actual_tokens a = None" "bl_correlation_id a = None" "bl_state a \<noteq> Exact"
  using assms by (auto simp: silent_def unmentioned_def)

text \<open>Whatever is computed twice is the same, in states that are related again.\<close>

definition alike :: "('s \<Rightarrow> 't \<Rightarrow> bool) \<Rightarrow> ('v \<times> 's) res \<Rightarrow> ('v \<times> 't) res \<Rightarrow> bool" where
  "alike P r r' \<longleftrightarrow>
     (case (r, r') of
        (Inl e, Inl e') \<Rightarrow> e = e'
      | (Inr (v, s), Inr (v', s')) \<Rightarrow> v = v' \<and> P s s'
      | _ \<Rightarrow> False)"

lemma alike_simps [simp]:
  "alike P (Inr (v, s)) (Inr (v', s')) \<longleftrightarrow> v = v' \<and> P s s'"
  "alike P (Inl e) (Inl e')  \<longleftrightarrow> e = e'"
  "\<not> alike P (Inl e) (Inr y)" "\<not> alike P (Inr x) (Inl e)"
  by (auto simp: alike_def)

lemma alike_cases:
  assumes "alike P r r'"
  obtains e where "r = Inl e" "r' = Inl e" | v s s' where "r = Inr (v, s)" "r' = Inr (v, s')" "P s s'"
  using assms by (cases r; cases r') auto

lemma alike_bind:
  assumes "alike P r r'" "\<And>v s s'. P s s' \<Longrightarrow> r = Inr (v, s) \<Longrightarrow> alike Q (f (v, s)) (g (v, s'))"
  shows "alike Q (bindR r f) (bindR r' g)"
  using assms(1) by (rule alike_cases) (simp_all add: assms(2))

lemma alike_same_bind:
  assumes "\<And>v. r = Inr v \<Longrightarrow> alike Q (f v) (g v)"
  shows "alike Q (bindR r f) (bindR r g)"
  using assms by (cases r) simp_all

lemma alike_Inr: "alike P r r' \<Longrightarrow> r = Inr (v, s) \<Longrightarrow> \<exists>s'. r' = Inr (v, s') \<and> P s s'"
  by (cases r') auto

section \<open>The choice of evidence\<close>

lemma filterR_none: "(\<And>x. x \<in> set xs \<Longrightarrow> p x = Inr False) \<Longrightarrow> filterR p xs = Inr []"
  by (induction xs) simp_all

lemma filterR_cong: "(\<And>x. x \<in> set xs \<Longrightarrow> p x = q x) \<Longrightarrow> filterR p xs = filterR q xs"
  by (induction xs) simp_all

lemma andR_False [simp]: "andR a (Inr False) = Inr False"
  by (simp add: andR_def)

lemma grown_strict: "grown now ow sid as st st' \<Longrightarrow> strict st' = strict st"
  by (simp add: strict_def fun_eq_iff grown_fields)

lemma filterR_grown:
  assumes "\<And>a. a \<in> set as \<Longrightarrow> p a = Inr False"
  shows "filterR p (xs @ as) = filterR p xs"
proof -
  have "filterR p as = Inr []" using filterR_none assms by blast
  then show ?thesis by (cases "filterR p xs") (simp_all add: filterR_append)
qed

lemma grown_bound:
  assumes g: "grown now ow sid as st st'" and c: "\<And>a. a \<in> set as \<Longrightarrow> bl_id a \<noteq> c"
  shows "bound_attempt st' now ow' sid' c = bound_attempt st now ow' sid' c"
proof -
  let ?p = "\<lambda>s a. andR (bl_owner a = ow' \<and> bl_scope_id a = sid')
              (if bl_id a = c then Inr True
               else andR (bl_correlation_id a = Some c) (strict s now (Aware (bl_created_at a))))"
  have "filterR (?p st) (es_billables st @ as) = filterR (?p st) (es_billables st)"
    by (rule filterR_grown) (simp add: andR_def c silentD(6) [OF grown_silent [OF g]])
  then show ?thesis
    unfolding bound_attempt_def grown_fields [OF g] grown_strict [OF g] by (simp only:)
qed

lemma grown_admission: "grown now ow sid as st st' \<Longrightarrow> admission_of st' ow' sid' c = admission_of st ow' sid' c"
  by (cases ow') (simp_all add: grown_fields)

lemma grown_admitted:
  assumes g: "grown now ow sid as st st'" and c: "\<And>a. a \<in> set as \<Longrightarrow> bl_id a \<noteq> c"
  shows "evidence_admitted_at st' now ow' sid' c t = evidence_admitted_at st now ow' sid' c t"
proof -
  have "bound_attempt st' now ow' sid' c = bound_attempt st now ow' sid' c"
    by (rule grown_bound [OF g]) (rule c)
  then show ?thesis unfolding evidence_admitted_at_def grown_admission [OF g] grown_fields [OF g] by (simp only:)
qed

lemma grown_not_made_for:
  "grown now ow sid as st st' \<Longrightarrow> r \<in> set (es_records st) \<Longrightarrow> a \<in> set as \<Longrightarrow> \<not> made_for r ow' sid' a"
  using silentD(3) [OF grown_silent] by (auto simp: made_for_def)

lemma grown_identity:
  assumes g: "grown now ow sid as st st'" and r: "r \<in> set (es_records st)"
  shows "record_identity st' now r ow' sid' = record_identity st now r ow' sid'"
proof -
  have none: "find (made_for r ow' sid') as = None"
    using grown_not_made_for [OF g r] by (simp add: find_None_all)
  have "find p (xs @ ys) = (case find p xs of None \<Rightarrow> find p ys | Some x \<Rightarrow> Some x)" for p :: "billable \<Rightarrow> bool" and xs ys
    by (induction xs) simp_all
  then have f: "find (made_for r ow' sid') (es_billables st') = find (made_for r ow' sid') (es_billables st)"
    by (simp add: grown_fields [OF g] none split: option.splits)
  have a: "evidence_admitted_at st' now ow' sid' (ur_correlation_id r) (ur_ts r)
      = evidence_admitted_at st now ow' sid' (ur_correlation_id r) (ur_ts r)"
    by (rule grown_admitted [OF g]) (use silentD(4) [OF grown_silent [OF g] r] in force)
  show ?thesis unfolding record_identity_def f a ..
qed

text \<open>Looking at the evidence of a scope changes when evidence was received, and the conflicts.\<close>

definition looked :: "instant \<Rightarrow> owner \<Rightarrow> string \<Rightarrow> evidence_state \<Rightarrow> conflict_entry set \<Rightarrow> evidence_state" where
  "looked now ow sid st cf = (note_all st now ow sid)\<lparr>es_conflicts := cf\<rparr>"

lemma looked_grown: "grown now ow sid [] st (looked now ow sid st cf)"
  by (simp add: grown_def looked_def note_all_seen seen_twice)

lemma noted_grown: "grown now ow sid [] st (note_all st now ow sid)"
  by (simp add: grown_def note_all_seen seen_twice)

lemma noted_admitted:
  "evidence_admitted_at (note_all st now ow sid) now ow' sid' c t = evidence_admitted_at st now ow' sid' c t"
  by (rule grown_admitted [OF noted_grown]) simp

lemma noted_bound: "bound_attempt (note_all st now ow sid) now ow' sid' c = bound_attempt st now ow' sid' c"
  by (rule grown_bound [OF noted_grown]) simp

lemma grown_finalization_offer:
  assumes g: "grown now ow sid as st st'" and f: "f \<in> set (es_finalizations st)"
  shows "finalization_offer (note_all st' now ow sid) now ow sid f
    = finalization_offer (note_all st now ow sid) now ow sid f"
proof -
  have c: "bl_id a \<noteq> fin_correlation_id f" if "a \<in> set as" for a
    using silentD(2) [OF grown_silent [OF g that] f] by simp
  have "bound_attempt st' now ow sid (fin_correlation_id f) = bound_attempt st now ow sid (fin_correlation_id f)"
    by (rule grown_bound [OF g]) (rule c)
  moreover have "evidence_admitted_at st' now ow sid (fin_correlation_id f) t
      = evidence_admitted_at st now ow sid (fin_correlation_id f) t" for t
    by (rule grown_admitted [OF g]) (rule c)
  ultimately show ?thesis
    unfolding finalization_offer_def noted_bound noted_admitted grown_seen [OF g] by (simp only:)
qed

lemma grown_record_tokens: "grown now ow sid as st st' \<Longrightarrow> record_tokens st' r = record_tokens st r"
  by (simp add: record_tokens_def grown_fields)

lemma grown_attributed: "grown now ow sid as st st' \<Longrightarrow> attributed st' r k = attributed st r k"
  by (simp add: attributed_def grown_fields)

lemma grown_record_matches:
  assumes g: "grown now ow sid as st st'" and r: "r \<in> set (es_records st)"
  shows "record_matches st' r ow' sid' = record_matches st r ow' sid'"
proof (cases ow')
  case (Owner k)
  then show ?thesis by (cases k) (simp_all add: grown_attributed [OF g])
next
  case System
  have "list_ex (made_for r System sid') (es_billables st') = list_ex (made_for r System sid') (es_billables st)"
    using grown_not_made_for [OF g r] by (auto simp: grown_fields [OF g] list_ex_iff)
  then show ?thesis using System by simp
qed

lemma noted_record_matches: "record_matches (note_all st now ow sid) r ow' sid' = record_matches st r ow' sid'"
proof (cases ow')
  case (Owner k)
  then show ?thesis by (cases k) (simp_all add: note_all_seen attributed_def)
qed (simp add: note_all_seen)

lemma noted_record_identity: "record_identity (note_all st now ow sid) now r ow' sid' = record_identity st now r ow' sid'"
  unfolding record_identity_def noted_admitted by (simp add: note_all_seen)

lemma grown_record_offer:
  assumes g: "grown now ow sid as st st'" and r: "r \<in> set (es_records st)"
  shows "record_offer (note_all st' now ow sid) now ow sid r = record_offer (note_all st now ow sid) now ow sid r"
proof -
  have t: "record_tokens (note_all s now ow sid) r = record_tokens s r" for s
    by (simp add: record_tokens_def note_all_seen)
  show ?thesis
    unfolding record_offer_def noted_record_matches noted_record_identity t grown_record_matches [OF g r]
      grown_identity [OF g r] grown_record_tokens [OF g] grown_seen [OF g] ..
qed

abbreviation whatever :: "'s \<Rightarrow> 't \<Rightarrow> bool" where "whatever \<equiv> \<lambda>_ _. True"

lemma accept_alike:
  assumes "strict st' = strict st"
  shows "alike whatever (accept st now ow sid x (ch, cf)) (accept st' now ow sid x (ch, cf'))"
  unfolding accept_def prod.case assms
  by (rule alike_same_bind) (simp split: option.split)

lemma accept_all_alike:
  assumes s: "strict st' = strict st"
  shows "(\<And>x. x \<in> set xs \<Longrightarrow> g x = f x) \<Longrightarrow>
    alike whatever (accept_all st now ow sid f xs (ch, cf)) (accept_all st' now ow sid g xs (ch, cf'))"
proof (induction xs arbitrary: ch cf cf')
  case (Cons x xs)
  have step: "alike whatever (case v of None \<Rightarrow> Inr (ch, cf) | Some y \<Rightarrow> accept st now ow sid y (ch, cf))
      (case v of None \<Rightarrow> Inr (ch, cf') | Some y \<Rightarrow> accept st' now ow sid y (ch, cf'))" for v
    using accept_alike [OF s] by (cases v) simp_all
  have x: "g x = f x" by (rule Cons.prems) simp
  have rest: "\<And>y. y \<in> set xs \<Longrightarrow> g y = f y" by (rule Cons.prems) simp
  show ?case
    unfolding accept_all.simps x
    by (rule alike_same_bind, rule alike_bind [OF step]) (rule Cons.IH [OF rest])
qed simp

lemma accept_all_append:
  "accept_all st now ow sid f (xs @ ys) acc
   = bindR (accept_all st now ow sid f xs acc) (\<lambda>acc'. accept_all st now ow sid f ys acc')"
proof (induction xs arbitrary: acc)
  case (Cons x xs)
  show ?case
    by (cases "f x") (simp_all add: Cons.IH bindR_def split: sum.split)
qed simp

lemma accept_all_none: "(\<And>x. x \<in> set xs \<Longrightarrow> f x = Inr None) \<Longrightarrow> accept_all st now ow sid f xs acc = Inr acc"
  by (induction xs) simp_all

lemma grown_looked:
  assumes g: "grown now ow sid as st st'"
  shows "grown now ow sid as (looked now ow sid st cf) (looked now ow sid st' cf')"
proof -
  obtain r c where st': "st' = st\<lparr>es_billables := es_billables st @ as, es_received_at := r, es_conflicts := c\<rparr>"
    and seen: "seen_at (es_finalizations st) now ow sid (es_received_at st)
       = seen_at (es_finalizations st) now ow sid r"
    using g unfolding grown_def by (metis evidence_state.select_convs(4) evidence_state.update_convs(4,5))
  have "list_all (silent (looked now ow sid st cf)) as"
    using g by (simp add: grown_def list_all_iff silent_def unmentioned_def looked_def note_all_seen)
  then show ?thesis
    unfolding grown_def looked_def note_all_seen by (simp add: st' seen seen_twice)
qed

lemma choices_looked:
  assumes "strict_budget_choices st now ow sid = Inr (ch, s)"
  shows "\<exists>cf. s = looked now ow sid st cf"
  using assms by (auto simp: strict_budget_choices_def Let_def res_simps looked_def)

lemma choices_grown:
  assumes g: "grown now ow sid as st st'"
  shows "alike (grown now ow sid as) (strict_budget_choices st now ow sid) (strict_budget_choices st' now ow sid)"
proof -
  let ?n = "note_all st now ow sid" and ?n' = "note_all st' now ow sid"
  let ?b = "\<lambda>a. Inr (billable_offer ow sid a)"
  have s: "strict ?n' = strict ?n"
    by (simp add: strict_def fun_eq_iff note_all_seen grown_fields [OF g])
  have none: "accept_all ?n' now ow sid ?b as acc = Inr acc" for acc
    by (rule accept_all_none) (simp add: billable_offer_def silentD(5) [OF grown_silent [OF g]])
  have one: "alike whatever (accept_all ?n now ow sid ?b (es_billables st) ([], es_conflicts st))
      (accept_all ?n' now ow sid ?b (es_billables st') ([], es_conflicts st'))"
  proof -
    have "accept_all ?n' now ow sid ?b (es_billables st') ([], es_conflicts st')
        = accept_all ?n' now ow sid ?b (es_billables st) ([], es_conflicts st')"
      unfolding grown_fields(7) [OF g] accept_all_append none
      by (cases "accept_all ?n' now ow sid ?b (es_billables st) ([], es_conflicts st')") simp_all
    then show ?thesis by (simp only:) (rule accept_all_alike [OF s], rule refl)
  qed
  have end_: "alike (grown now ow sid as) (Inr (ch, ?n\<lparr>es_conflicts := cf\<rparr>)) (Inr (ch, ?n'\<lparr>es_conflicts := cf'\<rparr>))"
    for ch :: choices and cf cf'
    using grown_looked [OF g] by (simp add: looked_def)
  show ?thesis
    unfolding strict_budget_choices_def Let_def grown_fields(3,5) [OF g]
  proof (rule alike_bind [OF one], goal_cases)
    case (1 v s s')
    show ?case
    proof (rule alike_bind, rule accept_all_alike [OF s], goal_cases)
      case (1 f)
      then show ?case by (rule grown_finalization_offer [OF g])
    next
      case (2 v s s')
      show ?case
      proof (rule alike_bind, rule accept_all_alike [OF s], goal_cases)
        case (1 r)
        then show ?case by (rule grown_record_offer [OF g])
      next
        case (2 v s s')
        then show ?case using end_ by simp
      qed
    qed
  qed
qed

section \<open>Tokens of an attempt and of a scope\<close>

lemma grown_scope_matches:
  assumes g: "grown now ow sid as st st'"
  shows "billable_scope_matches st' r ow' sid' = billable_scope_matches st r ow' sid'"
proof (cases ow')
  case (Owner k)
  then show ?thesis by (cases k) (simp_all add: grown_attributed [OF g])
qed simp

lemma grown_canonical:
  assumes g: "grown now ow sid as st st'"
  shows "canonical_tokens st' now a = canonical_tokens st now a"
  unfolding canonical_tokens_def grown_fields(5) [OF g] grown_strict [OF g] grown_record_tokens [OF g]
    grown_scope_matches [OF g] ..

lemma grown_recoveries: "grown now ow sid as st st' \<Longrightarrow> recoveries st' a = recoveries st a"
  by (simp add: recoveries_def grown_fields)

lemma effective_grown:
  assumes g: "grown now ow sid as st st'" and a: "bl_owner a = ow" "bl_scope_id a = sid"
  shows "alike (grown now ow sid as) (effective_tokens st now a) (effective_tokens st' now a)"
  unfolding effective_tokens_def grown_strict [OF g] a
proof (rule alike_same_bind, goal_cases)
  case (1 b)
  show ?case
  proof (cases b)
    case True
    have "alike (grown now ow sid as)
        (bindR (strict_budget_choices st now ow sid) (\<lambda>(ch, s). Inr (map_option of_tokens (map_of ch (bl_id a)), s)))
        (bindR (strict_budget_choices st' now ow sid) (\<lambda>(ch, s). Inr (map_option of_tokens (map_of ch (bl_id a)), s)))"
      by (rule alike_bind [OF choices_grown [OF g]]) simp
    then show ?thesis using True by simp
  next
    case False
    have "alike (grown now ow sid as)
        (bindR (canonical_tokens st now a) (\<lambda>c. Inr (v c, st))) (bindR (canonical_tokens st now a) (\<lambda>c. Inr (v c, st')))"
      for v :: "int option \<Rightarrow> int option"
      by (rule alike_same_bind) (simp add: g)
    then show ?thesis
      unfolding grown_canonical [OF g] grown_recoveries [OF g] using False by (simp only: if_False)
  qed
qed

lemma pending_grown:
  "grown now ow sid as st st' \<Longrightarrow>
   alike (grown now ow sid as) (pending_tokens st now ow sid start bs) (pending_tokens st' now ow sid start bs)"
proof (induction bs arbitrary: st st')
  case (Cons b bs)
  have one: "alike (grown now ow sid as)
      (if holds_tokens ow sid start b then effective_tokens st now b else Inr (Some 0, st))
      (if holds_tokens ow sid start b then effective_tokens st' now b else Inr (Some 0, st'))"
    using effective_grown [OF Cons.prems, of b] Cons.prems by (simp add: holds_tokens_def)
  show ?case
    unfolding pending_tokens.simps
  proof (rule alike_bind [OF one], unfold prod.case, goal_cases)
    case (1 v s s')
    then show ?case by (intro alike_bind [OF Cons.IH]) simp_all
  qed
qed simp

lemma grown_strict_record:
  assumes g: "grown now ow sid as st st'" and r: "r \<in> set (es_records st)"
  shows "strict_record st' now r ow' sid' = strict_record st now r ow' sid'"
  unfolding strict_record_def grown_identity [OF g r] grown_strict [OF g] ..

lemma grown_by_correlation:
  assumes g: "grown now ow sid as st st'"
  shows "set rs \<subseteq> set (es_records st) \<Longrightarrow>
    canonical_by_correlation st' now ow' sid' start stop rs acc = canonical_by_correlation st now ow' sid' start stop rs acc"
proof (induction rs arbitrary: acc)
  case (Cons r rs)
  have m: "budget_record_matches st' r ow' sid' = budget_record_matches st r ow' sid'"
    by (simp add: budget_record_matches_def grown_attributed [OF g])
  have r: "r \<in> set (es_records st)" and rs: "set rs \<subseteq> set (es_records st)" using Cons.prems by simp_all
  show ?case unfolding canonical_by_correlation.simps m grown_strict_record [OF g r] Cons.IH [OF rs] ..
qed simp

lemma grown_strongest:
  assumes g: "grown now ow sid as st st'"
  shows "set fs \<subseteq> set (es_finalizations st) \<Longrightarrow>
    strongest_by_correlation st' now ow' sid' start cs fs acc = strongest_by_correlation st now ow' sid' start cs fs acc"
proof (induction fs arbitrary: acc)
  case (Cons f fs)
  have f: "f \<in> set (es_finalizations st)" and fs: "set fs \<subseteq> set (es_finalizations st)" using Cons.prems by simp_all
  have "evidence_admitted_at st' now ow' sid' (fin_correlation_id f) t
      = evidence_admitted_at st now ow' sid' (fin_correlation_id f) t" for t
    by (rule grown_admitted [OF g]) (use silentD(2) [OF grown_silent [OF g] f] in force)
  then show ?case unfolding strongest_by_correlation.simps grown_strict [OF g] Cons.IH [OF fs] by (simp only:)
qed simp

lemma base_grown:
  assumes g: "grown now ow sid as st st'"
  shows "alike (grown now ow sid as) (base_confirmed st now ow sid start stop) (base_confirmed st' now ow sid start stop)"
proof -
  have c: "canonical_by_correlation st' now ow sid start stop (es_records st') []
      = canonical_by_correlation st now ow sid start stop (es_records st) []"
    unfolding grown_fields(5) [OF g] by (rule grown_by_correlation [OF g]) simp
  have s: "strongest_by_correlation st' now ow sid start cs (es_finalizations st') []
      = strongest_by_correlation st now ow sid start cs (es_finalizations st) []" for cs
    unfolding grown_fields(3) [OF g] by (rule grown_strongest [OF g]) simp
  show ?thesis
    unfolding base_confirmed_def c s
    by (intro alike_same_bind alike_bind [OF choices_grown [OF g]]) simp
qed

lemma grown_add_canonical:
  assumes g: "grown now ow sid as st st'"
    and a: "\<And>r. r \<in> set rs \<Longrightarrow> find (\<lambda>a. bl_id a = br_request_id r) bs' = find (\<lambda>a. bl_id a = br_request_id r) bs"
  shows "add_canonical st' ow' sid' start stop bs' rs acc = add_canonical st ow' sid' start stop bs rs acc"
  using a
proof (induction rs arbitrary: acc)
  case (Cons r rs)
  have f: "find (\<lambda>a. bl_id a = br_request_id r) bs' = find (\<lambda>a. bl_id a = br_request_id r) bs"
    by (rule Cons.prems) simp
  have rest: "add_canonical st' ow' sid' start stop bs' rs x = add_canonical st ow' sid' start stop bs rs x" for x
    by (rule Cons.IH) (simp add: Cons.prems)
  show ?case by (cases acc) (simp only: add_canonical.simps f rest grown_scope_matches [OF g])
qed simp

subsection \<open>What a computation leaves\<close>

lemma grown_refl: "grown now ow sid [] st st"
  by (simp add: grown_def)

lemma evidence_grown_trans:
  assumes "grown now ow sid as st st'" "grown now ow sid bs st' st''"
  shows "grown now ow sid (as @ bs) st st''"
proof -
  obtain r c where st': "st' = st\<lparr>es_billables := es_billables st @ as, es_received_at := r, es_conflicts := c\<rparr>"
    using assms(1) unfolding grown_def by blast
  have "list_all (silent st) bs"
    using assms(2) st' by (auto simp: grown_def list_all_iff silent_def unmentioned_def)
  then have "list_all (silent st) (as @ bs)" using assms(1) by (simp add: grown_def)
  then show ?thesis using assms unfolding grown_def by (simp add: st')
qed

lemma choices_self: "strict_budget_choices st now ow sid = Inr (ch, s) \<Longrightarrow> grown now ow sid [] st s"
  using choices_looked looked_grown by blast

lemma effective_self:
  "effective_tokens st now a = Inr (n, s) \<Longrightarrow> grown now (bl_owner a) (bl_scope_id a) [] st s"
  using choices_self grown_refl by (auto simp: effective_tokens_def res_simps split: if_splits)

lemma sum_effective_self:
  "sum_effective st now us = Inr (n, s) \<Longrightarrow> (\<And>u. u \<in> set us \<Longrightarrow> bl_owner u = ow \<and> bl_scope_id u = sid) \<Longrightarrow>
   grown now ow sid [] st s"
proof (induction us arbitrary: st n)
  case (Cons u us)
  obtain m s1 k where e: "effective_tokens st now u = Inr (m, s1)" and r: "sum_effective s1 now us = Inr (k, s)"
    using Cons.prems(1) by (auto simp: res_simps)
  have "grown now ow sid [] st s1" using effective_self [OF e] Cons.prems(2) [of u] by simp
  moreover have "grown now ow sid [] s1 s" by (rule Cons.IH [OF r]) (simp add: Cons.prems(2))
  ultimately show ?case using evidence_grown_trans by fastforce
qed (simp add: grown_refl)

subsection \<open>Attempts without evidence count for nothing\<close>

lemma silent_lenient:
  assumes g: "grown now ow sid as s s'" and a: "a \<in> set as" and l: "strict s now (Aware (bl_created_at a)) = Inr False"
  shows "effective_tokens s' now a = Inr (None, s')"
proof -
  note silent = silentD [OF grown_silent [OF g a]]
  have c: "canonical_tokens s' now a = Inr None"
  proof -
    have "filterR (\<lambda>r. andR (br_request_id r = bl_id a \<and> Some (ur_correlation_id r) = bl_correlation_id a
                    \<and> br_model_id r = bl_model_id a \<and> ur_domain r = ''apim'')
                (bindR (strict s' now (Aware (bl_created_at a))) (\<lambda>b.
                 Inr ((if b then record_tokens s' r \<noteq> None
                       else \<not> ur_estimated r \<or> 400 \<le> br_status_code r)
                      \<and> billable_scope_matches s' r (bl_owner a) (bl_scope_id a))))) (es_records s') = Inr []"
      by (rule filterR_none) (simp add: andR_def silent(3) grown_fields [OF g])
    then show ?thesis by (simp add: canonical_tokens_def)
  qed
  have r: "recoveries s' a = []"
    using silent(2) by (auto simp: recoveries_def grown_fields [OF g] filter_empty_conv)
  show ?thesis using l silent(7) by (simp add: effective_tokens_def grown_strict [OF g] c r)
qed

lemma sum_effective_grown:
  "grown now ow sid as st st' \<Longrightarrow> (\<And>u. u \<in> set us \<Longrightarrow> bl_owner u = ow \<and> bl_scope_id u = sid) \<Longrightarrow>
   alike (grown now ow sid as) (sum_effective st now us) (sum_effective st' now us)"
proof (induction us arbitrary: st st')
  case (Cons u us)
  have u: "bl_owner u = ow" "bl_scope_id u = sid"
    and rest: "\<And>v. v \<in> set us \<Longrightarrow> bl_owner v = ow \<and> bl_scope_id v = sid"
    using Cons.prems(2) by simp_all
  show ?case
    unfolding sum_effective.simps
  proof (rule alike_bind [OF effective_grown [OF Cons.prems(1) u]], unfold prod.case, goal_cases)
    case (1 v s s')
    then show ?case by (intro alike_bind [OF Cons.IH]) (simp_all add: rest)
  qed
qed simp

lemma sum_effective_append:
  "sum_effective st now (us @ vs)
   = bindR (sum_effective st now us) (\<lambda>(m, s). bindR (sum_effective s now vs) (\<lambda>(k, s'). Inr (m + k, s')))"
proof (induction us arbitrary: st)
  case Nil
  show ?case by (cases "sum_effective st now vs") auto
next
  case (Cons u us)
  show ?case
  proof (cases "effective_tokens st now u")
    case (Inr x)
    obtain n s where x: "x = (n, s)" by (cases x)
    show ?thesis
    proof (cases "sum_effective s now us")
      case (Inr y)
      obtain m s2 where y: "y = (m, s2)" by (cases y)
      show ?thesis
        using \<open>effective_tokens st now u = Inr x\<close> Inr
        by (cases "sum_effective s2 now vs") (auto simp: x y Cons.IH)
    qed (simp add: \<open>effective_tokens st now u = Inr x\<close> x Cons.IH)
  qed simp
qed

lemma sum_effective_silent:
  assumes g: "grown now ow sid as s s'"
  shows "(\<And>a. a \<in> set bs \<Longrightarrow> a \<in> set as \<and> strict s now (Aware (bl_created_at a)) = Inr False) \<Longrightarrow>
    sum_effective s' now bs = Inr (0, s')"
proof (induction bs)
  case (Cons a bs)
  have "effective_tokens s' now a = Inr (None, s')"
    by (rule silent_lenient [OF g]) (simp_all add: Cons.prems)
  moreover have "sum_effective s' now bs = Inr (0, s')" by (rule Cons.IH) (simp add: Cons.prems)
  ultimately show ?case by simp
qed simp

definition aware_cutover :: "evidence_state \<Rightarrow> bool" where
  "aware_cutover st \<longleftrightarrow> (case es_effective_at st of Some (Naive _) \<Rightarrow> False | _ \<Rightarrow> True)"

lemma strict_total: "aware_cutover st \<Longrightarrow> \<exists>b. strict st now (Aware t) = Inr b"
  by (auto simp: aware_cutover_def strict_def strict_budget_evidence_def split: option.splits pydt.splits)

lemma strict_same:
  "es_effective_at s = es_effective_at st \<Longrightarrow> strict s = strict st"
  by (simp add: strict_def fun_eq_iff)

lemma filterR_mem: "filterR p xs = Inr us \<Longrightarrow> u \<in> set us \<Longrightarrow> u \<in> set xs \<and> p u = Inr True"
  by (induction xs arbitrary: us) (auto simp: res_simps split: if_splits)

lemma filterR_total: "(\<And>x. x \<in> set xs \<Longrightarrow> \<exists>b. p x = Inr b) \<Longrightarrow> \<exists>us. filterR p xs = Inr us"
proof (induction xs)
  case (Cons x xs)
  obtain b where b: "p x = Inr b" using Cons.prems [of x] by auto
  obtain us where us: "filterR p xs = Inr us" using Cons.IH Cons.prems by auto
  show ?case by (simp add: b us)
qed simp

lemma find_append_none: "find p ys = None \<Longrightarrow> find p (xs @ ys) = find p xs"
  by (induction xs) simp_all

lemma adjustment_grown:
  assumes g: "grown now ow sid as st st'" and aware: "aware_cutover st"
  shows "alike (grown now ow sid as) (billable_budget_adjustment st now ow sid start stop)
    (billable_budget_adjustment st' now ow sid start stop)"
proof -
  let ?P = "\<lambda>a. andR (bl_owner a = ow \<and> bl_scope_id a = sid)
              (bindR (strict st now (Aware (bl_created_at a))) (\<lambda>b. Inr (\<not> b)))"
  have "\<exists>b. ?P a = Inr b" for a
  proof -
    obtain b where "strict st now (Aware (bl_created_at a)) = Inr b" using strict_total [OF aware] by blast
    then show ?thesis by (cases "bl_owner a = ow \<and> bl_scope_id a = sid") (auto simp: andR_def)
  qed
  then obtain bs where bs: "filterR ?P as = Inr bs" using filterR_total [of as ?P] by blast
  have bs_as: "a \<in> set as \<and> strict st now (Aware (bl_created_at a)) = Inr False" if "a \<in> set bs" for a
    using filterR_mem [OF bs that] by (auto simp: andR_def res_simps split: if_splits)
  have attempts: "filterR ?P (es_billables st') = bindR (filterR ?P (es_billables st)) (\<lambda>us. Inr (us @ bs))"
    by (simp add: grown_fields(7) [OF g] filterR_append bs)
  show ?thesis
  proof (cases "filterR ?P (es_billables st)")
    case (Inl e)
    then show ?thesis
      unfolding billable_budget_adjustment_def grown_strict [OF g] attempts by simp
  next
    case (Inr us)
    have us: "bl_owner u = ow \<and> bl_scope_id u = sid" if "u \<in> set us" for u
      using filterR_mem [OF Inr that] by (auto simp: andR_def split: if_splits)
    have new: "find (\<lambda>a. bl_id a = i) (us @ bs) = find (\<lambda>a. bl_id a = i) us"
      if "\<And>a. a \<in> set as \<Longrightarrow> bl_id a \<noteq> i" for i
      by (rule find_append_none) (use that bs_as in \<open>auto simp: find_None_all\<close>)
    have canonical: "add_canonical st' ow sid start stop (us @ bs) (es_records st') acc
        = add_canonical st ow sid start stop us (es_records st) acc" for acc
      unfolding grown_fields(5) [OF g]
    proof (rule grown_add_canonical [OF g])
      fix r assume r: "r \<in> set (es_records st)"
      show "find (\<lambda>a. bl_id a = br_request_id r) (us @ bs) = find (\<lambda>a. bl_id a = br_request_id r) us"
        by (rule new) (use silentD(3) [OF grown_silent [OF g] r] in force)
    qed
    have recovered: "fold (add_recovered ow sid start (us @ bs) cs) (es_finalizations st') acc
        = fold (add_recovered ow sid start us cs) (es_finalizations st) acc" for cs acc
      unfolding grown_fields(3) [OF g]
    proof (rule fold_cong, rule refl, rule refl)
      fix f assume f: "f \<in> set (es_finalizations st)"
      have "find (\<lambda>a. bl_id a = fin_correlation_id f) (us @ bs) = find (\<lambda>a. bl_id a = fin_correlation_id f) us"
        by (rule new) (use silentD(2) [OF grown_silent [OF g] f] in force)
      then show "add_recovered ow sid start (us @ bs) cs f = add_recovered ow sid start us cs f"
        by (simp add: add_recovered_def fun_eq_iff)
    qed
    let ?p = "\<lambda>a. bl_period_start a = start"
    have sums: "alike (grown now ow sid as) (sum_effective st now (filter ?p us)) (sum_effective st' now (filter ?p (us @ bs)))"
    proof -
      have one: "alike (grown now ow sid as) (sum_effective st now (filter ?p us)) (sum_effective st' now (filter ?p us))"
        by (rule sum_effective_grown [OF g]) (simp add: us)
      show ?thesis
        using one
      proof (rule alike_cases)
        fix e assume "sum_effective st now (filter ?p us) = Inl e" "sum_effective st' now (filter ?p us) = Inl e"
        then show ?thesis by (simp add: sum_effective_append)
      next
        fix v s s' assume r: "sum_effective st now (filter ?p us) = Inr (v, s)"
          "sum_effective st' now (filter ?p us) = Inr (v, s')" "grown now ow sid as s s'"
        have same: "grown now ow sid [] st s" using sum_effective_self [OF r(1)] us by simp
        have "sum_effective s' now (filter ?p bs) = Inr (0, s')"
          by (rule sum_effective_silent [OF r(3)]) (use bs_as grown_strict [OF same] in auto)
        then show ?thesis by (simp add: sum_effective_append r)
      qed
    qed
    show ?thesis
      unfolding billable_budget_adjustment_def grown_strict [OF g] attempts Inr bindR_simps canonical recovered Let_def
      by (cases "add_canonical st ow sid start stop us (es_records st) ([], {})")
        (simp only: prod.case recovered, rule alike_bind [OF sums], simp)
  qed
qed


lemma confirmed_grown:
  assumes g: "grown now ow sid as st st'" and aware: "aware_cutover st"
  shows "alike (grown now ow sid as) (budget_scope_confirmed_tokens st now ow sid start stop)
    (budget_scope_confirmed_tokens st' now ow sid start stop)"
  unfolding budget_scope_confirmed_tokens_def
proof (rule alike_bind [OF base_grown [OF g]], unfold prod.case, goal_cases)
  case (1 n s s')
  have "grown now ow sid [] st s" using 1(2) choices_self by (auto simp: base_confirmed_def res_simps)
  then have "aware_cutover s" using aware by (simp add: aware_cutover_def grown_fields)
  then show ?case by (intro alike_bind [OF adjustment_grown [OF 1(1)]]) simp_all
qed

lemma confirmed_self:
  assumes "budget_scope_confirmed_tokens st now ow sid start stop = Inr (n, s)"
  shows "grown now ow sid [] st s"
    and "\<exists>ch s'. strict_budget_choices st now ow sid = Inr (ch, s')"
proof -
  obtain m s1 k where b: "base_confirmed st now ow sid start stop = Inr (m, s1)"
    and a: "billable_budget_adjustment s1 now ow sid start stop = Inr (k, s)"
    using assms by (auto simp: budget_scope_confirmed_tokens_def res_simps)
  obtain ch where ch: "strict_budget_choices st now ow sid = Inr (ch, s1)"
    using b by (auto simp: base_confirmed_def res_simps)
  then show "\<exists>ch s'. strict_budget_choices st now ow sid = Inr (ch, s')" by blast
  have one: "grown now ow sid [] st s1" by (rule choices_self [OF ch])
  obtain us where us: "filterR (\<lambda>a. andR (bl_owner a = ow \<and> bl_scope_id a = sid)
              (bindR (strict s1 now (Aware (bl_created_at a))) (\<lambda>b. Inr (\<not> b)))) (es_billables s1) = Inr us"
    using a by (auto simp: billable_budget_adjustment_def res_simps)
  obtain cs ks where cs: "add_canonical s1 ow sid start stop us (es_records s1) ([], {}) = (cs, ks)"
    by (cases "add_canonical s1 ow sid start stop us (es_records s1) ([], {})")
  obtain e where sum: "sum_effective s1 now (filter (\<lambda>a. bl_period_start a = start) us) = Inr (e, s)"
    using a by (auto simp: billable_budget_adjustment_def us cs res_simps)
  have in_scope: "bl_owner u = ow \<and> bl_scope_id u = sid" if "u \<in> set us" for u
    using filterR_mem [OF us that] by (auto simp: andR_def split: if_splits)
  have "grown now ow sid [] s1 s" by (rule sum_effective_self [OF sum]) (simp add: in_scope)
  then show "grown now ow sid [] st s" using evidence_grown_trans [OF one] by fastforce
qed

section \<open>Admission within the budget\<close>

text \<open>
  What the scope of a plan is committed to: what was used, and what is reserved for the requests in
  flight; \<open>None\<close> without a budget.
\<close>

definition committed_tokens ::
  "repository \<Rightarrow> instant \<Rightarrow> plan \<Rightarrow> date \<Rightarrow> (quota option \<times> int) res" where
  "committed_tokens rp now p stop =
     bindR (plan_quota rp now p stop) (\<lambda>(q, st).
     bindR (pending_tokens st now (pl_owner p) (pl_scope_id p) (pl_period_start p) (es_billables st))
       (\<lambda>(n, st'). Inr (q, n)))"

lemma quota_grown:
  assumes g: "grown now (pl_owner p) (pl_scope_id p) as (rp_evidence rp) st"
    and aware: "aware_cutover (rp_evidence rp)"
  shows "alike (grown now (pl_owner p) (pl_scope_id p) as) (plan_quota rp now p stop)
    (plan_quota (with_evidence rp st) now p stop)"
proof -
  have person: "alike (grown now (pl_owner p) (pl_scope_id p) as)
      (person_budget_state rp now (pl_scope_id p) start stop)
      (person_budget_state (with_evidence rp st) now (pl_scope_id p) start stop)"
    if "pl_owner p = Owner Person" for start
  proof (cases "row_at (bt_rows (rp_budgets rp)) (start, User, pl_scope_id p)")
    case (Some r)
    then show ?thesis using g that
      unfolding person_budget_state_def
      by (simp add: with_evidence_def) (rule alike_bind [OF confirmed_grown], simp_all add: aware)
  qed (use g in \<open>simp add: person_budget_state_def with_evidence_def\<close>)
  have app: "alike (grown now (pl_owner p) (pl_scope_id p) as)
      (application_budget_state rp now (pl_scope_id p) start stop)
      (application_budget_state (with_evidence rp st) now (pl_scope_id p) start stop)"
    if "pl_owner p = Owner Application" for start
  proof (cases "uuid_canon (pl_scope_id p)")
    case (Some u)
    show ?thesis
    proof (cases "rp_app_budgets rp (start, u)")
      case (Some b)
      then show ?thesis using g that \<open>uuid_canon (pl_scope_id p) = Some u\<close>
        unfolding application_budget_state_def
        by - (cases "ab_enforce b"; simp add: with_evidence_def; rule alike_bind [OF confirmed_grown]; simp add: aware)
    qed (use g \<open>uuid_canon (pl_scope_id p) = Some u\<close> in \<open>simp add: application_budget_state_def with_evidence_def\<close>)
  qed (simp add: application_budget_state_def)
  show ?thesis
  proof (cases "pl_authority p = Postgresql")
    case True
    show ?thesis
    proof (cases "pl_owner p")
      case (Owner k)
      then show ?thesis using person app True by (cases k) (simp_all add: plan_quota_def)
    qed (use g in \<open>simp add: plan_quota_def with_evidence_def\<close>)
  qed (use g in \<open>simp add: plan_quota_def with_evidence_def\<close>)
qed


lemma quota_self:
  assumes "plan_quota rp now p stop = Inr (q, st)"
  shows "grown now (pl_owner p) (pl_scope_id p) [] (rp_evidence rp) st"
    and "q \<noteq> None \<Longrightarrow> pl_authority p = Postgresql
      \<and> (\<exists>ch s. strict_budget_choices (rp_evidence rp) now (pl_owner p) (pl_scope_id p) = Inr (ch, s))"
proof -
  have confirmed: "(q = None \<and> st = rp_evidence rp)
    \<or> (pl_authority p = Postgresql \<and> (\<exists>n. budget_scope_confirmed_tokens (rp_evidence rp) now (pl_owner p) (pl_scope_id p)
          (pl_period_start p) stop = Inr (n, st)))"
  proof (cases "pl_authority p = Postgresql")
    case True
    show ?thesis
    proof (cases "pl_owner p")
      case (Owner k)
      then show ?thesis using assms True
        by (cases k)
          (auto simp: plan_quota_def person_budget_state_def application_budget_state_def res_simps
            split: option.splits if_splits)
    qed (use assms in \<open>simp add: plan_quota_def split: if_splits\<close>)
  qed (use assms in \<open>simp add: plan_quota_def\<close>)
  then show "grown now (pl_owner p) (pl_scope_id p) [] (rp_evidence rp) st"
    using confirmed_self(1) grown_refl by blast
  show "q \<noteq> None \<Longrightarrow> pl_authority p = Postgresql
      \<and> (\<exists>ch s. strict_budget_choices (rp_evidence rp) now (pl_owner p) (pl_scope_id p) = Inr (ch, s))"
    using confirmed confirmed_self(2) by blast
qed

lemma pending_self:
  "pending_tokens st now ow sid start bs = Inr (n, s) \<Longrightarrow> grown now ow sid [] st s"
proof (induction bs arbitrary: st n)
  case (Cons b bs)
  obtain v s1 m where e: "(if holds_tokens ow sid start b then effective_tokens st now b else Inr (Some 0, st)) = Inr (v, s1)"
    and r: "pending_tokens s1 now ow sid start bs = Inr (m, s)"
    using Cons.prems by (auto simp: res_simps)
  have "grown now ow sid [] st s1"
    using e effective_self [of st now b v s1] grown_refl by (auto simp: holds_tokens_def split: if_splits)
  then show ?case using evidence_grown_trans [OF _ Cons.IH [OF r]] by fastforce
qed (simp add: grown_refl)

lemma pending_append:
  "pending_tokens st now ow sid start (us @ vs)
   = bindR (pending_tokens st now ow sid start us) (\<lambda>(m, s).
     bindR (pending_tokens s now ow sid start vs) (\<lambda>(k, s'). Inr (m + k, s')))"
proof (induction us arbitrary: st)
  case Nil
  show ?case by (cases "pending_tokens st now ow sid start vs") auto
next
  case (Cons u us)
  let ?e = "if holds_tokens ow sid start u then effective_tokens st now u else Inr (Some 0, st)"
  show ?case
  proof (cases ?e)
    case (Inr x)
    obtain n s where x: "x = (n, s)" by (cases x)
    show ?thesis
    proof (cases "pending_tokens s now ow sid start us")
      case (Inr y)
      obtain m s2 where y: "y = (m, s2)" by (cases y)
      show ?thesis
        unfolding append_Cons pending_tokens.simps \<open>?e = Inr x\<close> x bindR_simps prod.case Cons.IH Inr y
        by (cases "pending_tokens s2 now ow sid start vs") (auto simp: add.assoc)
    next
      case (Inl e)
      show ?thesis
        unfolding append_Cons pending_tokens.simps \<open>?e = Inr x\<close> x bindR_simps prod.case Cons.IH Inl ..
    qed
  next
    case (Inl e)
    show ?thesis unfolding append_Cons pending_tokens.simps Inl bindR_simps ..
  qed
qed

text \<open>Every choice is for an identifier the evidence mentions.\<close>

lemma accept_all_keys:
  "accept_all st now ow sid f xs (ch, cf) = Inr (ch', cf') \<Longrightarrow> (\<And>i x. map_of ch i = Some x \<Longrightarrow> Q i) \<Longrightarrow>
   (\<And>x y. x \<in> set xs \<Longrightarrow> f x = Inr (Some y) \<Longrightarrow> Q (of_identity y)) \<Longrightarrow> map_of ch' i = Some z \<Longrightarrow> Q i"
proof (induction xs arbitrary: ch cf)
  case (Cons x xs)
  obtain v ch1 cf1 where v: "f x = Inr v"
    and one: "(case v of None \<Rightarrow> Inr (ch, cf) | Some y \<Rightarrow> accept st now ow sid y (ch, cf)) = Inr (ch1, cf1)"
    and rest: "accept_all st now ow sid f xs (ch1, cf1) = Inr (ch', cf')"
    using Cons.prems(1) by (auto simp: res_simps)
  have "Q j" if j: "map_of ch1 j = Some w" for j w
  proof (cases v)
    case None
    then show ?thesis using one Cons.prems(2) [of j w] j by simp
  next
    case (Some y)
    have y: "Q (of_identity y)" by (rule Cons.prems(3) [of x]) (simp_all add: v Some)
    have "ch1 = ch \<or> ch1 = AList.update (of_identity y) y ch"
      using one Some by (auto simp: accept_def res_simps split: if_splits option.splits)
    then have "map_of ch j = Some w \<or> j = of_identity y"
      using j by (auto simp: update_conv' split: if_splits)
    then show ?thesis using y Cons.prems(2) [of j w] by auto
  qed
  then show ?case using Cons.IH [OF rest _ _ Cons.prems(4)] Cons.prems(3) by auto
qed simp

lemma bound_attempt_mem:
  assumes "bound_attempt st now ow sid c = Inr (Some a)" shows "a \<in> set (es_billables st)"
proof -
  obtain us where us: "filterR (\<lambda>a. andR (bl_owner a = ow \<and> bl_scope_id a = sid)
              (if bl_id a = c then Inr True
               else andR (bl_correlation_id a = Some c) (strict st now (Aware (bl_created_at a)))))
      (es_billables st) = Inr us"
    and a: "(case us of [] \<Rightarrow> None | a # _ \<Rightarrow> Some a) = Some a"
    using assms by (auto simp: bound_attempt_def res_simps)
  have "a \<in> set us" using a by (cases us) auto
  then show ?thesis using filterR_mem [OF us] by blast
qed

lemma offer_mentioned:
  "a \<in> set (es_billables st) \<Longrightarrow> billable_offer ow sid a = Some y \<Longrightarrow> \<not> unmentioned st (of_identity y)"
  "f \<in> set (es_finalizations st) \<Longrightarrow> finalization_offer st' now ow sid f = Inr (Some y) \<Longrightarrow>
     es_billables st' = es_billables st \<Longrightarrow> \<not> unmentioned st (of_identity y)"
  "r \<in> set (es_records st) \<Longrightarrow> record_offer st' now ow sid r = Inr (Some y) \<Longrightarrow>
     es_billables st' = es_billables st \<Longrightarrow> \<not> unmentioned st (of_identity y)"
proof -
  show "a \<in> set (es_billables st) \<Longrightarrow> billable_offer ow sid a = Some y \<Longrightarrow> \<not> unmentioned st (of_identity y)"
    by (auto simp: billable_offer_def unmentioned_def split: if_splits)
  show "\<not> unmentioned st (of_identity y)"
    if f: "f \<in> set (es_finalizations st)" "finalization_offer st' now ow sid f = Inr (Some y)"
      and b: "es_billables st' = es_billables st"
  proof -
    obtain bound where bound: "bound_attempt st' now ow sid (fin_correlation_id f) = Inr bound"
      and y: "of_identity y = (case bound of Some a \<Rightarrow> bl_id a | None \<Rightarrow> fin_correlation_id f)"
      using f(2) by (auto simp: finalization_offer_def res_simps split: if_splits)
    show ?thesis
    proof (cases bound)
      case None
      then show ?thesis using y f(1) by (auto simp: unmentioned_def)
    next
      case (Some a)
      then have "a \<in> set (es_billables st)" using bound_attempt_mem [of st'] bound b by auto
      then show ?thesis using y Some by (auto simp: unmentioned_def)
    qed
  qed
  show "\<not> unmentioned st (of_identity y)"
    if r: "r \<in> set (es_records st)" "record_offer st' now ow sid r = Inr (Some y)"
      and b: "es_billables st' = es_billables st"
  proof -
    obtain i t where it: "record_identity st' now r ow sid = Inr (i, t)" "of_identity y = i"
      using r(2) by (auto simp: record_offer_def res_simps Let_def split: if_splits option.splits)
    show ?thesis
    proof (cases "find (made_for r ow sid) (es_billables st')")
      case None
      then have "i = ur_correlation_id r" using it(1) by (auto simp: record_identity_def res_simps)
      then show ?thesis using it(2) r(1) by (auto simp: unmentioned_def)
    next
      case (Some a)
      then have "i = bl_id a" "a \<in> set (es_billables st)"
        using it(1) find_Some_iff_mem [OF Some] b by (auto simp: record_identity_def)
      then show ?thesis using it(2) by (auto simp: unmentioned_def)
    qed
  qed
qed

lemma choice_mentioned:
  assumes "strict_budget_choices st now ow sid = Inr (ch, s)" "map_of ch i = Some x"
  shows "\<not> unmentioned st i"
proof -
  let ?n = "note_all st now ow sid"
  have n: "es_billables ?n = es_billables st" by (simp add: note_all_seen)
  obtain ch1 cf1 ch2 cf2 cf where
    a: "accept_all ?n now ow sid (\<lambda>a. Inr (billable_offer ow sid a)) (es_billables st) ([], es_conflicts st) = Inr (ch1, cf1)"
    and b: "accept_all ?n now ow sid (finalization_offer ?n now ow sid) (es_finalizations st) (ch1, cf1) = Inr (ch2, cf2)"
    and c: "accept_all ?n now ow sid (record_offer ?n now ow sid) (es_records st) (ch2, cf2) = Inr (ch, cf)"
    using assms(1) by (auto simp: strict_budget_choices_def Let_def res_simps)
  have one: "\<not> unmentioned st j" if "map_of ch1 j = Some w" for j w
    by (rule accept_all_keys [OF a _ _ that, where Q = "\<lambda>i. \<not> unmentioned st i"]) (auto dest: offer_mentioned(1))
  have two: "\<not> unmentioned st j" if "map_of ch2 j = Some w" for j w
    by (rule accept_all_keys [OF b _ _ that, where Q = "\<lambda>i. \<not> unmentioned st i"])
      (use one offer_mentioned(2) n in blast)+
  show ?thesis
    by (rule accept_all_keys [OF c _ _ assms(2), where Q = "\<lambda>i. \<not> unmentioned st i"])
      (use two offer_mentioned(3) n in blast)+
qed


lemma put_billable_new: "(\<And>b. b \<in> set bs \<Longrightarrow> bl_id b \<noteq> bl_id a) \<Longrightarrow> put_billable bs a = bs @ [a]"
  by (induction bs) auto

text \<open>A new attempt, after a choice that succeeded, has no tokens yet.\<close>

lemma silent_effective:
  assumes g: "grown now ow sid as s s'" and a: "a \<in> set as" "bl_owner a = ow" "bl_scope_id a = sid"
    and aware: "aware_cutover s" and ch: "strict_budget_choices s now ow sid = Inr (ch, s1)"
  shows "\<exists>s2. effective_tokens s' now a = Inr (None, s2)"
proof -
  obtain b where b: "strict s now (Aware (bl_created_at a)) = Inr b" using strict_total [OF aware] by blast
  show ?thesis
  proof (cases b)
    case True
    obtain s2 where s2: "strict_budget_choices s' now ow sid = Inr (ch, s2)"
      using alike_Inr [OF choices_grown [OF g] ch] by blast
    have "unmentioned s (bl_id a)" using grown_silent [OF g a(1)] by (simp add: silent_def)
    then have "map_of ch (bl_id a) = None" using choice_mentioned [OF ch] by (cases "map_of ch (bl_id a)") auto
    then show ?thesis using b True by (simp add: effective_tokens_def grown_strict [OF g] a s2)
  next
    case False
    then show ?thesis using silent_lenient [OF g a(1)] b by auto
  qed
qed

lemma begin_newE:
  assumes "begin_billable_request rp now fresh p = Inr (a, rp')"
    "find (reused_by p) (previous_attempts (rp_evidence rp) p) = None"
  obtains stop q st n st' where "period_end (pl_period_start p) = Inr stop"
    "plan_quota rp now p stop = Inr (q, st)"
    "pending_tokens st now (pl_owner p) (pl_scope_id p) (pl_period_start p) (es_billables st) = Inr (n, st')"
    "check_quota q n (pl_reserved_tokens p) = Inr ()"
    "a = started_attempt p fresh now (length (previous_attempts (rp_evidence rp) p))"
    "rp' = with_evidence rp (st'\<lparr>es_billables := put_billable (es_billables st') a\<rparr>)"
    "int (length (previous_attempts (rp_evidence rp) p)) < pl_attempt_limit p"
    "\<forall>b \<in> set (previous_attempts (rp_evidence rp) p). bl_authorization_id b \<noteq> pl_authorization_id p"
proof -
  have "make_billable (started_attempt p fresh now k) = Inr b \<Longrightarrow> b = started_attempt p fresh now k" for k b
    by (auto simp: make_billable_def checked_def res_simps split: if_splits)
  then show thesis
    using assms that
    by (auto simp: begin_billable_request_def Let_def res_simps not_le list_ex_iff split del: if_split)
qed

text \<open>
  C15. When begin_billable_request admits a new request of a scope whose budget blocks, what the
  scope has used and what is reserved for requests in flight, computed again on the state it
  leaves, has grown by exactly the reservation and still fits in the limit.
\<close>

theorem begin_within_quota:
  assumes began: "begin_billable_request rp now fresh p = Inr (a, rp')"
    and new: "find (reused_by p) (previous_attempts (rp_evidence rp) p) = None"
    and unused: "unmentioned (rp_evidence rp) fresh" and aware: "aware_cutover (rp_evidence rp)"
    and quota: "period_end (pl_period_start p) = Inr stop" "plan_quota rp now p stop = Inr (Some v, st)"
      "qt_mode v = ''block''"
  shows "\<exists>l m. qt_token_limit v = Some l \<and> committed_tokens rp now p stop = Inr (Some v, m)
    \<and> committed_tokens rp' now p stop = Inr (Some v, m + pl_reserved_tokens p)
    \<and> qt_used_tokens v + m + pl_reserved_tokens p \<le> l"
proof -
  let ?ow = "pl_owner p" and ?sid = "pl_scope_id p" and ?start = "pl_period_start p"
  obtain n st' where pending: "pending_tokens st now ?ow ?sid ?start (es_billables st) = Inr (n, st')"
    and check: "check_quota (Some v) n (pl_reserved_tokens p) = Inr ()"
    and a: "a = started_attempt p fresh now (length (previous_attempts (rp_evidence rp) p))"
    and rp': "rp' = with_evidence rp (st'\<lparr>es_billables := put_billable (es_billables st') a\<rparr>)"
    by (rule begin_newE [OF began new]) (use quota in auto)
  obtain l where l: "qt_token_limit v = Some l" "qt_used_tokens v + n + pl_reserved_tokens p \<le> l"
    using check quota(3) by (auto simp: check_quota_def guardR_def split: option.splits if_splits)
  have fa: "bl_id a = fresh" "bl_owner a = ?ow" "bl_scope_id a = ?sid" "bl_period_start a = ?start"
    "bl_reserved_tokens a = pl_reserved_tokens p" "bl_state a = Started" "bl_actual_tokens a = None"
    "bl_correlation_id a = None"
    by (simp_all add: a started_attempt_def)
  note g1 = quota_self(1) [OF quota(2)]
  have g2: "grown now ?ow ?sid [] st st'" by (rule pending_self [OF pending])
  have G: "grown now ?ow ?sid [] (rp_evidence rp) st'" using evidence_grown_trans [OF g1 g2] by simp
  define e' where "e' = st'\<lparr>es_billables := es_billables st' @ [a]\<rparr>"
  have "silent st' a"
    using unused fa by (simp add: silent_def unmentioned_def grown_fields [OF G])
  then have "grown now ?ow ?sid [a] st' e'" by (simp add: grown_def e'_def)
  then have g3: "grown now ?ow ?sid [a] (rp_evidence rp) e'" using evidence_grown_trans [OF G] by fastforce
  have "put_billable (es_billables st') a = es_billables st' @ [a]"
    by (rule put_billable_new) (use unused fa in \<open>auto simp: grown_fields [OF G] unmentioned_def\<close>)
  then have rp'_e: "rp' = with_evidence rp e'" by (simp add: rp' e'_def)
  obtain st1 where q1: "plan_quota rp' now p stop = Inr (Some v, st1)" and h1: "grown now ?ow ?sid [a] st st1"
    using alike_Inr [OF quota_grown [OF g3 aware] quota(2)] rp'_e by auto
  obtain st2 where p1: "pending_tokens st1 now ?ow ?sid ?start (es_billables st) = Inr (n, st2)"
    and h2: "grown now ?ow ?sid [a] st' st2"
    using alike_Inr [OF pending_grown [OF h1] pending] by blast
  obtain ch s0 where ch: "strict_budget_choices (rp_evidence rp) now ?ow ?sid = Inr (ch, s0)"
    and pg: "pl_authority p = Postgresql"
    using quota_self(2) [OF quota(2)] by blast
  obtain s1 where ch1: "strict_budget_choices st' now ?ow ?sid = Inr (ch, s1)"
    using alike_Inr [OF choices_grown [OF G] ch] by blast
  have "aware_cutover st'" using aware by (simp add: aware_cutover_def grown_fields [OF G])
  then obtain s2 where e: "effective_tokens st2 now a = Inr (None, s2)"
    using silent_effective [OF h2 _ fa(2,3) _ ch1] by auto
  have "holds_tokens ?ow ?sid ?start a"
    using fa pg by (simp add: holds_tokens_def by_apim_def a started_attempt_def has_key_def)
  then have "pending_tokens st1 now ?ow ?sid ?start (es_billables st1) = Inr (n + pl_reserved_tokens p, s2)"
    by (simp add: grown_fields(7) [OF h1] pending_append p1 e fa(5))
  then have "committed_tokens rp' now p stop = Inr (Some v, n + pl_reserved_tokens p)"
    by (simp add: committed_tokens_def q1)
  moreover have "committed_tokens rp now p stop = Inr (Some v, n)"
    by (simp add: committed_tokens_def quota(2) pending)
  ultimately show ?thesis using l by simp
qed

text \<open>
  A person whose budget is in USD has no limit in tokens: under enforcement the comparison raises,
  so that no request of that person is admitted, however much of the budget is left.
\<close>

theorem usd_person_refused:
  assumes "row_at (bt_rows (rp_budgets rp)) (pl_period_start p, User, pl_scope_id p) = Some r"
    "bg_token_limit r = None" "rp_enforcement rp (opt_or (bg_parent r) []) = Some ''block''"
    "pl_owner p = Owner Person" "pl_authority p = Postgresql"
    "find (reused_by p) (previous_attempts (rp_evidence rp) p) = None"
  shows "\<not> is_ok (begin_billable_request rp now fresh p)"
proof
  assume "is_ok (begin_billable_request rp now fresh p)"
  then obtain a rp' where b: "begin_billable_request rp now fresh p = Inr (a, rp')" by (auto simp: is_ok_iff)
  show False
  proof (rule begin_newE [OF b assms(6)])
    fix stop q st n st'
    assume q: "plan_quota rp now p stop = Inr (q, st)" and c: "check_quota q n (pl_reserved_tokens p) = Inr ()"
    obtain v where "q = Some v" "qt_mode v = ''block''" "qt_token_limit v = None"
      using q assms(1-5) by (auto simp: plan_quota_def person_budget_state_def res_simps)
    then show False using c by (simp add: check_quota_def)
  qed
qed

end
