(* ===== verification/Billable_Runs.thy ===== *)
theory Billable_Runs
  imports Billable_Quota
begin

text \<open>
  Runs of \<open>begin_billable_request\<close> and \<open>finish_billable_request\<close>, with usage and gateway evidence
  arriving in between: the attempts of an operation are numbered, each has its own authorization,
  an exact acknowledgement is final, and it is what later requests and recoveries get.
\<close>

section \<open>Steps\<close>

abbreviation attempts :: "repository \<Rightarrow> billable list" where
  "attempts rp \<equiv> es_billables (rp_evidence rp)"

inductive billing_step :: "repository \<Rightarrow> repository \<Rightarrow> bool" where
  begins: "valid_plan p \<Longrightarrow> (\<forall>b \<in> set (attempts rp). bl_id b \<noteq> fresh) \<Longrightarrow>
     begin_billable_request rp now fresh p = Inr (a, rp') \<Longrightarrow> billing_step rp rp'"
| finishes: "finish_billable_request rp now i x = Inr rp' \<Longrightarrow> billing_step rp rp'"
| evidence: "attempts rp' = attempts rp \<Longrightarrow> billing_step rp rp'"

abbreviation billing_run :: "repository \<Rightarrow> repository \<Rightarrow> bool" where
  "billing_run \<equiv> billing_step\<^sup>*\<^sup>*"

text \<open>What a step does to the attempts.\<close>

lemma put_billable_map:
  "(\<exists>b \<in> set bs. bl_id b = bl_id a) \<Longrightarrow> distinct (map bl_id bs) \<Longrightarrow>
     put_billable bs a = map (\<lambda>b. if bl_id b = bl_id a then a else b) bs"
proof (induction bs)
  case (Cons b bs)
  show ?case
  proof (cases "bl_id b = bl_id a")
    case True
    then have "\<forall>c \<in> set bs. bl_id c \<noteq> bl_id a" using Cons.prems(2) by (auto simp: image_iff)
    then have "map (\<lambda>b. if bl_id b = bl_id a then a else b) bs = bs" by (intro map_idI) simp
    then show ?thesis using True by simp
  qed (use Cons in auto)
qed simp

lemma begin_attempts:
  assumes "begin_billable_request rp now fresh p = Inr (a, rp')" "\<forall>b \<in> set (attempts rp). bl_id b \<noteq> fresh"
  shows "(rp' = rp \<and> a \<in> set (attempts rp) \<and> bl_operation_key a = pl_operation_key p \<and> reused_by p a)
    \<or> (attempts rp' = attempts rp @ [a]
       \<and> a = started_attempt p fresh now (length (previous_attempts (rp_evidence rp) p))
       \<and> int (length (previous_attempts (rp_evidence rp) p)) < pl_attempt_limit p
       \<and> (\<forall>b \<in> set (previous_attempts (rp_evidence rp) p). bl_authorization_id b \<noteq> pl_authorization_id p))"
proof (cases "find (reused_by p) (previous_attempts (rp_evidence rp) p)")
  case (Some b)
  then show ?thesis
    using assms(1) find_Some_iff_mem [OF Some]
    by (auto simp: begin_billable_request_def previous_attempts_def)
next
  case None
  show ?thesis
    using assms(1) None
  proof (rule begin_newE)
    fix stop q st n st'
    assume r: "plan_quota rp now p stop = Inr (q, st)"
      "pending_tokens st now (pl_owner p) (pl_scope_id p) (pl_period_start p) (es_billables st) = Inr (n, st')"
      "a = started_attempt p fresh now (length (previous_attempts (rp_evidence rp) p))"
      "rp' = with_evidence rp (st'\<lparr>es_billables := put_billable (es_billables st') a\<rparr>)"
      "int (length (previous_attempts (rp_evidence rp) p)) < pl_attempt_limit p"
      "\<forall>b \<in> set (previous_attempts (rp_evidence rp) p). bl_authorization_id b \<noteq> pl_authorization_id p"
    have "es_billables st' = attempts rp"
      using grown_fields(7) [OF evidence_grown_trans [OF quota_self(1) [OF r(1)] pending_self [OF r(2)]]] by simp
    moreover have "bl_id a = fresh" by (simp add: r(3) started_attempt_def)
    ultimately have "attempts rp' = attempts rp @ [a]"
      using put_billable_new assms(2) by (simp add: r(4) with_evidence_def)
    then show ?thesis using r by blast
  qed
qed

lemma finish_attempts:
  assumes "finish_billable_request rp now i x = Inr rp'" "distinct (map bl_id (attempts rp))"
  shows "rp' = rp \<or> (\<exists>a \<in> set (attempts rp). bl_id a = i \<and> bl_state a \<noteq> Exact
    \<and> measured_state (finished_attempt a x now)
    \<and> attempts rp' = map (\<lambda>b. if bl_id b = i then finished_attempt a x now else b) (attempts rp))"
proof -
  obtain y where y: "make_outcome x = Inr y" using assms(1) by (auto simp: finish_billable_request_def res_simps)
  then have yx: "y = x" by (auto simp: make_outcome_def checked_def res_simps)
  obtain a where a: "find (\<lambda>a. bl_id a = i) (attempts rp) = Some a"
    using assms(1) y by (auto simp: finish_billable_request_def split: option.splits)
  show ?thesis
  proof (cases "bl_state a = Exact")
    case True
    then show ?thesis using assms(1) y a by (auto simp: finish_billable_request_def res_simps)
  next
    case False
    then obtain b where b: "make_billable (finished_attempt a x now) = Inr b"
      and rp': "rp' = with_evidence rp ((rp_evidence rp)\<lparr>es_billables := put_billable (attempts rp) b\<rparr>)"
      using assms(1) y a yx by (auto simp: finish_billable_request_def res_simps)
    have bf: "b = finished_attempt a x now" "measured_state b"
      using b by (auto simp: make_billable_def checked_def res_simps)
    have ai: "a \<in> set (attempts rp)" "bl_id a = i" using find_Some_iff_mem [OF a] by auto
    have "bl_id b = i" using ai by (simp add: bf finished_attempt_def)
    then have "attempts rp' = map (\<lambda>c. if bl_id c = i then b else c) (attempts rp)"
      using put_billable_map [of "attempts rp" b] ai assms(2) by (auto simp: rp' with_evidence_def)
    then show ?thesis using False ai bf by auto
  qed
qed

section \<open>What every run maintains\<close>

definition of_operation :: "string \<Rightarrow> billable list \<Rightarrow> billable list" where
  "of_operation k bs = filter (\<lambda>b. bl_operation_key b = k) bs"

definition billing_ok :: "billable list \<Rightarrow> bool" where
  "billing_ok bs \<longleftrightarrow>
     distinct (map bl_id bs) \<and> list_all measured_state bs
     \<and> (\<forall>k. map bl_attempt_index (of_operation k bs) = map int [1..<length (of_operation k bs) + 1]
          \<and> distinct (map bl_authorization_id (of_operation k bs))
          \<and> length (of_operation k bs) \<le> 32)"

lemma finished_fields [simp]:
  "bl_id (finished_attempt a x now) = bl_id a"
  "bl_operation_key (finished_attempt a x now) = bl_operation_key a"
  "bl_attempt_index (finished_attempt a x now) = bl_attempt_index a"
  "bl_authorization_id (finished_attempt a x now) = bl_authorization_id a"
  by (simp_all add: finished_attempt_def)

lemma of_operation_replaced:
  assumes "\<And>b. b \<in> set bs \<Longrightarrow> bl_operation_key (f b) = bl_operation_key b"
  shows "of_operation k (map f bs) = map f (of_operation k bs)"
  using assms by (induction bs) (auto simp: of_operation_def)

lemma billing_ok_replaced:
  assumes ok: "billing_ok bs" and m: "list_all measured_state (map f bs)"
    and f: "\<And>b. b \<in> set bs \<Longrightarrow> bl_id (f b) = bl_id b \<and> bl_operation_key (f b) = bl_operation_key b
      \<and> bl_attempt_index (f b) = bl_attempt_index b \<and> bl_authorization_id (f b) = bl_authorization_id b"
  shows "billing_ok (map f bs)"
proof -
  have o: "of_operation k (map f bs) = map f (of_operation k bs)" for k
    by (rule of_operation_replaced) (simp add: f)
  have sub: "b \<in> set bs" if "b \<in> set (of_operation k bs)" for b k using that by (simp add: of_operation_def)
  have "map bl_id (map f bs) = map bl_id bs" using f by simp
  moreover have "map bl_attempt_index (map f (of_operation k bs)) = map bl_attempt_index (of_operation k bs)"
    "map bl_authorization_id (map f (of_operation k bs)) = map bl_authorization_id (of_operation k bs)" for k
    using f sub [of _ k] by simp_all
  ultimately show ?thesis using ok m unfolding billing_ok_def o length_map by (simp only: simp_thms)
qed

lemma billing_ok_started:
  assumes ok: "billing_ok bs" and fresh: "\<forall>b \<in> set bs. bl_id b \<noteq> bl_id a" and m: "measured_state a"
    and n: "bl_attempt_index a = int (length (of_operation (bl_operation_key a) bs)) + 1"
    and auth: "\<forall>b \<in> set (of_operation (bl_operation_key a) bs). bl_authorization_id b \<noteq> bl_authorization_id a"
    and small: "length (of_operation (bl_operation_key a) bs) < 32"
  shows "billing_ok (bs @ [a])"
proof -
  have o: "of_operation k (bs @ [a]) = of_operation k bs @ (if bl_operation_key a = k then [a] else [])" for k
    by (simp add: of_operation_def)
  have "distinct (map bl_id (bs @ [a]))" using ok fresh by (auto simp: billing_ok_def)
  moreover have "list_all measured_state (bs @ [a])" using ok m by (simp add: billing_ok_def)
  moreover have "map bl_attempt_index (of_operation k (bs @ [a])) = map int [1..<length (of_operation k (bs @ [a])) + 1]" for k
    using ok n by (auto simp: billing_ok_def o)
  moreover have "distinct (map bl_authorization_id (of_operation k (bs @ [a])))" for k
    using ok auth by (auto simp: billing_ok_def o)
  moreover have "length (of_operation k (bs @ [a])) \<le> 32" for k
    using ok small by (auto simp: billing_ok_def o)
  ultimately show ?thesis by (simp add: billing_ok_def)
qed

lemma step_billing_ok:
  assumes "billing_step rp rp'" "billing_ok (attempts rp)"
  shows "billing_ok (attempts rp')"
  using assms
proof cases
  case (begins p fresh now a)
  have valid: "pl_attempt_limit p \<le> 32" using begins(1) by (simp add: valid_plan_def)
  from begin_attempts [OF begins(3,2)] show ?thesis
  proof (elim disjE conjE)
    assume new: "attempts rp' = attempts rp @ [a]"
      "a = started_attempt p fresh now (length (previous_attempts (rp_evidence rp) p))"
      "int (length (previous_attempts (rp_evidence rp) p)) < pl_attempt_limit p"
      "\<forall>b \<in> set (previous_attempts (rp_evidence rp) p). bl_authorization_id b \<noteq> pl_authorization_id p"
    have o: "of_operation (pl_operation_key p) (attempts rp) = previous_attempts (rp_evidence rp) p"
      by (simp add: of_operation_def previous_attempts_def)
    have f: "bl_id a = fresh" "bl_operation_key a = pl_operation_key p" "measured_state a"
      "bl_authorization_id a = pl_authorization_id p"
      "bl_attempt_index a = int (length (previous_attempts (rp_evidence rp) p)) + 1"
      by (simp_all add: new(2) started_attempt_def measured_state_def)
    show ?thesis
      unfolding new(1)
      by (rule billing_ok_started [OF assms(2)]) (use begins(2) new(3,4) valid in \<open>simp_all add: f o\<close>)
  qed (use assms(2) in simp)
next
  case (finishes now i x)
  have d: "distinct (map bl_id (attempts rp))" using assms(2) by (simp add: billing_ok_def)
  from finish_attempts [OF finishes d] show ?thesis
  proof (elim disjE bexE conjE)
    fix a assume a: "a \<in> set (attempts rp)" "bl_id a = i" "measured_state (finished_attempt a x now)"
      and rp': "attempts rp' = map (\<lambda>b. if bl_id b = i then finished_attempt a x now else b) (attempts rp)"
    have same: "b = a" if "b \<in> set (attempts rp)" "bl_id b = i" for b
      using d a(1,2) that by (metis distinct_map inj_onD)
    show ?thesis
      unfolding rp'
    proof (rule billing_ok_replaced [OF assms(2)])
      show "list_all measured_state (map (\<lambda>b. if bl_id b = i then finished_attempt a x now else b) (attempts rp))"
        using assms(2) a(3) by (auto simp: billing_ok_def list_all_iff)
    qed (auto dest: same)
  qed (use assms(2) in simp)
qed (use assms(2) in simp)

text \<open>
  C16. After any run of begins of valid plans, finishes and arrivals of evidence, attempt
  identifiers are distinct, exactly the exact attempts have a measured total, and the attempts of
  an operation are numbered from 1 without gaps, at most 32, each with its own authorization.
\<close>

theorem billing_numbered:
  assumes "billing_run rp rp'" "attempts rp = []"
  shows "billing_ok (attempts rp')"
proof -
  have "billing_ok (attempts rp)" using assms(2) by (simp add: billing_ok_def of_operation_def)
  with assms(1) show ?thesis by (induction rule: rtranclp_induct) (auto intro: step_billing_ok)
qed

section \<open>Exact acknowledgements are final\<close>

lemma step_keeps_exact:
  assumes "billing_step rp rp'" "billing_ok (attempts rp)" "b \<in> set (attempts rp)" "bl_state b = Exact"
  shows "b \<in> set (attempts rp')"
  using assms(1)
proof cases
  case (begins p fresh now a)
  then show ?thesis using begin_attempts [OF begins(3,2)] assms(3) by auto
next
  case (finishes now i x)
  have d: "distinct (map bl_id (attempts rp))" using assms(2) by (simp add: billing_ok_def)
  from finish_attempts [OF finishes d] show ?thesis
  proof (elim disjE bexE conjE)
    fix a assume a: "a \<in> set (attempts rp)" "bl_id a = i" "bl_state a \<noteq> Exact"
      and rp': "attempts rp' = map (\<lambda>c. if bl_id c = i then finished_attempt a x now else c) (attempts rp)"
    have "bl_id b \<noteq> i"
    proof
      assume "bl_id b = i"
      then have "b = a" using d a(1,2) assms(3) by (metis distinct_map inj_onD)
      then show False using a(3) assms(4) by simp
    qed
    then show ?thesis using assms(3) by (auto simp: rp' image_iff)
  qed (use assms(3) in simp)
qed (use assms(3) in simp)

lemma run_keeps:
  assumes "billing_run rp rp'" "billing_ok (attempts rp)"
  shows "billing_ok (attempts rp') \<and> (\<forall>b \<in> set (attempts rp). bl_state b = Exact \<longrightarrow> b \<in> set (attempts rp'))"
  using assms
proof (induction rule: rtranclp_induct)
  case (step rp1 rp2)
  then have ok: "billing_ok (attempts rp1)"
    and keep: "\<forall>b \<in> set (attempts rp). bl_state b = Exact \<longrightarrow> b \<in> set (attempts rp1)" by simp_all
  show ?case using step_billing_ok [OF step.hyps(2) ok] step_keeps_exact [OF step.hyps(2) ok] keep by blast
qed simp

text \<open>
  C17. An exact acknowledgement is final: every later run keeps the attempt as it is, and
  finishing it again is refused or changes nothing.
\<close>

theorem exact_final:
  assumes "billing_ok (attempts rp)" "billing_run rp rp'" "b \<in> set (attempts rp)" "bl_state b = Exact"
  shows "b \<in> set (attempts rp') \<and> (\<forall>now x rp''. finish_billable_request rp' now (bl_id b) x = Inr rp'' \<longrightarrow> rp'' = rp')"
proof -
  have ok: "billing_ok (attempts rp')" and b: "b \<in> set (attempts rp')"
    using run_keeps [OF assms(2,1)] assms(3,4) by auto
  have "rp'' = rp'" if f: "finish_billable_request rp' now (bl_id b) x = Inr rp''" for now x rp''
  proof -
    have d: "distinct (map bl_id (attempts rp'))" using ok by (simp add: billing_ok_def)
    have same: "a = b" if "a \<in> set (attempts rp')" "bl_id a = bl_id b" for a
      using d b that by (metis distinct_map inj_onD)
    show ?thesis using finish_attempts [OF f d] same assms(4) by blast
  qed
  then show ?thesis using b by blast
qed

text \<open>The same request again, or its recovery, gets the exact attempt: it is not paid twice.\<close>

lemma begin_reuses:
  assumes "billing_ok (attempts rp)" "billing_run rp rp'" "b \<in> set (attempts rp)"
    "bl_operation_key b = pl_operation_key p" "reused_by p b"
  shows "\<exists>a. begin_billable_request rp' now fresh p = Inr (a, rp') \<and> a \<in> set (attempts rp') \<and> reused_by p a"
proof -
  have "bl_state b = Exact" using assms(5) by (simp add: reused_by_def)
  then have "b \<in> set (previous_attempts (rp_evidence rp') p)"
    using run_keeps [OF assms(2,1)] assms(3,4) by (auto simp: previous_attempts_def)
  then obtain a where a: "find (reused_by p) (previous_attempts (rp_evidence rp') p) = Some a"
    using assms(5) by (cases "find (reused_by p) (previous_attempts (rp_evidence rp') p)") (auto simp: find_None_all)
  then show ?thesis
    using find_Some_iff_mem [OF a] by (auto simp: begin_billable_request_def previous_attempts_def)
qed

text \<open>
  C18. A request whose operation already has an exact attempt that satisfies the plan is answered
  with such an attempt in every later state, and nothing is reserved or written: an operation is
  not paid twice.
\<close>

theorem begin_again:
  assumes "billing_ok (attempts rp)" "billing_run rp rp'" "b \<in> set (attempts rp)"
    "bl_operation_key b = pl_operation_key p" "reused_by p b"
  shows "\<exists>a. begin_billable_request rp' now fresh p = Inr (a, rp') \<and> a \<in> set (attempts rp') \<and> reused_by p a"
  by (rule begin_reuses [OF assms])

lemma filter_unique:
  "distinct (map f xs) \<Longrightarrow> b \<in> set xs \<Longrightarrow> P b \<Longrightarrow> (\<And>a. a \<in> set xs \<Longrightarrow> P a \<Longrightarrow> f a = f b) \<Longrightarrow> filter P xs = [b]"
proof (induction xs)
  case (Cons x xs)
  have notin: "f x \<notin> f ` set xs" using Cons.prems(1) by simp
  show ?case
  proof (cases "x = b")
    case True
    have "\<not> P a" if a: "a \<in> set xs" for a
    proof
      assume "P a"
      then have "f a = f x" unfolding True by (intro Cons.prems(4)) (simp_all add: a)
      then show False using notin a by (metis image_eqI)
    qed
    then show ?thesis using True Cons.prems(3) by (simp add: filter_False)
  next
    case False
    then have b: "b \<in> set xs" using Cons.prems(2) by simp
    have "\<not> P x"
    proof
      assume "P x"
      then have "f x = f b" by (intro Cons.prems(4)) simp_all
      then show False using notin b by (metis image_eqI)
    qed
    moreover have "filter P xs = [b]"
    proof (rule Cons.IH)
      show "distinct (map f xs)" using Cons.prems(1) by simp
      show "b \<in> set xs" "P b" using b Cons.prems(3) by simp_all
      show "f a = f b" if "a \<in> set xs" "P a" for a by (rule Cons.prems(4)) (use that in simp_all)
    qed
    ultimately show ?thesis by simp
  qed
qed simp

theorem recovery_exact:
  assumes "billing_ok (attempts rp)" "billing_run rp rp'" "b \<in> set (attempts rp)" "recovered_by p b"
  shows "recover_billable_request rp' p = Inr b"
proof -
  have key: "bl_operation_key b = pl_operation_key p" "bl_authorization_id b = pl_authorization_id p"
    "bl_state b = Exact"
    using assms(4) by (simp_all add: recovered_by_def)
  have ok: "billing_ok (attempts rp')" and b: "b \<in> set (attempts rp')"
    using run_keeps [OF assms(2,1)] assms(3) key(3) by auto
  have o: "previous_attempts (rp_evidence rp') p = of_operation (pl_operation_key p) (attempts rp')"
    by (simp add: previous_attempts_def of_operation_def)
  have "filter (recovered_by p) (of_operation (pl_operation_key p) (attempts rp')) = [b]"
  proof (rule filter_unique [where f = bl_authorization_id])
    show "distinct (map bl_authorization_id (of_operation (pl_operation_key p) (attempts rp')))"
      using ok by (simp add: billing_ok_def)
    show "b \<in> set (of_operation (pl_operation_key p) (attempts rp'))" using b key by (simp add: of_operation_def)
  qed (use assms(4) key in \<open>simp_all add: recovered_by_def\<close>)
  moreover have "length (of_operation (pl_operation_key p) (attempts rp')) \<le> 32" using ok by (simp add: billing_ok_def)
  ultimately show ?thesis by (simp add: recover_billable_request_def recover_billable_attempt_def o)
qed

end
