(* ===== verification/Budget_Examples.thy ===== *)
theory Budget_Examples
  imports Billable_Runs "HOL-Library.Code_Target_Nat"
begin

text \<open>
  Concrete evidence, budgets and billable requests on which the theorems about the in-memory
  repository apply, and two behaviours that differ from what the code means to do.
\<close>

section \<open>Evidence\<close>

definition noon :: instant where "noon = 1773568800000000"

definition march :: date where "march = Date 2026 3 1"

definition person :: owner where "person = Owner Person"

definition usage1 :: billed_record where
  "usage1 = \<lparr>ur_correlation_id = ''c-1'', ur_ts = Aware (noon + 2), ur_domain = ''apim'', ur_input = 20,
     ur_cached = 0, ur_cache_write = 0, ur_output = 10, ur_estimated = False, ur_ingest_error = None,
     br_id = ''u-1'', br_request_id = ''r-1'', br_user_id = ''alice'', br_model_id = ''m-1'',
     br_request_source = ''gateway'', br_status_code = 200\<rparr>"

definition log1 :: finalization where
  "log1 = \<lparr>fin_scope_type = Person, fin_scope_id = ''alice'', fin_period_start = march,
     fin_correlation_id = ''c-1'', fin_created_at = noon + 1, fin_reservation_tokens = 50,
     fin_evidence_at = noon + 2, fin_status_code = Some 200, fin_input_tokens = Some 20,
     fin_output_tokens = Some 15, fin_total_tokens = 35, fin_kind = Exact_usage, fin_source = Apim_llm_log\<rparr>"

definition log2 :: finalization where
  "log2 = log1\<lparr>fin_kind := Unverified_upper_bound, fin_source := Reservation_timeout,
     fin_status_code := None, fin_input_tokens := None, fin_output_tokens := None, fin_total_tokens := 50\<rparr>"

definition evidence1 :: evidence_state where
  "evidence1 = \<lparr>es_effective_at = Some (Aware noon), es_admissions = Map.empty, es_finalizations = [log1],
     es_received_at = Map.empty, es_conflicts = {}, es_reconciled = {}, es_billables = [],
     es_records = [usage1], es_attributions = Map.empty\<rparr>"

text \<open>The provider's count wins over the gateway's log, and the disagreement is recorded.\<close>

definition evidence2 :: evidence_state where
  "evidence2 = evidence1\<lparr>es_received_at := [finalization_evidence_key log1 \<mapsto> noon + 5]\<rparr>"

definition offer_log :: offer where
  "offer_log = \<lparr>of_identity = ''c-1'', of_admitted = Aware (noon + 1), of_tokens = 35, of_rank = 1,
     of_received = noon + 5\<rparr>"

definition offer_usage :: offer where
  "offer_usage = \<lparr>of_identity = ''c-1'', of_admitted = Aware (noon + 1), of_tokens = 30, of_rank = 3,
     of_received = noon + 2\<rparr>"

lemma note_evidence1: "note_all evidence1 (noon + 5) person ''alice'' = evidence2"
  by (simp add: note_all_def evidence2_def evidence1_def note_received_def setdefault_def person_def log1_def)

lemma offers1:
  "finalization_offer evidence2 (noon + 5) person ''alice'' log1 = Inr (Some offer_log)"
  "record_offer evidence2 (noon + 5) person ''alice'' usage1 = Inr (Some offer_usage)"
  by code_simp+

lemma strict2: "strict evidence2 (noon + 5) (Aware (noon + 1)) = Inr True"
  by (simp add: strict_def strict_budget_evidence_def evidence2_def evidence1_def)

lemma offer_fields:
  "of_admitted offer_log = Aware (noon + 1)" "of_admitted offer_usage = Aware (noon + 1)"
  "of_identity offer_log = ''c-1''" "of_identity offer_usage = ''c-1''"
  "of_tokens offer_log = 35" "of_tokens offer_usage = 30" "better offer_usage offer_log"
  by (simp_all add: offer_log_def offer_usage_def better_def)

lemma accepts1:
  "accept evidence2 (noon + 5) person ''alice'' offer_log ([], {}) = Inr ([(''c-1'', offer_log)], {})"
  "accept evidence2 (noon + 5) person ''alice'' offer_usage ([(''c-1'', offer_log)], {})
   = Inr ([(''c-1'', offer_usage)], {(person, ''alice'', ''c-1'', 35, 30)})"
  by (simp add: accept_def strict2 offer_fields)+

lemma run_choices:
  "strict_budget_choices evidence1 (noon + 5) person ''alice''
   = Inr ([(''c-1'', offer_usage)], evidence2\<lparr>es_conflicts := {(person, ''alice'', ''c-1'', 35, 30)}\<rparr>)"
proof -
  have e: "es_billables evidence1 = []" "es_finalizations evidence1 = [log1]" "es_records evidence1 = [usage1]"
    "es_conflicts evidence1 = {}"
    by (simp_all add: evidence1_def)
  show ?thesis
    by (simp only: strict_budget_choices_def Let_def note_evidence1 e accept_all.simps bindR_simps offers1
        option.case accepts1 prod.case)
qed

lemma strict_choices_best_witness:
  "\<exists>ch st' os x. strict_budget_choices evidence1 (noon + 5) person ''alice'' = Inr (ch, st')
     \<and> strict_offers evidence1 (noon + 5) person ''alice'' = Inr os
     \<and> map_of ch ''c-1'' = Some x \<and> of_tokens x = 30 \<and> x \<in> set os
     \<and> (\<forall>y \<in> set os. of_identity y = ''c-1'' \<longrightarrow> \<not> better y x)"
proof -
  have "map_of [(''c-1'', offer_usage)] ''c-1'' = Some offer_usage" "of_tokens offer_usage = 30"
    by (simp_all add: offer_usage_def)
  moreover obtain os where "strict_offers evidence1 (noon + 5) person ''alice'' = Inr os"
    and "\<forall>i x. map_of [(''c-1'', offer_usage)] i = Some x \<longrightarrow> x \<in> set os \<and> of_identity x = i
      \<and> (\<forall>y \<in> set os. of_identity y = i \<longrightarrow> \<not> better y x)"
    using strict_choices_best [OF run_choices] by (elim exE conjE)
  ultimately show ?thesis
    by (intro exI [of _ os] exI [of _ offer_usage] exI [of _ "[(''c-1'', offer_usage)]"]
        exI [of _ "evidence2\<lparr>es_conflicts := {(person, ''alice'', ''c-1'', 35, 30)}\<rparr>"] conjI run_choices) simp_all
qed

definition admission1 :: reservation_admission where
  "admission1 = \<lparr>adm_scope_type = Person, adm_scope_id = ''alice'', adm_correlation_id = ''c-1'',
     adm_created_at = noon, adm_reserved_tokens = 50\<rparr>"

lemma admissions_immutable_witness:
  "\<exists>st'. register_budget_reservations evidence1 [admission1, admission1] = Inr st'
     \<and> es_admissions st' (admission_key admission1) = Some admission1"
proof -
  obtain st' where st': "register_budget_reservations evidence1 [admission1, admission1] = Inr st'"
    by (cases "register_budget_reservations evidence1 [admission1, admission1]")
      (auto simp: register_budget_reservations_def evidence1_def Let_def)
  show ?thesis using admissions_immutable [OF st'] st' by simp
qed

lemma finalization_never_weakens_witness:
  "\<exists>st' r y. save_finalizations evidence1 (noon + 9) [log2] 0 = (st', r)
     \<and> reservation_finalization_kind st' Person ''alice'' ''c-1'' = Some y \<and> 3 \<le> strength y"
proof -
  obtain st' r where s: "save_finalizations evidence1 (noon + 9) [log2] 0 = (st', r)" by fastforce
  have k: "reservation_finalization_kind evidence1 Person ''alice'' ''c-1'' = Some Exact_usage" by code_simp
  show ?thesis using finalization_never_weakens [OF s k] s by auto
qed

section \<open>Budgets\<close>

definition budget :: "level \<Rightarrow> string \<Rightarrow> string option \<Rightarrow> int \<Rightarrow> budget_row" where
  "budget l sid parent n = \<lparr>bg_period = march, bg_level = l, bg_id = sid, bg_parent = parent,
     bg_mode = Tokens, bg_token_limit = Some n, bg_usd_limit = None, bg_warning = 80,
     bg_updated_at = noon, bg_updated_by = ''admin''\<rparr>"

definition tree1 :: budget_state where
  "tree1 = \<lparr>bt_rows = [budget Organization ''org'' None 500, budget Department ''dep'' (Some ''org'') 100,
      budget User ''ann'' (Some ''dep'') 60, budget User ''bob'' (Some ''dep'') 20,
      budget User ''cyd'' (Some ''dep'') 20],
     bt_audit = [], bt_rolled = Map.empty\<rparr>"

lemma tree1_ok: "tree_ok (bt_rows tree1)" by code_simp

lemma upsert_keeps_hierarchy_witness:
  "\<exists>st'. upsert_token_budget tree1 ''id'' (budget User ''ann'' (Some ''dep'') 50) = Inr st'
     \<and> tree_ok (bt_rows st')"
proof -
  have ok: "is_ok (upsert_token_budget tree1 ''id'' (budget User ''ann'' (Some ''dep'') 50))" by code_simp
  obtain st' where st': "upsert_token_budget tree1 ''id'' (budget User ''ann'' (Some ''dep'') 50) = Inr st'"
    using ok by (auto simp: is_ok_iff)
  have "small_sums (bt_rows tree1) (budget User ''ann'' (Some ''dep'') 50)" by code_simp
  then show ?thesis using upsert_keeps_hierarchy [OF st' tree1_ok] st' by blast
qed

lemma delete_keeps_hierarchy_witness:
  "tree_ok (bt_rows (fst (delete_token_budget tree1 ''id'' noon march User ''ann'' ''admin'')))"
  using delete_keeps_hierarchy [OF tree1_ok] by (metis prod.collapse)

lemma roll_forward_keeps_hierarchy_witness:
  "tree_ok (bt_rows (fst (roll_forward_budgets tree1 (\<lambda>_. ''id'') noon (Date 2026 4 1) ''job'')))"
  using roll_forward_keeps_hierarchy [OF tree1_ok] by (metis prod.collapse)

definition shift :: "(string \<times> int) list" where "shift = [(''ann'', 50), (''cyd'', 45), (''bob'', 5)]"

lemma bulk_keeps_hierarchy_witness:
  "tree_ok (bt_rows (fst (bulk_upsert_user_budgets tree1 (\<lambda>_. ''id'') noon march ''dep'' shift 80 ''admin'' Tokens)))"
proof -
  have "0 \<le> n" if "(sid, n) \<in> set shift" for sid n using that by (auto simp: shift_def)
  then show ?thesis using bulk_keeps_hierarchy [OF _ tree1_ok] by (metis prod.collapse)
qed

text \<open>
  Moving budget between users of a department: the new limits of \<open>shift\<close> fit in the department, but
  the entries are assigned one by one, each against the limits the others still have, so that the
  second is refused, after the first was written.
\<close>


section \<open>Billable requests\<close>

definition alice_budget :: budget_row where
  "alice_budget = (budget User ''alice'' (Some ''dep'') 200)"

definition repo1 :: repository where
  "repo1 = \<lparr>rp_evidence = evidence1\<lparr>es_effective_at := None, es_finalizations := []\<rparr>,
     rp_budgets = \<lparr>bt_rows = [alice_budget], bt_audit = [], bt_rolled = Map.empty\<rparr>,
     rp_enforcement = [''dep'' \<mapsto> ''block''], rp_app_budgets = Map.empty\<rparr>"

definition plan1 :: plan where
  "plan1 = \<lparr>pl_operation_key = ''probe'', pl_plan_sha256 = replicate 64 (CHR ''a''), pl_owner = person,
     pl_scope_id = ''alice'', pl_period_start = march, pl_model_id = ''m-1'', pl_model_key = ''gpt'',
     pl_reserved_tokens = 100, pl_authorization_id = Some ''auth-1'', pl_attempt_limit = 2,
     pl_reuse_requires = [], pl_authority = Postgresql\<rparr>"

lemma run_quota:
  "case plan_quota repo1 (noon + 9) plan1 (Date 2026 4 1) of
     Inr (Some v, st) \<Rightarrow> qt_mode v = ''block'' \<and> qt_token_limit v = Some 200 \<and> qt_used_tokens v = 30
   | _ \<Rightarrow> False"
  by code_simp

lemma run_begin: "is_ok (begin_billable_request repo1 (noon + 9) ''f-1'' plan1)"
  by code_simp

lemma begin_within_quota_witness:
  "\<exists>a rp' v l m. begin_billable_request repo1 (noon + 9) ''f-1'' plan1 = Inr (a, rp')
     \<and> qt_used_tokens v = 30 \<and> committed_tokens rp' (noon + 9) plan1 (Date 2026 4 1) = Inr (Some v, m + 100)
     \<and> qt_token_limit v = Some l \<and> 30 + m + 100 \<le> l"
proof -
  obtain a rp' where b: "begin_billable_request repo1 (noon + 9) ''f-1'' plan1 = Inr (a, rp')"
    using run_begin by (auto simp: is_ok_iff)
  obtain v st where q: "plan_quota repo1 (noon + 9) plan1 (Date 2026 4 1) = Inr (Some v, st)"
    "qt_mode v = ''block''" "qt_used_tokens v = 30"
    using run_quota by (auto split: sum.splits option.splits)
  have n: "find (reused_by plan1) (previous_attempts (rp_evidence repo1) plan1) = None"
    "unmentioned (rp_evidence repo1) ''f-1''" "aware_cutover (rp_evidence repo1)"
    "period_end (pl_period_start plan1) = Inr (Date 2026 4 1)"
    by code_simp+
  have r: "pl_reserved_tokens plan1 = 100" by (simp add: plan1_def)
  show ?thesis
    using begin_within_quota [OF b n(1-4) q(1,2)] b q(3) unfolding r by metis
qed

definition report1 :: outcome_report where
  "report1 = \<lparr>oc_actual_tokens = Some 77, oc_correlation_id = Some ''c-9'', oc_evidence = []\<rparr>"

definition exact1 :: billable where
  "exact1 = finished_attempt (started_attempt plan1 ''f-1'' (noon + 9) 0) report1 (noon + 20)"

definition repo2 :: repository where
  "repo2 = with_evidence repo1 ((rp_evidence repo1)\<lparr>es_billables := [exact1]\<rparr>)"

definition repo3 :: repository where
  "repo3 = with_evidence repo2 ((rp_evidence repo2)\<lparr>es_records := []\<rparr>)"

lemma repo2_attempts: "attempts repo2 = [exact1]" "attempts repo3 = [exact1]"
  by (simp_all add: repo2_def repo3_def with_evidence_def)

lemma exact1_fields:
  "bl_state exact1 = Exact" "bl_operation_key exact1 = ''probe''" "bl_actual_tokens exact1 = Some 77"
  "bl_attempt_index exact1 = 1" "bl_id exact1 = ''f-1''"
  by (simp_all add: exact1_def finished_attempt_def started_attempt_def report1_def plan1_def)

lemma repo2_ok: "billing_ok (attempts repo2)"
  by (auto simp: repo2_attempts billing_ok_def of_operation_def measured_state_def exact1_fields)

lemma run_evidence: "billing_run repo2 repo3"
  by (intro r_into_rtranclp billing_step.evidence) (simp add: repo2_attempts)

lemma billing_numbered_witness:
  "\<exists>rp' a. billing_run repo1 rp' \<and> attempts rp' = [a] \<and> bl_attempt_index a = 1 \<and> billing_ok (attempts rp')"
proof -
  have none: "attempts repo1 = []" by (simp add: repo1_def evidence1_def)
  obtain a rp' where b: "begin_billable_request repo1 (noon + 9) ''f-1'' plan1 = Inr (a, rp')"
    using run_begin by (auto simp: is_ok_iff)
  have v: "valid_plan plan1" by code_simp
  have "billing_step repo1 rp'" by (rule billing_step.begins [OF v _ b]) (simp add: none)
  then have run: "billing_run repo1 rp'" by (rule r_into_rtranclp)
  have "attempts rp' = [a] \<and> a = started_attempt plan1 ''f-1'' (noon + 9) 0"
    using begin_attempts [OF b] by (simp add: none previous_attempts_def)
  then show ?thesis using billing_numbered [OF run none] run by (auto simp: started_attempt_def)
qed

lemma exact_final_witness: "exact1 \<in> set (attempts repo3)"
  using exact_final [OF repo2_ok run_evidence, of exact1] by (simp add: repo2_attempts exact1_fields)

definition plan2 :: plan where "plan2 = plan1\<lparr>pl_authorization_id := Some ''auth-2''\<rparr>"

lemma begin_again_witness:
  "\<exists>a. begin_billable_request repo3 (noon + 30) ''f-2'' plan2 = Inr (a, repo3) \<and> a \<in> set (attempts repo3)"
proof -
  have r: "reused_by plan2 exact1" "bl_operation_key exact1 = pl_operation_key plan2" by code_simp+
  show ?thesis using begin_again [OF repo2_ok run_evidence _ r(2,1)] by (auto simp: repo2_attempts)
qed

lemma recovery_exact_witness: "recover_billable_request repo3 plan1 = Inr exact1"
proof -
  have "recovered_by plan1 exact1" by code_simp
  then show ?thesis using recovery_exact [OF repo2_ok run_evidence] by (simp add: repo2_attempts)
qed

text \<open>The same person with a budget in USD.\<close>

definition repo_usd :: repository where
  "repo_usd = repo1\<lparr>rp_budgets := \<lparr>bt_rows = [alice_budget\<lparr>bg_mode := Usd, bg_token_limit := None,
      bg_usd_limit := Some 1000000\<rparr>], bt_audit = [], bt_rolled = Map.empty\<rparr>\<rparr>"

lemma usd_person_refused_witness:
  "\<not> is_ok (begin_billable_request repo_usd (noon + 9) ''f-1'' plan1)
   \<and> (case begin_billable_request repo_usd (noon + 9) ''f-1'' plan1 of Inl (TypeError _) \<Rightarrow> True | _ \<Rightarrow> False)"
proof -
  let ?row = "alice_budget\<lparr>bg_mode := Usd, bg_token_limit := None, bg_usd_limit := Some 1000000\<rparr>"
  have f: "find (reused_by plan1) (previous_attempts (rp_evidence repo_usd) plan1) = None" by code_simp
  have r: "row_at (bt_rows (rp_budgets repo_usd)) (pl_period_start plan1, User, pl_scope_id plan1) = Some ?row"
    "bg_token_limit ?row = None" "rp_enforcement repo_usd (opt_or (bg_parent ?row) []) = Some ''block''"
    "pl_owner plan1 = Owner Person" "pl_authority plan1 = Postgresql"
    by code_simp+
  have "case begin_billable_request repo_usd (noon + 9) ''f-1'' plan1 of Inl (TypeError _) \<Rightarrow> True | _ \<Rightarrow> False"
    by code_simp
  then show ?thesis using usd_person_refused [OF r f] by blast
qed

end
