(* ===== verification/Settlement.thy ===== *)
theory Settlement
  imports Table_Guarantees
begin

text \<open>
  \<open>turnstile_core/services/budget_settlement.py\<close>: the passes of the worker that deliver charges,
  recover dispatches and completions, and apply policies, over the table ledger and a repository.
  The repository (PostgreSQL behind protocols) and the monotonic clock are records of functions on
  the same world as the table. \<open>except Exception\<close> catches every error value; logging is left out.
  Ticks of \<open>time.monotonic\<close> are integers. The identifier of a registered model is given as text,
  an error is handed to the repository as its value, and \<open>sc_legacy\<close> is the query
  \<open>list_reservations\<close> of the older ledger.
\<close>

section \<open>Passes\<close>

text \<open>The outcome of an action as a value: \<open>try ... except Exception\<close>.\<close>

definition tryA :: "('w, 'a) act \<Rightarrow> ('w, 'a res) act" where
  "tryA m w = (case m w of (r, w') \<Rightarrow> (Inr r, w'))"

definition clockA :: "('w \<Rightarrow> int \<times> 'w) \<Rightarrow> ('w, int) act" where
  "clockA c w = (case c w of (t, w') \<Rightarrow> (Inr t, w'))"

text \<open>\<open>for x in xs: total += f(x)\<close>.\<close>

fun sum_passes :: "('a \<Rightarrow> ('w, nat) act) \<Rightarrow> 'a list \<Rightarrow> ('w, nat) act" where
  "sum_passes f [] = doneA 0"
| "sum_passes f (x # xs) = bindA (f x) (\<lambda>n. bindA (sum_passes f xs) (\<lambda>m. doneA (n + m)))"

section \<open>Charges\<close>

record 'w settlement_repository =
  sr_monotonic :: "'w \<Rightarrow> int \<times> 'w"
  sr_claim :: "string option \<Rightarrow> int \<Rightarrow> ('w, settlement_task option) act"
  sr_complete :: "settlement_task \<Rightarrow> ('w, bool) act"
  sr_retry :: "settlement_task \<Rightarrow> exn \<Rightarrow> ('w, bool) act"

text \<open>The body of the \<open>try\<close>: whether the settlement was acknowledged.\<close>

definition settle_task :: "'w service \<Rightarrow> 'w settlement_repository \<Rightarrow> settlement_task \<Rightarrow> ('w, bool) act" where
  "settle_task sv rp t =
     bindA (now_utc sv) (\<lambda>now.
     guardA (lease_until t \<le> now) (RuntimeError ''Settlement claim expired before execution'')
       (bindA (settle sv (task_charge t)) (\<lambda>_. sr_complete rp t)))"

definition handle_task :: "'w service \<Rightarrow> 'w settlement_repository \<Rightarrow> settlement_task \<Rightarrow> ('w, nat) act" where
  "handle_task sv rp t =
     bindA (tryA (settle_task sv rp t)) (\<lambda>r. case r of
       Inr b \<Rightarrow> doneA (if b then 1 else 0)
     | Inl e \<Rightarrow> bindA (sr_retry rp t e) (\<lambda>_. doneA 0))"

fun drain_loop ::
  "nat \<Rightarrow> 'w service \<Rightarrow> 'w settlement_repository \<Rightarrow> string option \<Rightarrow> int \<Rightarrow> int \<Rightarrow> ('w, nat) act" where
  "drain_loop 0 sv rp usage started seconds = doneA 0"
| "drain_loop (Suc k) sv rp usage started seconds =
     bindA (clockA (sr_monotonic rp)) (\<lambda>t.
     if seconds \<le> t - started then doneA 0
     else bindA (sr_claim rp usage 120) (\<lambda>task. case task of
       None \<Rightarrow> doneA 0
     | Some x \<Rightarrow>
         bindA (handle_task sv rp x) (\<lambda>n.
         bindA (drain_loop k sv rp usage started seconds) (\<lambda>m. doneA (n + m)))))"

definition drain_limit :: "int \<Rightarrow> nat" where "drain_limit limit = nat (max 1 (min limit 100))"

definition drain ::
  "'w service \<Rightarrow> 'w settlement_repository \<Rightarrow> string option \<Rightarrow> int \<Rightarrow> int \<Rightarrow> ('w, nat) act" where
  "drain sv rp usage limit seconds =
     bindA (clockA (sr_monotonic rp)) (\<lambda>started.
       drain_loop (drain_limit limit) sv rp usage started seconds)"

section \<open>Dispatches\<close>

record 'w recovery_repository =
  rr_monotonic :: "'w \<Rightarrow> int \<times> 'w"
  rr_scopes :: "int \<Rightarrow> ('w, recovery_cursor list) act"
  rr_advance :: "recovery_cursor \<Rightarrow> string option \<Rightarrow> string option \<Rightarrow> ('w, bool) act"
  rr_register :: "dispatch \<Rightarrow> ('w, unit) act"
  rr_completions :: "int \<Rightarrow> string option \<Rightarrow> ('w, admission_receipt list) act"
  rr_observations :: "admission_receipt \<Rightarrow> ('w, pv list) act"
  rr_record :: "admission_receipt \<Rightarrow> dict option \<Rightarrow> ('w, unit) act"
  rr_policies :: "int \<Rightarrow> ('w, policy_update list) act"
  rr_switch_usage :: "policy_update \<Rightarrow> ('w, (int option \<times> int option) option) act"
  rr_complete_policy :: "policy_update \<Rightarrow> ('w, unit) act"
  rr_unverified :: "int \<Rightarrow> ('w, identity list) act"
  rr_complete_finalization :: "identity \<Rightarrow> ('w, unit) act"
  rr_models :: "('w, dict list) act"

text \<open>A cancelled or expired plan: its reservations are compensated, its receipts read back.\<close>

definition retained_receipt :: "'w service \<Rightarrow> admission_receipt \<Rightarrow> ('w, admission_receipt) act" where
  "retained_receipt sv r =
     bindA (read_attempt sv r) (\<lambda>a.
       liftA (make_receipt (r\<lparr>rc_mode := at_mode a, rc_usd := reserved_usd a, rc_price := price_snapshot a\<rparr>)))"

fun mapA :: "('a \<Rightarrow> ('w, 'b) act) \<Rightarrow> 'a list \<Rightarrow> ('w, 'b list) act" where
  "mapA f [] = doneA []"
| "mapA f (x # xs) = bindA (f x) (\<lambda>y. bindA (mapA f xs) (\<lambda>ys. doneA (y # ys)))"

text \<open>Whether the plan was recovered.\<close>

definition recover_plan :: "'w service \<Rightarrow> 'w recovery_repository \<Rightarrow> dispatch \<Rightarrow> ('w, bool) act" where
  "recover_plan sv rr p =
     bindA (if dp_state p = D_preparing then bindA (now_utc sv) (\<lambda>now. doneA (now < expires_at p))
            else doneA False) (\<lambda>live.
     if live then doneA False
     else
       bindA (if dp_state p = D_dispatching then doneA (Some p)
              else
                bindA (cancel_dispatch sv p True) (\<lambda>cancelled.
                if \<not> cancelled then doneA None
                else
                  bindA (compensate_dispatch sv p) (\<lambda>_.
                  bindA (mapA (retained_receipt sv) (dp_receipts p)) (\<lambda>rs.
                    doneA (Some (p\<lparr>dp_receipts := rs\<rparr>)))))) (\<lambda>registered.
       case registered of
         None \<Rightarrow> doneA False
       | Some q \<Rightarrow>
           bindA (rr_register rr q) (\<lambda>_.
           bindA (finish_dispatch_recovery sv p) (\<lambda>_. doneA True))))"

text \<open>How the loop over the plans of a page ended, and how many plans it recovered.\<close>

datatype page_end = All_plans | Time_over | Page_failed exn

fun plan_loop ::
  "'w service \<Rightarrow> 'w recovery_repository \<Rightarrow> int \<Rightarrow> int \<Rightarrow> dispatch list \<Rightarrow> ('w, page_end \<times> nat) act" where
  "plan_loop sv rr started seconds [] = doneA (All_plans, 0)"
| "plan_loop sv rr started seconds (p # ps) =
     bindA (clockA (rr_monotonic rr)) (\<lambda>t.
     if seconds \<le> t - started then doneA (Time_over, 0)
     else bindA (tryA (recover_plan sv rr p)) (\<lambda>r. case r of
       Inl e \<Rightarrow> doneA (Page_failed e, 0)
     | Inr b \<Rightarrow>
         bindA (plan_loop sv rr started seconds ps) (\<lambda>(stop, n).
           doneA (stop, (if b then n + 1 else n)))))"

text \<open>The cursor stays where it was when its page was not finished.\<close>

definition hold_cursor :: "'w recovery_repository \<Rightarrow> recovery_cursor \<Rightarrow> ('w, bool) act" where
  "hold_cursor rr c = rr_advance rr c (next_partition c) (next_row c)"

text \<open>One scope: whether the time is over, and how many plans were recovered.\<close>

definition recover_scope ::
  "'w service \<Rightarrow> 'w recovery_repository \<Rightarrow> int \<Rightarrow> int \<Rightarrow> recovery_cursor \<Rightarrow> ('w, bool \<times> nat) act" where
  "recover_scope sv rr started seconds c =
     bindA (tryA (pending_dispatch_page sv c 16)) (\<lambda>page. case page of
       Inl e \<Rightarrow> bindA (hold_cursor rr c) (\<lambda>_. doneA (False, 0))
     | Inr (plans, np, nr) \<Rightarrow>
         bindA (plan_loop sv rr started seconds plans) (\<lambda>(stop, n). case stop of
           Page_failed e \<Rightarrow> bindA (hold_cursor rr c) (\<lambda>_. doneA (False, n))
         | Time_over \<Rightarrow>
             bindA (tryA (hold_cursor rr c)) (\<lambda>r. case r of
               Inr _ \<Rightarrow> doneA (True, n)
             | Inl e \<Rightarrow> bindA (hold_cursor rr c) (\<lambda>_. doneA (False, n)))
         | All_plans \<Rightarrow>
             bindA (tryA (rr_advance rr c np nr)) (\<lambda>r. case r of
               Inr _ \<Rightarrow> doneA (False, n)
             | Inl e \<Rightarrow> bindA (hold_cursor rr c) (\<lambda>_. doneA (False, n)))))"

fun recover_scopes ::
  "'w service \<Rightarrow> 'w recovery_repository \<Rightarrow> int \<Rightarrow> int \<Rightarrow> recovery_cursor list \<Rightarrow> ('w, nat) act" where
  "recover_scopes sv rr started seconds [] = doneA 0"
| "recover_scopes sv rr started seconds (c # cs) =
     bindA (clockA (rr_monotonic rr)) (\<lambda>t.
     if seconds \<le> t - started then doneA 0
     else bindA (recover_scope sv rr started seconds c) (\<lambda>(over, n).
       if over then doneA n
       else bindA (recover_scopes sv rr started seconds cs) (\<lambda>m. doneA (n + m))))"

definition recover_dispatches ::
  "'w service \<Rightarrow> 'w recovery_repository \<Rightarrow> int \<Rightarrow> int \<Rightarrow> ('w, nat) act" where
  "recover_dispatches sv rr seconds scopes =
     bindA (clockA (rr_monotonic rr)) (\<lambda>started.
     bindA (rr_scopes rr scopes) (\<lambda>cs. recover_scopes sv rr started seconds cs))"

section \<open>Completions\<close>

text \<open>\<open>a or b\<close> of optional dictionaries: an empty one counts as missing.\<close>

definition dict_or :: "dict option \<Rightarrow> dict option \<Rightarrow> dict option" where
  "dict_or a b = (case a of Some (x # xs) \<Rightarrow> a | _ \<Rightarrow> b)"

definition observation_digest :: "dict \<Rightarrow> pv res" where
  "observation_digest v =
     bindR (dget v ''rejection'') (\<lambda>r. bindR (as_dict r) (\<lambda>d. dget d ''observation_sha256''))"

text \<open>The decision from the observations of an attempt without evidence.\<close>

definition observed_decision ::
  "digest \<Rightarrow> dict \<Rightarrow> admission_receipt \<Rightarrow> pv list \<Rightarrow> dict option res" where
  "observed_decision sha policy r values =
     bindR (mapR (validate_terminal_observation sha) values) (\<lambda>observations.
     bindR (mapR observation_digest observations) (\<lambda>digests.
     guardR (1 < card (set digests))
       (ValueError ''Conflicting terminal observations require review'')
       (case observations of
          [] \<Rightarrow> Inr None
        | v # _ \<Rightarrow>
            bindR (dget v ''rejection'') (\<lambda>rejection.
            rejection_completion sha (Some (PDict policy)) (items rejection) (dfield v ''source'')
              (dfield v ''observed_at'') (PDt (Aware (admitted_at (rc_identity r))))))))"

definition completion_evidence_of ::
  "'w service \<Rightarrow> 'w recovery_repository \<Rightarrow> admission_receipt \<Rightarrow> ('w, dict option) act" where
  "completion_evidence_of sv rr r =
     bindA (read_attempt sv r) (\<lambda>a.
     let evidence = dict_or (completion_evidence a) (rejection_evidence a) in
     case rejection_policy a of
       None \<Rightarrow> doneA evidence
     | Some policy \<Rightarrow>
         if evidence \<noteq> None then doneA evidence
         else
           bindA (rr_observations rr r) (\<lambda>values.
           bindA (liftA (observed_decision (sv_sha sv) policy r values)) (\<lambda>decision. case decision of
             None \<Rightarrow> doneA evidence
           | Some d \<Rightarrow>
               bindA (complete sv r d) (\<lambda>(_, retained).
                 doneA (dict_or (completion_evidence retained) (rejection_evidence retained))))))"

definition recover_completion ::
  "'w service \<Rightarrow> 'w recovery_repository \<Rightarrow> admission_receipt \<Rightarrow> ('w, nat) act" where
  "recover_completion sv rr r =
     bindA (tryA (bindA (completion_evidence_of sv rr r) (\<lambda>e.
            bindA (rr_record rr r e) (\<lambda>_. doneA e)))) (\<lambda>x. case x of
       Inr e \<Rightarrow> doneA (if e \<noteq> None then 1 else 0)
     | Inl _ \<Rightarrow> bindA (rr_record rr r None) (\<lambda>_. doneA 0))"

fun completion_loop ::
  "'w service \<Rightarrow> 'w recovery_repository \<Rightarrow> int \<Rightarrow> int \<Rightarrow> admission_receipt list \<Rightarrow> ('w, nat) act" where
  "completion_loop sv rr started seconds [] = doneA 0"
| "completion_loop sv rr started seconds (r # rs) =
     bindA (clockA (rr_monotonic rr)) (\<lambda>t.
     if seconds \<le> t - started then doneA 0
     else bindA (recover_completion sv rr r) (\<lambda>n.
          bindA (completion_loop sv rr started seconds rs) (\<lambda>m. doneA (n + m))))"

definition completions ::
  "'w service \<Rightarrow> 'w recovery_repository \<Rightarrow> int \<Rightarrow> int \<Rightarrow> string option \<Rightarrow> ('w, nat) act" where
  "completions sv rr limit seconds usage =
     bindA (clockA (rr_monotonic rr)) (\<lambda>started.
     bindA (rr_completions rr limit usage) (\<lambda>rs. completion_loop sv rr started seconds rs))"

section \<open>Policies\<close>

definition model_id_of :: "dict \<Rightarrow> uuid res" where
  "model_id_of m =
     bindR (dget m ''id'') (\<lambda>v. case v of
       PStr s \<Rightarrow> (case uuid_canon s of
          Some u \<Rightarrow> Inr u
        | None \<Rightarrow> Inl (ValueError ''badly formed hexadecimal UUID string''))
     | _ \<Rightarrow> Inl (ValueError ''badly formed hexadecimal UUID string''))"

definition initialize_price :: "'w service \<Rightarrow> instant \<Rightarrow> dict \<Rightarrow> ('w, unit) act" where
  "initialize_price sv now m =
     bindA (liftA (from_registry m)) (\<lambda>price. case price of
       None \<Rightarrow> doneA ()
     | Some p \<Rightarrow>
         bindA (liftA (bindR (model_id_of m) (\<lambda>i. create_projection (sv_sha sv) i (Some p) now))) (\<lambda>pj.
         bindA (project_model_price sv pj 3 True) (\<lambda>_. doneA ())))"

definition initialize_model_prices ::
  "'w service \<Rightarrow> ('w, dict list) act \<Rightarrow> instant \<Rightarrow> ('w, unit) act" where
  "initialize_model_prices sv models now =
     bindA models (\<lambda>ms. bindA (mapA (initialize_price sv now) ms) (\<lambda>_. doneA ()))"

text \<open>What a pass decides about an update: leave it, or apply it with an opening balance.\<close>

datatype verdict = Leave | Apply "int option"

definition idle :: "summary \<Rightarrow> bool" where
  "idle m \<longleftrightarrow> active_reserved_tokens m = 0 \<and> active_reserved_usd m = 0"

definition no_upper_bound :: "summary \<Rightarrow> bool" where
  "no_upper_bound m \<longleftrightarrow> upper_bound_tokens m = 0 \<and> upper_bound_usd m = 0"

definition source_balance :: "summary \<Rightarrow> int" where
  "source_balance m = (if sm_mode m = Usd then confirmed_usd m else confirmed_tokens m)"

definition usage_in :: "budget_mode \<Rightarrow> int option \<times> int option \<Rightarrow> int option" where
  "usage_in m u = (case m of Usd \<Rightarrow> snd u | Tokens \<Rightarrow> fst u)"

definition policy_cursor :: "policy_update \<Rightarrow> recovery_cursor" where
  "policy_cursor u = \<lparr>cu_scope = po_scope u, cu_epoch = po_epoch u, next_partition = None, next_row = None,
     cu_version = 0\<rparr>"

definition dispatch_pending :: "'w service \<Rightarrow> policy_update \<Rightarrow> ('w, bool) act" where
  "dispatch_pending sv u =
     (if scope_type (po_scope u) \<noteq> Person then doneA False
      else bindA (pending_dispatch_page sv (policy_cursor u) 1) (\<lambda>(plans, np, nr).
        doneA (plans \<noteq> [] \<or> given np \<or> given nr)))"

text \<open>The scope is opened again, and the update is left for a later pass.\<close>

definition reopen :: "'w service \<Rightarrow> policy_update \<Rightarrow> bool \<Rightarrow> ('w, verdict) act" where
  "reopen sv u wanted =
     (if wanted
      then bindA (quiesce_budget_scope sv (po_scope u) (po_epoch u) (po_revision u) True) (\<lambda>_. doneA Leave)
      else doneA Leave)"

text \<open>The second half of a switch of the unit, on the closed scope \<open>m\<close>; \<open>source\<close> is the unit it had.\<close>

definition switch_closed ::
  "'w service \<Rightarrow> 'w recovery_repository \<Rightarrow> policy_update \<Rightarrow> budget_mode \<Rightarrow> summary \<Rightarrow> ('w, verdict) act" where
  "switch_closed sv rr u source m =
     (if po_revision u \<le> policy_revision m then doneA Leave
      else if \<not> idle m \<or> \<not> no_upper_bound m
      then reopen sv u (\<not> no_upper_bound m \<and> idle m \<and> po_enabled u)
      else
        bindA (dispatch_pending sv u) (\<lambda>pending.
        if pending then reopen sv u (idle m \<and> po_enabled u)
        else
          bindA (rr_switch_usage rr u) (\<lambda>usage. case usage of
            None \<Rightarrow> reopen sv u (po_enabled u)
          | Some v \<Rightarrow>
              if usage_in source v \<noteq> Some (source_balance m) then reopen sv u (po_enabled u)
              else (case usage_in (po_mode u) v of
                None \<Rightarrow> reopen sv u (po_enabled u)
              | Some n \<Rightarrow> doneA (Apply (Some n))))))"

definition switch_blocked :: "policy_update \<Rightarrow> summary \<Rightarrow> bool \<Rightarrow> (int option \<times> int option) option \<Rightarrow> bool" where
  "switch_blocked u m pending usage \<longleftrightarrow>
     pending \<or> \<not> no_upper_bound m
     \<or> (case usage of
          None \<Rightarrow> True
        | Some v \<Rightarrow> usage_in (po_mode u) v = None
            \<or> (idle m \<and> usage_in (sm_mode m) v \<noteq> Some (source_balance m)))"

definition policy_verdict ::
  "'w service \<Rightarrow> 'w recovery_repository \<Rightarrow> policy_update \<Rightarrow> ('w, verdict) act" where
  "policy_verdict sv rr u =
     bindA (read_summary sv (po_scope u)) (\<lambda>m.
     if sm_epoch m \<noteq> po_epoch u \<or> po_revision u < policy_revision m then doneA Leave
     else if sm_mode m = po_mode u then doneA (Apply None)
     else
       bindA (dispatch_pending sv u) (\<lambda>pending.
       bindA (rr_switch_usage rr u) (\<lambda>usage.
       if switch_blocked u m pending usage
       then reopen sv u (\<not> enabled m \<and> po_enabled u \<and> idle m)
       else
         bindA (quiesce_budget_scope sv (po_scope u) (po_epoch u) (po_revision u) False)
           (switch_closed sv rr u (sm_mode m)))))"

definition policy_write_of :: "policy_update \<Rightarrow> int option \<Rightarrow> policy_write" where
  "policy_write_of u opening =
     \<lparr>pw_epoch = po_epoch u, pw_revision = po_revision u, pw_token_limit = po_token_limit u,
      pw_enforce = po_enforce u, pw_enabled = po_enabled u, pw_mode = po_mode u,
      pw_usd_limit = po_usd_limit u, pw_opening = opening\<rparr>"

definition apply_policy ::
  "'w service \<Rightarrow> 'w recovery_repository \<Rightarrow> policy_update \<Rightarrow> int option \<Rightarrow> ('w, nat) act" where
  "apply_policy sv rr u opening =
     bindA (write_policy sv (po_scope u) (policy_write_of u opening)) (\<lambda>m.
     if policy_revision m \<noteq> po_revision u then doneA 0
     else bindA (rr_complete_policy rr u) (\<lambda>_. doneA 1))"

text \<open>
  One update; \<open>prices\<close> is \<open>prices_initialized\<close>, which stays set when the rest of the step raises.
\<close>

definition deliver_policy ::
  "'w service \<Rightarrow> 'w recovery_repository \<Rightarrow> bool \<Rightarrow> policy_update \<Rightarrow> ('w, nat \<times> bool) act" where
  "deliver_policy sv rr prices u =
     bindA (tryA (policy_verdict sv rr u)) (\<lambda>v. case v of
       Inr (Apply opening) \<Rightarrow>
         (let needs = po_mode u = Usd \<and> po_enabled u \<and> \<not> prices in
          bindA (tryA (if needs then bindA (now_utc sv) (initialize_model_prices sv (rr_models rr)) else doneA ()))
            (\<lambda>x. case x of
              Inl _ \<Rightarrow> doneA (0, prices)
            | Inr _ \<Rightarrow>
                bindA (tryA (apply_policy sv rr u opening)) (\<lambda>y.
                  doneA (case y of Inr n \<Rightarrow> n | Inl _ \<Rightarrow> 0, prices \<or> needs))))
     | _ \<Rightarrow> doneA (0, prices))"

fun policy_passes ::
  "'w service \<Rightarrow> 'w recovery_repository \<Rightarrow> bool \<Rightarrow> policy_update list \<Rightarrow> ('w, nat) act" where
  "policy_passes sv rr prices [] = doneA 0"
| "policy_passes sv rr prices (u # us) =
     bindA (deliver_policy sv rr prices u) (\<lambda>(n, prices').
     bindA (policy_passes sv rr prices' us) (\<lambda>m. doneA (n + m)))"

definition policies :: "'w service \<Rightarrow> 'w recovery_repository \<Rightarrow> int \<Rightarrow> ('w, nat) act" where
  "policies sv rr limit = bindA (rr_policies rr limit) (policy_passes sv rr False)"

section \<open>Uncertain attempts\<close>

definition finalize_attempt :: "'w service \<Rightarrow> 'w recovery_repository \<Rightarrow> identity \<Rightarrow> ('w, nat) act" where
  "finalize_attempt sv rr i =
     bindA (tryA (bindA (finalize_uncertain sv i) (\<lambda>_. rr_complete_finalization rr i))) (\<lambda>r.
       doneA (case r of Inr _ \<Rightarrow> 1 | Inl _ \<Rightarrow> 0))"

definition finalize_pass :: "'w service \<Rightarrow> 'w recovery_repository \<Rightarrow> int \<Rightarrow> ('w, nat) act" where
  "finalize_pass sv rr limit = bindA (rr_unverified rr limit) (sum_passes (finalize_attempt sv rr))"

section \<open>Preparing scopes\<close>

record rollout =
  ro_epoch :: uuid
  ro_prepared_period :: "date option"
  ro_profiles :: "uuid list"

record 'w scope_repository =
  sc_rollout :: "('w, rollout option) act"
  sc_roll_budgets :: "date \<Rightarrow> ('w, unit) act"
  sc_roll_applications :: "date \<Rightarrow> ('w, int) act"
  sc_prepare_period :: "uuid \<Rightarrow> date \<Rightarrow> string list \<Rightarrow> ('w, unit) act"
  sc_candidates :: "uuid option \<Rightarrow> ('w, scope_seed list) act"
  sc_activate :: "scope_seed \<Rightarrow> ('w, unit) act"
  sc_defer :: "scope \<Rightarrow> ('w, unit) act"
  sc_complete_policy :: "policy_update \<Rightarrow> ('w, unit) act"
  sc_models :: "('w, dict list) act"
  sc_legacy :: "string \<Rightarrow> ('w, dict list) act"
  sc_people :: "string list"

definition legacy_partition :: "scope \<Rightarrow> string" where
  "legacy_partition s =
     (if scope_type s = Application then ''app|'' else []) @ scope_id s @ ''|'' @ month_text (period_start s)"

definition open_scope :: "'w service \<Rightarrow> 'w scope_repository \<Rightarrow> scope_seed \<Rightarrow> ('w, unit) act" where
  "open_scope sv sr seed =
     (if seed_active seed then doneA ()
      else
        bindA (sc_legacy sr (legacy_partition (sm_scope (seed_summary seed)))) (\<lambda>rows.
        guardA (rows \<noteq> []) (ValueError ''Legacy outstanding charges prevent scope initialization'')
          (bindA (initialize sv (seed_summary seed)) (\<lambda>_. sc_activate sr seed))))"

text \<open>One seed: whether the prices are initialized now, and whether the scope was prepared.\<close>

definition prepare_seed ::
  "'w service \<Rightarrow> 'w scope_repository \<Rightarrow> instant \<Rightarrow> bool \<Rightarrow> scope_seed \<Rightarrow> ('w, bool \<times> unit res) act" where
  "prepare_seed sv sr now prices seed =
     (let u = seed_policy seed; needs = po_mode u = Usd \<and> po_enabled u \<and> \<not> prices in
      bindA (tryA (if needs then initialize_model_prices sv (sc_models sr) now else doneA ())) (\<lambda>x. case x of
        Inl e \<Rightarrow> doneA (prices, Inl e)
      | Inr _ \<Rightarrow>
          bindA (tryA (bindA (open_scope sv sr seed) (\<lambda>_.
            bindA (write_policy sv (po_scope u) (policy_write_of u None)) (\<lambda>_. sc_complete_policy sr u))))
            (\<lambda>y. doneA (prices \<or> needs, y))))"

fun prepare_seeds ::
  "'w service \<Rightarrow> 'w scope_repository \<Rightarrow> instant \<Rightarrow> bool \<Rightarrow> bool \<Rightarrow> scope_seed list \<Rightarrow> ('w, nat) act" where
  "prepare_seeds sv sr now single prices [] = doneA 0"
| "prepare_seeds sv sr now single prices (s # ss) =
     bindA (prepare_seed sv sr now prices s) (\<lambda>(prices', r). case r of
       Inr _ \<Rightarrow> bindA (prepare_seeds sv sr now single prices' ss) (\<lambda>n. doneA (n + 1))
     | Inl e \<Rightarrow>
         bindA (sc_defer sr (sm_scope (seed_summary s))) (\<lambda>_.
         if single then raiseA e else prepare_seeds sv sr now single prices' ss))"

definition prepare_period :: "'w scope_repository \<Rightarrow> rollout \<Rightarrow> date \<Rightarrow> ('w, unit) act" where
  "prepare_period sr ro period =
     (if ro_prepared_period ro = Some period then doneA ()
      else bindA (sc_roll_budgets sr period) (\<lambda>_. bindA (sc_roll_applications sr period) (\<lambda>_.
           sc_prepare_period sr (ro_epoch ro) period (sc_people sr))))"

definition prepare_scopes ::
  "'w service \<Rightarrow> 'w scope_repository \<Rightarrow> uuid option \<Rightarrow> uuid option \<Rightarrow> instant option \<Rightarrow> ('w, nat) act" where
  "prepare_scopes sv sr application profile given_now =
     bindA (sc_rollout sr) (\<lambda>r. case r of
       None \<Rightarrow> doneA 0
     | Some ro \<Rightarrow>
         if profile \<noteq> None \<and> opt_or profile [] \<notin> set (ro_profiles ro) then doneA 0
         else
           bindA (case given_now of Some t \<Rightarrow> doneA t | None \<Rightarrow> now_utc sv) (\<lambda>moment.
           bindA (prepare_period sr ro (utc_month moment)) (\<lambda>_.
           bindA (sc_candidates sr application) (\<lambda>seeds.
           guardA (application \<noteq> None \<and> seeds = [])
             (RuntimeError ''Application execution scope is not yet prepared'')
             (prepare_seeds sv sr moment (application \<noteq> None) False seeds)))))"

section \<open>Reviewing reservations\<close>

record 'w resolution_repository =
  sl_receipts :: "scope \<Rightarrow> int \<Rightarrow> bool \<Rightarrow> ('w, admission_receipt list) act"
  sl_get :: "uuid \<Rightarrow> ('w, resolution option) act"
  sl_approve :: "resolution_write \<Rightarrow> string \<Rightarrow> ('w, resolution) act"

definition review ::
  "'w service \<Rightarrow> 'w resolution_repository \<Rightarrow> scope \<Rightarrow> int \<Rightarrow> bool \<Rightarrow> ('w, attempt list) act" where
  "review sv sl s limit resolved = bindA (sl_receipts sl s limit resolved) (mapA (read_attempt sv))"

definition approve ::
  "'w service \<Rightarrow> 'w resolution_repository \<Rightarrow> resolution_write \<Rightarrow> string \<Rightarrow> ('w, resolution) act" where
  "approve sv sl x actor =
     bindA (sl_get sl (rw_id x)) (\<lambda>prior. case prior of
       Some p \<Rightarrow>
         guardA (rs_receipt p \<noteq> rw_receipt x \<or> rs_actor p \<noteq> actor \<or> rs_reason p \<noteq> rw_reason x
             \<or> rs_evidence_sha256 p \<noteq> rw_evidence_sha256 x)
           (conflict ''Resolution idempotency identity conflicts'') (doneA p)
     | None \<Rightarrow>
         bindA (read_attempt sv (rw_receipt x)) (\<lambda>a.
         guardA (at_state a \<in> {Settled, Released, Cancelled} \<or> evidence_rank a \<noteq> 0)
           (conflict ''Reservation already has a settlement decision'') (sl_approve sl x actor)))"

end
