(* ===== verification/Settlement_Runs.thy ===== *)
theory Settlement_Runs
  imports Settlement
begin

text \<open>
  The passes of the settlement worker change the table only through operations of the table client:
  whatever the repository does, every pass is a run of the client, so that what holds for all runs
  of clients (the accounting of the stored rows) holds for the workers together.
\<close>

section \<open>Actions that are runs of the client\<close>

definition runs :: "'w service \<Rightarrow> 'w table_view \<Rightarrow> ('w, 'a) act \<Rightarrow> bool" where
  "runs sv V m \<longleftrightarrow> (\<forall>w r w'. m w = (r, w') \<longrightarrow> client_run sv V Map.empty w w')"

text \<open>An operation of the repository does not touch the table.\<close>

definition quiet :: "'w table_view \<Rightarrow> ('w, 'a) act \<Rightarrow> bool" where
  "quiet V m \<longleftrightarrow> (\<forall>w r w'. m w = (r, w') \<longrightarrow> tv_others V w w')"

named_theorems runs_intro \<open>actions that are runs of the table client\<close>

lemma client_run_trans:
  assumes "client_run sv V op w w1" "client_run sv V op w1 w2" shows "client_run sv V op w w2"
  using assms(2,1) by induction (auto intro: client_run.run_step)

lemma runsI: "(\<And>w r w'. m w = (r, w') \<Longrightarrow> client_run sv V Map.empty w w') \<Longrightarrow> runs sv V m"
  by (simp add: runs_def)

lemma runs_stepI: "(\<And>w r w'. m w = (r, w') \<Longrightarrow> client_step sv V Map.empty w w') \<Longrightarrow> runs sv V m"
  unfolding runs_def by (auto intro: client_run.run_step client_run.run_start)

lemma runs_quiet: "quiet V m \<Longrightarrow> runs sv V m"
  by (rule runs_stepI) (auto simp: quiet_def intro: cs_others)

lemma runs_done [runs_intro]: "runs sv V (doneA x)" "runs sv V (raiseA e)" "runs sv V (liftA r)"
  by (auto simp: runs_def doneA_def raiseA_def liftA_def intro: client_run.run_start)

lemma runs_bind_result:
  assumes "runs sv V m" "\<And>w x w'. m w = (Inr x, w') \<Longrightarrow> runs sv V (f x)"
  shows "runs sv V (bindA m f)"
proof (rule runsI)
  fix w r w' assume b: "bindA m f w = (r, w')"
  obtain q w1 where m: "m w = (q, w1)" by force
  have one: "client_run sv V Map.empty w w1" using assms(1) m by (simp add: runs_def)
  show "client_run sv V Map.empty w w'"
  proof (cases q)
    case (Inl e)
    then show ?thesis using b m one by (simp add: bindA_def)
  next
    case (Inr x)
    then have "client_run sv V Map.empty w1 w'"
      using b m assms(2) [of w x w1] by (simp add: bindA_def runs_def)
    then show ?thesis using client_run_trans [OF one] by blast
  qed
qed

lemma runs_bind [runs_intro]: "runs sv V m \<Longrightarrow> (\<And>x. runs sv V (f x)) \<Longrightarrow> runs sv V (bindA m f)"
  by (rule runs_bind_result)

lemma runs_guard [runs_intro]: "runs sv V m \<Longrightarrow> runs sv V (guardA b e m)"
  by (simp add: guardA_def runs_done)

lemma runs_try [runs_intro]: "runs sv V m \<Longrightarrow> runs sv V (tryA m)"
  by (auto simp: runs_def tryA_def split: prod.splits)

lemma runs_if [runs_intro]: "runs sv V m \<Longrightarrow> runs sv V n \<Longrightarrow> runs sv V (if b then m else n)"
  by simp

lemma runs_option [runs_intro]:
  "runs sv V m \<Longrightarrow> (\<And>x. runs sv V (f x)) \<Longrightarrow> runs sv V (case v of None \<Rightarrow> m | Some x \<Rightarrow> f x)"
  by (cases v) simp_all

lemma runs_sum [runs_intro]:
  "(\<And>e. runs sv V (f e)) \<Longrightarrow> (\<And>x. runs sv V (g x)) \<Longrightarrow> runs sv V (case v of Inl e \<Rightarrow> f e | Inr x \<Rightarrow> g x)"
  by (cases v) simp_all

lemma runs_prod [runs_intro]: "(\<And>x y. runs sv V (f x y)) \<Longrightarrow> runs sv V (case v of (x, y) \<Rightarrow> f x y)"
  by (cases v) simp

lemma runs_page_end [runs_intro]:
  "runs sv V a \<Longrightarrow> runs sv V b \<Longrightarrow> (\<And>e. runs sv V (c e)) \<Longrightarrow>
   runs sv V (case v of All_plans \<Rightarrow> a | Time_over \<Rightarrow> b | Page_failed e \<Rightarrow> c e)"
  by (cases v) simp_all

lemma runs_verdict [runs_intro]:
  "runs sv V a \<Longrightarrow> (\<And>x. runs sv V (b x)) \<Longrightarrow> runs sv V (case v of Leave \<Rightarrow> a | Apply x \<Rightarrow> b x)"
  by (cases v) simp_all

lemma quiet_now: "table_laws sv V \<Longrightarrow> quiet V (now_utc sv)"
proof (unfold quiet_def, intro allI impI)
  fix w r w' assume laws: "table_laws sv V" and n: "now_utc sv w = (r, w')"
  have "tv_others V w (snd (sv_now sv w))" using laws by (simp add: table_laws_def)
  then show "tv_others V w w'" using n by (auto simp: now_utc_def split: prod.splits)
qed

lemmas runs_now [runs_intro] = runs_quiet [OF quiet_now]

lemma runs_mapA [runs_intro]:
  assumes f: "\<And>x. runs sv V (f x)" shows "runs sv V (mapA f xs)"
  by (induction xs; simp only: mapA.simps; intro runs_intro f)

lemma runs_sum_passes [runs_intro]:
  assumes f: "\<And>x. runs sv V (f x)" shows "runs sv V (sum_passes f xs)"
  by (induction xs; simp only: sum_passes.simps; intro runs_intro f)

lemma runs_client [runs_intro]:
  "runs sv V (settle sv c)" "runs sv V (complete sv r d)" "runs sv V (read_attempt sv r)"
  "runs sv V (read_summary sv s)" "runs sv V (finalize_uncertain sv i)"
  "runs sv V (cancel_dispatch sv p b)" "runs sv V (compensate_dispatch sv p)"
  "runs sv V (pending_dispatch_page sv k n)" "runs sv V (finish_dispatch_recovery sv p)"
  "runs sv V (quiesce_budget_scope sv s u z b)" "runs sv V (project_model_price sv pj z b)"
  by (rule runs_stepI, erule cs_settle cs_complete cs_attempt cs_summary cs_finalize cs_cancel cs_compensate
      cs_page cs_finish cs_quiesce cs_project)+

lemma runs_policy [runs_intro]: "runs sv V (write_policy sv s p)"
  by (rule runs_stepI, erule cs_policy) simp

section \<open>The passes\<close>

definition quiet_settlement :: "'w table_view \<Rightarrow> 'w settlement_repository \<Rightarrow> bool" where
  "quiet_settlement V rp \<longleftrightarrow> quiet V (clockA (sr_monotonic rp)) \<and> (\<forall>u n. quiet V (sr_claim rp u n))
     \<and> (\<forall>t. quiet V (sr_complete rp t)) \<and> (\<forall>t e. quiet V (sr_retry rp t e))"

definition quiet_recovery :: "'w table_view \<Rightarrow> 'w recovery_repository \<Rightarrow> bool" where
  "quiet_recovery V rr \<longleftrightarrow> quiet V (clockA (rr_monotonic rr)) \<and> (\<forall>n. quiet V (rr_scopes rr n))
     \<and> (\<forall>c p r. quiet V (rr_advance rr c p r)) \<and> (\<forall>p. quiet V (rr_register rr p))
     \<and> (\<forall>n u. quiet V (rr_completions rr n u)) \<and> (\<forall>r. quiet V (rr_observations rr r))
     \<and> (\<forall>r d. quiet V (rr_record rr r d)) \<and> (\<forall>n. quiet V (rr_policies rr n))
     \<and> (\<forall>u. quiet V (rr_switch_usage rr u)) \<and> (\<forall>u. quiet V (rr_complete_policy rr u))
     \<and> (\<forall>n. quiet V (rr_unverified rr n)) \<and> (\<forall>i. quiet V (rr_complete_finalization rr i))
     \<and> quiet V (rr_models rr)"

lemma settlement_runs:
  assumes "quiet_settlement V rp"
  shows "runs sv V (clockA (sr_monotonic rp))" "runs sv V (sr_claim rp u n)"
    "runs sv V (sr_complete rp t)" "runs sv V (sr_retry rp t e)"
  using assms by (simp_all add: quiet_settlement_def runs_quiet)

lemma recovery_runs:
  assumes "quiet_recovery V rr"
  shows "runs sv V (clockA (rr_monotonic rr))" "runs sv V (rr_scopes rr n)" "runs sv V (rr_advance rr c np nr)"
    "runs sv V (rr_register rr p)" "runs sv V (rr_completions rr n us)" "runs sv V (rr_observations rr r)"
    "runs sv V (rr_record rr r d)" "runs sv V (rr_policies rr n)" "runs sv V (rr_switch_usage rr u)"
    "runs sv V (rr_complete_policy rr u)" "runs sv V (rr_unverified rr n)"
    "runs sv V (rr_complete_finalization rr i)" "runs sv V (rr_models rr)"
  using assms by (simp_all add: quiet_recovery_def runs_quiet)

lemma runs_drain:
  assumes laws: "table_laws sv V" and q: "quiet_settlement V rp"
  shows "runs sv V (drain sv rp usage limit seconds)"
proof -
  have handle: "runs sv V (handle_task sv rp t)" for t
    unfolding handle_task_def settle_task_def by (intro runs_intro settlement_runs [OF q] laws)
  have "runs sv V (drain_loop k sv rp usage started seconds)" for k started
    by (induction k; simp only: drain_loop.simps; intro runs_intro handle settlement_runs [OF q])
  then show ?thesis unfolding drain_def by (intro runs_intro settlement_runs [OF q])
qed

lemma runs_recover:
  assumes laws: "table_laws sv V" and q: "quiet_recovery V rr"
  shows "runs sv V (recover_dispatches sv rr seconds scopes)"
proof -
  have plan: "runs sv V (recover_plan sv rr p)" for p
    unfolding recover_plan_def retained_receipt_def by (intro runs_intro recovery_runs [OF q] laws)
  have plans: "runs sv V (plan_loop sv rr started seconds ps)" for started ps
    by (induction ps; simp only: plan_loop.simps; intro runs_intro plan recovery_runs [OF q])
  have scope: "runs sv V (recover_scope sv rr started seconds c)" for started c
    unfolding recover_scope_def hold_cursor_def by (intro runs_intro plans recovery_runs [OF q])
  have "runs sv V (recover_scopes sv rr started seconds cs)" for started cs
    by (induction cs; simp only: recover_scopes.simps; intro runs_intro scope recovery_runs [OF q])
  then show ?thesis unfolding recover_dispatches_def by (intro runs_intro recovery_runs [OF q])
qed

lemma runs_completions:
  assumes q: "quiet_recovery V rr"
  shows "runs sv V (completions sv rr limit seconds usage)"
proof -
  have one: "runs sv V (recover_completion sv rr r)" for r
    unfolding recover_completion_def completion_evidence_of_def Let_def
    by (intro runs_intro recovery_runs [OF q])
  have "runs sv V (completion_loop sv rr started seconds rs)" for started rs
    by (induction rs; simp only: completion_loop.simps; intro runs_intro one recovery_runs [OF q])
  then show ?thesis unfolding completions_def by (intro runs_intro recovery_runs [OF q])
qed

lemma runs_prices [runs_intro]: "runs sv V models \<Longrightarrow> runs sv V (initialize_model_prices sv models now)"
  unfolding initialize_model_prices_def initialize_price_def by (intro runs_intro)

lemma runs_policies:
  assumes laws: "table_laws sv V" and q: "quiet_recovery V rr"
  shows "runs sv V (policies sv rr limit)"
proof -
  have pending: "runs sv V (dispatch_pending sv u)" for u
    unfolding dispatch_pending_def by (intro runs_intro)
  have reopen: "runs sv V (reopen sv u b)" for u b
    unfolding reopen_def by (intro runs_intro)
  have closed: "runs sv V (switch_closed sv rr u k m)" for u k m
    unfolding switch_closed_def by (intro runs_intro pending reopen recovery_runs [OF q])
  have verdict: "runs sv V (policy_verdict sv rr u)" for u
    unfolding policy_verdict_def by (intro runs_intro pending reopen closed recovery_runs [OF q])
  have apply_: "runs sv V (apply_policy sv rr u n)" for u n
    unfolding apply_policy_def by (intro runs_intro recovery_runs [OF q])
  have deliver: "runs sv V (deliver_policy sv rr b u)" for b u
    unfolding deliver_policy_def Let_def by (intro runs_intro verdict apply_ recovery_runs [OF q] laws)
  have "runs sv V (policy_passes sv rr b us)" for b us
    by (induction us arbitrary: b; simp only: policy_passes.simps; intro runs_intro deliver)
  then show ?thesis unfolding policies_def by (intro runs_intro recovery_runs [OF q])
qed

lemma runs_finalize:
  assumes q: "quiet_recovery V rr"
  shows "runs sv V (finalize_pass sv rr limit)"
  unfolding finalize_pass_def finalize_attempt_def by (intro runs_intro recovery_runs [OF q])

text \<open>The seeds a repository offers were validated when they were read.\<close>

definition scope_laws :: "'w table_view \<Rightarrow> 'w scope_repository \<Rightarrow> bool" where
  "scope_laws V sr \<longleftrightarrow> quiet V (sc_rollout sr) \<and> (\<forall>d. quiet V (sc_roll_budgets sr d))
     \<and> (\<forall>d. quiet V (sc_roll_applications sr d)) \<and> (\<forall>u d ps. quiet V (sc_prepare_period sr u d ps))
     \<and> (\<forall>a. quiet V (sc_candidates sr a)) \<and> (\<forall>s. quiet V (sc_activate sr s))
     \<and> (\<forall>s. quiet V (sc_defer sr s)) \<and> (\<forall>u. quiet V (sc_complete_policy sr u))
     \<and> quiet V (sc_models sr) \<and> (\<forall>p. quiet V (sc_legacy sr p))
     \<and> (\<forall>a w seeds w'. sc_candidates sr a w = (Inr seeds, w') \<longrightarrow>
          (\<forall>s \<in> set seeds. valid_seed s \<and> valid_summary (seed_summary s)))"

lemma scope_runs:
  assumes "scope_laws V sr"
  shows "runs sv V (sc_rollout sr)" "runs sv V (sc_roll_budgets sr d)" "runs sv V (sc_roll_applications sr d)"
    "runs sv V (sc_prepare_period sr u d ps)" "runs sv V (sc_candidates sr a)" "runs sv V (sc_activate sr s)"
    "runs sv V (sc_defer sr k)" "runs sv V (sc_complete_policy sr po)" "runs sv V (sc_models sr)"
    "runs sv V (sc_legacy sr p)"
  using assms by (simp_all add: scope_laws_def runs_quiet)

lemma runs_initialize:
  assumes "valid_seed s" "valid_summary (seed_summary s)"
  shows "runs sv V (initialize sv (seed_summary s))"
proof (rule runs_stepI)
  fix w r w' assume i: "initialize sv (seed_summary s) w = (r, w')"
  show "client_step sv V Map.empty w w'"
    by (rule cs_initialize [OF i assms(2)]) (use assms(1) in \<open>simp_all add: valid_seed_def Let_def\<close>)
qed

lemma runs_prepare:
  assumes laws: "table_laws sv V" and q: "scope_laws V sr"
  shows "runs sv V (prepare_scopes sv sr application profile given_now)"
proof -
  have open_: "runs sv V (open_scope sv sr s)" if "valid_seed s" "valid_summary (seed_summary s)" for s
    unfolding open_scope_def by (intro runs_intro scope_runs [OF q] runs_initialize that)
  have seed: "runs sv V (prepare_seed sv sr now prices s)" if "valid_seed s" "valid_summary (seed_summary s)" for now prices s
    unfolding prepare_seed_def Let_def by (intro runs_intro scope_runs [OF q] open_ that)
  have seeds: "(\<forall>s \<in> set ss. valid_seed s \<and> valid_summary (seed_summary s)) \<Longrightarrow>
      runs sv V (prepare_seeds sv sr now single prices ss)" for now single prices ss
  proof (induction ss arbitrary: prices)
    case (Cons s ss)
    have s: "valid_seed s" "valid_summary (seed_summary s)" using Cons.prems by simp_all
    have rest: "runs sv V (prepare_seeds sv sr now single b ss)" for b
      by (rule Cons.IH) (use Cons.prems in simp)
    show ?case unfolding prepare_seeds.simps by (intro runs_intro scope_runs [OF q] seed s rest)
  qed (simp only: prepare_seeds.simps runs_done)
  have period: "runs sv V (prepare_period sr ro d)" for ro d
    unfolding prepare_period_def by (intro runs_intro scope_runs [OF q])
  have candidates: "runs sv V (bindA (sc_candidates sr application) (\<lambda>ss.
      guardA (application \<noteq> None \<and> ss = []) (RuntimeError ''Application execution scope is not yet prepared'')
        (prepare_seeds sv sr now single False ss)))" for now single
  proof (rule runs_bind_result [OF scope_runs(5) [OF q]])
    fix w ss w' assume c: "sc_candidates sr application w = (Inr ss, w')"
    have "\<forall>s \<in> set ss. valid_seed s \<and> valid_summary (seed_summary s)"
      using q c unfolding scope_laws_def by blast
    then show "runs sv V (guardA (application \<noteq> None \<and> ss = [])
        (RuntimeError ''Application execution scope is not yet prepared'')
        (prepare_seeds sv sr now single False ss))"
      by (intro runs_intro seeds)
  qed
  show ?thesis
    unfolding prepare_scopes_def by (intro runs_intro scope_runs [OF q] period candidates laws)
qed

section \<open>Workers\<close>

text \<open>One step of the workers: another client acts, or a pass runs, whether it returns or raises.\<close>

inductive worker_step ::
  "'w service \<Rightarrow> 'w table_view \<Rightarrow> 'w settlement_repository \<Rightarrow> 'w recovery_repository
     \<Rightarrow> 'w scope_repository \<Rightarrow> 'w \<Rightarrow> 'w \<Rightarrow> bool"
  for sv V rp rr sr where
  ws_others: "tv_others V w w' \<Longrightarrow> worker_step sv V rp rr sr w w'"
| ws_drain: "drain sv rp usage limit seconds w = (r, w') \<Longrightarrow> worker_step sv V rp rr sr w w'"
| ws_recover: "recover_dispatches sv rr seconds scopes w = (r, w') \<Longrightarrow> worker_step sv V rp rr sr w w'"
| ws_completions: "completions sv rr limit seconds usage w = (r, w') \<Longrightarrow> worker_step sv V rp rr sr w w'"
| ws_policies: "policies sv rr limit w = (r, w') \<Longrightarrow> worker_step sv V rp rr sr w w'"
| ws_finalize: "finalize_pass sv rr limit w = (r, w') \<Longrightarrow> worker_step sv V rp rr sr w w'"
| ws_prepare: "prepare_scopes sv sr application profile given_now w = (r, w') \<Longrightarrow>
    worker_step sv V rp rr sr w w'"

lemma worker_step_client:
  assumes laws: "table_laws sv V" and q: "quiet_settlement V rp" "quiet_recovery V rr" "scope_laws V sr"
    and step: "worker_step sv V rp rr sr w w'"
  shows "client_run sv V Map.empty w w'"
  using step
proof cases
  case ws_others
  then show ?thesis by (intro client_run.run_step [OF client_run.run_start] cs_others)
next
  case (ws_drain usage limit seconds r)
  then show ?thesis using runs_drain [OF laws q(1)] unfolding runs_def by blast
next
  case (ws_recover seconds scopes r)
  then show ?thesis using runs_recover [OF laws q(2)] unfolding runs_def by blast
next
  case (ws_completions limit seconds usage r)
  then show ?thesis using runs_completions [OF q(2)] unfolding runs_def by blast
next
  case (ws_policies limit r)
  then show ?thesis using runs_policies [OF laws q(2)] unfolding runs_def by blast
next
  case (ws_finalize limit r)
  then show ?thesis using runs_finalize [OF q(2)] unfolding runs_def by blast
next
  case (ws_prepare application profile given_now r)
  then show ?thesis using runs_prepare [OF laws q(3)] unfolding runs_def by blast
qed

lemma worker_runs_client:
  assumes laws: "table_laws sv V" and q: "quiet_settlement V rp" "quiet_recovery V rr" "scope_laws V sr"
    and run: "(worker_step sv V rp rr sr)\<^sup>*\<^sup>* w w'"
  shows "client_run sv V Map.empty w w'"
  using run
proof (induction rule: rtranclp_induct)
  case base
  show ?case by (rule client_run.run_start)
next
  case (step u w')
  show ?case by (rule client_run_trans [OF step.IH worker_step_client [OF laws q step.hyps(2)]])
qed


theorem workers_keep_accounting:
  assumes "table_laws sv V" "rely V (accounted (sv_sha sv) Map.empty)"
    "quiet_settlement V rp" "quiet_recovery V rr" "scope_laws V sr"
    "accounted (sv_sha sv) Map.empty (tv_rows V w)" "(worker_step sv V rp rr sr)\<^sup>*\<^sup>* w w'"
  shows "accounted (sv_sha sv) Map.empty (tv_rows V w')"
  by (rule keeps_run [OF accounted_safe [OF assms(1,2)] worker_runs_client [OF assms(1,3-5,7)] assms(6)])

section \<open>What a pass acknowledges\<close>

lemma bindA_InrE:
  assumes "bindA m f w = (Inr y, w')"
  obtains x w1 where "m w = (Inr x, w1)" "f x w1 = (Inr y, w')"
  using assms by (cases "m w") (auto simp: bindA_def split: sum.splits prod.splits)


end
