(* ===== verification/Settlement_Drain.thy ===== *)
theory Settlement_Drain
  imports Settlement_Runs
begin

text \<open>
  The number of requests an operation sends, and the fate of claimed charges: the loops of the
  client and of the worker are bounded, and every charge a worker claims is acknowledged or
  scheduled again.
\<close>

section \<open>How often an action moves a counter\<close>

definition within :: "('w \<Rightarrow> nat) \<Rightarrow> nat \<Rightarrow> ('w, 'a) act \<Rightarrow> bool" where
  "within f n m \<longleftrightarrow> (\<forall>w. f (snd (m w)) \<le> f w + n)"

text \<open>A request moves it at most \<open>c\<close> times, the clock and new identifiers not at all.\<close>

definition request_cost :: "'w service \<Rightarrow> ('w \<Rightarrow> nat) \<Rightarrow> nat \<Rightarrow> bool" where
  "request_cost sv f c \<longleftrightarrow> (\<forall>q. within f c (sv_send sv q))
     \<and> (\<forall>w. f (snd (sv_now sv w)) = f w) \<and> (\<forall>w. f (snd (sv_uuid sv w)) = f w)"

named_theorems within_intro \<open>bounds of the combinators\<close>

lemma within_mono: "within f n m \<Longrightarrow> n \<le> k \<Longrightarrow> within f k m"
  unfolding within_def by (meson add_left_mono order_trans)

lemma within_done [within_intro]: "within f n (doneA x)" "within f n (raiseA e)" "within f n (liftA r)"
  by (simp_all add: within_def doneA_def raiseA_def liftA_def)

lemma within_bind:
  assumes m: "within f n m" and g: "\<And>x. within f k (g x)" shows "within f (k + n) (bindA m g)"
  unfolding within_def
proof
  fix w
  obtain r w1 where mw: "m w = (r, w1)" by force
  have one: "f w1 \<le> f w + n" using m mw unfolding within_def by (metis snd_conv)
  show "f (snd (bindA m g w)) \<le> f w + (k + n)"
  proof (cases r)
    case (Inr x)
    have "f (snd (g x w1)) \<le> f w1 + k" using g unfolding within_def by blast
    then show ?thesis using one Inr by (simp add: bindA_def mw)
  qed (use one in \<open>simp add: bindA_def mw\<close>)
qed

lemma within_catch:
  assumes m: "within f n m" and h: "\<And>e w. snd (h e w) = w" shows "within f n (catchA m h)"
  unfolding within_def
proof
  fix w
  obtain r w1 where mw: "m w = (r, w1)" by force
  have "f w1 \<le> f w + n" using m mw unfolding within_def by (metis snd_conv)
  then show "f (snd (catchA m h w)) \<le> f w + n" by (cases r) (simp_all add: catchA_def mw h)
qed

lemma within_bind_free:
  assumes "\<And>w. f (snd (m w)) = f w" "\<And>x. within f k (g x)" shows "within f k (bindA m g)"
  using within_bind [of f 0 m k g] assms by (simp add: within_def)

lemma within_bind_lift [within_intro]:
  assumes "\<And>x. within f k (g x)"
  shows "within f k (bindA (liftA r) g)" "within f k (bindA (doneA v) g)"
    "within f k (bindA (needed msg o') g)"
  by (rule within_bind_free; simp add: assms liftA_def doneA_def raiseA_def needed_def split: option.split)+

lemma within_guard [within_intro]: "within f n m \<Longrightarrow> within f n (guardA b e m)"
  by (simp add: guardA_def within_done)

lemma within_if [within_intro]: "within f n m \<Longrightarrow> within f n k \<Longrightarrow> within f n (if b then m else k)"
  by simp

lemma within_option [within_intro]:
  "within f n m \<Longrightarrow> (\<And>x. within f n (g x)) \<Longrightarrow> within f n (case v of None \<Rightarrow> m | Some x \<Rightarrow> g x)"
  by (cases v) simp_all

lemma within_prod [within_intro]: "(\<And>x y. within f n (h x y)) \<Longrightarrow> within f n (case p of (x, y) \<Rightarrow> h x y)"
  by (cases p) simp

lemma within_outcome [within_intro]:
  "within f n m \<Longrightarrow> (\<And>x y. within f n (h x y)) \<Longrightarrow> within f n (case q of Kept \<Rightarrow> m | Advanced x y \<Rightarrow> h x y)"
  by (cases q) simp_all

lemma snd_clock: "snd (now_utc sv w) = snd (sv_now sv w)" "snd (fresh_hex sv w) = snd (sv_uuid sv w)"
  by (simp_all add: now_utc_def fresh_hex_def split: prod.split)

lemma within_now:
  "request_cost sv f c \<Longrightarrow> (\<And>x. within f k (g x)) \<Longrightarrow> within f k (bindA (now_utc sv) g)"
  by (rule within_bind_free) (simp_all add: request_cost_def snd_clock)

lemma within_status [within_intro]: "(\<And>x. within f k (g x)) \<Longrightarrow> within f k (bindA (raise_for_status r) g)"
  by (rule within_bind_free) (simp_all add: raise_for_status_def guardA_def doneA_def raiseA_def)

section \<open>Requests of one operation\<close>

text \<open>A request is sent at most twice, and so is a read or a commit.\<close>

lemma within_request:
  assumes "request_cost sv f c" shows "within f (2 * c) (request sv q)"
proof -
  have s: "within f c (sv_send sv q)" using assms by (simp add: request_cost_def)
  then have "within f (c + c) (request sv q)"
    unfolding request_def by (intro within_bind within_if within_done)
  then show ?thesis by (simp add: mult_2)
qed

lemma within_read:
  assumes "request_cost sv f c" "\<And>x. within f k (g x)"
  shows "within f (k + 2 * c) (bindA (read_scope sv s row) g)"
proof -
  have "within f (0 + 2 * c) (read_scope sv s row)"
    unfolding read_scope_def read_row_def
    by (intro within_bind within_request [OF assms(1)] within_intro)
  then have "within f (2 * c) (read_scope sv s row)" by simp
  then show ?thesis by (rule within_bind) (rule assms(2))
qed

lemma within_commit_or:
  fixes f :: "'w \<Rightarrow> nat"
  assumes "request_cost sv f c" "within f k again"
  shows "within f (k + 2 * c) (commit_or sv s es x again)"
proof -
  have u: "within f k (bindA (fresh_hex sv) g)" if "\<And>x. within f k (g x)" for k and g :: "string \<Rightarrow> ('w, unit) act"
    by (rule within_bind_free) (use assms(1) that in \<open>simp_all add: request_cost_def snd_clock\<close>)
  have "within f (0 + 2 * c) (commit sv s es)"
    unfolding commit_def Let_def
    by (intro u within_intro within_bind within_request [OF assms(1)])
  then have w: "within f (2 * c) (bindA (commit sv s es) (\<lambda>_. doneA True))"
    using within_bind [of f "2 * c" "commit sv s es" 0] within_done by fastforce
  have "within f (2 * c) (catchA (bindA (commit sv s es) (\<lambda>_. doneA True))
              (\<lambda>e. if is_lost_race e then doneA False else raiseA e))"
    by (rule within_catch [OF w]) (auto simp: doneA_def raiseA_def)
  then show ?thesis
    unfolding commit_or_def by (intro within_bind within_if within_done assms(2))
qed

lemma within_update_loop:
  assumes "request_cost sv f c" shows "within f (6 * c * n) (update_loop n sv i step)"
proof (induction n)
  case (Suc n)
  have "within f (6 * c * n + 2 * c + 2 * c + 2 * c) (update_loop (Suc n) sv i step)"
    unfolding update_loop.simps
    by (intro within_intro within_read [OF assms] within_commit_or [OF assms] within_now [OF assms] Suc.IH)
  then show ?case by (simp add: algebra_simps)
qed (simp add: within_done)

lemma within_settle: "request_cost sv f c \<Longrightarrow> within f (18 * c) (settle sv ch)"
  using within_update_loop [of sv f c "bounded 3"] by (simp add: settle_def update_attempt_def bounded_def mult.commute)

lemma within_reserve_loop:
  assumes "request_cost sv f c" shows "within f (6 * c * n) (reserve_loop n sv i k epoch usd price)"
proof (induction n)
  case (Suc n)
  have "within f (6 * c * n + 2 * c + 2 * c + 2 * c) (reserve_loop (Suc n) sv i k epoch usd price)"
    unfolding reserve_loop.simps
    by (intro within_intro within_read [OF assms] within_commit_or [OF assms] within_now [OF assms] Suc.IH)
  then show ?case by (simp add: algebra_simps)
qed (simp add: within_done)

lemma within_policy_loop:
  assumes "request_cost sv f c" shows "within f (4 * c * n) (policy_loop n sv s p)"
proof (induction n)
  case (Suc n)
  have "within f (4 * c * n + 2 * c + 2 * c) (policy_loop (Suc n) sv s p)"
    unfolding policy_loop.simps
    by (intro within_intro within_read [OF assms] within_commit_or [OF assms] within_now [OF assms] Suc.IH)
  then show ?case by (simp add: algebra_simps)
qed (simp add: within_done)

lemma within_quiesce_loop:
  assumes "request_cost sv f c" shows "within f (4 * c * n) (quiesce_loop n sv s epoch revision ena)"
proof (induction n)
  case (Suc n)
  have "within f (4 * c * n + 2 * c + 2 * c) (quiesce_loop (Suc n) sv s epoch revision ena)"
    unfolding quiesce_loop.simps
    by (intro within_intro within_read [OF assms] within_commit_or [OF assms] within_now [OF assms] Suc.IH)
  then show ?case by (simp add: algebra_simps)
qed (simp add: within_done)

lemma within_dispatch_state [within_intro]:
  "within f n a \<Longrightarrow> within f n b \<Longrightarrow> within f n c \<Longrightarrow>
   within f n (case d of D_preparing \<Rightarrow> a | D_dispatching \<Rightarrow> b | D_cancelled \<Rightarrow> c)"
  by (cases d) simp_all

lemma within_cancel_loop:
  assumes "request_cost sv f c" shows "within f (4 * c * n) (cancel_loop n sv p recovery)"
proof (induction n)
  case (Suc n)
  have early: "within f k (bindA (if recovery then bindA (now_utc sv) (\<lambda>now. doneA (now < e)) else doneA False) g)"
    if "\<And>x. within f k (g x)" for k e and g :: "bool \<Rightarrow> ('a, bool) act"
  proof (cases recovery)
    case True
    have "within f 0 (bindA (now_utc sv) (\<lambda>now. doneA (now < e)))"
      by (intro within_now [OF assms] within_done)
    then show ?thesis using within_bind [of f 0 _ k g] that True by simp
  qed (use that in \<open>simp add: within_bind_lift\<close>)
  have "within f (4 * c * n + 2 * c + 2 * c) (cancel_loop (Suc n) sv p recovery)"
    unfolding cancel_loop.simps
    by (intro within_intro early within_read [OF assms] within_commit_or [OF assms] within_now [OF assms] Suc.IH)
  then show ?case by (simp add: algebra_simps)
qed (simp add: within_done)

definition sends_at_most :: "('w \<Rightarrow> nat) \<Rightarrow> nat \<Rightarrow> ('w, 'a) act \<Rightarrow> bool" where
  "sends_at_most sent n m \<longleftrightarrow> (\<forall>w. sent (snd (m w)) \<le> sent w + n)"


section \<open>The fate of claimed charges\<close>

text \<open>A value that requests do not change is not changed by a settlement.\<close>

lemma settle_leaves:
  assumes "\<And>q w. g (snd (sv_send sv q w)) = g w" "\<And>w. g (snd (sv_now sv w)) = g w"
    "\<And>w. g (snd (sv_uuid sv w)) = g w"
  shows "g (snd (settle sv ch w)) = g w"
proof -
  let ?f = "\<lambda>x. if g x = g w then 0 else 1 :: nat"
  have "request_cost sv ?f 0" by (simp add: request_cost_def within_def assms)
  then have "within ?f 0 (settle sv ch)" using within_settle [of sv ?f 0] by simp
  then have "?f (snd (settle sv ch w)) \<le> ?f w + 0" unfolding within_def by blast
  then show ?thesis by (simp split: if_splits)
qed

text \<open>
  What was claimed and what was disposed of (acknowledged or scheduled again), as the repository
  would record it.
\<close>

definition traced ::
  "'w service \<Rightarrow> 'w settlement_repository \<Rightarrow> ('w \<Rightarrow> settlement_task list) \<Rightarrow> ('w \<Rightarrow> settlement_task list) \<Rightarrow> bool"
  where
  "traced sv rp claimed disposed \<longleftrightarrow>
     (\<forall>g \<in> {claimed, disposed}. (\<forall>q w. g (snd (sv_send sv q w)) = g w) \<and> (\<forall>w. g (snd (sv_now sv w)) = g w)
        \<and> (\<forall>w. g (snd (sv_uuid sv w)) = g w) \<and> (\<forall>w. g (snd (sr_monotonic rp w)) = g w))
     \<and> (\<forall>u n w r w'. sr_claim rp u n w = (r, w') \<longrightarrow> disposed w' = disposed w
          \<and> claimed w' = claimed w @ (case r of Inr (Some t) \<Rightarrow> [t] | _ \<Rightarrow> []))
     \<and> (\<forall>t w r w'. sr_complete rp t w = (r, w') \<longrightarrow> claimed w' = claimed w
          \<and> disposed w' = disposed w @ (case r of Inr _ \<Rightarrow> [t] | Inl _ \<Rightarrow> []))
     \<and> (\<forall>t e w r w'. sr_retry rp t e w = (r, w') \<longrightarrow> claimed w' = claimed w
          \<and> disposed w' = disposed w @ (case r of Inr _ \<Rightarrow> [t] | Inl _ \<Rightarrow> []))"

lemma tracedD:
  assumes "traced sv rp claimed disposed"
  shows "claimed (snd (settle sv ch w)) = claimed w" "disposed (snd (settle sv ch w)) = disposed w"
    "claimed (snd (sv_now sv w)) = claimed w" "disposed (snd (sv_now sv w)) = disposed w"
    "claimed (snd (sr_monotonic rp w)) = claimed w" "disposed (snd (sr_monotonic rp w)) = disposed w"
    "sr_claim rp u n w = (r, w') \<Longrightarrow> disposed w' = disposed w
          \<and> claimed w' = claimed w @ (case r of Inr (Some t) \<Rightarrow> [t] | _ \<Rightarrow> [])"
    "sr_complete rp t w = (q, w') \<Longrightarrow> claimed w' = claimed w
          \<and> disposed w' = disposed w @ (case q of Inr _ \<Rightarrow> [t] | Inl _ \<Rightarrow> [])"
    "sr_retry rp t e w = (q, w') \<Longrightarrow> claimed w' = claimed w
          \<and> disposed w' = disposed w @ (case q of Inr _ \<Rightarrow> [t] | Inl _ \<Rightarrow> [])"
proof -
  note t = assms [unfolded traced_def]
  show "claimed (snd (settle sv ch w)) = claimed w" "disposed (snd (settle sv ch w)) = disposed w"
    by (rule settle_leaves; use t in simp)+
  show "claimed (snd (sv_now sv w)) = claimed w" "disposed (snd (sv_now sv w)) = disposed w"
    "claimed (snd (sr_monotonic rp w)) = claimed w" "disposed (snd (sr_monotonic rp w)) = disposed w"
    using t by simp_all
  show "sr_claim rp u n w = (r, w') \<Longrightarrow> disposed w' = disposed w
          \<and> claimed w' = claimed w @ (case r of Inr (Some t) \<Rightarrow> [t] | _ \<Rightarrow> [])"
    "sr_complete rp t w = (q, w') \<Longrightarrow> claimed w' = claimed w
          \<and> disposed w' = disposed w @ (case q of Inr _ \<Rightarrow> [t] | Inl _ \<Rightarrow> [])"
    "sr_retry rp t e w = (q, w') \<Longrightarrow> claimed w' = claimed w
          \<and> disposed w' = disposed w @ (case q of Inr _ \<Rightarrow> [t] | Inl _ \<Rightarrow> [])"
    using t by blast+
qed

lemma clock_values:
  "now_utc sv w = (Inr (fst (sv_now sv w)), snd (sv_now sv w))"
  "clockA c w = (Inr (fst (c w)), snd (c w))"
  by (simp_all add: now_utc_def clockA_def split: prod.split)

lemma settle_task_traced:
  assumes tr: "traced sv rp claimed disposed" and run: "settle_task sv rp t w = (r, w')"
  shows "claimed w' = claimed w" "disposed w' = disposed w @ (case r of Inr _ \<Rightarrow> [t] | Inl _ \<Rightarrow> [])"
proof -
  obtain now w1 where n: "now_utc sv w = (Inr now, w1)" and w1: "w1 = snd (sv_now sv w)"
    by (rule that [OF clock_values(1) refl])
  obtain q w2 where s: "settle sv (task_charge t) w1 = (q, w2)" by force
  have one: "claimed w1 = claimed w" "disposed w1 = disposed w" unfolding w1 by (rule tracedD [OF tr])+
  have two: "claimed w2 = claimed w" "disposed w2 = disposed w"
    using tracedD(1,2) [OF tr, of "task_charge t" w1] one s by simp_all
  have "claimed w' = claimed w \<and> disposed w' = disposed w @ (case r of Inr _ \<Rightarrow> [t] | Inl _ \<Rightarrow> [])"
  proof (cases "lease_until t \<le> now")
    case True
    then have "r = Inl (RuntimeError ''Settlement claim expired before execution'')" "w' = w1"
      using run n by (simp_all add: settle_task_def bindA_def guardA_def raiseA_def)
    then show ?thesis using one by simp
  next
    case False
    show ?thesis
    proof (cases q)
      case (Inl e)
      then have "r = Inl e" "w' = w2" using run n s False by (simp_all add: settle_task_def bindA_def guardA_def)
      then show ?thesis using two by simp
    next
      case (Inr x)
      then have "sr_complete rp t w2 = (r, w')" using run n s False by (simp add: settle_task_def bindA_def guardA_def)
      then show ?thesis using tracedD(8) [OF tr] two by metis
    qed
  qed
  then show "claimed w' = claimed w" "disposed w' = disposed w @ (case r of Inr _ \<Rightarrow> [t] | Inl _ \<Rightarrow> [])" by simp_all
qed

lemma handle_task_traced:
  assumes tr: "traced sv rp claimed disposed" and run: "handle_task sv rp t w = (Inr n, w')"
  shows "claimed w' = claimed w \<and> disposed w' = disposed w @ [t] \<and> n \<le> 1"
proof -
  obtain r w1 where s: "settle_task sv rp t w = (r, w1)" by force
  note one = settle_task_traced [OF tr s]
  show ?thesis
  proof (cases r)
    case (Inl e)
    obtain q where q: "sr_retry rp t e w1 = (Inr q, w')" and "n = 0"
      using run s Inl by (auto simp: handle_task_def bindA_def tryA_def doneA_def split: sum.splits prod.splits)
    then show ?thesis using tracedD(9) [OF tr q] one Inl by simp
  next
    case (Inr b)
    then have "w' = w1" "n \<le> 1"
      using run s by (auto simp: handle_task_def bindA_def tryA_def doneA_def)
    then show ?thesis using one Inr by simp
  qed
qed

lemma drain_loop_traced:
  assumes tr: "traced sv rp claimed disposed"
  shows "drain_loop k sv rp usage started seconds w = (Inr n, w') \<Longrightarrow>
    \<exists>ts. claimed w' = claimed w @ ts \<and> disposed w' = disposed w @ ts \<and> length ts \<le> k \<and> n \<le> length ts"
proof (induction k arbitrary: w n w')
  case 0
  then show ?case by (simp add: doneA_def)
next
  case (Suc k)
  obtain t w1 where c: "clockA (sr_monotonic rp) w = (Inr t, w1)" and w1: "w1 = snd (sr_monotonic rp w)"
    by (rule that [OF clock_values(2) refl])
  have one: "claimed w1 = claimed w" "disposed w1 = disposed w" unfolding w1 by (rule tracedD [OF tr])+
  show ?case
  proof (cases "seconds \<le> t - started")
    case True
    then show ?thesis using Suc.prems c one by (simp add: bindA_def doneA_def)
  next
    case False
    obtain q w2 where q: "sr_claim rp usage 120 w1 = (q, w2)" by force
    note two = tracedD(7) [OF tr q]
    consider e where "q = Inl e" | "q = Inr None" | x where "q = Inr (Some x)"
    proof (cases q)
      case (Inr y)
      then show thesis using that(2,3) by (cases y) simp_all
    qed (rule that(1))
    then show ?thesis
    proof cases
      case 1
      then show ?thesis using Suc.prems c q False by (simp add: bindA_def)
    next
      case 2
      then show ?thesis using Suc.prems c q False one two by (simp add: bindA_def doneA_def)
    next
      case (3 x)
      then have rest: "bindA (handle_task sv rp x) (\<lambda>n. bindA (drain_loop k sv rp usage started seconds)
          (\<lambda>m. doneA (n + m))) w2 = (Inr n, w')"
        using Suc.prems c q False by (simp add: bindA_def)
      then obtain a w3 where h: "handle_task sv rp x w2 = (Inr a, w3)"
        and rest2: "bindA (drain_loop k sv rp usage started seconds) (\<lambda>m. doneA (a + m)) w3 = (Inr n, w')"
        by (rule bindA_InrE)
      then obtain b w4 where l: "drain_loop k sv rp usage started seconds w3 = (Inr b, w4)"
        and e: "doneA (a + b) w4 = (Inr n, w')" by (auto elim: bindA_InrE)
      note three = handle_task_traced [OF tr h]
      obtain ts where ts: "claimed w4 = claimed w3 @ ts" "disposed w4 = disposed w3 @ ts" "length ts \<le> k" "b \<le> length ts"
        using Suc.IH [OF l] by blast
      have "w' = w4" "n = a + b" using e by (simp_all add: doneA_def)
      then show ?thesis using ts three two one 3 by (intro exI [of _ "x # ts"]) simp
    qed
  qed
qed

text \<open>
  C26. When a drain pass returns, every charge it claimed was acknowledged or scheduled again, in
  the order of the claims and each once; it claimed at most 100 and counts no more than it
  claimed.
\<close>

theorem drain_disposes:
  assumes "traced sv rp claimed disposed" "drain sv rp usage limit seconds w = (Inr n, w')"
  shows "\<exists>ts. claimed w' = claimed w @ ts \<and> disposed w' = disposed w @ ts
    \<and> length ts \<le> 100 \<and> n \<le> length ts"
proof -
  obtain started w1 where c: "clockA (sr_monotonic rp) w = (Inr started, w1)" and w1: "w1 = snd (sr_monotonic rp w)"
    by (rule that [OF clock_values(2) refl])
  have "drain_loop (drain_limit limit) sv rp usage started seconds w1 = (Inr n, w')"
    using assms(2) c by (simp add: drain_def bindA_def)
  moreover have "claimed w1 = claimed w" "disposed w1 = disposed w"
    unfolding w1 by (rule tracedD [OF assms(1)])+
  moreover have "drain_limit limit \<le> 100" by (simp add: drain_limit_def)
  ultimately show ?thesis using drain_loop_traced [OF assms(1)] order_trans by fastforce
qed

section \<open>Switching the unit of a budget\<close>

lemma reopen_leaves: "reopen sv u b w = (Inr v, w') \<Longrightarrow> v = Leave"
  by (auto simp: reopen_def doneA_def split: if_splits elim: bindA_InrE)

lemma switch_closed_idle:
  assumes "switch_closed sv rr u source m w = (Inr (Apply opening), w')"
  shows "\<exists>n v wa wb. opening = Some n \<and> policy_revision m < po_revision u \<and> idle m \<and> no_upper_bound m
    \<and> rr_switch_usage rr u wa = (Inr (Some v), wb) \<and> usage_in source v = Some (source_balance m)
    \<and> usage_in (po_mode u) v = Some n"
proof -
  have g: "policy_revision m < po_revision u" "idle m" "no_upper_bound m"
    using assms by (auto simp: switch_closed_def doneA_def split: if_splits dest: reopen_leaves)
  then have "bindA (dispatch_pending sv u) (\<lambda>pending.
        if pending then reopen sv u (idle m \<and> po_enabled u)
        else
          bindA (rr_switch_usage rr u) (\<lambda>usage. case usage of
            None \<Rightarrow> reopen sv u (po_enabled u)
          | Some v \<Rightarrow>
              if usage_in source v \<noteq> Some (source_balance m) then reopen sv u (po_enabled u)
              else (case usage_in (po_mode u) v of
                None \<Rightarrow> reopen sv u (po_enabled u)
              | Some n \<Rightarrow> doneA (Apply (Some n))))) w = (Inr (Apply opening), w')"
    using assms by (simp add: switch_closed_def)
  then obtain pending w1 where "(if pending then reopen sv u (idle m \<and> po_enabled u)
        else
          bindA (rr_switch_usage rr u) (\<lambda>usage. case usage of
            None \<Rightarrow> reopen sv u (po_enabled u)
          | Some v \<Rightarrow>
              if usage_in source v \<noteq> Some (source_balance m) then reopen sv u (po_enabled u)
              else (case usage_in (po_mode u) v of
                None \<Rightarrow> reopen sv u (po_enabled u)
              | Some n \<Rightarrow> doneA (Apply (Some n))))) w1 = (Inr (Apply opening), w')"
    by (rule bindA_InrE)
  then have "bindA (rr_switch_usage rr u) (\<lambda>usage. case usage of
            None \<Rightarrow> reopen sv u (po_enabled u)
          | Some v \<Rightarrow>
              if usage_in source v \<noteq> Some (source_balance m) then reopen sv u (po_enabled u)
              else (case usage_in (po_mode u) v of
                None \<Rightarrow> reopen sv u (po_enabled u)
              | Some n \<Rightarrow> doneA (Apply (Some n)))) w1 = (Inr (Apply opening), w')"
    by (auto split: if_splits dest: reopen_leaves)
  then obtain usage w2 where usage: "rr_switch_usage rr u w1 = (Inr usage, w2)"
    and rest: "(case usage of
            None \<Rightarrow> reopen sv u (po_enabled u)
          | Some v \<Rightarrow>
              if usage_in source v \<noteq> Some (source_balance m) then reopen sv u (po_enabled u)
              else (case usage_in (po_mode u) v of
                None \<Rightarrow> reopen sv u (po_enabled u)
              | Some n \<Rightarrow> doneA (Apply (Some n)))) w2 = (Inr (Apply opening), w')"
    by (rule bindA_InrE)
  obtain v where v: "usage = Some v" using rest by (cases usage) (auto dest: reopen_leaves)
  moreover have same: "usage_in source v = Some (source_balance m)"
    using rest v by (cases "usage_in source v = Some (source_balance m)") (auto dest: reopen_leaves)
  moreover obtain n where "usage_in (po_mode u) v = Some n" "opening = Some n"
    using rest v same by (cases "usage_in (po_mode u) v") (auto simp: doneA_def dest: reopen_leaves)
  ultimately have "usage = Some v" "usage_in source v = Some (source_balance m)"
    "usage_in (po_mode u) v = Some n" "opening = Some n" by simp_all
  then show ?thesis using usage g by blast
qed

lemma commit_or_result:
  "commit_or sv s es x again w = (Inr y, w') \<Longrightarrow> y = x \<or> (\<exists>u. again u = (Inr y, w'))"
  by (auto simp: commit_or_def doneA_def split: if_splits elim!: bindA_InrE)

lemma quiesce_loop_switched:
  "quiesce_loop k sv s epoch z b w = (Inr m, w') \<Longrightarrow> z \<le> policy_revision m \<or> enabled m = b"
proof (induction k arbitrary: s epoch b w)
  case (Suc k)
  show ?case
    using Suc.prems unfolding quiesce_loop.simps
    by (auto elim!: bindA_InrE dest!: commit_or_result Suc.IH simp: guardA_def raiseA_def doneA_def
        liftA_def make_summary_def checked_def guardR_def split: if_splits prod.splits)
qed (simp add: raiseA_def)


end
