(* ===== verification/Settlement_Examples.thy ===== *)
theory Settlement_Examples
  imports Settlement_Drain Table_Examples
begin

text \<open>
  Concrete repositories and services on which the theorems about the settlement worker apply: the
  log of rows of \<open>Table_Examples\<close>, a table that cannot be reached, and one that counts requests.
\<close>

section \<open>Passes over the log\<close>

definition task0 :: settlement_task where
  "task0 = \<lparr>task_id = 1, task_charge = charge0, lease_token = uuid1, lease_until = t0 + 100,
     task_attempts = 1, task_created_at = t0\<rparr>"

definition busy :: "log settlement_repository" where
  "busy = \<lparr>sr_monotonic = (\<lambda>l. (0, l)), sr_claim = (\<lambda>_ _. doneA (Some task0)),
     sr_complete = (\<lambda>_. doneA True), sr_retry = (\<lambda>_ _. doneA True)\<rparr>"

definition switch0 :: policy_update where
  "switch0 = \<lparr>po_scope = \<lparr>scope_type = Application, scope_id = uuid1, period_start = Date 2026 3 1\<rparr>,
     po_epoch = uuid1, po_revision = 2, po_token_limit = 0, po_mode = Usd, po_usd_limit = Some 500,
     po_enforce = True, po_enabled = True\<rparr>"

definition offers :: "log recovery_repository" where
  "offers = \<lparr>rr_monotonic = (\<lambda>l. (0, l)), rr_scopes = (\<lambda>_. doneA []), rr_advance = (\<lambda>_ _ _. doneA True),
     rr_register = (\<lambda>_. doneA ()), rr_completions = (\<lambda>_ _. doneA []), rr_observations = (\<lambda>_. doneA []),
     rr_record = (\<lambda>_ _. doneA ()), rr_policies = (\<lambda>_. doneA [switch0]),
     rr_switch_usage = (\<lambda>_. doneA (Some (Some 40, Some 5))), rr_complete_policy = (\<lambda>_. doneA ()),
     rr_unverified = (\<lambda>_. doneA []), rr_complete_finalization = (\<lambda>_. doneA ()), rr_models = doneA []\<rparr>"

definition opening0 :: summary where
  "opening0 = seed0\<lparr>policy_revision := 0, token_limit := 0, enabled := False\<rparr>"

definition month0 :: scope_seed where
  "month0 = \<lparr>seed_summary = opening0,
     seed_policy = \<lparr>po_scope = scope0, po_epoch = uuid1, po_revision = 1, po_token_limit = 1000,
       po_mode = Tokens, po_usd_limit = None, po_enforce = True, po_enabled = True\<rparr>,
     seed_active = False\<rparr>"

definition seeding :: "log scope_repository" where
  "seeding = \<lparr>sc_rollout = doneA (Some \<lparr>ro_epoch = uuid1, ro_prepared_period = Some (Date 2026 3 1),
       ro_profiles = [uuid1]\<rparr>),
     sc_roll_budgets = (\<lambda>_. doneA ()), sc_roll_applications = (\<lambda>_. doneA 0),
     sc_prepare_period = (\<lambda>_ _ _. doneA ()), sc_candidates = (\<lambda>_. doneA [month0]),
     sc_activate = (\<lambda>_. doneA ()), sc_defer = (\<lambda>_. doneA ()), sc_complete_policy = (\<lambda>_. doneA ()),
     sc_models = doneA [], sc_legacy = (\<lambda>_. doneA []), sc_people = [''alice'']\<rparr>"

lemma quiet_log: "quiet log_view (doneA x)" "quiet log_view (clockA (\<lambda>l. (n, l)))"
  by (simp_all add: quiet_def doneA_def clockA_def log_view_def)

lemma busy_quiet: "quiet_settlement log_view busy"
  by (simp add: quiet_settlement_def busy_def quiet_log)

lemma offers_quiet: "quiet_recovery log_view offers"
  by (simp add: quiet_recovery_def offers_def quiet_log)

lemma seeding_laws: "scope_laws log_view seeding"
proof -
  have "valid_seed month0" "valid_summary (seed_summary month0)" by code_simp+
  then show ?thesis by (auto simp: scope_laws_def seeding_def quiet_log doneA_def)
qed

lemma one_pass:
  "(worker_step sv V rp rr sr)\<^sup>*\<^sup>* w (snd (drain sv rp usage limit seconds w))"
  "(worker_step sv V rp rr sr)\<^sup>*\<^sup>* w (snd (prepare_scopes sv sr application profile given_now w))"
  by (rule r_into_rtranclp, rule ws_drain ws_prepare, rule prod.collapse [symmetric])+


theorem workers_keep_accounting_witness:
  "accounted sha0 Map.empty (tv_rows log_view (snd (prepare_scopes log_service seeding None None None [])))"
proof -
  have sv: "sv_sha log_service = sha0" by (simp add: log_service_def)
  have "accounted sha0 Map.empty (tv_rows log_view [])"
    by (simp add: accounted_def partition_ok_def att_rows_def log_view_def)
  then show ?thesis
    using workers_keep_accounting [OF log_laws log_rely busy_quiet offers_quiet seeding_laws _ one_pass(2)]
    by (simp add: sv)
qed

lemma run_task: "settle_task log_service busy task0 (log_of sum3 att3 plan0) = (Inr True, log_of sum3 att3 plan0)"
  by (simp add: settle_task_def bindA_def guardA_def now_utc_def log_service_def [THEN arg_cong [of _ _ sv_now]]
      task0_def run_settle_again busy_def doneA_def)


section \<open>A table that cannot be reached\<close>

type_synonym desk = "settlement_task list \<times> settlement_task list \<times> settlement_task list"

definition unreachable :: "desk service" where
  "unreachable = \<lparr>sv_send = (\<lambda>_. raiseA TransportError), sv_now = (\<lambda>w. (t0 + 5, w)),
     sv_uuid = (\<lambda>w. (''b'', w)), sv_endpoint = ''https://t'', sv_table = ''ledger'', sv_sha = sha0\<rparr>"

fun claim_next :: "(desk, settlement_task option) act" where
  "claim_next ([], c, d) = (Inr None, ([], c, d))"
| "claim_next (t # ts, c, d) = (Inr (Some t), (ts, c @ [t], d))"

fun dispose :: "settlement_task \<Rightarrow> (desk, bool) act" where
  "dispose t (q, c, d) = (Inr True, (q, c, d @ [t]))"

definition front :: "desk settlement_repository" where
  "front = \<lparr>sr_monotonic = (\<lambda>w. (0, w)), sr_claim = (\<lambda>_ _. claim_next), sr_complete = dispose,
     sr_retry = (\<lambda>t _. dispose t)\<rparr>"

lemma front_traced: "traced unreachable front (fst \<circ> snd) (snd \<circ> snd)"
proof -
  have "\<forall>w r w'. claim_next w = (r, w') \<longrightarrow> snd (snd w') = snd (snd w)
      \<and> fst (snd w') = fst (snd w) @ (case r of Inr (Some t) \<Rightarrow> [t] | _ \<Rightarrow> [])"
    by (auto elim!: claim_next.elims)
  moreover have "\<forall>t w r w'. dispose t w = (r, w') \<longrightarrow> fst (snd w') = fst (snd w)
      \<and> snd (snd w') = snd (snd w) @ (case r of Inr _ \<Rightarrow> [t] | Inl _ \<Rightarrow> [])"
    by (auto elim!: dispose.elims)
  ultimately show ?thesis by (simp add: traced_def front_def unreachable_def raiseA_def)
qed

lemma run_front: "\<exists>w. drain unreachable front None 5 25 ([task0, task0], [], []) = (Inr 0, w)"
  by (rule exI [of _ "([], [task0, task0], [task0, task0])"]) code_simp

theorem drain_disposes_witness:
  "\<exists>w ts. drain unreachable front None 5 25 ([task0, task0], [], []) = (Inr 0, w)
     \<and> fst (snd w) = ts \<and> snd (snd w) = ts"
proof -
  obtain w where w: "drain unreachable front None 5 25 ([task0, task0], [], []) = (Inr 0, w)"
    using run_front by blast
  from drain_disposes [OF front_traced w] w show ?thesis by auto
qed

section \<open>Counted requests\<close>

definition counting :: "nat service" where
  "counting = \<lparr>sv_send = (\<lambda>_ n. (Inr (answer 401), Suc n)), sv_now = (\<lambda>n. (t0 + 5, n)),
     sv_uuid = (\<lambda>n. (''b'', n)), sv_endpoint = ''https://t'', sv_table = ''ledger'', sv_sha = sha0\<rparr>"


section \<open>A switch of the unit\<close>

definition closed0 :: summary where
  "closed0 = opening0\<lparr>sm_scope := po_scope switch0, policy_revision := 1\<rparr>"

definition closed_log :: log where
  "closed_log = [(partition_key sha0 (po_scope switch0), SUMMARY_ROW, summary_json closed0)]"

lemma run_switch: "policy_verdict log_service offers switch0 closed_log = (Inr (Apply (Some 5)), closed_log)"
  by code_simp


end
