(* ===== verification/Probe_Progress.thy ===== *)
theory Probe_Progress
  imports Billable_Requests
begin

text \<open>
  \<open>turnstile_core/services/probe_journal.py\<close>, \<open>PublicationProbeProgress\<close>, and
  \<open>services/worker_lease.py\<close>: the steps by which a publication is verified against the live gateway,
  checkpointed before and after each so that no step runs twice, and the lease of the worker that
  runs them. The store of checkpoints, the clock and the verifications are functions on a world;
  ticks of \<open>time.monotonic\<close> are integers.
\<close>

section \<open>Steps that may fail\<close>

text \<open>
  What a step of a worker raises: an exception of the ledger and repository code, or one of those of
  the publication contract (\<open>PolicyCompilationError\<close>, \<open>AuthorizationRequiredError\<close>,
  \<open>ProbeVerificationDeferred\<close>, \<open>RetryablePublicationError\<close>), of which the first two may carry the
  outcome of a billed request.
\<close>

datatype failure =
    Raised exn
  | Compilation string "outcome_report option"
  | Authorization string "outcome_report option"
  | Deferred string
  | Retryable string

type_synonym ('w, 'a) step = "'w \<Rightarrow> (failure + 'a) \<times> 'w"

definition doneS :: "'a \<Rightarrow> ('w, 'a) step" where "doneS x w = (Inr x, w)"

definition raiseS :: "failure \<Rightarrow> ('w, 'a) step" where "raiseS e w = (Inl e, w)"

definition bindS :: "('w, 'a) step \<Rightarrow> ('a \<Rightarrow> ('w, 'b) step) \<Rightarrow> ('w, 'b) step" where
  "bindS m f w = (case m w of (Inl e, w') \<Rightarrow> (Inl e, w') | (Inr x, w') \<Rightarrow> f x w')"

definition liftS :: "'a res \<Rightarrow> ('w, 'a) step" where
  "liftS r w = (case r of Inl e \<Rightarrow> (Inl (Raised e), w) | Inr x \<Rightarrow> (Inr x, w))"

text \<open>A step on the world around an object, and reading and replacing the object.\<close>

definition outerS :: "('w, 'a) step \<Rightarrow> ('w \<times> 's, 'a) step" where
  "outerS m ws = (case m (fst ws) of (r, w') \<Rightarrow> (r, (w', snd ws)))"

definition selfS :: "('w \<times> 's, 's) step" where "selfS ws = (Inr (snd ws), ws)"

definition becomeS :: "('s \<Rightarrow> 's) \<Rightarrow> ('w \<times> 's, unit) step" where
  "becomeS f ws = (Inr (), (fst ws, f (snd ws)))"

text \<open>\<open>try: m finally: f\<close>, where \<open>f\<close> only changes the object.\<close>

definition finallyS :: "('w \<times> 's, 'a) step \<Rightarrow> ('s \<Rightarrow> 's) \<Rightarrow> ('w \<times> 's, 'a) step" where
  "finallyS m f ws = (case m ws of (r, (w', s')) \<Rightarrow> (r, (w', f s')))"

section \<open>Checkpoints\<close>

datatype step_state = Step_started | Step_passed

record checkpoint =
  ck_context :: string
  ck_steps :: "(string \<times> step_state) list"

definition MAX_PROBE_STEPS :: nat where "MAX_PROBE_STEPS = 2000"

definition make_checkpoint :: "checkpoint \<Rightarrow> checkpoint res" where
  "make_checkpoint c =
     checked (is_sha256_hex (ck_context c) \<and> list_all (is_sha256_hex \<circ> fst) (ck_steps c)
       \<and> length (ck_steps c) \<le> MAX_PROBE_STEPS) ''_ProbeCheckpoint'' c"

section \<open>Progress\<close>

record 'w probe_store =
  ps_clock :: "'w \<Rightarrow> int \<times> 'w"
  ps_persist :: "checkpoint option \<Rightarrow> checkpoint \<Rightarrow> ('w, unit) step"

record progress =
  pg_checkpoint :: checkpoint
  pg_stored :: "checkpoint option"
  pg_maximum_steps :: nat
  pg_completed :: nat
  pg_deadline :: int
  pg_request_budget :: int
  pg_hard_deadline :: "int option"
  pg_step_deadline :: "int option"

definition clockS :: "'w probe_store \<Rightarrow> ('w \<times> progress, int) step" where
  "clockS ps ws = (case ps_clock ps (fst ws) of (t, w') \<Rightarrow> (Inr t, (w', snd ws)))"

text \<open>\<open>__init__\<close>.\<close>

definition open_progress ::
  "'w probe_store \<Rightarrow> string \<Rightarrow> checkpoint option \<Rightarrow> int \<Rightarrow> int \<Rightarrow> int \<Rightarrow> int option \<Rightarrow> ('w, progress) step" where
  "open_progress ps context saved maximum_steps time_budget request_budget hard w =
     (if maximum_steps < 1 \<or> min time_budget request_budget \<le> 0
      then (Inl (Raised (ValueError ''Verification slice limits must be positive'')), w)
      else case make_checkpoint (case saved of Some c \<Rightarrow> c | None \<Rightarrow> \<lparr>ck_context = context, ck_steps = []\<rparr>) of
        Inl e \<Rightarrow> (Inl (Raised e), w)
      | Inr c \<Rightarrow>
          if ck_context c \<noteq> context then (Inl (Compilation ''Publication verification context changed'' None), w)
          else case ps_clock ps w of (t, w') \<Rightarrow>
            (Inr \<lparr>pg_checkpoint = c, pg_stored = (if saved = None then None else Some c),
               pg_maximum_steps = nat maximum_steps, pg_completed = 0, pg_deadline = t + time_budget,
               pg_request_budget = request_budget, pg_hard_deadline = hard, pg_step_deadline = None\<rparr>, w'))"

definition request_timeout :: "'w probe_store \<Rightarrow> int \<Rightarrow> ('w \<times> progress, int) step" where
  "request_timeout ps maximum =
     bindS selfS (\<lambda>p. case pg_step_deadline p of
       None \<Rightarrow> doneS maximum
     | Some d \<Rightarrow>
         bindS (clockS ps) (\<lambda>t.
         if d - t \<le> 0 then raiseS (Compilation ''Verification step deadline reached; outcome unconfirmed'' None)
         else doneS (min maximum (d - t))))"

definition save_step :: "'w probe_store \<Rightarrow> string \<Rightarrow> step_state \<Rightarrow> ('w \<times> progress, unit) step" where
  "save_step ps key state =
     bindS selfS (\<lambda>p.
     bindS (liftS (make_checkpoint ((pg_checkpoint p)\<lparr>ck_steps :=
              AList.update key state (ck_steps (pg_checkpoint p))\<rparr>))) (\<lambda>candidate.
     bindS (outerS (ps_persist ps (pg_stored p) candidate)) (\<lambda>_.
     becomeS (\<lambda>p. p\<lparr>pg_checkpoint := candidate, pg_stored := Some candidate\<rparr>))))"

definition count_step :: "('w \<times> progress, unit) step" where
  "count_step = becomeS (\<lambda>p. p\<lparr>pg_completed := pg_completed p + 1\<rparr>)"

text \<open>Whether the slice is over; the clock is read only when the tests before it are negative.\<close>

definition slice_over :: "'w probe_store \<Rightarrow> ('w \<times> progress, bool) step" where
  "slice_over ps =
     bindS selfS (\<lambda>p.
     if pg_maximum_steps p \<le> pg_completed p then doneS True
     else bindS (clockS ps) (\<lambda>t.
     if pg_deadline p \<le> t then doneS True
     else (case pg_hard_deadline p of
       None \<Rightarrow> doneS False
     | Some hard \<Rightarrow> bindS (clockS ps) (\<lambda>t. doneS (hard < t + pg_request_budget p)))))"

definition verify_step :: "'w probe_store \<Rightarrow> string \<Rightarrow> ('w, unit) step \<Rightarrow> ('w \<times> progress, unit) step" where
  "verify_step ps key verify =
     bindS (save_step ps key Step_started) (\<lambda>_.
     bindS (clockS ps) (\<lambda>t.
     bindS (becomeS (\<lambda>p. p\<lparr>pg_step_deadline := Some (t + pg_request_budget p)\<rparr>)) (\<lambda>_.
     finallyS (bindS (outerS verify) (\<lambda>_. bindS (save_step ps key Step_passed) (\<lambda>_. count_step)))
       (\<lambda>p. p\<lparr>pg_step_deadline := None\<rparr>))))"

definition run_step ::
  "'w probe_store \<Rightarrow> string \<Rightarrow> ('w, unit) step \<Rightarrow> ('w, unit) step option \<Rightarrow> ('w \<times> progress, unit) step" where
  "run_step ps key verify recover =
     bindS selfS (\<lambda>p. case map_of (ck_steps (pg_checkpoint p)) key of
       Some Step_passed \<Rightarrow> doneS ()
     | Some Step_started \<Rightarrow>
         (case recover of
            Some again \<Rightarrow>
              bindS (outerS again) (\<lambda>_. bindS (save_step ps key Step_passed) (\<lambda>_. count_step))
          | None \<Rightarrow> raiseS (Compilation
              ''A publication verification outcome is unconfirmed; no request was replayed'' None))
     | None \<Rightarrow>
         bindS (slice_over ps) (\<lambda>over.
         if over
         then raiseS (Deferred ''Verification slice completed; continue from persisted probe checkpoints'')
         else verify_step ps key verify))"

section \<open>The lease of a worker\<close>

text \<open>The object is the event \<open>_lost\<close>; the lock makes a heartbeat one step.\<close>

definition heartbeat :: "('w, bool) step \<Rightarrow> ('w \<times> bool, unit) step" where
  "heartbeat renew =
     bindS selfS (\<lambda>lost.
     if lost then raiseS (Retryable ''Worker lease is no longer owned'')
     else (\<lambda>ws. case outerS renew ws of
         (Inl e, ws') \<Rightarrow> (Inl e, (fst ws', True))
       | (Inr renewed, ws') \<Rightarrow>
           if renewed then (Inr (), ws')
           else (Inl (Retryable ''Worker lease is no longer owned''), (fst ws', True))))"

text \<open>The thread: \<open>stops\<close> is what \<open>_stopped.wait\<close> answers each time, until it answers yes.\<close>

fun maintain :: "('w, bool) step \<Rightarrow> bool list \<Rightarrow> ('w \<times> bool, unit) step" where
  "maintain renew [] = doneS ()"
| "maintain renew (stopped # stops) =
     (if stopped then doneS ()
      else (\<lambda>ws. case heartbeat renew ws of
          (Inl e, ws') \<Rightarrow> (Inr (), ws')
        | (Inr _, ws') \<Rightarrow> maintain renew stops ws'))"

section \<open>No verification runs twice\<close>

text \<open>
  What is observed of a world: the stored checkpoint, the keys of the verifications that were
  started, in order, and the keys whose verification or recovery returned.
\<close>

record 'w probe_view =
  pv_store :: "'w \<Rightarrow> checkpoint option"
  pv_calls :: "'w \<Rightarrow> string list"
  pv_confirmed :: "'w \<Rightarrow> string set"

text \<open>The same document, whatever the order of its keys.\<close>

definition same_stored :: "checkpoint option \<Rightarrow> checkpoint option \<Rightarrow> bool" where
  "same_stored x y \<longleftrightarrow> map_option ck_context x = map_option ck_context y
     \<and> map_option (map_of \<circ> ck_steps) x = map_option (map_of \<circ> ck_steps) y"

definition sound_checkpoint :: "checkpoint \<Rightarrow> bool" where
  "sound_checkpoint c \<longleftrightarrow> distinct (map fst (ck_steps c))"

definition same_view :: "'w probe_view \<Rightarrow> 'w \<Rightarrow> 'w \<Rightarrow> bool" where
  "same_view V w w' \<longleftrightarrow> pv_store V w' = pv_store V w \<and> pv_calls V w' = pv_calls V w
     \<and> pv_confirmed V w' = pv_confirmed V w"

text \<open>
  Persisting replaces exactly the expected checkpoint, also when its answer is lost; the clock and
  a recovery start no verification.
\<close>

definition persist_law :: "'w probe_store \<Rightarrow> 'w probe_view \<Rightarrow> bool" where
  "persist_law ps V \<longleftrightarrow>
     (\<forall>e c w r w'. ps_persist ps e c w = (r, w') \<and> opt_all sound_checkpoint e \<and> sound_checkpoint c \<longrightarrow>
        pv_calls V w' = pv_calls V w \<and> pv_confirmed V w' = pv_confirmed V w
        \<and> (if r = Inr () then same_stored (pv_store V w) e \<and> same_stored (pv_store V w') (Some c)
           else pv_store V w' = pv_store V w
             \<or> (same_stored (pv_store V w) e \<and> same_stored (pv_store V w') (Some c))))"

definition clock_law :: "'w probe_store \<Rightarrow> 'w probe_view \<Rightarrow> bool" where
  "clock_law ps V \<longleftrightarrow> (\<forall>w. same_view V w (snd (ps_clock ps w)))"

definition verify_law :: "(string \<Rightarrow> ('w, unit) step) \<Rightarrow> 'w probe_view \<Rightarrow> bool" where
  "verify_law verify V \<longleftrightarrow>
     (\<forall>k w r w'. verify k w = (r, w') \<longrightarrow>
        pv_store V w' = pv_store V w \<and> pv_calls V w' = pv_calls V w @ [k]
        \<and> pv_confirmed V w' = (if r = Inr () then insert k (pv_confirmed V w) else pv_confirmed V w))"

definition recover_law :: "(string \<Rightarrow> ('w, unit) step) \<Rightarrow> 'w probe_view \<Rightarrow> bool" where
  "recover_law again V \<longleftrightarrow>
     (\<forall>k w r w'. again k w = (r, w') \<longrightarrow>
        pv_store V w' = pv_store V w \<and> pv_calls V w' = pv_calls V w
        \<and> pv_confirmed V w' = (if r = Inr () then insert k (pv_confirmed V w) else pv_confirmed V w))"

definition probe_laws ::
  "'w probe_store \<Rightarrow> (string \<Rightarrow> ('w, unit) step) \<Rightarrow> (string \<Rightarrow> ('w, unit) step) \<Rightarrow> 'w probe_view \<Rightarrow> bool" where
  "probe_laws ps verify again V \<longleftrightarrow>
     persist_law ps V \<and> clock_law ps V \<and> verify_law verify V \<and> recover_law again V"

text \<open>The interface a worker has to the store of checkpoints.\<close>

locale checkpoint_store =
  fixes ps :: "'w probe_store" and V :: "'w probe_view"
  assumes persist: "persist_law ps V" and clock: "clock_law ps V"
begin

lemma laws: "verify_law verify V \<Longrightarrow> recover_law again V \<Longrightarrow> probe_laws ps verify again V"
  using persist clock by (simp add: probe_laws_def)

end

text \<open>An object knows what was stored when it last looked.\<close>

definition synced :: "progress \<Rightarrow> bool" where
  "synced p \<longleftrightarrow> sound_checkpoint (pg_checkpoint p) \<and> (pg_stored p = Some (pg_checkpoint p)
     \<or> (pg_stored p = None \<and> ck_steps (pg_checkpoint p) = []))"

definition steps_in :: "'w probe_view \<Rightarrow> 'w \<Rightarrow> string \<Rightarrow> step_state option" where
  "steps_in V w k = (case pv_store V w of None \<Rightarrow> None | Some c \<Rightarrow> map_of (ck_steps c) k)"

definition once :: "'w probe_view \<Rightarrow> 'w \<Rightarrow> bool" where
  "once V w \<longleftrightarrow> distinct (pv_calls V w) \<and> (\<forall>k \<in> set (pv_calls V w). steps_in V w k \<noteq> None)
     \<and> (\<forall>k. steps_in V w k = Some Step_passed \<longrightarrow> k \<in> pv_confirmed V w)"

lemma once_same: "same_view V w w' \<Longrightarrow> once V w' = once V w"
  by (simp add: same_view_def once_def steps_in_def)

lemma same_view_trans: "same_view V w u \<Longrightarrow> same_view V u w' \<Longrightarrow> same_view V w w'"
  by (simp add: same_view_def)

lemma probe_lawsD:
  assumes "probe_laws ps verify again V"
  shows "ps_persist ps e c w = (r, w') \<Longrightarrow> opt_all sound_checkpoint e \<Longrightarrow> sound_checkpoint c \<Longrightarrow>
        pv_calls V w' = pv_calls V w \<and> pv_confirmed V w' = pv_confirmed V w
        \<and> (if r = Inr () then same_stored (pv_store V w) e \<and> same_stored (pv_store V w') (Some c)
           else pv_store V w' = pv_store V w
             \<or> (same_stored (pv_store V w) e \<and> same_stored (pv_store V w') (Some c)))"
    "same_view V w (snd (ps_clock ps w))"
    "verify k w = (r, w') \<Longrightarrow> pv_store V w' = pv_store V w \<and> pv_calls V w' = pv_calls V w @ [k]
        \<and> pv_confirmed V w' = (if r = Inr () then insert k (pv_confirmed V w) else pv_confirmed V w)"
    "again k w = (r, w') \<Longrightarrow> pv_store V w' = pv_store V w \<and> pv_calls V w' = pv_calls V w
        \<and> pv_confirmed V w' = (if r = Inr () then insert k (pv_confirmed V w) else pv_confirmed V w)"
proof -
  note a = assms [unfolded probe_laws_def]
  show "ps_persist ps e c w = (r, w') \<Longrightarrow> opt_all sound_checkpoint e \<Longrightarrow> sound_checkpoint c \<Longrightarrow>
        pv_calls V w' = pv_calls V w \<and> pv_confirmed V w' = pv_confirmed V w
        \<and> (if r = Inr () then same_stored (pv_store V w) e \<and> same_stored (pv_store V w') (Some c)
           else pv_store V w' = pv_store V w
             \<or> (same_stored (pv_store V w) e \<and> same_stored (pv_store V w') (Some c)))"
    using conjunct1 [OF a] unfolding persist_law_def by blast
  show "same_view V w (snd (ps_clock ps w))"
    using a unfolding clock_law_def by blast
  show "verify k w = (r, w') \<Longrightarrow> pv_store V w' = pv_store V w \<and> pv_calls V w' = pv_calls V w @ [k]
        \<and> pv_confirmed V w' = (if r = Inr () then insert k (pv_confirmed V w) else pv_confirmed V w)"
    using a unfolding verify_law_def by blast
  show "again k w = (r, w') \<Longrightarrow> pv_store V w' = pv_store V w \<and> pv_calls V w' = pv_calls V w
        \<and> pv_confirmed V w' = (if r = Inr () then insert k (pv_confirmed V w) else pv_confirmed V w)"
    using a unfolding recover_law_def by blast
qed

text \<open>Running a step on the pair of a world and an object.\<close>

lemma step_simps [simp]:
  "bindS selfS f (w, p) = f p (w, p)"
  "doneS x ws = (Inr x, ws)" "raiseS e ws = (Inl e, ws)"
  "bindS (becomeS g) h (w, p) = h () (w, g p)"
  "becomeS g (w, p) = (Inr (), (w, g p))"
  by (simp_all add: bindS_def selfS_def doneS_def raiseS_def becomeS_def)

lemma clockS_step [simp]:
  "bindS (clockS ps) f (w, p) = f (fst (ps_clock ps w)) (snd (ps_clock ps w), p)"
  by (simp add: bindS_def clockS_def split: prod.split)

lemma bindS_liftS [simp]:
  "bindS (liftS r) f ws = (case r of Inl e \<Rightarrow> (Inl (Raised e), ws) | Inr x \<Rightarrow> f x ws)"
  by (cases r) (simp_all add: bindS_def liftS_def)

lemma outerS_step:
  "m w = (Inl e, u) \<Longrightarrow> bindS (outerS m) f (w, p) = (Inl e, (u, p))"
  "m w = (Inr x, u) \<Longrightarrow> bindS (outerS m) f (w, p) = f x (u, p)"
  by (simp_all add: bindS_def outerS_def)

lemma save_step_effect:
  assumes laws: "probe_laws ps verify again V" and sync: "synced p"
    and run: "save_step ps k s (w, p) = (r, (w', p'))"
  shows "pv_calls V w' = pv_calls V w" "pv_confirmed V w' = pv_confirmed V w" "synced p'"
    "steps_in V w' = steps_in V w
     \<or> (steps_in V w = map_of (ck_steps (pg_checkpoint p)) \<and> steps_in V w' = (steps_in V w)(k \<mapsto> s))"
    "r = Inr () \<Longrightarrow> steps_in V w = map_of (ck_steps (pg_checkpoint p)) \<and> steps_in V w' = (steps_in V w)(k \<mapsto> s)"
proof -
  let ?c = "(pg_checkpoint p)\<lparr>ck_steps := AList.update k s (ck_steps (pg_checkpoint p))\<rparr>"
  have "pv_calls V w' = pv_calls V w \<and> pv_confirmed V w' = pv_confirmed V w \<and> synced p'
    \<and> (steps_in V w' = steps_in V w
       \<or> (steps_in V w = map_of (ck_steps (pg_checkpoint p)) \<and> steps_in V w' = (steps_in V w)(k \<mapsto> s)))
    \<and> (r = Inr () \<longrightarrow> steps_in V w = map_of (ck_steps (pg_checkpoint p)) \<and> steps_in V w' = (steps_in V w)(k \<mapsto> s))"
  proof (cases "make_checkpoint ?c")
    case (Inl e)
    then show ?thesis using run sync by (auto simp: save_step_def)
  next
    case (Inr c)
    then have c: "c = ?c" by (simp add: make_checkpoint_def res_simps)
    obtain q u where q: "ps_persist ps (pg_stored p) c w = (q, u)" by force
    have sound: "opt_all sound_checkpoint (pg_stored p)" "sound_checkpoint c"
      using sync by (auto simp: c synced_def opt_all_def sound_checkpoint_def distinct_update)
    note law = probe_lawsD(1) [OF laws q sound]
    have stored: "steps_in V w = (case x of None \<Rightarrow> Map.empty | Some d \<Rightarrow> map_of (ck_steps d))"
      if "same_stored (pv_store V w) x" for w x
      using that by (cases "pv_store V w"; cases x) (auto simp: steps_in_def same_stored_def fun_eq_iff)
    have before: "steps_in V w = map_of (ck_steps (pg_checkpoint p))" if "same_stored (pv_store V w) (pg_stored p)"
      using sync stored [OF that] by (auto simp: synced_def)
    have after: "steps_in V u = (steps_in V w)(k \<mapsto> s)"
      if "same_stored (pv_store V w) (pg_stored p)" "same_stored (pv_store V u) (Some c)"
      using before [OF that(1)] stored [OF that(2)] by (simp add: c update_conv')
    have kept: "steps_in V u = steps_in V w" if "pv_store V u = pv_store V w"
      using that by (simp add: steps_in_def fun_eq_iff)
    show ?thesis
    proof (cases q)
      case (Inl e)
      then have "r = Inl e" "w' = u" "p' = p"
        using run q Inr by (simp_all add: save_step_def outerS_step)
      then show ?thesis using law Inl sync before after kept by auto
    next
      case ok: (Inr x)
      then have "r = Inr ()" "w' = u" "p' = p\<lparr>pg_checkpoint := c, pg_stored := Some c\<rparr>"
        using run q Inr by (simp_all add: save_step_def outerS_step)
      then show ?thesis using law ok before after sound(2) by (simp add: synced_def)
    qed
  qed
  then show "pv_calls V w' = pv_calls V w" "pv_confirmed V w' = pv_confirmed V w" "synced p'"
    "steps_in V w' = steps_in V w
     \<or> (steps_in V w = map_of (ck_steps (pg_checkpoint p)) \<and> steps_in V w' = (steps_in V w)(k \<mapsto> s))"
    "r = Inr () \<Longrightarrow> steps_in V w = map_of (ck_steps (pg_checkpoint p)) \<and> steps_in V w' = (steps_in V w)(k \<mapsto> s)"
    by blast+
qed

lemma once_update:
  assumes "once V w" "pv_calls V w' = pv_calls V w" "pv_confirmed V w' = pv_confirmed V w"
    "steps_in V w' = steps_in V w \<or> steps_in V w' = (steps_in V w)(k \<mapsto> s)"
    "s = Step_passed \<Longrightarrow> k \<in> pv_confirmed V w"
  shows "once V w'"
  using assms unfolding once_def by (elim disjE) (auto split: if_splits)

lemma passed_effect:
  assumes laws: "probe_laws ps verify again V" and "synced p" "once V w" "k \<in> pv_confirmed V w"
    and run: "bindS (save_step ps k Step_passed) (\<lambda>_. count_step) (w, p) = (r, (w', p'))"
  shows "once V w' \<and> synced p'"
proof -
  obtain q u p1 where s: "save_step ps k Step_passed (w, p) = (q, (u, p1))" by (metis prod.exhaust)
  note e = save_step_effect [OF laws assms(2) s]
  have "once V u" by (rule once_update [OF assms(3) e(1,2)]) (use e(4) assms(4) in auto)
  moreover have "w' = u" "synced p'"
    using run s e(3) by (cases q; simp add: bindS_def count_step_def becomeS_def synced_def; fastforce)+
  ultimately show ?thesis by simp
qed

lemma slice_over_same:
  assumes laws: "probe_laws ps verify again V" and run: "slice_over ps (w, p) = (r, (w', p'))"
  shows "same_view V w w' \<and> p' = p"
proof -
  let ?u = "snd (ps_clock ps w)"
  have c: "same_view V u (snd (ps_clock ps u))" for u by (rule probe_lawsD(2) [OF laws])
  have refl: "same_view V u u" for u by (simp add: same_view_def)
  show ?thesis
    using run c [of w] c [of ?u] same_view_trans [OF c [of w] c [of ?u]] refl
    by (auto simp: slice_over_def split: if_splits option.splits)
qed

lemma verify_step_keeps:
  assumes laws: "probe_laws ps verify again V" and sync: "synced p" and ok: "once V w"
    and new: "map_of (ck_steps (pg_checkpoint p)) k = None"
    and run: "verify_step ps k (verify k) (w, p) = (r, (w', p'))"
  shows "once V w' \<and> synced p'"
proof -
  obtain q u p1 where s: "save_step ps k Step_started (w, p) = (q, (u, p1))" by (metis prod.exhaust)
  note e = save_step_effect [OF laws sync s]
  have u: "once V u" by (rule once_update [OF ok e(1,2)]) (use e(4) in auto)
  show ?thesis
  proof (cases q)
    case (Inl x)
    then have "w' = u" "p' = p1" using run s by (simp_all add: verify_step_def bindS_def)
    then show ?thesis using u e(3) by simp
  next
    case (Inr x)
    note started = e(5) [unfolded Inr]
    have fresh: "k \<notin> set (pv_calls V u)" and key: "steps_in V u k = Some Step_started"
      using started new ok e(1) by (auto simp: once_def)
    let ?v = "snd (ps_clock ps u)"
    let ?p = "p1\<lparr>pg_step_deadline := Some (fst (ps_clock ps u) + pg_request_budget p1)\<rparr>"
    have v: "same_view V u ?v" by (rule probe_lawsD(2) [OF laws])
    obtain q2 x2 where vf: "verify k ?v = (q2, x2)" by force
    note vl = probe_lawsD(3) [OF laws vf]
    have x2: "once V x2"
      using u v vl fresh key unfolding once_def same_view_def steps_in_def by (auto split: if_splits)
    have sp: "synced ?p" using e(3) by (simp add: synced_def)
    let ?m = "bindS (outerS (verify k)) (\<lambda>_. bindS (save_step ps k Step_passed) (\<lambda>_. count_step))"
    obtain r3 w3 p3 where m: "?m (?v, ?p) = (r3, (w3, p3))" by (metis prod.exhaust)
    have inner: "once V w3 \<and> synced p3"
    proof (cases q2)
      case (Inl y)
      then have "w3 = x2" "p3 = ?p" using m vf by (simp_all add: outerS_step)
      then show ?thesis using x2 sp by simp
    next
      case ok2: (Inr y)
      then have rest: "bindS (save_step ps k Step_passed) (\<lambda>_. count_step) (x2, ?p) = (r3, (w3, p3))"
        using m vf by (simp add: outerS_step)
      have "k \<in> pv_confirmed V x2" using vl ok2 by simp
      then show ?thesis by (rule passed_effect [OF laws sp x2 _ rest])
    qed
    have "(r, (w', p')) = finallyS ?m (\<lambda>p. p\<lparr>pg_step_deadline := None\<rparr>) (?v, ?p)"
      using run s Inr by (simp add: verify_step_def bindS_def [of "save_step ps k Step_started"])
    then have "w' = w3" "p' = p3\<lparr>pg_step_deadline := None\<rparr>" using m by (simp_all add: finallyS_def)
    then show ?thesis using inner by (simp add: synced_def)
  qed
qed

lemma run_step_keeps:
  assumes laws: "probe_laws ps verify again V" and sync: "synced p" and ok: "once V w"
    and recover: "recover = None \<or> recover = Some (again k)"
    and run: "run_step ps k (verify k) recover (w, p) = (r, (w', p'))"
  shows "once V w' \<and> synced p'"
proof (cases "map_of (ck_steps (pg_checkpoint p)) k")
  case None
  obtain q u p1 where s: "slice_over ps (w, p) = (q, (u, p1))" by (metis prod.exhaust)
  have same: "same_view V w u" "p1 = p" using slice_over_same [OF laws s] by simp_all
  have u: "once V u" using once_same [OF same(1)] ok by simp
  consider "w' = u \<and> p' = p" | "verify_step ps k (verify k) (u, p) = (r, (w', p'))"
    using run None s same(2) by (cases q; auto simp: run_step_def bindS_def [of "slice_over ps"] split: if_splits)
  then show ?thesis
  proof cases
    case 1
    then show ?thesis using u sync by simp
  next
    case 2
    show ?thesis by (rule verify_step_keeps [OF laws sync u None 2])
  qed
next
  case (Some st)
  show ?thesis
  proof (cases "st = Step_passed \<or> recover = None")
    case True
    then have "w' = w" "p' = p" using run Some by (cases st; auto simp: run_step_def)+
    then show ?thesis using ok sync by simp
  next
    case False
    have "st = Step_started" using False by (cases st) auto
    moreover have "recover = Some (again k)" using False recover by auto
    ultimately have st: "st = Step_started" "recover = Some (again k)" by simp_all
    obtain q u where a: "again k w = (q, u)" by force
    note al = probe_lawsD(4) [OF laws a]
    have u: "once V u" using ok al by (auto simp: once_def steps_in_def)
    show ?thesis
    proof (cases q)
      case (Inl x)
      then have "w' = u" "p' = p" using run Some st a by (simp_all add: run_step_def outerS_step)
      then show ?thesis using u sync by simp
    next
      case (Inr x)
      then have "bindS (save_step ps k Step_passed) (\<lambda>_. count_step) (u, p) = (r, (w', p'))"
        using run Some st a by (simp add: run_step_def outerS_step)
      moreover have "k \<in> pv_confirmed V u" using al Inr by simp
      ultimately show ?thesis using passed_effect [OF laws sync u] by blast
    qed
  qed
qed

lemma open_synced:
  "open_progress ps context saved n b d hard w = (Inr p, w') \<Longrightarrow> opt_all sound_checkpoint saved \<Longrightarrow> synced p"
  by (cases saved) (auto simp: open_progress_def make_checkpoint_def checked_def guardR_def synced_def
      sound_checkpoint_def opt_all_def split: if_splits sum.splits prod.splits)

text \<open>
  Any number of workers, each with its own access \<open>ps\<close> to the store and an object that was in step
  with the store when it last wrote, run verifications of any keys, with or without a recovery; a
  worker that stops is an object that is not used again. Between two steps others act, as long as
  they leave the checkpoint of the publication alone.
\<close>

inductive probe_step ::
  "('w probe_store \<Rightarrow> bool) \<Rightarrow> 'w probe_view \<Rightarrow> (string \<Rightarrow> ('w, unit) step) \<Rightarrow> (string \<Rightarrow> ('w, unit) step)
     \<Rightarrow> 'w \<Rightarrow> 'w \<Rightarrow> bool"
  for workers V verify again where
  works: "workers ps \<Longrightarrow> synced p \<Longrightarrow> recover = None \<or> recover = Some (again k) \<Longrightarrow>
    run_step ps k (verify k) recover (w, p) = (r, (w', p')) \<Longrightarrow> probe_step workers V verify again w w'"
| others: "same_view V w w' \<Longrightarrow> probe_step workers V verify again w w'"

lemma steps_once:
  assumes "\<And>ps. workers ps \<Longrightarrow> probe_laws ps verify again V"
    and "(probe_step workers V verify again)\<^sup>*\<^sup>* w w'" "once V w"
  shows "once V w'"
  using assms(2,3)
proof (induction rule: rtranclp_induct)
  case (step u w')
  then have u: "once V u" by simp
  from step.hyps(2) show ?case
  proof cases
    case (works ps p recover k r p')
    from run_step_keeps [OF assms(1) [OF works(1)] works(2) u works(3,4)] show ?thesis by (rule conjunct1)
  next
    case others
    then have "once V w' = once V u" by (rule once_same)
    then show ?thesis using u by simp
  qed
qed

text \<open>
  C29. Whatever workers run verification steps against one store of checkpoints, with answers lost
  and workers lost at any point, no step is ever verified twice, and a step recorded as passed was
  confirmed by its verification or its recovery.
\<close>

theorem probe_verified_once:
  assumes "\<forall>ps. workers ps \<longrightarrow> probe_laws ps verify again V" "pv_store V w = None" "pv_calls V w = []"
    "(probe_step workers V verify again)\<^sup>*\<^sup>* w w'"
  shows "distinct (pv_calls V w') \<and> (\<forall>k. steps_in V w' k = Some Step_passed \<longrightarrow> k \<in> pv_confirmed V w')"
proof -
  have "once V w" using assms(2,3) by (simp add: once_def steps_in_def)
  then have "once V w'" using assms(1) by (intro steps_once [OF _ assms(4)]) (auto simp del: split_paired_All)
  then show ?thesis by (simp add: once_def)
qed

section \<open>A lost lease stays lost\<close>

lemma heartbeat_cases:
  "heartbeat renew (w, lost) =
     (if lost then (Inl (Retryable ''Worker lease is no longer owned''), (w, True))
      else case renew w of
        (Inl e, w') \<Rightarrow> (Inl e, (w', True))
      | (Inr b, w') \<Rightarrow> if b then (Inr (), (w', False))
          else (Inl (Retryable ''Worker lease is no longer owned''), (w', True)))"
  by (auto simp: heartbeat_def outerS_def split: prod.split sum.split)

theorem lost_lease_stays:
  assumes "heartbeat renew (w, lost) = (Inl e, (w', lost'))"
  shows "lost' \<and> (\<forall>v. \<exists>e. heartbeat renew (v, lost') = (Inl e, (v, lost')))
    \<and> (\<forall>v stops. maintain renew stops (v, lost') = (Inr (), (v, lost')))"
proof -
  have lost: "lost'" using assms by (auto simp: heartbeat_cases split: if_splits prod.splits sum.splits)
  have "maintain renew stops (v, True) = (Inr (), (v, True))" for v stops
    by (cases stops) (simp_all add: heartbeat_cases)
  then show ?thesis using lost by (simp add: heartbeat_cases)
qed

end
