(* ===== verification/Count_Contracts.thy ===== *)
theory Count_Contracts
  imports Completion_Receipt Ledger_Types Table_Batch "HOL-Library.AList"
begin

text \<open>
  \<open>turnstile_core/domain/budget_counting.py\<close>: the contracts by which a gateway counts the tokens of a
  request before it is sent, their validators, and the capture of the contracts of a publication
  from the fence of its gateway, the publications before it and the evidence of operators.
\<close>

section \<open>Operations and features\<close>

datatype count_operation =
  Chat_completions | Responses | Anthropic_messages | Responses_compact | Images_generations | Microsoft_decision

fun operation_text :: "count_operation \<Rightarrow> string" where
  "operation_text Chat_completions = ''chat-completions''"
| "operation_text Responses = ''responses''"
| "operation_text Anthropic_messages = ''anthropic-messages''"
| "operation_text Responses_compact = ''responses-compact''"
| "operation_text Images_generations = ''images-generations''"
| "operation_text Microsoft_decision = ''microsoft-decision''"

datatype request_feature =
  Conversation_state | Opaque_state | Multimodal_input | Server_tools | Background | Compaction

datatype request_control = Compaction_trigger

section \<open>Request policies\<close>

record output_requirement =
  minimum_output_tokens :: int

definition valid_requirement :: "output_requirement \<Rightarrow> bool" where
  "valid_requirement r \<longleftrightarrow> 0 < minimum_output_tokens r \<and> minimum_output_tokens r \<le> MAX_TOKENS"

record request_rule =
  qr_status :: int
  qr_error_type :: string
  qr_error_code :: string

datatype error_value = Error_value string | Error_null | Error_absent

record protocol_rule =
  pr_status :: int
  pr_error_type :: error_value
  pr_error_code :: error_value
  pr_error_param :: error_value

datatype terminal_rule = Request_rule request_rule | Protocol_rule protocol_rule

fun valid_error_value :: "error_value \<Rightarrow> bool" where
  "valid_error_value (Error_value s) = match_class field_chars 1 255 s"
| "valid_error_value _ = True"

fun valid_rule :: "terminal_rule \<Rightarrow> bool" where
  "valid_rule (Request_rule r) \<longleftrightarrow>
     match_class rule_chars 1 128 (qr_error_type r) \<and> match_class rule_chars 1 128 (qr_error_code r)"
| "valid_rule (Protocol_rule r) \<longleftrightarrow>
     valid_error_value (pr_error_type r) \<and> valid_error_value (pr_error_code r)
     \<and> valid_error_value (pr_error_param r)"

text \<open>\<open>rule.model_dump()\<close>.\<close>

fun error_dump :: "error_value \<Rightarrow> pv" where
  "error_dump (Error_value s) = PDict [(''state'', PStr ''value''), (''value'', PStr s)]"
| "error_dump Error_null = PDict [(''state'', PStr ''null'')]"
| "error_dump Error_absent = PDict [(''state'', PStr ''absent'')]"

fun rule_dump :: "terminal_rule \<Rightarrow> pv" where
  "rule_dump (Request_rule r) = PDict [(''status_code'', PInt (qr_status r)),
     (''error_type'', PStr (qr_error_type r)), (''error_code'', PStr (qr_error_code r))]"
| "rule_dump (Protocol_rule r) = PDict [(''status_code'', PInt (pr_status r)),
     (''error_type'', error_dump (pr_error_type r)), (''error_code'', error_dump (pr_error_code r)),
     (''error_param'', error_dump (pr_error_param r))]"

record request_policy =
  qp_version :: int
  qp_operation :: "count_operation option"
  qp_summarized :: bool
  qp_requirements :: "(request_control \<times> output_requirement) list"
  qp_rules :: "terminal_rule list"
  qp_evidence_sha256 :: string
  qp_verified_at :: instant

definition policy_fields :: "request_policy \<Rightarrow> bool" where
  "policy_fields p \<longleftrightarrow>
     qp_version p \<in> {1, 2, 3} \<and> list_all (valid_requirement \<circ> snd) (qp_requirements p)
     \<and> length (qp_rules p) \<le> 16 \<and> list_all valid_rule (qp_rules p)
     \<and> is_sha256_hex (qp_evidence_sha256 p)"

definition policy_contract :: "request_policy \<Rightarrow> dict" where
  "policy_contract p =
     [(''version'', PInt (min (qp_version p) 2)), (''evidence_sha256'', PStr (qp_evidence_sha256 p)),
      (''verified_at'', PDt (Aware (qp_verified_at p))), (''rules'', PList (map rule_dump (qp_rules p)))]
     @ (if 2 \<le> qp_version p
        then [(''operation'', case qp_operation p of None \<Rightarrow> PNone | Some x \<Rightarrow> PStr (operation_text x))]
        else [])"

definition make_request_policy :: "request_policy \<Rightarrow> request_policy res" where
  "make_request_policy p =
     guardR (\<not> policy_fields p) (ValidationError ''ProtocolRequestPolicy'')
     (in_validator ''ProtocolRequestPolicy''
       (guardR ((2 \<le> qp_version p) \<noteq> (qp_operation p \<noteq> None))
          (ValueError ''Versioned request policies require their exact protocol operation'')
       (guardR ((qp_version p = 3) \<noteq> qp_summarized p
            \<or> (qp_version p = 3 \<and> (qp_operation p \<noteq> Some Anthropic_messages \<or> qp_requirements p \<noteq> [])))
          (ValueError ''Streaming defaults require a version-three Messages policy'')
       (bindR (if qp_rules p = [] then Inr [] else validate_rejection_policy (PDict (policy_contract p)))
          (\<lambda>_. Inr p)))))"

record policy_binding =
  mp_binding_sha256 :: string
  mp_policies :: "(count_operation \<times> request_policy) list"

definition make_policy_binding :: "policy_binding \<Rightarrow> policy_binding res" where
  "make_policy_binding b =
     guardR (\<not> is_sha256_hex (mp_binding_sha256 b) \<or> mp_policies b = [])
       (ValidationError ''ModelRequestPolicyBinding'')
     (bindR (mapR (make_request_policy \<circ> snd) (mp_policies b)) (\<lambda>_.
      in_validator ''ModelRequestPolicyBinding''
       (guardR (list_ex (\<lambda>(x, p). qp_operation p \<noteq> None \<and> qp_operation p \<noteq> Some x) (mp_policies b))
          (ValueError ''Model request policy must match its declared operation'') (Inr b))))"

section \<open>Counting contracts\<close>

datatype counter_kind = Messages_counter | Responses_counter

text \<open>The parts of an \<open>HttpUrl\<close> that the validator reads.\<close>

record url_parts =
  url_scheme :: string
  url_username :: "string option"
  url_password :: "string option"
  url_query :: "string option"
  url_fragment :: "string option"
  url_path :: "string option"

record native_counter =
  nc_kind :: counter_kind
  nc_endpoint :: url_parts
  nc_upper_bound :: bool
  nc_padding :: int
  nc_features :: "request_feature list"
  nc_evidence_sha256 :: string

definition truthy :: "string option \<Rightarrow> bool" where "truthy x \<longleftrightarrow> opt_or x [] \<noteq> []"

definition ends_with :: "string \<Rightarrow> string \<Rightarrow> bool" where
  "ends_with suffix s \<longleftrightarrow> prefix_of (rev suffix) (rev s)"

definition counter_suffix :: "counter_kind \<Rightarrow> string" where
  "counter_suffix k = (case k of Messages_counter \<Rightarrow> ''/messages/count_tokens''
     | Responses_counter \<Rightarrow> ''/responses/input_tokens'')"

definition make_native_counter :: "native_counter \<Rightarrow> native_counter res" where
  "make_native_counter c =
     guardR (\<not> (0 \<le> nc_padding c \<and> nc_padding c \<le> MAX_TOKENS) \<or> \<not> is_sha256_hex (nc_evidence_sha256 c))
       (ValidationError ''NativeCountContract'')
     (in_validator ''NativeCountContract''
       (let u = nc_endpoint c in
        guardR (url_scheme u \<noteq> ''https'' \<or> truthy (url_username u) \<or> truthy (url_password u)
            \<or> truthy (url_query u) \<or> truthy (url_fragment u))
          (ValueError ''Native counting requires a credential-free HTTPS endpoint'')
       (guardR (\<not> ends_with (counter_suffix (nc_kind c)) (opt_or (url_path u) []))
          (ValueError ''Native counting cannot target an inference operation'')
       (guardR (\<not> nc_upper_bound c \<and> nc_padding c \<noteq> 0)
          (ValueError ''An arbitrary margin does not make an estimate a verified upper bound'')
       (guardR (Server_tools \<in> set (nc_features c) \<or> Background \<in> set (nc_features c))
          (ValueError ''Input counting does not bound future server-side work'') (Inr c))))))"

datatype count_algorithm = Context_ceiling | Request_ceiling | Legacy_estimate

datatype output_field = Max_tokens | Max_completion_tokens | Max_output_tokens | No_field

record count_contract =
  cc_algorithm :: count_algorithm
  cc_input_ceiling :: int
  cc_output_ceiling :: int
  cc_output_field :: output_field
  cc_request_ceiling :: "int option"
  cc_output_estimate :: "int option"
  cc_item_ceiling :: "int option"
  cc_require_bound :: bool
  cc_features :: "request_feature list"
  cc_operations :: "count_operation list"
  cc_evidence_sha256 :: string
  cc_verified_at :: instant
  cc_native_counter :: "native_counter option"
  cc_request_policy :: "request_policy option"

definition positive_count :: "int \<Rightarrow> bool" where
  "positive_count n \<longleftrightarrow> 0 < n \<and> n \<le> MAX_TOKENS"

definition contract_fields :: "'a count_contract_scheme \<Rightarrow> bool" where
  "contract_fields c \<longleftrightarrow>
     0 \<le> cc_input_ceiling c \<and> cc_input_ceiling c \<le> MAX_TOKENS
     \<and> 0 \<le> cc_output_ceiling c \<and> cc_output_ceiling c \<le> MAX_TOKENS
     \<and> opt_all positive_count (cc_request_ceiling c) \<and> opt_all positive_count (cc_output_estimate c)
     \<and> opt_all positive_count (cc_item_ceiling c) \<and> cc_operations c \<noteq> []
     \<and> is_sha256_hex (cc_evidence_sha256 c)"

definition unmetered :: "count_operation \<Rightarrow> bool" where
  "unmetered x \<longleftrightarrow> x \<in> {Responses_compact, Images_generations, Microsoft_decision}"

definition requirements_of :: "'a count_contract_scheme \<Rightarrow> output_requirement list" where
  "requirements_of c =
     (case cc_request_policy c of None \<Rightarrow> [] | Some p \<Rightarrow> map snd (qp_requirements p))"

definition legacy_conflict :: "'a count_contract_scheme \<Rightarrow> bool" where
  "legacy_conflict c \<longleftrightarrow>
     cc_require_bound c \<or> cc_output_estimate c = None \<or> cc_native_counter c \<noteq> None
     \<or> cc_input_ceiling c \<noteq> 0 \<or> cc_output_ceiling c \<noteq> 0 \<or> cc_request_ceiling c \<noteq> None
     \<or> (cc_output_field c = No_field) \<noteq> list_all unmetered (cc_operations c)
     \<or> (list_ex unmetered (cc_operations c) \<and> cc_output_field c \<noteq> No_field)"

definition context_conflict :: "'a count_contract_scheme \<Rightarrow> bool" where
  "context_conflict c \<longleftrightarrow>
     cc_input_ceiling c \<le> 0 \<or> cc_output_ceiling c \<le> 0 \<or> cc_output_field c = No_field
     \<or> MAX_TOKENS < cc_input_ceiling c + cc_output_ceiling c
     \<or> Responses_compact \<in> set (cc_operations c) \<or> Images_generations \<in> set (cc_operations c)
     \<or> cc_request_ceiling c \<noteq> None
     \<or> (case cc_item_ceiling c of None \<Rightarrow> False
        | Some n \<Rightarrow> Multimodal_input \<notin> set (cc_features c) \<or> cc_input_ceiling c < n)"

definition validate_ceiling :: "'a count_contract_scheme \<Rightarrow> unit res" where
  "validate_ceiling c =
     guardR (\<not> distinct (cc_operations c)) (ValueError ''Counting operations must be unique'')
    (guardR (\<not> distinct (cc_features c)) (ValueError ''Verified request features must be unique'')
    (guardR (case cc_request_policy c of None \<Rightarrow> False
             | Some p \<Rightarrow> 2 \<le> qp_version p \<and> map Some (cc_operations c) \<noteq> [qp_operation p])
       (ValueError ''Rejection rules belong to exactly one protocol operation'')
    (guardR (requirements_of c \<noteq> []
         \<and> (cc_operations c \<noteq> [Responses]
            \<or> (cc_output_field c \<noteq> Max_output_tokens
               \<and> \<not> (cc_algorithm c = Request_ceiling \<and> cc_output_field c = No_field))
            \<or> (cc_algorithm c = Context_ceiling
               \<and> list_ex (\<lambda>r. cc_output_ceiling c < minimum_output_tokens r) (requirements_of c))))
       (ValueError ''Request controls require a compatible Responses output contract'')
    (if cc_algorithm c = Legacy_estimate
     then guardR (legacy_conflict c)
            (ValueError ''Legacy reservation estimates cannot assert a verified ceiling'') (Inr ())
     else guardR (cc_output_estimate c \<noteq> None)
            (ValueError ''Verified counting contracts cannot use a legacy estimate'')
         (if cc_algorithm c = Request_ceiling
          then guardR (cc_request_ceiling c = None \<or> cc_output_field c \<noteq> No_field
                 \<or> cc_native_counter c \<noteq> None \<or> cc_item_ceiling c \<noteq> None)
               (ValueError ''A whole-request ceiling preserves provider output parameters'') (Inr ())
          else guardR (context_conflict c)
               (ValueError ''Input counting requires a valid enforced text output ceiling'') (Inr ()))))))"

text \<open>The fields of a contract and the objects in it, then its own validator.\<close>

definition contract_parts :: "'a count_contract_scheme \<Rightarrow> unit res" where
  "contract_parts c =
     guardR (\<not> contract_fields c) (ValidationError ''ProtocolCountContract'')
     (bindR (case cc_native_counter c of None \<Rightarrow> Inr () | Some n \<Rightarrow> bindR (make_native_counter n) (\<lambda>_. Inr ())) (\<lambda>_.
      case cc_request_policy c of None \<Rightarrow> Inr () | Some p \<Rightarrow> bindR (make_request_policy p) (\<lambda>_. Inr ())))"

definition make_contract :: "count_contract \<Rightarrow> count_contract res" where
  "make_contract c =
     bindR (contract_parts c) (\<lambda>_.
     bindR (in_validator ''ProtocolCountContract'' (validate_ceiling c)) (\<lambda>_. Inr c))"

record model_contract = count_contract +
  mc_model_id :: uuid
  mc_protocols :: "(count_operation \<times> count_contract) list"

definition make_model_contract :: "model_contract \<Rightarrow> model_contract res" where
  "make_model_contract c =
     bindR (contract_parts c) (\<lambda>_.
     bindR (mapR (make_contract \<circ> snd) (mc_protocols c)) (\<lambda>_.
     in_validator ''ModelCountContract''
       (bindR (validate_ceiling c) (\<lambda>_.
        guardR (list_ex (\<lambda>(x, p). x \<notin> set (cc_operations p)) (mc_protocols c))
          (ValueError ''A protocol override must cover its declared operation'') (Inr c)))))"

text \<open>The contract and its overrides.\<close>

definition base_of :: "model_contract \<Rightarrow> count_contract" where
  "base_of c = count_contract.truncate c"

definition contracts_of :: "model_contract \<Rightarrow> count_contract list" where
  "contracts_of c = base_of c # map snd (mc_protocols c)"

record approved_contract =
  ac_binding_sha256 :: string
  ac_contract :: model_contract

definition estimated :: "count_contract \<Rightarrow> bool" where
  "estimated c \<longleftrightarrow> cc_algorithm c = Legacy_estimate"

definition make_approved_contract :: "approved_contract \<Rightarrow> approved_contract res" where
  "make_approved_contract a =
     guardR (\<not> is_sha256_hex (ac_binding_sha256 a)) (ValidationError ''ApprovedModelCountContract'')
     (bindR (make_model_contract (ac_contract a)) (\<lambda>_.
      in_validator ''ApprovedModelCountContract''
       (guardR (list_ex estimated (contracts_of (ac_contract a)))
          (ValueError ''Approved route contracts require verified bounds, not byte estimates'') (Inr a))))"

end
