(* ===== verification/Count_Capture.thy ===== *)
theory Count_Capture
  imports Count_Contracts
begin

text \<open>
  \<open>turnstile_core/domain/budget_counting.py\<close>, \<open>BudgetPublicationContracts\<close>: the counting contracts of
  the models a publication routes to, captured when it is queued. Of a binding the model has the
  fields that are read and its whole JSON text, from which its digest is computed; documents of the
  fence and of earlier publications are given by the objects they denote, not yet validated.
  \<open>uuid5\<close> is a parameter.
\<close>

section \<open>Publications\<close>

datatype api_format = Openai_chat | Anthropic_api | Openai_images | Decision_api

record binding =
  bd_model_key :: string
  bd_logical_model :: "uuid option"
  bd_runtime :: "uuid option"
  bd_api_format :: api_format
  bd_routing_managed :: bool
  bd_backend_path :: string
  bd_text :: string

datatype publication_kind = Model_add | Model_remove | Credential_rotation | Route_reconcile

datatype publication_status =
    Pub_queued | Pub_validating | Pub_provisioning | Pub_building | Pub_verifying | Pub_awaiting
  | Pub_promoting | Pub_active | Pub_failed | Pub_superseded | Pub_rolling_back | Pub_rolled_back

record publication_contracts =
  pc_publication :: uuid
  pc_profile :: uuid
  pc_epoch :: uuid
  pc_spec_sha256 :: string
  pc_bindings :: "(string \<times> string) list"
  pc_contracts :: "(string \<times> model_contract) list"

record publication =
  pb_id :: uuid
  pb_profile :: uuid
  pb_kind :: publication_kind
  pb_status :: publication_status
  pb_spec_sha256 :: string
  pb_bindings :: "binding list"
  pb_created_at :: instant
  pb_contracts :: "publication_contracts option"

record registry_model =
  rm_id :: uuid
  rm_key :: string
  rm_runtime :: "uuid option"

definition make_publication_contracts :: "publication_contracts \<Rightarrow> publication_contracts res" where
  "make_publication_contracts b =
     guardR (\<not> is_sha256_hex (pc_spec_sha256 b)) (ValidationError ''BudgetPublicationContracts'')
     (bindR (mapR (make_model_contract \<circ> snd) (pc_contracts b)) (\<lambda>_. Inr b))"

definition binding_digest :: "digest \<Rightarrow> binding \<Rightarrow> string" where
  "binding_digest sha b = sha (bd_text b)"

text \<open>\<open>{key: value for ...}\<close>: a later entry replaces an earlier one.\<close>

definition dict_of :: "('k \<times> 'v) list \<Rightarrow> ('k \<times> 'v) list" where
  "dict_of kvs = fold (\<lambda>(k, v). AList.update k v) kvs []"

definition same_dict :: "('k \<times> 'v) list \<Rightarrow> ('k \<times> 'v) list \<Rightarrow> bool" where
  "same_dict xs ys \<longleftrightarrow> list_all (\<lambda>k. map_of xs k = map_of ys k) (map fst xs @ map fst ys)"

definition validate_publication :: "digest \<Rightarrow> publication_contracts \<Rightarrow> publication \<Rightarrow> unit res" where
  "validate_publication sha b p =
     guardR (pc_publication b \<noteq> pb_id p \<or> pc_profile b \<noteq> pb_profile p \<or> pc_spec_sha256 b \<noteq> pb_spec_sha256 p)
       (ValueError ''Budget contracts belong to another publication'')
     (let expected = dict_of (map (\<lambda>d. (bd_model_key d, binding_digest sha d)) (pb_bindings p)) in
      guardR (\<not> same_dict (pc_bindings b) expected \<or> fst ` set (pc_contracts b) \<noteq> fst ` set expected)
        (ValueError ''Budget contract binding changed after publication was queued'') (Inr ()))"

section \<open>Estimates\<close>

text \<open>The output fields of the operations a binding offers; the first is its own contract.\<close>

definition estimate_fields :: "binding \<Rightarrow> (count_operation \<times> output_field) list" where
  "estimate_fields b =
     (case bd_api_format b of
        Decision_api \<Rightarrow> [(Microsoft_decision, No_field)]
      | Openai_images \<Rightarrow> [(Images_generations, No_field)]
      | Anthropic_api \<Rightarrow> [(Anthropic_messages, Max_tokens)]
      | Openai_chat \<Rightarrow>
          if bd_routing_managed b \<and> rstrip_slash (bd_backend_path b) = ''/openai/v1/chat/completions''
          then [(Chat_completions, Max_completion_tokens), (Responses, Max_output_tokens),
                (Responses_compact, No_field)]
          else [(Chat_completions, Max_tokens)])"

definition estimate_contract :: "publication \<Rightarrow> string \<Rightarrow> count_operation \<Rightarrow> output_field \<Rightarrow> count_contract" where
  "estimate_contract p dig x f =
     \<lparr>cc_algorithm = Legacy_estimate, cc_input_ceiling = 0, cc_output_ceiling = 0, cc_output_field = f,
      cc_request_ceiling = None, cc_output_estimate = Some (if x = Images_generations then 8192 else 4096),
      cc_item_ceiling = None, cc_require_bound = False, cc_features = [], cc_operations = [x],
      cc_evidence_sha256 = dig, cc_verified_at = pb_created_at p, cc_native_counter = None,
      cc_request_policy = None\<rparr>"

definition model_contract_of :: "count_contract \<Rightarrow> uuid \<Rightarrow> (count_operation \<times> count_contract) list \<Rightarrow> model_contract" where
  "model_contract_of c i protocols =
     count_contract.extend c (model_contract.fields i protocols)"

definition estimate :: "publication \<Rightarrow> binding \<Rightarrow> uuid \<Rightarrow> string \<Rightarrow> model_contract res" where
  "estimate p b i dig =
     bindR (mapR (\<lambda>(x, f). bindR (make_contract (estimate_contract p dig x f)) (\<lambda>c. Inr (x, c)))
              (estimate_fields b)) (\<lambda>protocols.
     make_model_contract (model_contract_of (snd (hd protocols)) i protocols))"

section \<open>The fence of a gateway\<close>

record fence =
  fc_version :: pv
  fc_mode :: pv
  fc_profile :: pv
  fc_require_bound :: pv
  fc_epoch :: uuid
  fc_contracts :: "(string \<times> model_contract) list option"
  fc_policies :: "(count_operation \<times> request_policy) list"
  fc_model_policies :: "(uuid \<times> policy_binding) list"
  fc_approved :: "(uuid \<times> approved_contract) list"

text \<open>What the capture has read from its arguments before it looks at the bindings.\<close>

record capture_state =
  cp_publication :: publication
  cp_registry :: "registry_model list"
  cp_epoch :: uuid
  cp_require_bound :: bool
  cp_raw :: "(string \<times> model_contract) list"
  cp_policies :: "(count_operation \<times> request_policy) list"
  cp_model_policies :: "(uuid \<times> policy_binding) list"
  cp_approved :: "(uuid \<times> approved_contract) list"
  cp_inherited :: "publication_contracts option"
  cp_sources :: "publication list"
  cp_candidate :: "string option"

definition inherited_contracts :: "publication \<Rightarrow> uuid \<Rightarrow> publication option \<Rightarrow> publication_contracts option res" where
  "inherited_contracts p epoch previous =
     (case previous of
        None \<Rightarrow> Inr None
      | Some q \<Rightarrow> (case pb_contracts q of
          None \<Rightarrow> Inr None
        | Some saved \<Rightarrow>
            bindR (make_publication_contracts saved) (\<lambda>b.
            guardR (pc_publication b \<noteq> pb_id q \<or> pc_profile b \<noteq> pb_profile p \<or> pc_epoch b \<noteq> epoch)
              (ValueError ''Inherited budget contracts belong to another publication epoch'') (Inr (Some b)))))"

definition read_fence ::
  "publication \<Rightarrow> registry_model list \<Rightarrow> fence \<Rightarrow> publication option \<Rightarrow> string option \<Rightarrow> publication list
     \<Rightarrow> capture_state res" where
  "read_fence p models f previous new_key sources =
     guardR (\<not> py_eq (fc_version f) (PInt 2) \<or> fc_mode f \<noteq> PStr ''active'' \<or> fc_profile f \<noteq> PStr (pb_profile p))
       (ValueError ''Budget publication requires its active Gateway fence'')
    (case fc_require_bound f of
       PBool required \<Rightarrow>
         (case fc_contracts f of
            None \<Rightarrow> Inl (ValueError ''Budget publication requires explicit existing model contracts'')
          | Some raw \<Rightarrow>
              bindR (mapR (make_request_policy \<circ> snd) (fc_policies f)) (\<lambda>_.
              guardR (list_ex (qp_summarized \<circ> snd) (fc_policies f))
                (ValueError ''Streaming defaults require an evidence-bound model request policy'')
             (bindR (mapR (make_policy_binding \<circ> snd) (fc_model_policies f)) (\<lambda>_.
              bindR (mapR (make_approved_contract \<circ> snd) (fc_approved f)) (\<lambda>_.
              guardR (list_ex (\<lambda>(i, a). i \<noteq> mc_model_id (ac_contract a)) (fc_approved f))
                (ValueError ''Approved contract key must match its model identity'')
             (bindR (inherited_contracts p (fc_epoch f) previous) (\<lambda>inherited.
              Inr \<lparr>cp_publication = p, cp_registry = models, cp_epoch = fc_epoch f, cp_require_bound = required,
                   cp_raw = raw, cp_policies = fc_policies f, cp_model_policies = fc_model_policies f,
                   cp_approved = fc_approved f, cp_inherited = inherited, cp_sources = sources,
                   cp_candidate = (if truthy new_key then new_key
                     else if pb_bindings p = [] then None
                     else Some (bd_model_key (last (pb_bindings p))))\<rparr>)))))))
     | _ \<Rightarrow> Inl (ValueError ''Gateway fence verified bound requirement must be a boolean''))"

section \<open>One binding\<close>

definition late_evidence :: "publication \<Rightarrow> model_contract \<Rightarrow> bool" where
  "late_evidence p c \<longleftrightarrow> list_ex (\<lambda>x. pb_created_at p < cc_verified_at x) (contracts_of c)"

text \<open>The first earlier publication that has a contract for the alias.\<close>

fun inherited_source ::
  "digest \<Rightarrow> capture_state \<Rightarrow> string \<Rightarrow> publication list
     \<Rightarrow> (publication_contracts \<times> model_contract) option res" where
  "inherited_source sha k alias [] = Inr None"
| "inherited_source sha k alias (q # qs) =
     (case pb_contracts q of
        None \<Rightarrow> inherited_source sha k alias qs
      | Some saved \<Rightarrow>
          bindR (make_publication_contracts saved) (\<lambda>b.
          case map_of (pc_contracts b) alias of
            None \<Rightarrow> inherited_source sha k alias qs
          | Some prior \<Rightarrow>
              bindR (validate_publication sha b q) (\<lambda>_.
              guardR (pb_status q \<noteq> Pub_active \<or> pc_profile b \<noteq> pb_profile (cp_publication k)
                  \<or> pc_epoch b \<noteq> cp_epoch k)
                (ValueError ''Inherited model contracts require an active Gateway publication epoch'')
             (guardR (late_evidence (cp_publication k) prior)
                (ValueError ''Inherited model evidence must precede publication'')
                (Inr (Some (b, prior)))))))"

definition prior_contract ::
  "digest \<Rightarrow> capture_state \<Rightarrow> string \<Rightarrow> (publication_contracts \<times> model_contract) option res" where
  "prior_contract sha k alias =
     (case cp_inherited k of
        Some b \<Rightarrow> (case map_of (pc_contracts b) alias of
            Some prior \<Rightarrow> Inr (Some (b, prior))
          | None \<Rightarrow> if map_of (cp_raw k) alias = None then inherited_source sha k alias (cp_sources k) else Inr None)
      | None \<Rightarrow> if map_of (cp_raw k) alias = None then inherited_source sha k alias (cp_sources k) else Inr None)"

definition identity_hint :: "capture_state \<Rightarrow> binding \<Rightarrow> (publication_contracts \<times> model_contract) option \<Rightarrow> uuid option" where
  "identity_hint k d prior =
     (case bd_logical_model d of
        Some i \<Rightarrow> Some i
      | None \<Rightarrow> (case prior of
          Some (b, c) \<Rightarrow> Some (mc_model_id c)
        | None \<Rightarrow> map_option mc_model_id (map_of (cp_raw k) (bd_model_key d))))"

definition registry_matches :: "capture_state \<Rightarrow> binding \<Rightarrow> uuid option \<Rightarrow> registry_model list" where
  "registry_matches k d hint =
     filter (\<lambda>m. py_lower (rm_key m) = py_lower (bd_model_key d)
       \<and> (rm_runtime m = bd_runtime d
          \<or> (bd_runtime d = None \<and> hint \<noteq> None \<and> Some (rm_id m) = hint))) (cp_registry k)"

definition is_new_model :: "capture_state \<Rightarrow> binding \<Rightarrow> registry_model list \<Rightarrow> bool" where
  "is_new_model k d matches \<longleftrightarrow>
     pb_kind (cp_publication k) = Model_add \<and> Some (bd_model_key d) = cp_candidate k \<and> matches = []"

definition resolve_model ::
  "(uuid \<Rightarrow> string \<Rightarrow> uuid) \<Rightarrow> capture_state \<Rightarrow> binding \<Rightarrow> registry_model list \<Rightarrow> uuid res" where
  "resolve_model u5 k d matches =
     guardR (1 < length matches) (ValueError ''Budget model identity is ambiguous'')
     (case bd_logical_model d of
        Some i \<Rightarrow> Inr i
      | None \<Rightarrow>
          if matches \<noteq> [] then Inr (rm_id (hd matches))
          else if is_new_model k d matches then Inr (u5 (pb_id (cp_publication k)) (bd_model_key d))
          else Inl (ValueError ''Budget model identity is unavailable''))"

text \<open>The request policies of a model: those of the gateway, then its own.\<close>

definition update_all :: "('k \<times> 'v) list \<Rightarrow> ('k \<times> 'v) list \<Rightarrow> ('k \<times> 'v) list" where
  "update_all kvs d = fold (\<lambda>(k, v). AList.update k v) kvs d"

definition select_policies ::
  "capture_state \<Rightarrow> uuid \<Rightarrow> string \<Rightarrow> (count_operation \<times> request_policy) list res" where
  "select_policies k i dig =
     (case map_of (cp_model_policies k) i of
        None \<Rightarrow> Inr (cp_policies k)
      | Some b \<Rightarrow>
          guardR (mp_binding_sha256 b \<noteq> dig)
            (ValueError ''Model request policy does not match the publication route'')
         (guardR (list_ex (\<lambda>(x, q). pb_created_at (cp_publication k) < qp_verified_at q) (mp_policies b))
            (ValueError ''Model request policy evidence must precede publication'')
         (guardR (list_ex (\<lambda>(x, q). map_of (cp_policies k) x \<noteq> None \<and> map_of (cp_policies k) x \<noteq> Some q)
                    (mp_policies b))
            (ValueError ''Model and Gateway request policies conflict'')
            (Inr (update_all (mp_policies b) (cp_policies k))))))"

definition approved_route :: "capture_state \<Rightarrow> binding \<Rightarrow> uuid \<Rightarrow> string \<Rightarrow> approved_contract \<Rightarrow> model_contract res" where
  "approved_route k d i dig a =
     guardR (ac_binding_sha256 a \<noteq> dig)
       (ValueError ''Approved budget contract does not match the publication route'')
    (bindR (estimate (cp_publication k) d i dig) (\<lambda>required.
     guardR (\<not> list_all (\<lambda>x. x \<in> set (cc_operations (ac_contract a)) \<or> x \<in> fst ` set (mc_protocols (ac_contract a)))
              (map fst (mc_protocols required)))
       (ValueError ''Approved route contract must retain every supported protocol'')
    (guardR (late_evidence (cp_publication k) (ac_contract a))
       (ValueError ''Approved route evidence must precede publication'') (Inr (ac_contract a)))))"

definition verified_part :: "count_contract \<Rightarrow> bool" where
  "verified_part c \<longleftrightarrow> \<not> estimated c \<or> cc_request_policy c \<noteq> None"

definition raw_route ::
  "capture_state \<Rightarrow> binding \<Rightarrow> uuid \<Rightarrow> string \<Rightarrow> bool \<Rightarrow> model_contract \<Rightarrow> model_contract res" where
  "raw_route k d i dig new raw =
     bindR (make_model_contract raw) (\<lambda>c.
     if mc_model_id c = i then Inr c
     else guardR (\<not> new) (ValueError ''Budget contract belongs to another model identity'')
            (estimate (cp_publication k) d i dig))"

definition own_route :: "capture_state \<Rightarrow> binding \<Rightarrow> uuid \<Rightarrow> string \<Rightarrow> bool \<Rightarrow> model_contract res" where
  "own_route k d i dig new =
     (case map_of (cp_raw k) (bd_model_key d) of
        Some raw \<Rightarrow> raw_route k d i dig new raw
      | None \<Rightarrow>
          if new then estimate (cp_publication k) d i dig
          else Inl (ValueError ''An existing model is missing its approved budget contract''))"

definition base_contract ::
  "capture_state \<Rightarrow> binding \<Rightarrow> uuid \<Rightarrow> string \<Rightarrow> bool \<Rightarrow> (publication_contracts \<times> model_contract) option
     \<Rightarrow> model_contract res" where
  "base_contract k d i dig new prior =
     (case map_of (cp_approved k) i of
        Some a \<Rightarrow> approved_route k d i dig a
      | None \<Rightarrow> (case prior of
          None \<Rightarrow> own_route k d i dig new
        | Some (b, c) \<Rightarrow>
            if mc_model_id c \<noteq> i then own_route k d i dig new
            else guardR (map_of (pc_bindings b) (bd_model_key d) \<noteq> Some dig \<and> list_ex verified_part (contracts_of c))
                   (ValueError ''Verified counting or request policy cannot be inherited by a changed route'')
                   (Inr c)))"

text \<open>The contract of one operation under its policy.\<close>

definition policed :: "count_operation \<Rightarrow> request_policy \<Rightarrow> count_contract \<Rightarrow> count_contract res" where
  "policed x q c =
     make_contract (c\<lparr>cc_operations := [x], cc_request_policy := Some q,
       cc_output_field := (if x = Responses \<and> cc_algorithm c \<noteq> Request_ceiling then Max_output_tokens
                           else cc_output_field c)\<rparr>)"

fun police_all ::
  "model_contract \<Rightarrow> (count_operation \<times> request_policy) list \<Rightarrow> (count_operation \<times> count_contract) list
     \<Rightarrow> (count_operation \<times> count_contract) list res" where
  "police_all c [] protocols = Inr protocols"
| "police_all c ((x, q) # qs) protocols =
     (case map_of protocols x of
        Some original \<Rightarrow>
          bindR (policed x q original) (\<lambda>y. police_all c qs (AList.update x y protocols))
      | None \<Rightarrow>
          if x \<notin> set (cc_operations c) then police_all c qs protocols
          else bindR (make_contract (base_of c)) (\<lambda>original.
               bindR (policed x q original) (\<lambda>y. police_all c qs (AList.update x y protocols))))"

definition with_policies ::
  "capture_state \<Rightarrow> uuid \<Rightarrow> (count_operation \<times> request_policy) list \<Rightarrow> model_contract \<Rightarrow> model_contract res" where
  "with_policies k i selected c =
     guardR (case map_of (cp_model_policies k) i of
               None \<Rightarrow> False
             | Some b \<Rightarrow> \<not> list_all (\<lambda>x. x \<in> fst ` set (mc_protocols c) \<or> x \<in> set (cc_operations c))
                            (map fst (mp_policies b)))
       (ValueError ''Model request policy requires a supported route operation'')
    (bindR (police_all c selected (mc_protocols c)) (\<lambda>protocols.
       if selected = [] then Inr c else make_model_contract (c\<lparr>mc_protocols := protocols\<rparr>)))"

definition capture_binding ::
  "digest \<Rightarrow> (uuid \<Rightarrow> string \<Rightarrow> uuid) \<Rightarrow> capture_state \<Rightarrow> binding \<Rightarrow> model_contract res" where
  "capture_binding sha u5 k d =
     bindR (prior_contract sha k (bd_model_key d)) (\<lambda>prior.
     let matches = registry_matches k d (identity_hint k d prior); dig = binding_digest sha d in
     bindR (resolve_model u5 k d matches) (\<lambda>i.
     bindR (select_policies k i dig) (\<lambda>selected.
     bindR (base_contract k d i dig (is_new_model k d matches) prior) (\<lambda>c.
     bindR (with_policies k i selected c) (\<lambda>c'.
     guardR (cp_require_bound k \<and> list_ex estimated (contracts_of c'))
       (ValueError ''Hard budget fence requires an approved verified count contract'') (Inr c'))))))"

fun capture_loop ::
  "digest \<Rightarrow> (uuid \<Rightarrow> string \<Rightarrow> uuid) \<Rightarrow> capture_state \<Rightarrow> binding list
     \<Rightarrow> (string \<times> model_contract) list \<times> (string \<times> string) list
     \<Rightarrow> ((string \<times> model_contract) list \<times> (string \<times> string) list) res" where
  "capture_loop sha u5 k [] acc = Inr acc"
| "capture_loop sha u5 k (d # ds) (contracts, digests) =
     bindR (capture_binding sha u5 k d) (\<lambda>c.
     capture_loop sha u5 k ds (AList.update (bd_model_key d) c contracts,
       AList.update (bd_model_key d) (binding_digest sha d) digests))"

definition capture ::
  "digest \<Rightarrow> (uuid \<Rightarrow> string \<Rightarrow> uuid) \<Rightarrow> publication \<Rightarrow> registry_model list \<Rightarrow> fence \<Rightarrow> publication option
     \<Rightarrow> string option \<Rightarrow> publication list \<Rightarrow> publication_contracts res" where
  "capture sha u5 p models f previous new_key sources =
     bindR (read_fence p models f previous new_key sources) (\<lambda>k.
     bindR (capture_loop sha u5 k (pb_bindings p) ([], [])) (\<lambda>(contracts, digests).
       make_publication_contracts
         \<lparr>pc_publication = pb_id p, pc_profile = pb_profile p, pc_epoch = cp_epoch k,
          pc_spec_sha256 = pb_spec_sha256 p, pc_bindings = digests, pc_contracts = contracts\<rparr>))"

end
