(* ===== verification/Count_Guarantees.thy ===== *)
theory Count_Guarantees
  imports Count_Capture
begin

text \<open>
  What a capture guarantees: its contracts pass their validators and belong to the bindings of the
  publication, and under a hard fence each of them bounds what a request can cost.
\<close>

section \<open>Validators return what they are given\<close>

lemma make_request_policy_Inr: "make_request_policy p = Inr q \<Longrightarrow> q = p"
  by (auto simp: make_request_policy_def res_simps)

lemma make_contract_Inr:
  "make_contract c = Inr d \<longleftrightarrow> d = c \<and> contract_parts c = Inr () \<and> validate_ceiling c = Inr ()"
  by (auto simp: make_contract_def res_simps)

lemma make_model_contract_Inr:
  "make_model_contract c = Inr d \<Longrightarrow> d = c \<and> contract_parts c = Inr () \<and> validate_ceiling c = Inr ()
     \<and> (\<exists>ps. mapR (make_contract \<circ> snd) (mc_protocols c) = Inr ps)"
  by (auto simp: make_model_contract_def res_simps)

lemma make_model_contract_same: "make_model_contract c = Inr d \<Longrightarrow> make_model_contract c = Inr c"
  by (frule make_model_contract_Inr) simp

lemma make_approved_Inr:
  assumes "make_approved_contract a = Inr b"
  shows "make_model_contract (ac_contract a) = Inr (ac_contract a)"
    "x \<in> set (contracts_of (ac_contract a)) \<Longrightarrow> \<not> estimated x"
proof -
  obtain c where c: "make_model_contract (ac_contract a) = Inr c"
    "\<not> list_ex estimated (contracts_of (ac_contract a))"
    using assms by (auto simp: make_approved_contract_def res_simps)
  show "make_model_contract (ac_contract a) = Inr (ac_contract a)" by (rule make_model_contract_same [OF c(1)])
  show "x \<in> set (contracts_of (ac_contract a)) \<Longrightarrow> \<not> estimated x" using c(2) by (simp add: list_ex_iff)
qed

lemma mapR_input: "mapR f xs = Inr ys \<Longrightarrow> x \<in> set xs \<Longrightarrow> \<exists>y. f x = Inr y"
  by (induction xs arbitrary: ys) (auto simp: res_simps)

lemma make_publication_Inr:
  assumes "make_publication_contracts b = Inr b'"
  shows "b' = b" "(x, c) \<in> set (pc_contracts b) \<Longrightarrow> make_model_contract c = Inr c"
proof -
  have g: "guardR (\<not> is_sha256_hex (pc_spec_sha256 b)) (ValidationError ''BudgetPublicationContracts'')
      (bindR (mapR (make_model_contract \<circ> snd) (pc_contracts b)) (\<lambda>_. Inr b)) = Inr b'"
    using assms by (simp only: make_publication_contracts_def)
  then show "b' = b" by (simp add: res_simps)
  have "\<exists>cs. mapR (make_model_contract \<circ> snd) (pc_contracts b) = Inr cs" using g by (auto simp: res_simps)
  then obtain cs where cs: "mapR (make_model_contract \<circ> snd) (pc_contracts b) = Inr cs" by (rule exE)
  assume "(x, c) \<in> set (pc_contracts b)"
  from mapR_input [OF cs this] have "\<exists>d. make_model_contract c = Inr d" by simp
  then obtain d where "make_model_contract c = Inr d" by (rule exE)
  then show "make_model_contract c = Inr c" by (rule make_model_contract_same)
qed

lemma base_of_ceiling: "validate_ceiling (base_of c) = validate_ceiling c"
  by (simp add: validate_ceiling_def base_of_def requirements_of_def legacy_conflict_def context_conflict_def
      count_contract.defs cong: option.case_cong)

section \<open>The contract of one binding\<close>

abbreviation validated :: "model_contract \<Rightarrow> bool" where
  "validated c \<equiv> make_model_contract c = Inr c"

definition capture_ok :: "capture_state \<Rightarrow> bool" where
  "capture_ok k \<longleftrightarrow>
     (\<forall>(i, a) \<in> set (cp_approved k). validated (ac_contract a) \<and> mc_model_id (ac_contract a) = i)
     \<and> (\<forall>b. cp_inherited k = Some b \<longrightarrow> (\<forall>(x, c) \<in> set (pc_contracts b). validated c))"

lemma approved_ok:
  assumes "capture_ok k" "map_of (cp_approved k) i = Some a"
  shows "validated (ac_contract a)" "mc_model_id (ac_contract a) = i"
  using assms(1) map_of_SomeD [OF assms(2)] by (auto simp: capture_ok_def)

lemma inherited_source_ok:
  "inherited_source sha k alias qs = Inr (Some (b, c)) \<Longrightarrow> validated c"
proof (induction qs)
  case (Cons q qs)
  show ?case
  proof (cases "pb_contracts q")
    case None
    then show ?thesis using Cons by simp
  next
    case (Some saved)
    obtain b' where b': "make_publication_contracts saved = Inr b'"
      and rest: "(case map_of (pc_contracts b') alias of
            None \<Rightarrow> inherited_source sha k alias qs
          | Some prior \<Rightarrow>
              bindR (validate_publication sha b' q) (\<lambda>_.
              guardR (pb_status q \<noteq> Pub_active \<or> pc_profile b' \<noteq> pb_profile (cp_publication k)
                  \<or> pc_epoch b' \<noteq> cp_epoch k)
                (ValueError ''Inherited model contracts require an active Gateway publication epoch'')
             (guardR (late_evidence (cp_publication k) prior)
                (ValueError ''Inherited model evidence must precede publication'')
                (Inr (Some (b', prior)))))) = Inr (Some (b, c))"
      using Cons.prems unfolding inherited_source.simps Some option.case by (simp only: bindR_eq_Inr) (elim exE conjE)
    show ?thesis
    proof (cases "map_of (pc_contracts b') alias")
      case None
      then show ?thesis using rest Cons.IH by simp
    next
      case found: (Some prior)
      have "prior = c" using rest unfolding found option.case by (simp add: res_simps)
      then have "(alias, c) \<in> set (pc_contracts saved)"
        using map_of_SomeD [OF found] make_publication_Inr(1) [OF b'] by simp
      then show ?thesis by (rule make_publication_Inr(2) [OF b'])
    qed
  qed
qed simp

lemma prior_contract_ok:
  assumes "capture_ok k" "prior_contract sha k alias = Inr (Some (b, c))" shows "validated c"
proof (cases "cp_inherited k")
  case None
  then show ?thesis using assms(2) inherited_source_ok by (auto simp: prior_contract_def split: if_splits)
next
  case (Some b')
  show ?thesis
  proof (cases "map_of (pc_contracts b') alias")
    case None
    then show ?thesis
      using assms(2) Some inherited_source_ok by (auto simp: prior_contract_def split: if_splits)
  next
    case found: (Some c')
    then have "c' = c" using assms(2) Some by (simp add: prior_contract_def)
    then show ?thesis using assms(1) Some map_of_SomeD [OF found] by (auto simp: capture_ok_def)
  qed
qed

lemma estimate_ok:
  assumes "estimate p d i dig = Inr c" shows "validated c" "mc_model_id c = i"
proof -
  obtain ps where ps: "make_model_contract (model_contract_of (snd (hd ps)) i ps) = Inr c"
    using assms unfolding estimate_def bindR_eq_Inr by (elim exE conjE)
  then have c: "c = model_contract_of (snd (hd ps)) i ps" using make_model_contract_Inr by simp
  then show "validated c" using ps by simp
  show "mc_model_id c = i" unfolding c by (simp add: model_contract_of_def count_contract.defs model_contract.defs)
qed

lemma raw_route_ok:
  assumes "raw_route k d i dig new raw = Inr c" shows "validated c \<and> mc_model_id c = i"
proof -
  obtain c0 where c0: "make_model_contract raw = Inr c0"
    and rest: "(if mc_model_id c0 = i then Inr c0
     else guardR (\<not> new) (ValueError ''Budget contract belongs to another model identity'')
            (estimate (cp_publication k) d i dig)) = Inr c"
    using assms unfolding raw_route_def bindR_eq_Inr by (elim exE conjE)
  show ?thesis
  proof (cases "mc_model_id c0 = i")
    case True
    then have "c0 = c" using rest by simp
    then show ?thesis using c0 True make_model_contract_Inr [OF c0] make_model_contract_same [OF c0] by simp
  next
    case False
    then have "estimate (cp_publication k) d i dig = Inr c" using rest by (simp add: guardR_eq_Inr)
    then show ?thesis using estimate_ok by simp
  qed
qed

lemma own_route_ok:
  assumes "own_route k d i dig new = Inr c" shows "validated c \<and> mc_model_id c = i"
proof (cases "map_of (cp_raw k) (bd_model_key d)")
  case None
  then have "estimate (cp_publication k) d i dig = Inr c" using assms by (simp add: own_route_def split: if_splits)
  then show ?thesis using estimate_ok by simp
next
  case (Some raw)
  then show ?thesis using assms raw_route_ok by (simp add: own_route_def)
qed

text \<open>An approved contract is used for the route it was approved for, with evidence that precedes it.\<close>

definition approved_for :: "capture_state \<Rightarrow> string \<Rightarrow> model_contract \<Rightarrow> bool" where
  "approved_for k dig c \<longleftrightarrow>
     (case map_of (cp_approved k) (mc_model_id c) of
        None \<Rightarrow> True
      | Some a \<Rightarrow> ac_binding_sha256 a = dig \<and> \<not> late_evidence (cp_publication k) (ac_contract a))"

lemma base_contract_ok:
  assumes ok: "capture_ok k" and prior: "prior_contract sha k (bd_model_key d) = Inr prior"
    and base: "base_contract k d i dig new prior = Inr c"
  shows "validated c" "mc_model_id c = i" "approved_for k dig c"
proof -
  have "validated c \<and> mc_model_id c = i \<and> approved_for k dig c"
  proof (cases "map_of (cp_approved k) i")
    case (Some a)
    then have "ac_contract a = c" "ac_binding_sha256 a = dig" "\<not> late_evidence (cp_publication k) (ac_contract a)"
      using base by (auto simp: base_contract_def approved_route_def res_simps)
    then show ?thesis using approved_ok [OF ok Some] Some by (simp add: approved_for_def)
  next
    case None
    have fresh: "approved_for k dig c" if "mc_model_id c = i" using None that by (simp add: approved_for_def)
    show ?thesis
    proof (cases prior)
      case none: None
      then have "own_route k d i dig new = Inr c" using base None by (simp add: base_contract_def)
      then show ?thesis using own_route_ok fresh by simp
    next
      case (Some p)
      obtain b c0 where p: "p = (b, c0)" by (cases p)
      have v: "validated c0" using prior_contract_ok [OF ok] prior Some p by simp
      show ?thesis
      proof (cases "mc_model_id c0 = i")
        case True
        then have "c0 = c" using base None Some p by (simp add: base_contract_def guardR_eq_Inr)
        then show ?thesis using v True fresh by simp
      next
        case False
        then have "own_route k d i dig new = Inr c" using base None Some p by (simp add: base_contract_def)
        then show ?thesis using own_route_ok fresh by simp
      qed
    qed
  qed
  then show "validated c" "mc_model_id c = i" "approved_for k dig c" by simp_all
qed

lemma with_policies_ok:
  assumes "validated c" "with_policies k i selected c = Inr c'"
  shows "validated c' \<and> mc_model_id c' = mc_model_id c"
proof -
  obtain ps where "(if selected = [] then Inr c else make_model_contract (c\<lparr>mc_protocols := ps\<rparr>)) = Inr c'"
    using assms(2) unfolding with_policies_def guardR_eq_Inr bindR_eq_Inr by (elim exE conjE)
  then have *: "selected = [] \<and> c' = c \<or> make_model_contract (c\<lparr>mc_protocols := ps\<rparr>) = Inr c'" by (simp split: if_splits)
  from * show ?thesis
  proof (elim disjE conjE)
    assume m: "make_model_contract (c\<lparr>mc_protocols := ps\<rparr>) = Inr c'"
    then have c': "c' = c\<lparr>mc_protocols := ps\<rparr>" using make_model_contract_Inr by simp
    show ?thesis using m unfolding c' by simp
  qed (use assms(1) in simp)
qed

text \<open>What a captured contract satisfies.\<close>

definition captured_for :: "digest \<Rightarrow> capture_state \<Rightarrow> binding \<Rightarrow> model_contract \<Rightarrow> bool" where
  "captured_for sha k d c \<longleftrightarrow> validated c \<and> (\<forall>i. bd_logical_model d = Some i \<longrightarrow> mc_model_id c = i)
     \<and> approved_for k (binding_digest sha d) c
     \<and> (cp_require_bound k \<longrightarrow> (\<forall>x \<in> set (contracts_of c). \<not> estimated x))"

lemma capture_binding_ok:
  assumes ok: "capture_ok k" and c: "capture_binding sha u5 k d = Inr c"
  shows "captured_for sha k d c"
proof -
  obtain prior where prior: "prior_contract sha k (bd_model_key d) = Inr prior"
    and c1: "(let matches = registry_matches k d (identity_hint k d prior); dig = binding_digest sha d in
     bindR (resolve_model u5 k d matches) (\<lambda>i.
     bindR (select_policies k i dig) (\<lambda>selected.
     bindR (base_contract k d i dig (is_new_model k d matches) prior) (\<lambda>c.
     bindR (with_policies k i selected c) (\<lambda>c'.
     guardR (cp_require_bound k \<and> list_ex estimated (contracts_of c'))
       (ValueError ''Hard budget fence requires an approved verified count contract'') (Inr c')))))) = Inr c"
    using c unfolding capture_binding_def bindR_eq_Inr by (elim exE conjE)
  obtain i selected c0 where i: "resolve_model u5 k d (registry_matches k d (identity_hint k d prior)) = Inr i"
    and base: "base_contract k d i (binding_digest sha d)
        (is_new_model k d (registry_matches k d (identity_hint k d prior))) prior = Inr c0"
    and pol: "with_policies k i selected c0 = Inr c"
    and bound: "\<not> (cp_require_bound k \<and> list_ex estimated (contracts_of c))"
    using c1 unfolding Let_def bindR_eq_Inr guardR_eq_Inr by (elim exE conjE) simp
  note b = base_contract_ok [OF ok prior base]
  note p = with_policies_ok [OF b(1) pol]
  have "bd_logical_model d = Some j \<Longrightarrow> i = j" for j using i by (simp add: resolve_model_def guardR_eq_Inr)
  then show ?thesis
    using p b bound by (auto simp: captured_for_def approved_for_def list_ex_iff)
qed

section \<open>Publications\<close>

lemma capture_loop_ok:
  assumes ok: "capture_ok k"
  shows "capture_loop sha u5 k ds (cs, gs) = Inr (cs', gs') \<Longrightarrow>
    gs' = fold (\<lambda>(x, v). AList.update x v) (map (\<lambda>d. (bd_model_key d, binding_digest sha d)) ds) gs
    \<and> fst ` set cs' = fst ` set cs \<union> bd_model_key ` set ds
    \<and> (\<forall>(x, c) \<in> set cs'. (x, c) \<in> set cs \<or> (\<exists>d \<in> set ds. bd_model_key d = x \<and> captured_for sha k d c))"
proof (induction ds arbitrary: cs gs)
  case Nil
  then show ?case by auto
next
  case (Cons d ds)
  let ?cs = "\<lambda>c. AList.update (bd_model_key d) c cs"
  let ?gs = "AList.update (bd_model_key d) (binding_digest sha d) gs"
  have "\<exists>c. capture_binding sha u5 k d = Inr c \<and> capture_loop sha u5 k ds (?cs c, ?gs) = Inr (cs', gs')"
    using Cons.prems by (simp only: capture_loop.simps bindR_eq_Inr)
  then obtain c where c: "capture_binding sha u5 k d = Inr c"
    and l: "capture_loop sha u5 k ds (?cs c, ?gs) = Inr (cs', gs')" by (elim exE conjE)
  note IH = Cons.IH [OF l]
  have keys: "fst ` set (?cs c) = insert (bd_model_key d) (fst ` set cs)"
    using dom_update [of "bd_model_key d" c cs] by (simp add: dom_map_of_conv_image_fst)
  have mem: "(x, e) \<in> set cs \<or> (x = bd_model_key d \<and> e = c)" if "(x, e) \<in> set (?cs c)" for x e
    using that by (induction cs) (auto split: if_splits)
  have good: "captured_for sha k d c" by (rule capture_binding_ok [OF ok c])
  show ?case
  proof (intro conjI ballI)
    show "gs' = fold (\<lambda>(x, v). AList.update x v)
        (map (\<lambda>d. (bd_model_key d, binding_digest sha d)) (d # ds)) gs" using IH by simp
    show "fst ` set cs' = fst ` set cs \<union> bd_model_key ` set (d # ds)" using IH keys by auto
    fix z assume z: "z \<in> set cs'"
    obtain x e where xe: "z = (x, e)" by (cases z)
    have "(x, e) \<in> set (?cs c) \<or> (\<exists>d \<in> set ds. bd_model_key d = x \<and> captured_for sha k d e)"
      using IH z unfolding xe by blast
    then have "(x, e) \<in> set cs \<or> (\<exists>d' \<in> set (d # ds). bd_model_key d' = x \<and> captured_for sha k d' e)"
    proof
      assume "(x, e) \<in> set (?cs c)"
      then show ?thesis using mem good by auto
    qed auto
    then show "case z of (x, c) \<Rightarrow> (x, c) \<in> set cs \<or> (\<exists>d' \<in> set (d # ds). bd_model_key d' = x \<and> captured_for sha k d' c)"
      by (simp only: xe prod.case)
  qed
qed

lemma read_fence_ok:
  assumes "read_fence p models f previous new_key sources = Inr k"
  shows "capture_ok k" "cp_publication k = p" "cp_approved k = fc_approved f"
    "fc_require_bound f = PBool (cp_require_bound k)"
proof -
  obtain required where r: "fc_require_bound f = PBool required"
    using assms by (cases "fc_require_bound f") (simp_all add: read_fence_def guardR_eq_Inr)
  obtain raw where raw: "fc_contracts f = Some raw"
    using assms r by (cases "fc_contracts f") (simp_all add: read_fence_def guardR_eq_Inr)
  obtain as inherited where a: "mapR (make_approved_contract \<circ> snd) (fc_approved f) = Inr as"
    and keys: "\<not> list_ex (\<lambda>(i, a). i \<noteq> mc_model_id (ac_contract a)) (fc_approved f)"
    and inh: "inherited_contracts p (fc_epoch f) previous = Inr inherited"
    and k: "k = \<lparr>cp_publication = p, cp_registry = models, cp_epoch = fc_epoch f, cp_require_bound = required,
                   cp_raw = raw, cp_policies = fc_policies f, cp_model_policies = fc_model_policies f,
                   cp_approved = fc_approved f, cp_inherited = inherited, cp_sources = sources,
                   cp_candidate = (if truthy new_key then new_key
                     else if pb_bindings p = [] then None
                     else Some (bd_model_key (last (pb_bindings p))))\<rparr>"
    using assms unfolding read_fence_def r raw pv.case option.case bindR_eq_Inr guardR_eq_Inr
    by (elim exE conjE) simp
  show "cp_publication k = p" "cp_approved k = fc_approved f" "fc_require_bound f = PBool (cp_require_bound k)"
    by (simp_all add: k r)
  have "validated (ac_contract x) \<and> mc_model_id (ac_contract x) = i" if ix: "(i, x) \<in> set (fc_approved f)" for i x
  proof -
    have "\<exists>y. make_approved_contract x = Inr y" using mapR_input [OF a ix] by simp
    then obtain y where "make_approved_contract x = Inr y" by (rule exE)
    then have "validated (ac_contract x)" by (rule make_approved_Inr(1))
    moreover have "i = mc_model_id (ac_contract x)" using keys ix by (auto simp: list_ex_iff)
    ultimately show ?thesis by simp
  qed
  moreover have "validated c" if ib: "inherited = Some b" "(x, c) \<in> set (pc_contracts b)" for b x c
  proof -
    obtain q where q: "previous = Some q" using inh ib(1) by (cases previous) (simp_all add: inherited_contracts_def)
    obtain saved where s: "pb_contracts q = Some saved"
      using inh ib(1) q by (cases "pb_contracts q") (simp_all add: inherited_contracts_def)
    have "\<exists>b'. make_publication_contracts saved = Inr b' \<and> b' = b"
      using inh ib(1) unfolding inherited_contracts_def q s option.case bindR_eq_Inr guardR_eq_Inr by simp
    then have m: "make_publication_contracts saved = Inr b" by simp
    have "b = saved" by (rule make_publication_Inr(1) [OF m])
    then show ?thesis using make_publication_Inr(2) [OF m] ib(2) by simp
  qed
  ultimately show "capture_ok k" by (auto simp: capture_ok_def k)
qed

lemma capture_facts:
  assumes "capture sha u5 p models f previous new_key sources = Inr b"
  obtains k where "cp_publication k = p" "cp_approved k = fc_approved f"
    "fc_require_bound f = PBool (cp_require_bound k)"
    "pc_bindings b = dict_of (map (\<lambda>d. (bd_model_key d, binding_digest sha d)) (pb_bindings p))"
    "pc_publication b = pb_id p" "pc_profile b = pb_profile p" "pc_spec_sha256 b = pb_spec_sha256 p"
    "fst ` set (pc_contracts b) = bd_model_key ` set (pb_bindings p)"
    "\<forall>(x, c) \<in> set (pc_contracts b). \<exists>d \<in> set (pb_bindings p). bd_model_key d = x \<and> captured_for sha k d c"
proof -
  obtain k cs gs where k: "read_fence p models f previous new_key sources = Inr k"
    and l: "capture_loop sha u5 k (pb_bindings p) ([], []) = Inr (cs, gs)"
    and m: "make_publication_contracts
         \<lparr>pc_publication = pb_id p, pc_profile = pb_profile p, pc_epoch = cp_epoch k,
          pc_spec_sha256 = pb_spec_sha256 p, pc_bindings = gs, pc_contracts = cs\<rparr> = Inr b"
    using assms unfolding capture_def bindR_eq_Inr by (elim exE conjE) (simp only: split_paired_all prod.case)
  have b: "b = \<lparr>pc_publication = pb_id p, pc_profile = pb_profile p, pc_epoch = cp_epoch k,
          pc_spec_sha256 = pb_spec_sha256 p, pc_bindings = gs, pc_contracts = cs\<rparr>"
    by (rule make_publication_Inr(1) [OF m])
  note r = read_fence_ok [OF k]
  note c = capture_loop_ok [OF r(1) l]
  show thesis
    by (rule that [of k]) (use r c in \<open>auto simp: b dict_of_def\<close>)
qed

text \<open>
  C33. What a capture returns passes its validation against the publication it was captured for.
\<close>

theorem captured_valid:
  assumes "capture sha u5 p models f previous new_key sources = Inr b"
  shows "validate_publication sha b p = Inr ()
    \<and> (\<forall>(alias, c) \<in> set (pc_contracts b). make_model_contract c = Inr c)"
proof -
  obtain k where k: "cp_publication k = p" "cp_approved k = fc_approved f"
    "fc_require_bound f = PBool (cp_require_bound k)"
    "pc_bindings b = dict_of (map (\<lambda>d. (bd_model_key d, binding_digest sha d)) (pb_bindings p))"
    "pc_publication b = pb_id p" "pc_profile b = pb_profile p" "pc_spec_sha256 b = pb_spec_sha256 p"
    "fst ` set (pc_contracts b) = bd_model_key ` set (pb_bindings p)"
    and c: "\<forall>(x, c) \<in> set (pc_contracts b). \<exists>d \<in> set (pb_bindings p). bd_model_key d = x \<and> captured_for sha k d c"
    by (rule capture_facts [OF assms])
  have keys: "fst ` set (dict_of kvs) = fst ` set kvs" for kvs :: "(string \<times> string) list"
  proof -
    have "dom (map_of (fold (\<lambda>(k, v). AList.update k v) kvs d)) = dom (map_of d) \<union> dom (map_of kvs)"
      for d :: "(string \<times> string) list"
      by (induction kvs arbitrary: d) (auto simp: update_conv')
    then show ?thesis by (simp add: dict_of_def dom_map_of_conv_image_fst)
  qed
  have "validate_publication sha b p = Inr ()"
    using k keys by (simp add: validate_publication_def guardR_def same_dict_def list_all_iff image_image)
  moreover have "make_model_contract c = Inr c" if "(x, c) \<in> set (pc_contracts b)" for x c
    using c that by (auto simp: captured_for_def)
  ultimately show ?thesis by auto
qed

text \<open>A contract that bounds what a request can cost.\<close>

definition bounding :: "count_contract \<Rightarrow> bool" where
  "bounding c \<longleftrightarrow> (case cc_algorithm c of
     Request_ceiling \<Rightarrow> (case cc_request_ceiling c of None \<Rightarrow> False | Some n \<Rightarrow> positive_count n)
   | Context_ceiling \<Rightarrow> 0 < cc_input_ceiling c \<and> 0 < cc_output_ceiling c \<and> cc_output_field c \<noteq> No_field
       \<and> cc_input_ceiling c + cc_output_ceiling c \<le> MAX_TOKENS
   | Legacy_estimate \<Rightarrow> False)"

lemma verified_bounding:
  assumes "contract_parts c = Inr ()" "validate_ceiling c = Inr ()" "cc_algorithm c \<noteq> Legacy_estimate"
  shows "bounding (count_contract.truncate c)"
  using assms
  by (cases "cc_algorithm c"; cases "cc_request_ceiling c")
    (auto simp: bounding_def validate_ceiling_def guardR_eq_Inr context_conflict_def contract_parts_def
      contract_fields_def opt_all_def count_contract.defs)

lemma captured_bounding:
  assumes "capture sha u5 p models f previous new_key sources = Inr b" "fc_require_bound f = PBool True"
  shows "\<forall>(alias, c) \<in> set (pc_contracts b). \<forall>x \<in> set (contracts_of c). bounding x"
proof -
  obtain k where k: "cp_publication k = p" "cp_approved k = fc_approved f"
    "fc_require_bound f = PBool (cp_require_bound k)"
    "pc_bindings b = dict_of (map (\<lambda>d. (bd_model_key d, binding_digest sha d)) (pb_bindings p))"
    "pc_publication b = pb_id p" "pc_profile b = pb_profile p" "pc_spec_sha256 b = pb_spec_sha256 p"
    "fst ` set (pc_contracts b) = bd_model_key ` set (pb_bindings p)"
    and all: "\<forall>(x, c) \<in> set (pc_contracts b). \<exists>d \<in> set (pb_bindings p). bd_model_key d = x \<and> captured_for sha k d c"
    by (rule capture_facts [OF assms(1)])
  have "bounding x" if c: "(y, c) \<in> set (pc_contracts b)" and x: "x \<in> set (contracts_of c)" for y c x
  proof -
    obtain d where d: "captured_for sha k d c" using all c by blast
    then have v: "make_model_contract c = Inr c" and e: "\<not> estimated x"
      using assms(2) k x by (auto simp: captured_for_def)
    note parts = make_model_contract_Inr [OF v]
    show ?thesis
    proof (cases "x = base_of c")
      case True
      then show ?thesis using verified_bounding [of c] parts e by (simp add: estimated_def base_of_def count_contract.defs)
    next
      case False
      then obtain y where y: "(y, x) \<in> set (mc_protocols c)" using x by (auto simp: contracts_of_def)
      obtain ps where ps: "mapR (make_contract \<circ> snd) (mc_protocols c) = Inr ps" using parts by blast
      have "\<exists>z. make_contract x = Inr z" using mapR_input [OF ps y] by simp
      then have "contract_parts x = Inr ()" "validate_ceiling x = Inr ()" by (auto simp: make_contract_Inr)
      then have "bounding (count_contract.truncate x)" using e by (intro verified_bounding) (simp_all add: estimated_def)
      moreover have "count_contract.truncate x = x" by (cases x) (simp add: count_contract.defs)
      ultimately show ?thesis by simp
    qed
  qed
  then show ?thesis by auto
qed

theorem hard_fence_bounds:
  assumes "capture sha u5 p models f previous new_key sources = Inr b" "fc_require_bound f = PBool True"
  shows "\<forall>(alias, c) \<in> set (pc_contracts b). \<forall>x \<in> set (contracts_of c). bounding x"
  by (rule captured_bounding [OF assms])

text \<open>
  C34. A captured contract belongs to a binding of the publication with its alias and, where the
  binding names one, its model; when the model has an operator approval, it was given for exactly
  that binding, by digest, on evidence that precedes the publication.
\<close>

theorem captured_route:
  assumes "capture sha u5 p models f previous new_key sources = Inr b" "(alias, c) \<in> set (pc_contracts b)"
  shows "\<exists>d \<in> set (pb_bindings p). bd_model_key d = alias
    \<and> (\<forall>i. bd_logical_model d = Some i \<longrightarrow> mc_model_id c = i)
    \<and> (case map_of (fc_approved f) (mc_model_id c) of
         None \<Rightarrow> True
       | Some a \<Rightarrow> ac_binding_sha256 a = binding_digest sha d \<and> \<not> late_evidence p (ac_contract a))"
proof -
  obtain k where k: "cp_publication k = p" "cp_approved k = fc_approved f"
    "fc_require_bound f = PBool (cp_require_bound k)"
    "pc_bindings b = dict_of (map (\<lambda>d. (bd_model_key d, binding_digest sha d)) (pb_bindings p))"
    "pc_publication b = pb_id p" "pc_profile b = pb_profile p" "pc_spec_sha256 b = pb_spec_sha256 p"
    "fst ` set (pc_contracts b) = bd_model_key ` set (pb_bindings p)"
    and all: "\<forall>(x, c) \<in> set (pc_contracts b). \<exists>d \<in> set (pb_bindings p). bd_model_key d = x \<and> captured_for sha k d c"
    by (rule capture_facts [OF assms(1)])
  obtain d where "d \<in> set (pb_bindings p)" "bd_model_key d = alias" "captured_for sha k d c"
    using all assms(2) by blast
  then show ?thesis using k(1,2) by (intro bexI [of _ d]) (simp_all add: captured_for_def approved_for_def split: option.splits)
qed

end
