(* ===== verification/Probe_Journal.thy ===== *)
theory Probe_Journal
  imports Probe_Progress Billable_Runs Count_Guarantees
begin

text \<open>
  \<open>turnstile_core/services/probe_journal.py\<close>, \<open>PersistentProbeJournal\<close>: the requests by which a
  publication probes a route or an image model, each admitted as a billable request, sent at most
  once, and acknowledged whatever happens. The clock, new identifiers, the heartbeat of the lease and
  the request itself are functions on a world; the repository is the one of \<open>Billable_Requests\<close>.
  Bodies, contexts and evidence are JSON values; a route has passed its validators, so that reading
  its own document again returns it; a call that the repository refuses leaves it as it was.
\<close>

section \<open>Canonical documents\<close>

fun raw_render :: "bool \<Rightarrow> string \<Rightarrow> string \<Rightarrow> pv \<Rightarrow> string" where
  "raw_render srt isep ksep (PStr s) = json_text_raw s"
| "raw_render srt isep ksep (PList xs) = ''['' @ join_with isep (map (raw_render srt isep ksep) xs) @ '']''"
| "raw_render srt isep ksep (PDict d) =
     (let rendered = map (\<lambda>(k, v). (k, raw_render srt isep ksep v)) d;
          ordered = (if srt then sort_key fst rendered else rendered)
      in ''{'' @ join_with isep (map (\<lambda>(k, s). json_text_raw k @ ksep @ s) ordered) @ ''}'')"
| "raw_render srt isep ksep v = json_render srt isep ksep v"

definition canonical_document :: "dict \<Rightarrow> string" where
  "canonical_document d = raw_render True '','' '':'' (PDict d)"

definition document_digest :: "digest \<Rightarrow> dict \<Rightarrow> string" where
  "document_digest sha d = sha (canonical_document d)"

section \<open>Routes and journals\<close>

record route =
  rt_document :: dict
  rt_operations :: "count_operation list"
  rt_alias :: string
  rt_model_id :: string
  rt_members :: "string list option"
  rt_budget :: model_contract

record 'w journal =
  jn_now :: "'w \<Rightarrow> instant \<times> 'w"
  jn_fresh :: "'w \<Rightarrow> uuid \<times> 'w"
  jn_heartbeat :: "('w, unit) step"
  jn_error_name :: "failure \<Rightarrow> string"
  jn_sha :: digest
  jn_operation_key :: string
  jn_authorization :: uuid
  jn_attempt_limit :: int
  jn_context :: dict
  jn_planned :: "(string \<times> uuid) list"
  jn_identities :: "(string \<times> string) list"

definition guardS :: "bool \<Rightarrow> failure \<Rightarrow> ('w, 'a) step \<Rightarrow> ('w, 'a) step" where
  "guardS bad e k = (if bad then raiseS e else k)"

definition tryS :: "('w, 'a) step \<Rightarrow> ('w, failure + 'a) step" where
  "tryS m ws = (case m ws of (r, ws') \<Rightarrow> (Inr r, ws'))"

definition nowS :: "'w journal \<Rightarrow> ('w \<times> repository, instant) step" where
  "nowS jn = outerS (\<lambda>w. case jn_now jn w of (t, w') \<Rightarrow> (Inr t, w'))"

definition freshS :: "'w journal \<Rightarrow> ('w \<times> repository, uuid) step" where
  "freshS jn = outerS (\<lambda>w. case jn_fresh jn w of (u, w') \<Rightarrow> (Inr u, w'))"

definition beginS :: "'w journal \<Rightarrow> plan \<Rightarrow> ('w \<times> repository, billable) step" where
  "beginS jn p =
     bindS (nowS jn) (\<lambda>now. bindS (freshS jn) (\<lambda>fresh. bindS selfS (\<lambda>rp.
     bindS (liftS (begin_billable_request rp now fresh p)) (\<lambda>(a, rp').
     bindS (becomeS (\<lambda>_. rp')) (\<lambda>_. doneS a)))))"

definition recoverS :: "plan \<Rightarrow> ('w \<times> repository, billable) step" where
  "recoverS p = bindS selfS (\<lambda>rp. liftS (recover_billable_request rp p))"

definition finishS :: "'w journal \<Rightarrow> uuid \<Rightarrow> outcome_report \<Rightarrow> ('w \<times> repository, unit) step" where
  "finishS jn i x =
     bindS (nowS jn) (\<lambda>now. bindS selfS (\<lambda>rp.
     bindS (liftS (finish_billable_request rp now i x)) (\<lambda>rp'. becomeS (\<lambda>_. rp'))))"

text \<open>\<open>except BillableOutcomeUncertain\<close>.\<close>

definition unconfirmed :: "(string \<Rightarrow> string) \<Rightarrow> ('w, 'a) step \<Rightarrow> ('w, 'a) step" where
  "unconfirmed msg m ws =
     (case m ws of
        (Inl (Raised (BillableOutcomeUncertain s)), ws') \<Rightarrow> (Inl (Compilation (msg s) None), ws')
      | x \<Rightarrow> x)"

section \<open>Reservations\<close>

definition route_contract :: "route \<Rightarrow> count_operation \<Rightarrow> count_contract" where
  "route_contract rt x = opt_or (map_of (mc_protocols (rt_budget rt)) x) (base_of (rt_budget rt))"

fun field_text :: "output_field \<Rightarrow> string" where
  "field_text Max_tokens = ''max_tokens''"
| "field_text Max_completion_tokens = ''max_completion_tokens''"
| "field_text Max_output_tokens = ''max_output_tokens''"
| "field_text No_field = ''none''"

definition body_get :: "dict \<Rightarrow> string \<Rightarrow> pv \<Rightarrow> pv" where
  "body_get d k v = (if has_key d k then dfield d k else v)"

definition requested_output :: "count_contract \<Rightarrow> count_operation \<Rightarrow> dict \<Rightarrow> pv" where
  "requested_output c x body =
     (let requested = dfield body (field_text (cc_output_field c)) in
      if x = Chat_completions
      then body_get body ''max_completion_tokens'' (body_get body ''max_tokens'' requested)
      else requested)"

definition output_bound :: "count_contract \<Rightarrow> count_operation \<Rightarrow> dict \<Rightarrow> pv" where
  "output_bound c x body =
     (if requested_output c x body \<noteq> PNone then requested_output c x body
      else (case cc_output_estimate c of Some n \<Rightarrow> PInt n | None \<Rightarrow> PInt (min 4096 (cc_output_ceiling c))))"

fun sample_count :: "dict \<Rightarrow> string list \<Rightarrow> int \<Rightarrow> ('w, int) step" where
  "sample_count body [] samples = doneS samples"
| "sample_count body (k # ks) samples =
     (case body_get body k (PInt 1) of
        PInt n \<Rightarrow> guardS (n < 1) (Compilation ''Route probe sample bound is invalid'' None)
                   (sample_count body ks (max samples n))
      | _ \<Rightarrow> raiseS (Compilation ''Route probe sample bound is invalid'' None))"

definition metered_reservation :: "count_contract \<Rightarrow> count_operation \<Rightarrow> dict \<Rightarrow> string \<Rightarrow> ('w, int) step" where
  "metered_reservation c x body payload =
     (case output_bound c x body of
        PInt n \<Rightarrow>
          guardS (n < 1) (Compilation ''Route probe output bound is invalid'' None)
         (guardS (\<not> estimated c \<and> cc_output_ceiling c < n)
            (Compilation ''Route probe output exceeds its approved bound'' None)
         (bindS (sample_count body (if x = Chat_completions then [''n'', ''best_of''] else []) 1) (\<lambda>samples.
            doneS ((if estimated c then int (utf8_length payload) else cc_input_ceiling c) + n * samples))))
      | _ \<Rightarrow> raiseS (Compilation ''Route probe output bound is invalid'' None))"

definition route_reservation :: "count_contract \<Rightarrow> count_operation \<Rightarrow> dict \<Rightarrow> string \<Rightarrow> ('w, int) step" where
  "route_reservation c x body payload =
     bindS (if cc_algorithm c = Request_ceiling then doneS (cc_request_ceiling c)
            else bindS (metered_reservation c x body payload) (\<lambda>n. doneS (Some n))) (\<lambda>reserved.
     case reserved of
       None \<Rightarrow> raiseS (Compilation ''Route probe reservation is invalid'' None)
     | Some n \<Rightarrow> guardS (\<not> (0 < n \<and> n \<le> MAX_TOKENS)) (Compilation ''Route probe reservation is invalid'' None)
                  (doneS n))"

section \<open>The plan of a route probe\<close>

definition member_context :: "string option \<Rightarrow> dict" where
  "member_context member = (if truthy member then [(''member_backend_id'', PStr (opt_or member []))] else [])"

definition member_text :: "string option \<Rightarrow> pv" where
  "member_text x = (case x of None \<Rightarrow> PNone | Some s \<Rightarrow> PStr s)"

definition require_probe_member :: "route \<Rightarrow> string option \<Rightarrow> unit res" where
  "require_probe_member rt member =
     (case rt_members rt of
        None \<Rightarrow> guardR (member \<noteq> None) (ValueError ''ROUTE_PROBE_POOL_UNEXPECTED'') (Inr ())
      | Some ms \<Rightarrow> guardR (member \<notin> Some ` set ms) (ValueError ''ROUTE_PROBE_POOL_MEMBER_INVALID'') (Inr ()))"

definition route_requires :: "count_operation \<Rightarrow> dict" where
  "route_requires x = (''route_validated'', PBool True)
     # (if x = Images_generations then [(''image_validated'', PBool True)] else [])"

definition route_plan ::
  "'w journal \<Rightarrow> route \<Rightarrow> count_operation \<Rightarrow> string \<Rightarrow> dict \<Rightarrow> string option \<Rightarrow> int \<Rightarrow> instant \<Rightarrow> plan" where
  "route_plan jn rt x endpoint body member reserved now =
     \<lparr>pl_operation_key = jn_operation_key jn @ '':route:'' @ document_digest (jn_sha jn)
        ([(''model'', PStr (rt_model_id rt)), (''alias'', PStr (rt_alias rt)),
          (''operation'', PStr (operation_text x)), (''endpoint'', PStr endpoint)] @ member_context member),
      pl_plan_sha256 = document_digest (jn_sha jn)
        ([(''route'', PDict (rt_document rt)), (''operation'', PStr (operation_text x)),
          (''endpoint'', PStr endpoint), (''body'', PDict body), (''context'', PDict (jn_context jn))]
         @ member_context member),
      pl_owner = System, pl_scope_id = jn_operation_key jn, pl_period_start = utc_month now,
      pl_model_id = rt_model_id rt, pl_model_key = rt_alias rt, pl_reserved_tokens = reserved,
      pl_authorization_id = Some (jn_authorization jn), pl_attempt_limit = jn_attempt_limit jn,
      pl_reuse_requires = route_requires x, pl_authority = Postgresql\<rparr>"

definition prepare_route ::
  "'w journal \<Rightarrow> route \<Rightarrow> count_operation \<Rightarrow> string \<Rightarrow> dict \<Rightarrow> string option \<Rightarrow> ('w \<times> repository, plan) step" where
  "prepare_route jn rt x endpoint body member =
     bindS (outerS (jn_heartbeat jn)) (\<lambda>_.
     guardS (x \<notin> set (rt_operations rt) \<or> dfield body ''model'' \<noteq> PStr (rt_alias rt))
       (Compilation ''Route probe does not match its approved operation'' None)
    (bindS (liftS (require_probe_member rt member)) (\<lambda>_.
     bindS (route_reservation (route_contract rt x) x body (canonical_document body)) (\<lambda>reserved.
     bindS (nowS jn) (\<lambda>now.
     liftS (make_plan (route_plan jn rt x endpoint body member reserved now)))))))"

section \<open>Sending a probe\<close>

text \<open>The outcome an evidence reports (\<open>BillableRequestOutcome(...)\<close>), with other evidence to keep.\<close>

definition evidence_outcome :: "dict \<Rightarrow> dict \<Rightarrow> outcome_report res" where
  "evidence_outcome evidence kept =
     (case (dfield evidence ''total_tokens'', dfield evidence ''correlation_id'') of
        (PNone, PNone) \<Rightarrow> make_outcome \<lparr>oc_actual_tokens = None, oc_correlation_id = None, oc_evidence = kept\<rparr>
      | (PNone, PStr s) \<Rightarrow> make_outcome \<lparr>oc_actual_tokens = None, oc_correlation_id = Some s, oc_evidence = kept\<rparr>
      | (PInt n, PNone) \<Rightarrow> make_outcome \<lparr>oc_actual_tokens = Some n, oc_correlation_id = None, oc_evidence = kept\<rparr>
      | (PInt n, PStr s) \<Rightarrow> make_outcome \<lparr>oc_actual_tokens = Some n, oc_correlation_id = Some s, oc_evidence = kept\<rparr>
      | _ \<Rightarrow> Inl (ValidationError ''BillableRequestOutcome''))"

definition failed_outcome :: "'w journal \<Rightarrow> failure \<Rightarrow> (failure \<Rightarrow> dict) \<Rightarrow> outcome_report" where
  "failed_outcome jn e evidence =
     (case e of
        Compilation _ (Some x) \<Rightarrow> x
      | Authorization _ (Some x) \<Rightarrow> x
      | _ \<Rightarrow> \<lparr>oc_actual_tokens = None, oc_correlation_id = None, oc_evidence = evidence e\<rparr>)"

definition route_failure :: "'w journal \<Rightarrow> failure \<Rightarrow> dict" where
  "route_failure jn e = [(''route_validated'', PBool False), (''error_type'', PStr (jn_error_name jn e))]"

definition sent_route ::
  "'w journal \<Rightarrow> (uuid \<Rightarrow> ('w, dict) step) \<Rightarrow> string option \<Rightarrow> billable
     \<Rightarrow> ('w \<times> repository, dict \<times> outcome_report) step" where
  "sent_route jn send member a =
     bindS (outerS (jn_heartbeat jn)) (\<lambda>_.
     bindS (outerS (send (bl_id a))) (\<lambda>evidence.
     if dfield evidence ''member_backend_id'' \<noteq> member_text member
     then bindS (liftS (evidence_outcome evidence (dput ''route_validated'' (PBool False) evidence))) (\<lambda>x.
          raiseS (Compilation ''Route probe evidence belongs to another Pool member'' (Some x)))
     else bindS (liftS (evidence_outcome evidence evidence)) (\<lambda>x. doneS (evidence, x))))"

text \<open>Sending and acknowledging: the outcome is written whether or not the request succeeded.\<close>

definition acknowledge ::
  "'w journal \<Rightarrow> (failure \<Rightarrow> dict) \<Rightarrow> billable \<Rightarrow> ('w \<times> repository, dict \<times> outcome_report) step
     \<Rightarrow> ('w \<times> repository, dict \<times> outcome_report) step" where
  "acknowledge jn failed a sent =
     bindS (tryS sent) (\<lambda>r. case r of
       Inl e \<Rightarrow> bindS (finishS jn (bl_id a) (failed_outcome jn e failed)) (\<lambda>_. raiseS e)
     | Inr (evidence, x) \<Rightarrow> bindS (finishS jn (bl_id a) x) (\<lambda>_. doneS (evidence, x)))"

text \<open>The charge of an exact attempt must be validated route evidence.\<close>

definition validated_charge :: "count_operation \<Rightarrow> string option \<Rightarrow> billable \<Rightarrow> bool" where
  "validated_charge x member a \<longleftrightarrow>
     dfield (bl_evidence a) ''route_validated'' = PBool True
     \<and> dfield (bl_evidence a) ''member_backend_id'' = member_text member
     \<and> py_eq (case bl_actual_tokens a of None \<Rightarrow> PNone | Some n \<Rightarrow> PInt n) (dfield (bl_evidence a) ''total_tokens'')
     \<and> (x = Images_generations \<longrightarrow> dfield (bl_evidence a) ''image_validated'' = PBool True)"

definition probe_plan ::
  "'w journal \<Rightarrow> count_operation \<Rightarrow> (uuid \<Rightarrow> ('w, dict) step) \<Rightarrow> bool \<Rightarrow> string option \<Rightarrow> plan
     \<Rightarrow> ('w \<times> repository, dict) step" where
  "probe_plan jn x send recovery_only member p =
     bindS (unconfirmed (\<lambda>_. ''Route probe outcome is unconfirmed; no request replayed'')
              (if recovery_only then recoverS p else beginS jn p)) (\<lambda>a.
     if bl_state a = Exact
     then guardS (\<not> validated_charge x member a)
            (Compilation ''Route probe charge is not validated route evidence'' None) (doneS (bl_evidence a))
     else if recovery_only
     then raiseS (Compilation ''Route probe outcome is unconfirmed; no request replayed'' None)
     else bindS (acknowledge jn (route_failure jn) a (sent_route jn send member a)) (\<lambda>(evidence, y).
          guardS (oc_actual_tokens y = None \<or> dfield evidence ''route_validated'' \<noteq> PBool True)
            (Compilation ''Route probe did not retain exact validated evidence'' None) (doneS evidence)))"

definition run_route ::
  "'w journal \<Rightarrow> route \<Rightarrow> count_operation \<Rightarrow> string \<Rightarrow> dict \<Rightarrow> (uuid \<Rightarrow> ('w, dict) step) \<Rightarrow> bool
     \<Rightarrow> string option \<Rightarrow> ('w \<times> repository, dict) step" where
  "run_route jn rt x endpoint body send recovery_only member =
     bindS (prepare_route jn rt x endpoint body member) (probe_plan jn x send recovery_only member)"

section \<open>Probes of image models\<close>

text \<open>
  \<open>run\<close>: the binding is given by its key and its document; \<open>profile\<close> is the output reservation of the
  image profile that \<open>validate_image_profile\<close> accepts.
\<close>

definition image_identity :: "'w journal \<Rightarrow> string \<Rightarrow> string option" where
  "image_identity jn key =
     (case map_of (jn_planned jn) key of Some u \<Rightarrow> Some u | None \<Rightarrow> map_of (jn_identities jn) key)"

definition image_plan ::
  "'w journal \<Rightarrow> string \<Rightarrow> dict \<Rightarrow> string \<Rightarrow> dict \<Rightarrow> string option \<Rightarrow> string \<Rightarrow> int \<Rightarrow> instant \<Rightarrow> plan" where
  "image_plan jn key document revision body gateway mid tokens now =
     \<lparr>pl_operation_key = jn_operation_key jn @ '':'' @ key
        @ (case gateway of None \<Rightarrow> [] | Some g \<Rightarrow> '':gateway:'' @ jn_sha jn g),
      pl_plan_sha256 = jn_sha jn (json_render True '', '' '': '' (PDict
        [(''binding'', PDict document), (''model_id'', PStr mid), (''revision'', PStr revision),
         (''body'', PDict body),
         (''context'', PDict (case gateway of None \<Rightarrow> jn_context jn
            | Some g \<Rightarrow> dput ''gateway_endpoint'' (PStr g) (jn_context jn)))])),
      pl_owner = System, pl_scope_id = jn_operation_key jn, pl_period_start = utc_month now,
      pl_model_id = mid, pl_model_key = key,
      pl_reserved_tokens = int (utf8_length (raw_render False '', '' '': '' (PDict body))) + tokens,
      pl_authorization_id = Some (jn_authorization jn), pl_attempt_limit = jn_attempt_limit jn,
      pl_reuse_requires = [(''image_validated'', PBool True)], pl_authority = Postgresql\<rparr>"

definition image_failure :: "'w journal \<Rightarrow> failure \<Rightarrow> dict" where
  "image_failure jn e = [(''error_type'', PStr (jn_error_name jn e)), (''image_validated'', PBool False)]"

definition sent_image ::
  "(uuid \<Rightarrow> string \<Rightarrow> ('w, dict) step) \<Rightarrow> billable \<Rightarrow> ('w \<times> repository, dict \<times> outcome_report) step" where
  "sent_image send a =
     bindS (outerS (send (bl_id a) (bl_model_id a))) (\<lambda>evidence.
     bindS (liftS (evidence_outcome evidence evidence)) (\<lambda>x. doneS (evidence, x)))"

definition run_image ::
  "'w journal \<Rightarrow> int res \<Rightarrow> string \<Rightarrow> dict \<Rightarrow> string \<Rightarrow> dict \<Rightarrow> (uuid \<Rightarrow> string \<Rightarrow> ('w, dict) step)
     \<Rightarrow> string option \<Rightarrow> ('w \<times> repository, unit) step" where
  "run_image jn profile key document revision body send gateway =
     bindS (outerS (jn_heartbeat jn)) (\<lambda>_.
     bindS (liftS profile) (\<lambda>tokens.
     case image_identity jn key of
       None \<Rightarrow> raiseS (Compilation ''Image probe model identity is unavailable'' None)
     | Some mid \<Rightarrow>
         bindS (nowS jn) (\<lambda>now.
         bindS (unconfirmed (\<lambda>s. s)
            (bindS (liftS (make_plan (image_plan jn key document revision body gateway mid tokens now)))
               (beginS jn))) (\<lambda>a.
         if bl_state a = Exact
         then guardS (dfield (bl_evidence a) ''image_validated'' \<noteq> PBool True)
                (Compilation ''A confirmed charge is not image-validation evidence'' None) (doneS ())
         else bindS (acknowledge jn (image_failure jn) a (sent_image send a)) (\<lambda>(evidence, y).
              guardS (oc_actual_tokens y = None \<or> dfield evidence ''image_validated'' \<noteq> PBool True)
                (Compilation ''Image verification did not retain exact validated evidence'' None) (doneS ()))))))"

end
