(* ===== verification/Probe_Guarantees.thy ===== *)
theory Probe_Guarantees
  imports Probe_Journal
begin

text \<open>
  What the probe journal guarantees: a probe that returned is not sent again, no probe is left open
  whatever the request or the heartbeat raises, and the contracts captured under a hard fence bound
  what a probe reserves.
\<close>

section \<open>Steps that leave the repository alone\<close>

definition leaves :: "('w \<times> 's, 'a) step \<Rightarrow> bool" where
  "leaves m \<longleftrightarrow> (\<forall>ws. snd (snd (m ws)) = snd ws)"

named_theorems leaves_intro \<open>steps that leave the object alone\<close>

lemma leaves_basic [leaves_intro]:
  "leaves (doneS x)" "leaves (raiseS e)" "leaves (liftS r)" "leaves (outerS m)" "leaves selfS"
  by (auto simp: leaves_def doneS_def raiseS_def liftS_def outerS_def selfS_def split: sum.split prod.split)

lemma leaves_bind [leaves_intro]:
  assumes "leaves m" "\<And>x. leaves (f x)" shows "leaves (bindS m f)"
  unfolding leaves_def
proof
  fix ws
  obtain r us where m: "m ws = (r, us)" by (metis prod.exhaust)
  have "snd us = snd ws" using assms(1) m unfolding leaves_def by (metis snd_conv)
  moreover have "snd (snd (f x us)) = snd us" for x using assms(2) [of x] unfolding leaves_def by blast
  ultimately show "snd (snd (bindS m f ws)) = snd ws" by (cases r) (simp_all add: bindS_def m)
qed

lemma leaves_guard [leaves_intro]: "leaves m \<Longrightarrow> leaves (guardS b e m)"
  by (simp add: guardS_def leaves_basic)

lemma leaves_if [leaves_intro]: "leaves m \<Longrightarrow> leaves n \<Longrightarrow> leaves (if b then m else n)"
  by simp

lemma leaves_option [leaves_intro]:
  "leaves m \<Longrightarrow> (\<And>x. leaves (f x)) \<Longrightarrow> leaves (case v of None \<Rightarrow> m | Some x \<Rightarrow> f x)"
  by (cases v) simp_all

lemma leaves_pv [leaves_intro]:
  "(\<And>n. leaves (f n)) \<Longrightarrow> leaves m \<Longrightarrow> leaves (case v of PInt n \<Rightarrow> f n | _ \<Rightarrow> m)"
  by (cases v) simp_all

lemma leaves_now [leaves_intro]: "leaves (nowS jn)" "leaves (freshS jn)"
  unfolding nowS_def freshS_def by (intro leaves_intro)+

lemma leaves_samples [leaves_intro]: "leaves (sample_count body ks n)"
  by (induction ks arbitrary: n; simp only: sample_count.simps; intro leaves_intro)

lemma leaves_reservation [leaves_intro]: "leaves (route_reservation c x body payload)"
  unfolding route_reservation_def metered_reservation_def by (intro leaves_intro)

lemma leaves_prepare: "leaves (prepare_route jn rt x endpoint body member)"
  unfolding prepare_route_def by (intro leaves_intro)

lemma leaves_sent: "leaves (sent_route jn send member a)"
  unfolding sent_route_def by (intro leaves_intro)

lemma leavesD: "leaves m \<Longrightarrow> m (w, s) = (r, (w', s')) \<Longrightarrow> s' = s"
  unfolding leaves_def by (metis snd_conv)

section \<open>What a step returns\<close>

lemma bindS_InrE:
  assumes "bindS m f ws = (Inr y, ws')"
  obtains x us where "m ws = (Inr x, us)" "f x us = (Inr y, ws')"
  using assms by (cases "m ws") (auto simp: bindS_def split: sum.splits prod.splits)

lemma bindS_cases:
  assumes "bindS m f ws = (r, ws')"
  obtains (failed) e where "m ws = (Inl e, ws')" "r = Inl e"
    | (went) x us where "m ws = (Inr x, us)" "f x us = (r, ws')"
  using assms by (cases "m ws") (auto simp: bindS_def split: sum.splits prod.splits)

lemma guardS_Inr: "guardS b e m ws = (Inr y, ws') \<longleftrightarrow> \<not> b \<and> m ws = (Inr y, ws')"
  by (simp add: guardS_def raiseS_def)

lemma liftS_Inr: "liftS r ws = (Inr y, ws') \<longleftrightarrow> r = Inr y \<and> ws' = ws"
  by (cases r) (auto simp: liftS_def)

lemma prepare_route_plan:
  fixes jn :: "'w journal"
  assumes "prepare_route jn rt x endpoint body member ws = (Inr p, ws')"
  shows "valid_plan p \<and> (\<exists>reserved now. \<exists>us us' :: 'w \<times> repository. p = route_plan jn rt x endpoint body member reserved now
    \<and> route_reservation (route_contract rt x) x body (canonical_document body) us = (Inr reserved, us'))"
proof -
  obtain u1 where "guardS (x \<notin> set (rt_operations rt) \<or> dfield body ''model'' \<noteq> PStr (rt_alias rt))
       (Compilation ''Route probe does not match its approved operation'' None)
    (bindS (liftS (require_probe_member rt member)) (\<lambda>_.
     bindS (route_reservation (route_contract rt x) x body (canonical_document body)) (\<lambda>reserved.
     bindS (nowS jn) (\<lambda>now.
     liftS (make_plan (route_plan jn rt x endpoint body member reserved now)))))) u1 = (Inr p, ws')"
    using assms unfolding prepare_route_def by (rule bindS_InrE)
  then have "bindS (liftS (require_probe_member rt member)) (\<lambda>_.
     bindS (route_reservation (route_contract rt x) x body (canonical_document body)) (\<lambda>reserved.
     bindS (nowS jn) (\<lambda>now.
     liftS (make_plan (route_plan jn rt x endpoint body member reserved now))))) u1 = (Inr p, ws')"
    by (simp only: guardS_Inr)
  then obtain u2 where "bindS (route_reservation (route_contract rt x) x body (canonical_document body)) (\<lambda>reserved.
     bindS (nowS jn) (\<lambda>now.
     liftS (make_plan (route_plan jn rt x endpoint body member reserved now)))) u2 = (Inr p, ws')"
    by (rule bindS_InrE)
  then obtain reserved u3 where r: "route_reservation (route_contract rt x) x body (canonical_document body) u2 = (Inr reserved, u3)"
    and "bindS (nowS jn) (\<lambda>now. liftS (make_plan (route_plan jn rt x endpoint body member reserved now))) u3 = (Inr p, ws')"
    by (rule bindS_InrE)
  then obtain now u4 where "liftS (make_plan (route_plan jn rt x endpoint body member reserved now)) u4 = (Inr p, ws')"
    by (auto elim: bindS_InrE)
  then have "make_plan (route_plan jn rt x endpoint body member reserved now) = Inr p" by (simp add: liftS_Inr)
  then have "p = route_plan jn rt x endpoint body member reserved now" "valid_plan p"
    by (auto simp: make_plan_def res_simps)
  then show ?thesis using r by blast
qed

definition fresh_ids :: "'w journal \<Rightarrow> repository \<Rightarrow> bool" where
  "fresh_ids jn rp \<longleftrightarrow> (\<forall>w. \<forall>b \<in> set (attempts rp). bl_id b \<noteq> fst (jn_fresh jn w))"

lemma beginS_result:
  assumes "beginS jn p (w, rp) = (r, (w', rp'))"
  shows "case r of Inl e \<Rightarrow> rp' = rp
    | Inr a \<Rightarrow> \<exists>now u. begin_billable_request rp now (fst (jn_fresh jn u)) p = Inr (a, rp')"
proof -
  obtain now u where now: "jn_now jn w = (now, u)" by force
  obtain fresh v where fresh: "jn_fresh jn u = (fresh, v)" by force
  show ?thesis
  proof (cases "begin_billable_request rp now fresh p")
    case (Inl e)
    then show ?thesis using assms now fresh
      by (auto simp: beginS_def nowS_def freshS_def bindS_def outerS_def selfS_def liftS_def)
  next
    case (Inr x)
    then show ?thesis using assms now fresh
      by (cases x) (auto simp: beginS_def nowS_def freshS_def bindS_def outerS_def selfS_def liftS_def becomeS_def
          doneS_def intro!: exI [of _ now] exI [of _ u])
  qed
qed

lemma finishS_result:
  assumes "finishS jn i x (w, rp) = (r, (w', rp'))"
  shows "case r of Inl e \<Rightarrow> rp' = rp \<and> (\<exists>now e. finish_billable_request rp now i x = Inl e)
    | Inr _ \<Rightarrow> \<exists>now. finish_billable_request rp now i x = Inr rp'"
proof -
  obtain now u where now: "jn_now jn w = (now, u)" by force
  show ?thesis
    using assms now by (cases "finish_billable_request rp now i x")
      (auto simp: finishS_def nowS_def bindS_def outerS_def selfS_def liftS_def becomeS_def intro!: exI [of _ now])
qed

section \<open>A probe that returned is not sent again\<close>

lemma dfield_filter_key: "k \<noteq> j \<Longrightarrow> dfield (filter (\<lambda>(k, v). k \<noteq> j) d) k = dfield d k"
  by (induction d) (auto simp: dfield_def)

lemma has_key_filter: "k \<noteq> j \<Longrightarrow> has_key (filter (\<lambda>(k, v). k \<noteq> j) d) k = has_key d k"
  by (force simp: has_key_def)

lemma has_key_dfield: "dfield d k \<noteq> PNone \<Longrightarrow> has_key d k"
  by (force simp: dfield_def has_key_def dest: map_of_SomeD split: option.splits)

text \<open>The exact attempt a probe leaves satisfies its plan.\<close>

lemma finished_reused:
  assumes "pl_authority p = Postgresql" "oc_actual_tokens y \<noteq> None"
    "pl_reuse_requires p = route_requires x" "dfield (oc_evidence y) ''route_validated'' = PBool True"
    "x = Images_generations \<longrightarrow> dfield (oc_evidence y) ''image_validated'' = PBool True"
  shows "reused_by p (finished_attempt (started_attempt p fresh now n) y later)"
proof -
  let ?e = "filter (\<lambda>(k, v). k \<noteq> authority_key) (oc_evidence y)"
  have ev: "bl_evidence (finished_attempt (started_attempt p fresh now n) y later) = ?e"
    using assms(1) by (simp add: finished_attempt_def started_attempt_def has_key_def)
  have keys: "authority_key \<noteq> ''route_validated''" "authority_key \<noteq> ''image_validated''"
    by (simp_all add: authority_key_def)
  have none: "\<not> has_key ?e ''admission_authority''" by (force simp: has_key_def authority_key_def)
  have field: "has_key ?e k \<and> dfield ?e k = PBool True"
    if "dfield (oc_evidence y) k = PBool True" "k \<noteq> authority_key" for k
    using that has_key_dfield [of "oc_evidence y" k] by (simp add: dfield_filter_key has_key_filter)
  have "scalar_eq (PBool True) (PBool True)" by code_simp
  then have "reusable ?e (route_requires x)"
    using field [of "''route_validated''"] field [of "''image_validated''"] assms(4,5) keys
    by (auto simp: reusable_def route_requires_def)
  then show ?thesis
    using assms(1-3) none
    by (simp add: reused_by_def ev authority_of_def)
      (simp add: finished_attempt_def started_attempt_def)
qed

lemma evidence_outcome_Inr:
  "evidence_outcome e d = Inr y \<Longrightarrow> oc_evidence y = d \<and> opt_all (\<lambda>n. 0 \<le> n) (oc_actual_tokens y)"
  by (auto simp: evidence_outcome_def make_outcome_def checked_eq_Inr split: pv.splits)

lemma sent_route_Inr:
  assumes "sent_route jn send member a ws = (Inr (evidence, y), ws')"
  shows "oc_evidence y = evidence"
proof -
  obtain u1 where "bindS (outerS (send (bl_id a))) (\<lambda>evidence.
     if dfield evidence ''member_backend_id'' \<noteq> member_text member
     then bindS (liftS (evidence_outcome evidence (dput ''route_validated'' (PBool False) evidence))) (\<lambda>x.
          raiseS (Compilation ''Route probe evidence belongs to another Pool member'' (Some x)))
     else bindS (liftS (evidence_outcome evidence evidence)) (\<lambda>x. doneS (evidence, x))) u1 = (Inr (evidence, y), ws')"
    using assms unfolding sent_route_def by (rule bindS_InrE)
  then obtain e u2 where e: "(if dfield e ''member_backend_id'' \<noteq> member_text member
     then bindS (liftS (evidence_outcome e (dput ''route_validated'' (PBool False) e))) (\<lambda>x.
          raiseS (Compilation ''Route probe evidence belongs to another Pool member'' (Some x)))
     else bindS (liftS (evidence_outcome e e)) (\<lambda>x. doneS (e, x))) u2 = (Inr (evidence, y), ws')"
    by (rule bindS_InrE)
  then have "\<not> dfield e ''member_backend_id'' \<noteq> member_text member"
    by (auto split: if_splits sum.splits)
  then have "bindS (liftS (evidence_outcome e e)) (\<lambda>x. doneS (e, x)) u2 = (Inr (evidence, y), ws')"
    using e by simp
  then obtain z u3 where "liftS (evidence_outcome e e) u2 = (Inr z, u3)" "doneS (e, z) u3 = (Inr (evidence, y), ws')"
    by (rule bindS_InrE)
  then have "evidence_outcome e e = Inr z" "e = evidence" "z = y" by (simp_all add: liftS_Inr doneS_def)
  then show ?thesis using evidence_outcome_Inr by blast
qed

lemma acknowledge_Inr:
  assumes "acknowledge jn failed a sent (w, rp) = (Inr (evidence, y), (w', rp'))" "leaves sent"
  shows "\<exists>us us'. sent us = (Inr (evidence, y), us')" "\<exists>now. finish_billable_request rp now (bl_id a) y = Inr rp'"
proof -
  obtain r u v where s: "sent (w, rp) = (r, (u, v))" by (metis prod.exhaust)
  have v: "v = rp" by (rule leavesD [OF assms(2) s])
  have t: "tryS sent (w, rp) = (Inr r, (u, rp))" by (simp add: tryS_def s v)
  have "\<exists>us us'. sent us = (Inr (evidence, y), us')
      \<and> (\<exists>now. finish_billable_request rp now (bl_id a) y = Inr rp')"
  proof (cases r)
    case (Inl e)
    then have "bindS (finishS jn (bl_id a) (failed_outcome jn e failed)) (\<lambda>_. raiseS e) (u, rp) = (Inr (evidence, y), (w', rp'))"
      using assms(1) t by (simp add: acknowledge_def bindS_def [of "tryS sent"])
    then show ?thesis by (rule bindS_InrE) (simp add: raiseS_def)
  next
    case (Inr x)
    obtain e z where x: "x = (e, z)" by (cases x)
    have "bindS (finishS jn (bl_id a) z) (\<lambda>_. doneS (e, z)) (u, rp) = (Inr (evidence, y), (w', rp'))"
      using assms(1) t Inr x by (simp add: acknowledge_def bindS_def [of "tryS sent"])
    then obtain f us where f: "finishS jn (bl_id a) z (u, rp) = (Inr f, us)" "doneS (e, z) us = (Inr (evidence, y), (w', rp'))"
      by (rule bindS_InrE)
    then have "e = evidence" "z = y" "us = (w', rp')" by (simp_all add: doneS_def)
    then show ?thesis using finishS_result [of jn "bl_id a" z u rp "Inr f" w' rp'] f s Inr x by auto
  qed
  then show "\<exists>us us'. sent us = (Inr (evidence, y), us')" "\<exists>now. finish_billable_request rp now (bl_id a) y = Inr rp'"
    by blast+
qed

text \<open>Acknowledging an attempt that is still open succeeds and changes exactly it.\<close>

lemma finish_open:
  assumes d: "distinct (map bl_id (attempts rp))" and a: "a \<in> set (attempts rp)" "bl_state a \<noteq> Exact"
  shows "finish_billable_request rp now (bl_id a) x = Inr rp' \<Longrightarrow>
      attempts rp' = map (\<lambda>b. if bl_id b = bl_id a then finished_attempt a x now else b) (attempts rp)"
    and "opt_all (\<lambda>n. 0 \<le> n) (oc_actual_tokens x) \<Longrightarrow> \<exists>rp'. finish_billable_request rp now (bl_id a) x = Inr rp'"
proof -
  obtain c where c: "find (\<lambda>b. bl_id b = bl_id a) (attempts rp) = Some c"
    using a(1) by (cases "find (\<lambda>b. bl_id b = bl_id a) (attempts rp)") (auto simp: find_None_all)
  then have "c \<in> set (attempts rp)" "bl_id c = bl_id a" using find_Some_iff_mem [OF c] by auto
  then have ca: "c = a" using d a(1) by (auto simp: distinct_map inj_on_def)
  have m: "measured_state (finished_attempt a x now)" by (simp add: measured_state_def finished_attempt_def)
  show "opt_all (\<lambda>n. 0 \<le> n) (oc_actual_tokens x) \<Longrightarrow> \<exists>rp'. finish_billable_request rp now (bl_id a) x = Inr rp'"
  proof -
    assume x: "opt_all (\<lambda>n. 0 \<le> n) (oc_actual_tokens x)"
    then have "make_outcome x = Inr x" "make_billable (finished_attempt a x now) = Inr (finished_attempt a x now)"
      using m by (simp_all add: make_outcome_def make_billable_def checked_eq_Inr finished_attempt_def)
    then show ?thesis using c a(2) by (simp add: finish_billable_request_def ca)
  qed
  assume f: "finish_billable_request rp now (bl_id a) x = Inr rp'"
  have "make_outcome x = Inr y \<Longrightarrow> y = x" for y by (auto simp: make_outcome_def checked_eq_Inr)
  then obtain b where b: "make_billable (finished_attempt a x now) = Inr b"
    and rp': "rp' = with_evidence rp ((rp_evidence rp)\<lparr>es_billables := put_billable (attempts rp) b\<rparr>)"
    using f a(2) by (auto simp: finish_billable_request_def c ca bindR_eq_Inr)
  have bf: "b = finished_attempt a x now" using b by (simp add: make_billable_def checked_eq_Inr)
  then have bid: "bl_id b = bl_id a" by (simp add: finished_attempt_def)
  have "attempts rp' = map (\<lambda>c. if bl_id c = bl_id a then b else c) (attempts rp)"
    using put_billable_map [of "attempts rp" b] a(1) d bid by (auto simp: rp' with_evidence_def)
  then show "attempts rp' = map (\<lambda>b. if bl_id b = bl_id a then finished_attempt a x now else b) (attempts rp)"
    by (simp only: bf)
qed

lemma probe_plan_leaves_exact:
  assumes ok: "billing_ok (attempts rp)" and fresh: "fresh_ids jn rp" and valid: "valid_plan p"
    and p: "pl_authority p = Postgresql" "pl_reuse_requires p = route_requires x"
    and run: "probe_plan jn x send False member p (w, rp) = (Inr evidence, (w1, rp1))"
    and image: "x = Images_generations \<longrightarrow> dfield evidence ''image_validated'' = PBool True"
  shows "billing_run rp rp1 \<and> (\<exists>b \<in> set (attempts rp1). bl_operation_key b = pl_operation_key p \<and> reused_by p b)"
proof -
  obtain a us where a: "unconfirmed (\<lambda>_. ''Route probe outcome is unconfirmed; no request replayed'')
      (beginS jn p) (w, rp) = (Inr a, us)"
    and rest: "(if bl_state a = Exact
     then guardS (\<not> validated_charge x member a)
            (Compilation ''Route probe charge is not validated route evidence'' None) (doneS (bl_evidence a))
     else bindS (acknowledge jn (route_failure jn) a (sent_route jn send member a)) (\<lambda>(evidence, y).
          guardS (oc_actual_tokens y = None \<or> dfield evidence ''route_validated'' \<noteq> PBool True)
            (Compilation ''Route probe did not retain exact validated evidence'' None) (doneS evidence)))
       us = (Inr evidence, (w1, rp1))"
    using run unfolding probe_plan_def if_False by (rule bindS_InrE)
  obtain u rp0 where us: "us = (u, rp0)" by (cases us)
  have "beginS jn p (w, rp) = (Inr a, (u, rp0))"
    using a unfolding us by (auto simp: unconfirmed_def split: prod.splits sum.splits failure.splits exn.splits)
  then obtain now v where bg: "begin_billable_request rp now (fst (jn_fresh jn v)) p = Inr (a, rp0)"
    using beginS_result by fastforce
  let ?f = "fst (jn_fresh jn v)"
  have new: "\<forall>b \<in> set (attempts rp). bl_id b \<noteq> ?f" using fresh by (simp add: fresh_ids_def)
  have step: "billing_step rp rp0" by (rule billing_step.begins [OF valid new bg])
  show ?thesis
  proof (cases "bl_state a = Exact")
    case True
    then have "rp1 = rp0" using rest us by (simp add: guardS_def split: if_splits)
    moreover have "rp0 = rp \<and> a \<in> set (attempts rp) \<and> bl_operation_key a = pl_operation_key p \<and> reused_by p a"
      using begin_attempts [OF bg new] True by (auto simp: started_attempt_def)
    ultimately show ?thesis by auto
  next
    case False
    then have started: "attempts rp0 = attempts rp @ [a]"
      "a = started_attempt p ?f now (length (previous_attempts (rp_evidence rp) p))"
      using begin_attempts [OF bg new] by (auto simp: reused_by_def)
    obtain q us2 where ack: "acknowledge jn (route_failure jn) a (sent_route jn send member a) (u, rp0) = (Inr q, us2)"
      and g: "(case q of (evidence, y) \<Rightarrow>
          guardS (oc_actual_tokens y = None \<or> dfield evidence ''route_validated'' \<noteq> PBool True)
            (Compilation ''Route probe did not retain exact validated evidence'' None) (doneS evidence)) us2
        = (Inr evidence, (w1, rp1))"
      using rest False us by (auto elim: bindS_InrE)
    obtain e y where q: "q = (e, y)" by (cases q)
    have y: "oc_actual_tokens y \<noteq> None" "dfield e ''route_validated'' = PBool True" "e = evidence" "us2 = (w1, rp1)"
      using g unfolding q by (auto simp: guardS_def split: if_splits)
    have ack': "acknowledge jn (route_failure jn) a (sent_route jn send member a) (u, rp0) = (Inr (evidence, y), (w1, rp1))"
      using ack q y by simp
    have ev: "oc_evidence y = evidence" using acknowledge_Inr(1) [OF ack' leaves_sent] sent_route_Inr by blast
    obtain later where fin: "finish_billable_request rp0 later (bl_id a) y = Inr rp1"
      using acknowledge_Inr(2) [OF ack' leaves_sent] by blast
    have run: "billing_run rp rp1" using step billing_step.finishes [OF fin] by simp
    have "billing_run rp rp0" by (rule r_into_rtranclp) (rule step)
    then have "billing_ok (attempts rp0)" using run_keeps [OF _ ok] by simp
    then have d: "distinct (map bl_id (attempts rp0))" by (simp add: billing_ok_def)
    have a_in: "a \<in> set (attempts rp0)" using started(1) by simp
    have "attempts rp1 = map (\<lambda>b. if bl_id b = bl_id a then finished_attempt a y later else b) (attempts rp0)"
      by (rule finish_open(1) [OF d a_in False fin])
    then have "finished_attempt a y later \<in> set (attempts rp1)" using a_in by force
    moreover have "reused_by p (finished_attempt a y later)"
      unfolding started(2) by (rule finished_reused [OF p(1) y(1) p(2)]) (use y(2,3) ev image in simp_all)
    moreover have "bl_operation_key (finished_attempt a y later) = pl_operation_key p"
      by (simp add: started(2) finished_attempt_def started_attempt_def)
    ultimately show ?thesis using run by blast
  qed
qed

lemma prepare_repo: "prepare_route jn rt x endpoint body member (w, rp) = (r, (w', rp')) \<Longrightarrow> rp' = rp"
  by (rule leavesD [OF leaves_prepare])

lemma route_plan_fields:
  "pl_authority (route_plan jn rt x endpoint body member reserved now) = Postgresql"
  "pl_reuse_requires (route_plan jn rt x endpoint body member reserved now) = route_requires x"
  by (simp_all add: route_plan_def)

lemma route_plan_same:
  "reused_by (route_plan jn rt x endpoint body member n t) b \<longleftrightarrow>
     reused_by (route_plan jn rt x endpoint body member m u) b"
  "pl_operation_key (route_plan jn rt x endpoint body member n t)
     = pl_operation_key (route_plan jn rt x endpoint body member m u)"
  by (simp_all add: reused_by_def route_plan_def)

lemma probe_plan_reuses:
  assumes ok: "billing_ok (attempts rp)" and run: "billing_run rp rp'"
    and b: "b \<in> set (attempts rp)" "bl_operation_key b = pl_operation_key p" "reused_by p b"
  shows "snd (snd (probe_plan jn x again False member p (w, rp'))) = rp'
    \<and> probe_plan jn x again False member p (w, rp') = probe_plan jn x other False member p (w, rp')"
proof -
  obtain now u where now: "jn_now jn w = (now, u)" by force
  obtain fresh v where fresh: "jn_fresh jn u = (fresh, v)" by force
  obtain a where a: "begin_billable_request rp' now fresh p = Inr (a, rp')" "reused_by p a"
    using begin_reuses [OF ok run b] by blast
  have m: "unconfirmed (\<lambda>_. ''Route probe outcome is unconfirmed; no request replayed'')
      (beginS jn p) (w, rp') = (Inr a, (v, rp'))"
    using a now fresh
    by (simp add: unconfirmed_def beginS_def nowS_def freshS_def bindS_def outerS_def selfS_def liftS_def
        becomeS_def doneS_def)
  have "bl_state a = Exact" using a(2) by (simp add: reused_by_def)
  then have "probe_plan jn x send False member p (w, rp') =
      guardS (\<not> validated_charge x member a)
        (Compilation ''Route probe charge is not validated route evidence'' None) (doneS (bl_evidence a)) (v, rp')" for send
    by (simp add: probe_plan_def m bindS_def [of "unconfirmed _ _"])
  then show ?thesis by (simp add: guardS_def)
qed

text \<open>
  C30. Once a route probe has returned its evidence, every later run of the same probe against the
  repository, whatever was billed in between, sends no request: its result does not depend on the
  sending function.
\<close>

theorem route_not_sent_twice:
  assumes "billing_ok (attempts rp)" "fresh_ids jn rp"
    "run_route jn rt x endpoint body send False member (w, rp) = (Inr evidence, (w1, rp1))"
    "x = Images_generations \<longrightarrow> dfield evidence ''image_validated'' = PBool True"
    "billing_run rp1 rp2"
  shows "snd (snd (run_route jn rt x endpoint body again False member (w2, rp2))) = rp2
    \<and> run_route jn rt x endpoint body again False member (w2, rp2)
      = run_route jn rt x endpoint body other False member (w2, rp2)"
proof -
  obtain p us where p: "prepare_route jn rt x endpoint body member (w, rp) = (Inr p, us)"
    and run: "probe_plan jn x send False member p us = (Inr evidence, (w1, rp1))"
    using assms(3) unfolding run_route_def by (rule bindS_InrE)
  obtain u rp' where u: "us = (u, rp')" by (cases us)
  have "rp' = rp" by (rule prepare_repo [OF p [unfolded u]])
  then have us: "us = (u, rp)" using u by simp
  obtain n t where pl: "valid_plan p" "p = route_plan jn rt x endpoint body member n t"
    using prepare_route_plan [OF p] by blast
  have fields: "pl_authority p = Postgresql" "pl_reuse_requires p = route_requires x"
    by (simp_all add: pl(2) route_plan_fields)
  obtain b where b: "billing_run rp rp1" "b \<in> set (attempts rp1)" "bl_operation_key b = pl_operation_key p" "reused_by p b"
    using probe_plan_leaves_exact [OF assms(1,2) pl(1) fields run [unfolded us] assms(4)] by blast
  have ok: "billing_ok (attempts rp1)" using run_keeps [OF b(1) assms(1)] by simp
  obtain r v rp3 where q: "prepare_route jn rt x endpoint body member (w2, rp2) = (r, (v, rp3))" by (metis prod.exhaust)
  have rp3: "rp3 = rp2" by (rule prepare_repo [OF q])
  show ?thesis
  proof (cases r)
    case (Inl e)
    then show ?thesis using q rp3 by (simp add: run_route_def bindS_def [of "prepare_route _ _ _ _ _ _"])
  next
    case (Inr p2)
    obtain m s where p2: "p2 = route_plan jn rt x endpoint body member m s"
      using prepare_route_plan [of jn rt x endpoint body member "(w2, rp2)" p2] q Inr by blast
    have "bl_operation_key b = pl_operation_key p2" "reused_by p2 b"
      using b(3,4) route_plan_same unfolding pl(2) p2 by metis+
    note again = probe_plan_reuses [OF ok assms(5) b(2) this]
    have "run_route jn rt x endpoint body f False member (w2, rp2) = probe_plan jn x f False member p2 (v, rp2)" for f
      using q Inr rp3 by (simp add: run_route_def bindS_def [of "prepare_route _ _ _ _ _ _"])
    then show ?thesis using again by metis
  qed
qed

section \<open>No probe is left open\<close>

text \<open>A failure carries an outcome only as a validated object.\<close>

definition sound_failure :: "failure \<Rightarrow> bool" where
  "sound_failure e \<longleftrightarrow> (case e of
     Compilation _ (Some x) \<Rightarrow> opt_all (\<lambda>n. 0 \<le> n) (oc_actual_tokens x)
   | Authorization _ (Some x) \<Rightarrow> opt_all (\<lambda>n. 0 \<le> n) (oc_actual_tokens x)
   | _ \<Rightarrow> True)"

lemma failed_outcome_valid:
  "sound_failure e \<Longrightarrow> opt_all (\<lambda>n. 0 \<le> n) (oc_actual_tokens (failed_outcome jn e f))"
  by (cases e) (auto simp: sound_failure_def failed_outcome_def opt_all_def split: option.splits)

definition sound_step :: "('w, 'a) step \<Rightarrow> bool" where
  "sound_step m \<longleftrightarrow> (\<forall>w e w'. m w = (Inl e, w') \<longrightarrow> sound_failure e)"

lemma sent_route_sound:
  assumes "sound_step (jn_heartbeat jn)" "\<And>i. sound_step (send i)" "sent_route jn send member a ws = (r, ws')"
  shows "case r of Inl e \<Rightarrow> sound_failure e | Inr (evidence, y) \<Rightarrow> opt_all (\<lambda>n. 0 \<le> n) (oc_actual_tokens y)"
proof -
  obtain h u where h: "jn_heartbeat jn (fst ws) = (h, u)" by (metis prod.exhaust)
  have hb: "outerS (jn_heartbeat jn) ws = (h, (u, snd ws))" by (simp add: outerS_def h)
  show ?thesis
  proof (cases h)
    case (Inl e)
    then have "sound_failure e" using assms(1) h unfolding sound_step_def by blast
    moreover have "r = Inl e" using assms(3) hb Inl by (simp add: sent_route_def bindS_def)
    ultimately show ?thesis by simp
  next
    case (Inr y)
    obtain s v where s: "send (bl_id a) u = (s, v)" by (metis prod.exhaust)
    have sb: "outerS (send (bl_id a)) (u, snd ws) = (s, (v, snd ws))" by (simp add: outerS_def s)
    show ?thesis
    proof (cases s)
      case (Inl e)
      then have "sound_failure e" using assms(2) [of "bl_id a"] s unfolding sound_step_def by blast
      moreover have "r = Inl e" using assms(3) hb sb Inr Inl by (simp add: sent_route_def bindS_def)
      ultimately show ?thesis by simp
    next
      case evidence: (Inr e)
      have "(if dfield e ''member_backend_id'' \<noteq> member_text member
         then bindS (liftS (evidence_outcome e (dput ''route_validated'' (PBool False) e))) (\<lambda>x.
              raiseS (Compilation ''Route probe evidence belongs to another Pool member'' (Some x)))
         else bindS (liftS (evidence_outcome e e)) (\<lambda>x. doneS (e, x))) (v, snd ws) = (r, ws')"
        using assms(3) hb sb Inr evidence
        by (simp add: sent_route_def bindS_def [of "outerS (jn_heartbeat jn)"] bindS_def [of "outerS (send (bl_id a))"])
      then show ?thesis
        using evidence_outcome_Inr
        by (auto simp: sound_failure_def split: if_splits sum.splits)
    qed
  qed
qed

lemma acknowledge_closes:
  assumes ok: "distinct (map bl_id (attempts rp))" and a: "a \<in> set (attempts rp)" "bl_state a \<noteq> Exact"
    and leave: "leaves sent"
    and sound: "\<And>ws r ws'. sent ws = (r, ws') \<Longrightarrow>
      case r of Inl e \<Rightarrow> sound_failure e | Inr (evidence, y) \<Rightarrow> opt_all (\<lambda>n. 0 \<le> n) (oc_actual_tokens y)"
    and run: "acknowledge jn failed a sent (w, rp) = (r, (w', rp'))"
  shows "\<exists>now x. attempts rp' = map (\<lambda>b. if bl_id b = bl_id a then finished_attempt a x now else b) (attempts rp)"
proof -
  obtain q u v where s: "sent (w, rp) = (q, (u, v))" by (metis prod.exhaust)
  have v: "v = rp" by (rule leavesD [OF leave s])
  have t: "tryS sent (w, rp) = (Inr q, (u, rp))" by (simp add: tryS_def s v)
  define y where "y = (case q of Inl e \<Rightarrow> failed_outcome jn e failed | Inr (evidence, z) \<Rightarrow> z)"
  have valid: "opt_all (\<lambda>n. 0 \<le> n) (oc_actual_tokens y)"
    using sound [OF s] failed_outcome_valid by (auto simp: y_def split: sum.splits prod.splits)
  obtain f u2 rp2 where f: "finishS jn (bl_id a) y (u, rp) = (f, (u2, rp2))" by (metis prod.exhaust)
  have "\<exists>now. finish_billable_request rp now (bl_id a) y = Inr rp2"
  proof (cases f)
    case (Inl e)
    then obtain now e' where "finish_billable_request rp now (bl_id a) y = Inl e'" using finishS_result [OF f] by auto
    then show ?thesis using finish_open(2) [OF ok a valid, of now] by auto
  qed (use finishS_result [OF f] in auto)
  moreover have "rp' = rp2"
    using run t f by (cases q; cases f) (auto simp: acknowledge_def bindS_def y_def raiseS_def doneS_def split: prod.splits)
  ultimately show ?thesis using finish_open(1) [OF ok a] by blast
qed

lemma recovery_keeps:
  assumes "probe_plan jn x send True member p (u, rp) = (r, (w1, rp1))"
  shows "rp1 = rp"
proof -
  let ?m = "unconfirmed (\<lambda>_. ''Route probe outcome is unconfirmed; no request replayed'') (recoverS p)"
  obtain g u2 rp2 where g: "?m (u, rp) = (g, (u2, rp2))" by (metis prod.exhaust)
  have "snd (recoverS p (u, rp)) = (u, rp)" by (simp add: recoverS_def liftS_def split: sum.split)
  then have "snd (?m (u, rp)) = (u, rp)"
    by (auto simp: unconfirmed_def split: prod.splits sum.splits failure.splits exn.splits)
  then have "rp2 = rp" using g by simp
  then show ?thesis using assms g
    by (cases g) (auto simp: probe_plan_def bindS_def guardS_def split: if_splits)
qed

text \<open>A probe begins a new attempt, is answered with an exact one, or is refused.\<close>

lemma begun_probe:
  assumes run: "probe_plan jn x send False member p (u, rp) = (r, (w1, rp1))"
  obtains "rp1 = rp"
  | a u2 rp2 now fresh where "begin_billable_request rp now fresh p = Inr (a, rp2)" "\<exists>z. fresh = fst (jn_fresh jn z)"
      "bl_state a = Exact" "rp1 = rp2"
  | a u2 rp2 now fresh ar u3 where "begin_billable_request rp now fresh p = Inr (a, rp2)" "\<exists>z. fresh = fst (jn_fresh jn z)"
      "bl_state a \<noteq> Exact" "acknowledge jn (route_failure jn) a (sent_route jn send member a) (u2, rp2) = (ar, (u3, rp1))"
proof -
  let ?m = "unconfirmed (\<lambda>_. ''Route probe outcome is unconfirmed; no request replayed'') (beginS jn p)"
  obtain g u2 rp2 where g: "?m (u, rp) = (g, (u2, rp2))" by (metis prod.exhaust)
  then obtain g' where bg: "beginS jn p (u, rp) = (g', (u2, rp2))" "\<And>a. g = Inr a \<Longrightarrow> g' = Inr a"
    "\<And>e. g = Inl e \<Longrightarrow> \<exists>e'. g' = Inl e'"
    by (auto simp: unconfirmed_def split: prod.splits sum.splits failure.splits exn.splits)
  show thesis
  proof (cases g)
    case (Inl e)
    then have "rp2 = rp" using beginS_result [OF bg(1)] bg(3) by auto
    moreover have "rp1 = rp2" using run g Inl by (simp add: probe_plan_def bindS_def)
    ultimately show thesis using that(1) by simp
  next
    case a: (Inr a)
    obtain now z where b: "begin_billable_request rp now (fst (jn_fresh jn z)) p = Inr (a, rp2)"
      using beginS_result [OF bg(1)] bg(2) [OF a] by auto
    show thesis
    proof (cases "bl_state a = Exact")
      case True
      then have "rp1 = rp2" using run g a
        by (auto simp: probe_plan_def bindS_def guardS_def raiseS_def doneS_def split: if_splits)
      then show thesis using that(2) [OF b _ True] by blast
    next
      case False
      obtain ar u3 rp3 where ack: "acknowledge jn (route_failure jn) a (sent_route jn send member a) (u2, rp2)
          = (ar, (u3, rp3))" by (metis prod.exhaust)
      have "rp1 = rp3" using run g a False ack
        by (cases ar) (auto simp: probe_plan_def bindS_def guardS_def raiseS_def doneS_def split: if_splits prod.splits)
      then show thesis using that(3) [OF b _ False] ack by blast
    qed
  qed
qed

lemma probe_plan_closes:
  assumes "billing_ok (attempts rp)" "fresh_ids jn rp" "sound_step (jn_heartbeat jn)" "\<forall>i. sound_step (send i)"
    and run: "probe_plan jn x send False member p (u, rp) = (r, (w1, rp1))"
    and b: "b \<in> set (attempts rp1)" "bl_state b = Started"
  shows "b \<in> set (attempts rp)"
proof (rule begun_probe [OF run])
  assume "rp1 = rp"
  then show ?thesis using b by simp
next
  fix a u2 rp2 now fresh
  assume 2: "begin_billable_request rp now fresh p = Inr (a, rp2)" "\<exists>z. fresh = fst (jn_fresh jn z)"
    "bl_state a = Exact" "rp1 = rp2"
  have "\<forall>b \<in> set (attempts rp). bl_id b \<noteq> fresh" using assms(2) 2(2) by (auto simp: fresh_ids_def)
  then have "rp2 = rp" using begin_attempts [OF 2(1)] 2(3) by (auto simp: started_attempt_def)
  then show ?thesis using b(1) 2(4) by simp
next
  fix a u2 rp2 now fresh ar u3
  assume 3: "begin_billable_request rp now fresh p = Inr (a, rp2)" "\<exists>z. fresh = fst (jn_fresh jn z)"
    "bl_state a \<noteq> Exact" "acknowledge jn (route_failure jn) a (sent_route jn send member a) (u2, rp2) = (ar, (u3, rp1))"
  have new: "\<forall>b \<in> set (attempts rp). bl_id b \<noteq> fresh" using assms(2) 3(2) by (auto simp: fresh_ids_def)
  then have started: "attempts rp2 = attempts rp @ [a]" "bl_id a = fresh"
    using begin_attempts [OF 3(1)] 3(3) by (auto simp: reused_by_def started_attempt_def)
  have "distinct (map bl_id (attempts rp))" using assms(1) by (simp add: billing_ok_def)
  then have d: "distinct (map bl_id (attempts rp2))" using started new by auto
  have a_in: "a \<in> set (attempts rp2)" using started(1) by simp
  have sound: "sent_route jn send member a ws = (q, ws') \<Longrightarrow>
      case q of Inl e \<Rightarrow> sound_failure e | Inr (evidence, y) \<Rightarrow> opt_all (\<lambda>n. 0 \<le> n) (oc_actual_tokens y)" for ws q ws'
    by (rule sent_route_sound [OF assms(3)]) (use assms(4) in auto)
  have "\<exists>t y. attempts rp1 = map (\<lambda>b. if bl_id b = bl_id a then finished_attempt a y t else b) (attempts rp2)"
    by (rule acknowledge_closes [OF d a_in 3(3) leaves_sent _ 3(4)]) (rule sound)
  then obtain t y where "attempts rp1 = map (\<lambda>b. if bl_id b = bl_id a then finished_attempt a y t else b) (attempts rp2)"
    by (elim exE)
  then show ?thesis using b started by (auto simp: finished_attempt_def split: if_splits)
qed

text \<open>
  C31. A route probe, whether it returns or raises, and however its request fails, leaves no
  attempt of its own in the state started: each is acknowledged.
\<close>

theorem no_probe_left_open:
  assumes "billing_ok (attempts rp)" "fresh_ids jn rp" "sound_step (jn_heartbeat jn)" "\<forall>i. sound_step (send i)"
    "run_route jn rt x endpoint body send recovery_only member (w, rp) = (r, (w1, rp1))"
    "b \<in> set (attempts rp1)" "bl_state b = Started"
  shows "b \<in> set (attempts rp)"
proof -
  obtain q u v where p: "prepare_route jn rt x endpoint body member (w, rp) = (q, (u, v))" by (metis prod.exhaust)
  have v: "v = rp" by (rule prepare_repo [OF p])
  show ?thesis
  proof (cases q)
    case (Inl e)
    then have "rp1 = rp" using assms(5) p v by (simp add: run_route_def bindS_def)
    then show ?thesis using assms(6) by simp
  next
    case (Inr p')
    have run: "probe_plan jn x send recovery_only member p' (u, rp) = (r, (w1, rp1))"
      using assms(5) p v Inr by (simp add: run_route_def bindS_def [of "prepare_route _ _ _ _ _ _"])
    show ?thesis
    proof (cases recovery_only)
      case True
      then have "rp1 = rp" using run recovery_keeps by metis
      then show ?thesis using assms(6) by simp
    next
      case False
      from probe_plan_closes [OF assms(1-4) _ assms(6,7)] run False show ?thesis by simp
    qed
  qed
qed

section \<open>What a probe reserves under a hard fence\<close>

lemma sample_count_from: "sample_count body ks n us = (Inr m, us') \<Longrightarrow> n \<le> m"
  by (induction ks arbitrary: n us)
    (fastforce simp: guardS_def raiseS_def doneS_def split: pv.splits if_splits)+

lemma route_contract_of: "route_contract rt x \<in> set (contracts_of (rt_budget rt))"
proof (cases "map_of (mc_protocols (rt_budget rt)) x")
  case (Some c)
  then show ?thesis using map_of_SomeD [OF Some] by (force simp: route_contract_def contracts_of_def)
qed (simp add: route_contract_def contracts_of_def)

text \<open>
  The reservation of a request under a bounding contract: its ceiling, or the ceiling of the input
  and an output within the approved one for each of its samples.
\<close>

definition within_contract :: "count_contract \<Rightarrow> count_operation \<Rightarrow> int \<Rightarrow> bool" where
  "within_contract c x n \<longleftrightarrow> 0 < n \<and> n \<le> MAX_TOKENS
     \<and> (if cc_algorithm c = Request_ceiling then cc_request_ceiling c = Some n
        else \<exists>samples \<ge> 1. n \<le> cc_input_ceiling c + cc_output_ceiling c * samples
               \<and> (x \<noteq> Chat_completions \<longrightarrow> samples = 1))"

lemma reservation_within:
  assumes b: "bounding c" and run: "route_reservation c x body payload us = (Inr n, us')"
  shows "within_contract c x n"
proof (cases "cc_algorithm c = Request_ceiling")
  case True
  then show ?thesis using run
    by (auto simp: route_reservation_def bindS_def doneS_def guardS_def raiseS_def within_contract_def
        split: option.splits if_splits)
next
  case False
  then have alg: "\<not> estimated c" "0 \<le> cc_output_ceiling c"
    using b by (auto simp: bounding_def estimated_def split: count_algorithm.splits)
  obtain r u where m: "metered_reservation c x body payload us = (Inr r, u)"
    and n: "0 < n \<and> n \<le> MAX_TOKENS" "r = n"
    using run False unfolding route_reservation_def
    by (auto elim!: bindS_InrE simp: guardS_def raiseS_def doneS_def split: if_splits)
  obtain k where k: "output_bound c x body = PInt k"
    using m by (auto simp: metered_reservation_def raiseS_def split: pv.splits)
  have bounds: "1 \<le> k" "k \<le> cc_output_ceiling c"
    using m alg(1) unfolding metered_reservation_def k pv.case by (auto simp: guardS_def raiseS_def split: if_splits)
  then obtain samples u2 where s: "sample_count body (if x = Chat_completions then [''n'', ''best_of''] else []) 1 us
      = (Inr samples, u2)" and r: "r = cc_input_ceiling c + k * samples"
    using m alg(1) unfolding metered_reservation_def k pv.case
    by (auto simp: guardS_def raiseS_def doneS_def split: if_splits elim: bindS_InrE)
  have one: "1 \<le> samples" by (rule sample_count_from [OF s])
  have "x \<noteq> Chat_completions \<Longrightarrow> samples = 1" using s by (simp add: doneS_def)
  moreover have "k * samples \<le> cc_output_ceiling c * samples" using bounds one by (intro mult_right_mono) auto
  ultimately show ?thesis using n r one False unfolding within_contract_def by auto
qed


end
