(* ===== verification/Probe_Examples.thy ===== *)
theory Probe_Examples
  imports Probe_Guarantees Budget_Examples
begin

text \<open>
  A publication with one route whose approved contract bounds a whole request, captured under a hard
  fence, and probes of that route: one that is answered, one that fails, and the checkpoints of its
  verification. On them the theorems about contracts and probes apply.
\<close>

section \<open>A captured contract\<close>

definition hex64 :: digest where "hex64 text = replicate 64 (CHR ''a'')"

definition approval :: model_contract where
  "approval = model_contract_of
     \<lparr>cc_algorithm = Request_ceiling, cc_input_ceiling = 0, cc_output_ceiling = 0, cc_output_field = No_field,
      cc_request_ceiling = Some 90000, cc_output_estimate = None, cc_item_ceiling = None,
      cc_require_bound = True, cc_features = [Multimodal_input],
      cc_operations = [Chat_completions, Responses, Responses_compact], cc_evidence_sha256 = hex64 [],
      cc_verified_at = noon, cc_native_counter = None, cc_request_policy = None\<rparr> ''m-1'' []"

definition chat_policy :: request_policy where
  "chat_policy = \<lparr>qp_version = 1, qp_operation = None, qp_summarized = False, qp_requirements = [],
     qp_rules = [Request_rule \<lparr>qr_status = 400, qr_error_type = ''invalid_request'', qr_error_code = ''too_long''\<rparr>],
     qp_evidence_sha256 = hex64 [], qp_verified_at = noon\<rparr>"

definition chat_binding :: binding where
  "chat_binding = \<lparr>bd_model_key = ''gpt'', bd_logical_model = Some ''m-1'', bd_runtime = None,
     bd_api_format = Openai_chat, bd_routing_managed = True,
     bd_backend_path = ''/openai/v1/chat/completions/'', bd_text = ''{}''\<rparr>"

definition release :: publication where
  "release = \<lparr>pb_id = ''p-1'', pb_profile = ''g-1'', pb_kind = Model_add, pb_status = Pub_queued,
     pb_spec_sha256 = hex64 [], pb_bindings = [chat_binding], pb_created_at = noon + 60, pb_contracts = None\<rparr>"

definition hard_fence :: fence where
  "hard_fence = \<lparr>fc_version = PInt 2, fc_mode = PStr ''active'', fc_profile = PStr ''g-1'',
     fc_require_bound = PBool True, fc_epoch = ''e-1'', fc_contracts = Some [],
     fc_policies = [(Chat_completions, chat_policy)], fc_model_policies = [],
     fc_approved = [(''m-1'', \<lparr>ac_binding_sha256 = hex64 [], ac_contract = approval\<rparr>)]\<rparr>"

definition captured :: "publication_contracts res" where
  "captured = capture hex64 (\<lambda>u k. u) release [] hard_fence None None []"

lemma run_capture: "is_ok captured" by code_simp

definition retained :: publication_contracts where
  "retained = (case captured of Inr b \<Rightarrow> b | Inl _ \<Rightarrow> undefined)"

lemma captured_retained: "capture hex64 (\<lambda>u k. u) release [] hard_fence None None [] = Inr retained"
  using run_capture by (auto simp: is_ok_iff retained_def captured_def)

lemma captured_valid_witness: "validate_publication hex64 retained release = Inr ()"
  using captured_valid [OF captured_retained] by simp

lemma hard_fence_bounds_witness:
  "\<forall>(alias, c) \<in> set (pc_contracts retained). \<forall>x \<in> set (contracts_of c). bounding x"
proof -
  have "fc_require_bound hard_fence = PBool True" by (simp add: hard_fence_def)
  then show ?thesis by (rule hard_fence_bounds [OF captured_retained])
qed

lemma run_contract: "case captured of Inr b \<Rightarrow> map fst (pc_contracts b) = [''gpt'']
    \<and> map (mc_model_id \<circ> snd) (pc_contracts b) = [''m-1''] | Inl _ \<Rightarrow> False"
  by code_simp

definition chat_contract :: model_contract where "chat_contract = snd (hd (pc_contracts retained))"

lemma retained_contract: "pc_contracts retained = [(''gpt'', chat_contract)]" "mc_model_id chat_contract = ''m-1''"
proof -
  have "captured = Inr retained" using captured_retained by (simp add: captured_def)
  have both: "map fst (pc_contracts retained) = [''gpt''] \<and> map (mc_model_id \<circ> snd) (pc_contracts retained) = [''m-1'']"
    using run_contract by (simp add: \<open>captured = Inr retained\<close>)
  note k = conjunct1 [OF both] conjunct2 [OF both]
  show c: "pc_contracts retained = [(''gpt'', chat_contract)]"
    using k(1) by (cases "pc_contracts retained") (auto simp: chat_contract_def)
  show "mc_model_id chat_contract = ''m-1''" using k(2) by (simp add: c)
qed

lemma captured_route_witness: "\<exists>d \<in> set (pb_bindings release). bd_model_key d = ''gpt''
    \<and> binding_digest hex64 d = hex64 []"
proof -
  have "(''gpt'', chat_contract) \<in> set (pc_contracts retained)" by (simp add: retained_contract)
  from captured_route [OF captured_retained this] show ?thesis
    by (auto simp: retained_contract(2) hard_fence_def binding_digest_def hex64_def)
qed

section \<open>Probes\<close>

definition answers :: "(unit, dict) step" where
  "answers = doneS [(''total_tokens'', PInt 12), (''correlation_id'', PStr ''c-1''), (''route_validated'', PBool True)]"

definition quiet_journal :: "unit journal" where
  "quiet_journal = \<lparr>jn_now = (\<lambda>w. (noon, w)), jn_fresh = (\<lambda>w. (''f-1'', w)), jn_heartbeat = doneS (),
     jn_error_name = (\<lambda>_. ''TransportError''), jn_sha = hex64, jn_operation_key = ''publication'',
     jn_authorization = ''auth-1'', jn_attempt_limit = 1, jn_context = [], jn_planned = [], jn_identities = []\<rparr>"

definition chat_route :: route where
  "chat_route = \<lparr>rt_document = [], rt_operations = [Chat_completions], rt_alias = ''gpt'', rt_model_id = ''m-1'',
     rt_members = None, rt_budget = approval\<rparr>"

definition chat_body :: dict where "chat_body = [(''model'', PStr ''gpt'')]"

abbreviation probe :: "(uuid \<Rightarrow> (unit, dict) step) \<Rightarrow> (unit \<times> repository, dict) step" where
  "probe send \<equiv> run_route quiet_journal chat_route Chat_completions ''https://g'' chat_body send False None"

lemma run_probe: "fst (probe (\<lambda>_. answers) ((), repo1)) = Inr
    [(''total_tokens'', PInt 12), (''correlation_id'', PStr ''c-1''), (''route_validated'', PBool True)]"
  by code_simp

lemma repo1_ready: "attempts repo1 = []" "billing_ok (attempts repo1)" "fresh_ids quiet_journal repo1"
  by (simp_all add: repo1_def evidence1_def billing_ok_def of_operation_def fresh_ids_def)

lemma route_not_sent_twice_witness:
  "\<forall>send other. probe send (snd (probe (\<lambda>_. answers) ((), repo1))) = probe other (snd (probe (\<lambda>_. answers) ((), repo1)))"
proof (intro allI)
  fix send other :: "uuid \<Rightarrow> (unit, dict) step"
  obtain w rp where p: "probe (\<lambda>_. answers) ((), repo1) = (Inr [(''total_tokens'', PInt 12),
      (''correlation_id'', PStr ''c-1''), (''route_validated'', PBool True)], (w, rp))"
    using run_probe by (metis prod.collapse)
  show "probe send (snd (probe (\<lambda>_. answers) ((), repo1))) = probe other (snd (probe (\<lambda>_. answers) ((), repo1)))"
    using route_not_sent_twice [OF repo1_ready(2,3) p _ rtranclp.rtrancl_refl] by (simp add: p)
qed

lemma no_probe_left_open_witness:
  "list_all (\<lambda>b. bl_state b \<noteq> Started)
     (attempts (snd (snd (probe (\<lambda>_. raiseS (Raised TransportError)) ((), repo1)))))"
proof -
  obtain r w rp where p: "probe (\<lambda>_. raiseS (Raised TransportError)) ((), repo1) = (r, (w, rp))"
    by (metis prod.exhaust)
  have "sound_step (jn_heartbeat quiet_journal)" "\<forall>i::uuid. sound_step (raiseS (Raised TransportError) :: (unit, dict) step)"
    by (simp_all add: sound_step_def quiet_journal_def sound_failure_def)
  from no_probe_left_open [OF repo1_ready(2,3) this p] show ?thesis by (auto simp: p repo1_ready(1) list_all_iff)
qed

lemma run_fenced: "case captured of Inr b \<Rightarrow>
    (case fst (prepare_route quiet_journal (chat_route\<lparr>rt_budget := snd (hd (pc_contracts b))\<rparr>)
       Chat_completions ''https://g'' chat_body None ((), repo1)) of
       Inr p \<Rightarrow> pl_reserved_tokens p = 90000 | Inl _ \<Rightarrow> False)
  | Inl _ \<Rightarrow> False"
  by code_simp

abbreviation fenced_route :: route where "fenced_route \<equiv> chat_route\<lparr>rt_budget := chat_contract\<rparr>"


section \<open>Checkpointed verifications\<close>

text \<open>A store that answers, and two workers that both start from an empty checkpoint.\<close>

type_synonym desk = "checkpoint option \<times> string list \<times> string list"

definition desk_store :: "desk probe_store" where
  "desk_store = \<lparr>ps_clock = (\<lambda>w. (0, w)),
     ps_persist = (\<lambda>e c w. if fst w = e then (Inr (), (Some c, snd w)) else (Inl (Raised TransportError), w))\<rparr>"

definition desk_verify :: "string \<Rightarrow> (desk, unit) step" where
  "desk_verify k w = (Inr (), (fst w, fst (snd w) @ [k], k # snd (snd w)))"

definition desk_again :: "string \<Rightarrow> (desk, unit) step" where
  "desk_again k w = (Inr (), (fst w, fst (snd w), k # snd (snd w)))"

definition desk_view :: "desk probe_view" where
  "desk_view = \<lparr>pv_store = fst, pv_calls = (\<lambda>w. fst (snd w)), pv_confirmed = (\<lambda>w. set (snd (snd w)))\<rparr>"

definition idle_progress :: progress where
  "idle_progress = \<lparr>pg_checkpoint = \<lparr>ck_context = hex64 [], ck_steps = []\<rparr>, pg_stored = None, pg_maximum_steps = 10,
     pg_completed = 0, pg_deadline = 100, pg_request_budget = 10, pg_hard_deadline = None, pg_step_deadline = None\<rparr>"

definition worked :: "desk \<Rightarrow> desk" where
  "worked w = fst (snd (run_step desk_store (hex64 []) (desk_verify (hex64 [])) None (w, idle_progress)))"

lemma desk_laws: "probe_laws desk_store desk_verify desk_again desk_view"
  by (auto simp: probe_laws_def persist_law_def clock_law_def verify_law_def recover_law_def same_view_def same_stored_def
      desk_store_def desk_verify_def desk_again_def desk_view_def Let_def split: if_splits)

lemma worked_step: "probe_step (\<lambda>ps. ps = desk_store) desk_view desk_verify desk_again w (worked w)"
proof -
  obtain r u p where "run_step desk_store (hex64 []) (desk_verify (hex64 [])) None (w, idle_progress) = (r, (u, p))"
    by (metis prod.exhaust)
  moreover have "synced idle_progress" by (simp add: synced_def idle_progress_def sound_checkpoint_def)
  ultimately show ?thesis unfolding worked_def by (auto intro: probe_step.works)
qed

lemma run_worked:
  "pv_calls desk_view (worked (worked (None, [], []))) = [hex64 []]
   \<and> steps_in desk_view (worked (worked (None, [], []))) (hex64 []) = Some Step_passed"
  by code_simp

lemma probe_verified_once_witness:
  "distinct (pv_calls desk_view (worked (worked (None, [], []))))
   \<and> hex64 [] \<in> pv_confirmed desk_view (worked (worked (None, [], [])))"
proof -
  have "(probe_step (\<lambda>ps. ps = desk_store) desk_view desk_verify desk_again)\<^sup>*\<^sup>* (None, [], []) (worked (worked (None, [], [])))"
    by (rule rtranclp.rtrancl_into_rtrancl [OF rtranclp.rtrancl_into_rtrancl [OF rtranclp.rtrancl_refl]]; rule worked_step)
  moreover have "\<forall>ps. ps = desk_store \<longrightarrow> probe_laws ps desk_verify desk_again desk_view" using desk_laws by simp
  ultimately show ?thesis
    using probe_verified_once [of "\<lambda>ps. ps = desk_store" desk_verify desk_again desk_view "(None, [], [])"] run_worked
    by (simp add: desk_view_def)
qed

lemma lost_lease_stays_witness:
  "maintain (doneS False) [False, False] (snd (heartbeat (doneS False) ((), False))) = (Inr (), ((), True))"
proof -
  have h: "heartbeat (doneS False) ((), False) = (Inl (Retryable ''Worker lease is no longer owned''), ((), True))"
    by (simp add: heartbeat_cases)
  show ?thesis unfolding h snd_conv using lost_lease_stays [OF h] by blast
qed

end
