(* ===== verification/Release_Store.thy ===== *)
theory Release_Store
  imports Count_Capture Ledger_Evidence "HOL-Library.Product_Lexorder"
begin

text \<open>
  \<open>turnstile_core/persistence/in_memory_publications.py\<close>: the queue of gateway publications with the
  leases of the workers that advance them, their checkpoints and probe allowances, and the release
  operations of a gateway (rollbacks, integrity checks, provisioning) with their audit.
  An operation is a function from the store to its result and the store it leaves, also when it
  raises. It reads the clock once (\<open>now\<close>) and is given the identifier of the audit row it may write.
  A returned row is its value at that moment.
\<close>

section \<open>Rows\<close>

text \<open>
  A publication: the columns the repository itself reads or writes, and the remaining ones as a
  document, into which the \<open>updates\<close> of a transition go.
\<close>

record published =
  pu_id :: uuid
  pu_profile :: uuid
  pu_status :: publication_status
  pu_attempts :: int
  pu_created_by :: string
  pu_created_at :: instant
  pu_started_at :: "instant option"
  pu_completed_at :: "instant option"
  pu_updated_at :: instant
  pu_manifest :: dict
  pu_columns :: dict

datatype box_status = Box_queued | Box_leased | Box_completed

record outbox =
  ob_publication :: uuid
  ob_status :: box_status
  ob_available_at :: instant
  ob_owner :: "string option"
  ob_until :: "instant option"
  ob_attempts :: int
  ob_updated_at :: instant

record 's audit_row =
  au_id :: uuid
  au_subject :: uuid
  au_from :: "'s option"
  au_to :: 's
  au_actor :: string
  au_detail :: dict
  au_at :: instant

datatype operation_kind =
  Op_rollback | Op_integrity_check | Op_gc_plan | Op_application_sync | Op_application_provision
| Op_inventory_sync | Op_onboarding | Op_gateway_provision

datatype operation_status =
  Op_queued | Op_validating | Op_preflight | Op_promoting | Op_readback | Op_post_promotion | Op_restoring
| Op_succeeded | Op_failed | Op_restored

record release_op =
  op_id :: uuid
  op_profile :: uuid
  op_kind :: operation_kind
  op_target :: "uuid option"
  op_prior :: "uuid option"
  op_status :: operation_status
  op_confirmation :: "string option"
  op_preview :: dict
  op_columns :: dict
  op_owner :: "string option"
  op_until :: "instant option"
  op_attempts :: int
  op_created_by :: string
  op_created_at :: instant
  op_started_at :: "instant option"
  op_completed_at :: "instant option"
  op_updated_at :: instant

record protection =
  pt_publication :: uuid
  pt_pinned :: bool
  pt_label :: "string option"
  pt_retain_until :: "instant option"
  pt_updated_by :: string
  pt_updated_at :: instant

record snapshot =
  sn_id :: uuid
  sn_publication :: uuid
  sn_operation :: "uuid option"
  sn_status :: string
  sn_dependencies :: dict
  sn_issues :: "string list"
  sn_checked_by :: string
  sn_checked_at :: instant

record gc_plan =
  gc_id :: uuid
  gc_operation :: uuid
  gc_profile :: uuid
  gc_retained :: "uuid list"
  gc_references :: dict
  gc_candidates :: "dict list"
  gc_graph_sha256 :: string
  gc_created_by :: string
  gc_created_at :: instant

record release_store =
  rs_publications :: "published list"
  rs_outbox :: "outbox list"
  rs_audit :: "publication_status audit_row list"
  rs_secrets :: "(uuid \<times> string) list"
  rs_effective :: "(uuid \<times> uuid) list"
  rs_operations :: "release_op list"
  rs_op_audit :: "operation_status audit_row list"
  rs_op_secrets :: "(uuid \<times> string) list"
  rs_protections :: "(uuid \<times> protection) list"
  rs_protection_audit :: "(uuid \<times> protection) list"
  rs_snapshots :: "snapshot list"
  rs_gc_plans :: "gc_plan list"

type_synonym 'a on_store = "release_store \<Rightarrow> 'a res \<times> release_store"

text \<open>\<open>_find\<close>, \<open>_require\<close>, and the update of the first row that \<open>_find\<close> or \<open>next\<close> returns.\<close>

definition find_row :: "('r \<Rightarrow> uuid) \<Rightarrow> uuid \<Rightarrow> 'r list \<Rightarrow> 'r option" where
  "find_row key i rows = List.find (\<lambda>r. key r = i) rows"

definition require_row :: "('r \<Rightarrow> uuid) \<Rightarrow> uuid \<Rightarrow> string \<Rightarrow> 'r list \<Rightarrow> 'r res" where
  "require_row key i label rows =
     (case find_row key i rows of
        None \<Rightarrow> Inl (ValueError (''Unknown '' @ label @ '': '' @ i))
      | Some r \<Rightarrow> Inr r)"

fun alter :: "('r \<Rightarrow> bool) \<Rightarrow> ('r \<Rightarrow> 'r) \<Rightarrow> 'r list \<Rightarrow> 'r list" where
  "alter P f [] = []"
| "alter P f (r # rs) = (if P r then f r # rs else r # alter P f rs)"

text \<open>\<open>sorted(rows, key=key, reverse=True)\<close>, which keeps the order of equal keys.\<close>

definition newest_first :: "('r \<Rightarrow> 'k::linorder) \<Rightarrow> 'r list \<Rightarrow> 'r list" where
  "newest_first key rows = rev (sort_key key (rev rows))"

definition seconds :: "int \<Rightarrow> int" where "seconds n = n * 1000000"

section \<open>Publications\<close>

text \<open>\<open>publication.update(updates)\<close>.\<close>

definition update_columns :: "dict \<Rightarrow> published \<Rightarrow> published" where
  "update_columns updates p =
     fold (\<lambda>(k, v) q. case (k = ''resource_manifest'', v) of
         (True, PDict d) \<Rightarrow> q\<lparr>pu_manifest := d\<rparr>
       | _ \<Rightarrow> q\<lparr>pu_columns := dput k v (pu_columns q)\<rparr>) updates p"

definition done_status :: "publication_status \<Rightarrow> bool" where
  "done_status s \<longleftrightarrow> s \<in> {Pub_active, Pub_failed, Pub_rolled_back}"

definition claimable :: "instant \<Rightarrow> outbox \<Rightarrow> bool" where
  "claimable now b \<longleftrightarrow>
     (ob_status b = Box_queued \<and> ob_available_at b \<le> now)
     \<or> (ob_status b = Box_leased \<and> (case ob_until b of None \<Rightarrow> False | Some t \<Rightarrow> t < now))"

definition lease_box :: "instant \<Rightarrow> string \<Rightarrow> int \<Rightarrow> outbox \<Rightarrow> outbox" where
  "lease_box now worker n b =
     b\<lparr>ob_status := Box_leased, ob_owner := Some worker, ob_until := Some (now + seconds n),
       ob_attempts := ob_attempts b + 1, ob_updated_at := now\<rparr>"

definition start_publication :: "instant \<Rightarrow> published \<Rightarrow> published" where
  "start_publication now p =
     p\<lparr>pu_attempts := pu_attempts p + 1,
       pu_started_at := (if pu_started_at p = None then Some now else pu_started_at p), pu_updated_at := now\<rparr>"

definition claim_publication :: "instant \<Rightarrow> string \<Rightarrow> int \<Rightarrow> published option on_store" where
  "claim_publication now worker n st =
     (case List.find (claimable now) (rs_outbox st) of
        None \<Rightarrow> (Inr None, st)
      | Some b \<Rightarrow>
          let st' = st\<lparr>rs_outbox := alter (claimable now) (lease_box now worker n) (rs_outbox st)\<rparr> in
          (case require_row pu_id (ob_publication b) ''publication'' (rs_publications st) of
             Inl e \<Rightarrow> (Inl e, st')
           | Inr p \<Rightarrow> (Inr (Some (start_publication now p)),
               st'\<lparr>rs_publications := alter (\<lambda>r. pu_id r = pu_id p) (start_publication now) (rs_publications st)\<rparr>)))"

definition drop_secret :: "uuid \<Rightarrow> release_store \<Rightarrow> release_store" where
  "drop_secret i st = st\<lparr>rs_secrets := AList.delete i (rs_secrets st)\<rparr>"

definition free_box :: "box_status \<Rightarrow> instant \<Rightarrow> outbox \<Rightarrow> outbox" where
  "free_box s now b = b\<lparr>ob_status := s, ob_available_at := now, ob_owner := None, ob_until := None, ob_updated_at := now\<rparr>"

definition put_box :: "uuid \<Rightarrow> (outbox \<Rightarrow> outbox) \<Rightarrow> release_store \<Rightarrow> release_store" where
  "put_box i f st = st\<lparr>rs_outbox := alter (\<lambda>b. ob_publication b = i) f (rs_outbox st)\<rparr>"

definition put_publication :: "uuid \<Rightarrow> (published \<Rightarrow> published) \<Rightarrow> release_store \<Rightarrow> release_store" where
  "put_publication i f st = st\<lparr>rs_publications := alter (\<lambda>p. pu_id p = i) f (rs_publications st)\<rparr>"

definition audit_publication ::
  "uuid \<Rightarrow> uuid \<Rightarrow> publication_status \<Rightarrow> publication_status \<Rightarrow> string \<Rightarrow> dict \<Rightarrow> instant
     \<Rightarrow> release_store \<Rightarrow> release_store" where
  "audit_publication fresh i from_status to_status actor detail now st =
     st\<lparr>rs_audit := rs_audit st @ [\<lparr>au_id = fresh, au_subject = i, au_from = Some from_status, au_to = to_status,
       au_actor = actor, au_detail = detail, au_at = now\<rparr>]\<rparr>"

definition cancel_unstarted :: "instant \<Rightarrow> uuid \<Rightarrow> uuid \<Rightarrow> string \<Rightarrow> published option on_store" where
  "cancel_unstarted now fresh i actor st =
     (case (find_row pu_id i (rs_publications st), find_row ob_publication i (rs_outbox st)) of
        (Some p, Some b) \<Rightarrow>
          if pu_status p \<noteq> Pub_queued \<or> pu_attempts p \<noteq> 0 \<or> pu_started_at p \<noteq> None \<or> ob_status b \<noteq> Box_queued
          then (Inr None, st)
          else
            let detail = [(''error_code'', PStr ''cancelled_by_owner''),
                          (''error_message'', PStr ''Publication cancelled before processing'')];
                cancelled = (\<lambda>p. update_columns detail
                  (p\<lparr>pu_status := Pub_rolled_back, pu_completed_at := Some now, pu_updated_at := now\<rparr>)) in
            (Inr (Some (cancelled p)),
             audit_publication fresh i Pub_queued Pub_rolled_back actor detail now
               (put_box i (free_box Box_completed now) (drop_secret i (put_publication i cancelled st))))
      | _ \<Rightarrow> (Inr None, st))"

definition holds_box :: "instant \<Rightarrow> uuid \<Rightarrow> string \<Rightarrow> outbox \<Rightarrow> bool" where
  "holds_box now i worker b \<longleftrightarrow> ob_publication b = i \<and> ob_status b = Box_leased \<and> ob_owner b = Some worker
     \<and> (case ob_until b of None \<Rightarrow> False | Some t \<Rightarrow> now < t)"

definition owns_lease :: "instant \<Rightarrow> release_store \<Rightarrow> uuid \<Rightarrow> string \<Rightarrow> bool" where
  "owns_lease now st i worker = list_ex (holds_box now i worker) (rs_outbox st)"

definition probe_rows :: "uuid \<Rightarrow> 's audit_row list \<Rightarrow> 's audit_row list" where
  "probe_rows i rows = filter (\<lambda>a. au_subject a = i \<and> has_key (au_detail a) ''probe_request'') rows"

definition probe_detail :: "string \<Rightarrow> string \<Rightarrow> nat \<Rightarrow> int \<Rightarrow> dict" where
  "probe_detail verb endpoint n limit =
     [(''probe_request'', PDict [(''method'', PStr verb), (''endpoint_sha256'', PStr endpoint),
        (''request_index'', PInt (int n + 1)), (''request_limit'', PInt limit)])]"

definition reserve_publication_probe ::
  "instant \<Rightarrow> uuid \<Rightarrow> uuid \<Rightarrow> string \<Rightarrow> int \<Rightarrow> string \<Rightarrow> string \<Rightarrow> bool on_store" where
  "reserve_publication_probe now fresh i worker limit verb endpoint st =
     (if limit < 1 then (Inl (ValueError ''Publication probe request limit must be positive''), st)
      else case find_row pu_id i (rs_publications st) of
        None \<Rightarrow> (Inr False, st)
      | Some p \<Rightarrow>
          if pu_status p \<noteq> Pub_verifying \<or> \<not> owns_lease now st i worker then (Inr False, st)
          else let n = length (probe_rows i (rs_audit st)) in
            if limit \<le> int n then (Inr False, st)
            else (Inr True, audit_publication fresh i (pu_status p) (pu_status p) worker
                   (probe_detail verb endpoint n limit) now st))"

section \<open>Checkpoints of a publication\<close>

datatype checkpoint_field =
  Probe_verification | Route_activation | Route_writer | Route_dependencies | Route_credentials
| Route_preparation | Program_promotion | Commit_approval

fun field_name :: "checkpoint_field \<Rightarrow> string" where
  "field_name Probe_verification = ''probe_verification''"
| "field_name Route_activation = ''route_activation''"
| "field_name Route_writer = ''route_writer''"
| "field_name Route_dependencies = ''route_dependencies''"
| "field_name Route_credentials = ''route_credentials''"
| "field_name Route_preparation = ''route_preparation''"
| "field_name Program_promotion = ''route_program_promotion''"
| "field_name Commit_approval = ''route_commit_approval''"

fun field_phase :: "checkpoint_field \<Rightarrow> publication_status" where
  "field_phase Probe_verification = Pub_verifying"
| "field_phase Route_activation = Pub_promoting"
| "field_phase Route_writer = Pub_promoting"
| "field_phase Route_dependencies = Pub_queued"
| "field_phase Route_credentials = Pub_queued"
| "field_phase Route_preparation = Pub_queued"
| "field_phase Program_promotion = Pub_promoting"
| "field_phase Commit_approval = Pub_promoting"

definition expected_value :: "dict option \<Rightarrow> pv" where
  "expected_value x = (case x of None \<Rightarrow> PNone | Some d \<Rightarrow> PDict d)"

definition record_checkpoint :: "instant \<Rightarrow> checkpoint_field \<Rightarrow> dict \<Rightarrow> published \<Rightarrow> published" where
  "record_checkpoint now x d p =
     p\<lparr>pu_manifest := dput (field_name x) (PDict d) (pu_manifest p), pu_updated_at := now\<rparr>"

definition checkpoint_publication ::
  "instant \<Rightarrow> uuid \<Rightarrow> checkpoint_field \<Rightarrow> uuid \<Rightarrow> string \<Rightarrow> dict option \<Rightarrow> dict \<Rightarrow> bool on_store" where
  "checkpoint_publication now fresh x i worker expected d st =
     (case find_row pu_id i (rs_publications st) of
        None \<Rightarrow> (Inr False, st)
      | Some p \<Rightarrow>
          if pu_status p \<noteq> field_phase x \<or> \<not> owns_lease now st i worker
             \<or> \<not> py_eq (expected_value expected) (dfield (pu_manifest p) (field_name x))
          then (Inr False, st)
          else (Inr True, audit_publication fresh i (field_phase x) (field_phase x) worker
                 [(field_name x, PDict d)] now (put_publication i (record_checkpoint now x d) st)))"

definition renew_publication_lease :: "instant \<Rightarrow> uuid \<Rightarrow> string \<Rightarrow> int \<Rightarrow> bool on_store" where
  "renew_publication_lease now i worker n st =
     (if \<not> owns_lease now st i worker then (Inr False, st)
      else (Inr True, put_box i (\<lambda>b. b\<lparr>ob_until := Some (now + seconds n)\<rparr>) st))"

section \<open>Transitions of a publication\<close>

definition move_publication ::
  "instant \<Rightarrow> publication_status \<Rightarrow> dict \<Rightarrow> published \<Rightarrow> published" where
  "move_publication now s updates p =
     (let q = (update_columns updates p)\<lparr>pu_status := s, pu_updated_at := now\<rparr> in
      if done_status s then q\<lparr>pu_completed_at := Some now\<rparr> else q)"

definition transition_publication ::
  "instant \<Rightarrow> uuid \<Rightarrow> uuid \<Rightarrow> publication_status \<Rightarrow> publication_status \<Rightarrow> dict \<Rightarrow> string
     \<Rightarrow> published option on_store" where
  "transition_publication now fresh i expected s updates actor st =
     (case find_row pu_id i (rs_publications st) of
        None \<Rightarrow> (Inr None, st)
      | Some p \<Rightarrow>
          if pu_status p \<noteq> expected then (Inr None, st)
          else if expected \<notin> {Pub_failed, Pub_awaiting} \<and> \<not> owns_lease now st i actor then (Inr None, st)
          else
            let st1 = audit_publication fresh i expected s actor updates now
                        (put_publication i (move_publication now s updates) st);
                st2 = (if done_status s \<or> (expected = Pub_validating \<and> s = Pub_provisioning)
                       then drop_secret i st1 else st1) in
            (case find_row ob_publication i (rs_outbox st2) of
               None \<Rightarrow> (Inl (RuntimeError ''StopIteration''), st2)
             | Some b \<Rightarrow> (Inr (Some (move_publication now s updates p)),
                 put_box i (free_box (if done_status s \<or> s = Pub_awaiting then Box_completed else Box_queued) now) st2)))"

definition resume_authorization :: "instant \<Rightarrow> uuid \<Rightarrow> string \<Rightarrow> published on_store" where
  "resume_authorization now i created_by st =
     (case require_row pu_id i ''publication'' (rs_publications st) of
        Inl e \<Rightarrow> (Inl e, st)
      | Inr p \<Rightarrow>
          if pu_status p \<noteq> Pub_awaiting
          then (Inl (ValueError ''The publication is not waiting for provider authorization''), st)
          else
            let resumed = (\<lambda>p. (update_columns [(''error_code'', PNone), (''error_message'', PNone)] p)
                  \<lparr>pu_status := Pub_verifying, pu_created_by := created_by, pu_updated_at := now\<rparr>);
                st1 = put_publication i resumed st in
            (case find_row ob_publication i (rs_outbox st1) of
               None \<Rightarrow> (Inl (RuntimeError ''StopIteration''), st1)
             | Some b \<Rightarrow> (Inr (resumed p), put_box i (free_box Box_queued now) st1)))"

text \<open>Removal of a failed publication from the list of models.\<close>

definition archived_row :: "uuid \<Rightarrow> publication_status audit_row \<Rightarrow> bool" where
  "archived_row i a \<longleftrightarrow> au_subject a = i \<and> dfield (au_detail a) ''archived_from_model_list'' = PBool True"

definition archive_publication :: "instant \<Rightarrow> uuid \<Rightarrow> uuid \<Rightarrow> string \<Rightarrow> unit on_store" where
  "archive_publication now fresh i actor st =
     (case (find_row pu_id i (rs_publications st), find_row ob_publication i (rs_outbox st)) of
        (Some p, Some b) \<Rightarrow>
          if pu_status p \<noteq> Pub_failed \<or> ob_status b \<noteq> Box_completed \<or> ob_owner b \<noteq> None \<or> ob_until b \<noteq> None
          then (Inl (ValueError ''Only a terminal failed publication can be removed from the model list''), st)
          else if list_ex (archived_row i) (rs_audit st) then (Inr (), st)
          else (Inr (), audit_publication fresh i Pub_failed Pub_failed actor
                 [(''archived_from_model_list'', PBool True)] now st)
      | _ \<Rightarrow> (Inl (ValueError ''Only a terminal failed publication can be removed from the model list''), st))"

definition list_publications :: "uuid option \<Rightarrow> nat \<Rightarrow> release_store \<Rightarrow> published list" where
  "list_publications profile limit st =
     take limit (newest_first pu_created_at
       (filter (\<lambda>p. \<not> list_ex (archived_row (pu_id p)) (rs_audit st)
          \<and> (case profile of None \<Rightarrow> True | Some g \<Rightarrow> pu_profile p = g)) (rs_publications st)))"

definition effective_publication :: "uuid \<Rightarrow> release_store \<Rightarrow> published option" where
  "effective_publication profile st =
     (case map_of (rs_effective st) profile of
        None \<Rightarrow> None
      | Some i \<Rightarrow> find_row pu_id i (rs_publications st))"

definition list_audit :: "uuid \<Rightarrow> 's audit_row list \<Rightarrow> 's audit_row list" where
  "list_audit i rows = sort_key (\<lambda>a. (au_at a, au_id a)) (filter (\<lambda>a. au_subject a = i) rows)"

section \<open>Protection of releases\<close>

definition set_protection ::
  "instant \<Rightarrow> uuid \<Rightarrow> uuid \<Rightarrow> bool \<Rightarrow> string option \<Rightarrow> instant option \<Rightarrow> string \<Rightarrow> protection option on_store" where
  "set_protection now fresh i pinned label retain_until updated_by st =
     (case require_row pu_id i ''publication'' (rs_publications st) of
        Inl e \<Rightarrow> (Inl e, st)
      | Inr p \<Rightarrow>
          let row = \<lparr>pt_publication = i, pt_pinned = pinned, pt_label = label, pt_retain_until = retain_until,
                     pt_updated_by = updated_by, pt_updated_at = now\<rparr>;
              none = (\<not> pinned \<and> label = None \<and> retain_until = None) in
          (Inr (if none then None else Some row),
           st\<lparr>rs_protections := (if none then AList.delete i (rs_protections st)
                else AList.update i row (rs_protections st)),
              rs_protection_audit := rs_protection_audit st @ [(fresh, row)]\<rparr>))"

definition list_protections :: "uuid list \<Rightarrow> release_store \<Rightarrow> protection list" where
  "list_protections is st = List.map_filter (map_of (rs_protections st)) is"

section \<open>Release operations\<close>

definition op_over :: "operation_status \<Rightarrow> bool" where
  "op_over s \<longleftrightarrow> s \<in> {Op_succeeded, Op_failed, Op_restored}"

text \<open>What the validation of the preview of a gateway provision yields.\<close>

record provision =
  pv_request :: uuid
  pv_profile :: uuid
  pv_digest :: string

definition check_provision ::
  "provision res \<Rightarrow> uuid \<Rightarrow> string \<Rightarrow> uuid option \<Rightarrow> uuid option \<Rightarrow> string option \<Rightarrow> string option
     \<Rightarrow> release_op list \<Rightarrow> release_op option res" where
  "check_provision spec profile created_by target prior confirmation ciphertext rows =
     bindR spec (\<lambda>x.
     guardR (pv_profile x \<noteq> profile \<or> confirmation \<noteq> Some (pv_digest x) \<or> target \<noteq> None \<or> prior \<noteq> None)
       (ValueError ''Gateway creation requires a target-bound idempotent request'')
    (guardR (ciphertext \<noteq> None) (ValueError ''Gateway creation must not persist credentials'')
    (case List.find (\<lambda>r. op_kind r = Op_gateway_provision
            \<and> dfield (op_preview r) ''request_id'' = PStr (pv_request x)) rows of
       None \<Rightarrow> Inr None
     | Some r \<Rightarrow>
         guardR (op_profile r \<noteq> profile \<or> op_confirmation r \<noteq> confirmation \<or> op_created_by r \<noteq> created_by)
           (ValueError ''Gateway creation request was already used differently'') (Inr (Some r)))))"

definition new_operation ::
  "instant \<Rightarrow> uuid \<Rightarrow> uuid \<Rightarrow> operation_kind \<Rightarrow> string \<Rightarrow> uuid option \<Rightarrow> uuid option \<Rightarrow> string option \<Rightarrow> dict
     \<Rightarrow> release_op" where
  "new_operation now i profile kind created_by target prior confirmation preview =
     \<lparr>op_id = i, op_profile = profile, op_kind = kind, op_target = target, op_prior = prior, op_status = Op_queued,
      op_confirmation = confirmation, op_preview = preview,
      op_columns = [(''checkpoint'', PDict []), (''error_code'', PNone), (''error_message'', PNone)],
      op_owner = None, op_until = None, op_attempts = 0, op_created_by = created_by, op_created_at = now,
      op_started_at = None, op_completed_at = None, op_updated_at = now\<rparr>"

definition audit_operation ::
  "uuid \<Rightarrow> uuid \<Rightarrow> operation_status option \<Rightarrow> operation_status \<Rightarrow> string \<Rightarrow> dict \<Rightarrow> instant
     \<Rightarrow> release_store \<Rightarrow> release_store" where
  "audit_operation fresh i from_status to_status actor detail now st =
     st\<lparr>rs_op_audit := rs_op_audit st @ [\<lparr>au_id = fresh, au_subject = i, au_from = from_status, au_to = to_status,
       au_actor = actor, au_detail = detail, au_at = now\<rparr>]\<rparr>"

definition queue_operation ::
  "uuid \<Rightarrow> string option \<Rightarrow> release_op \<Rightarrow> release_op on_store" where
  "queue_operation fresh ciphertext row st =
     (if list_ex (\<lambda>r. op_profile r = op_profile row \<and> \<not> op_over (op_status r)) (rs_operations st)
      then (Inl (ValueError ''Another gateway release operation is already in progress''), st)
      else (Inr row,
        audit_operation fresh (op_id row) None Op_queued (op_created_by row) [] (op_created_at row)
          (st\<lparr>rs_operations := rs_operations st @ [row],
              rs_op_secrets := (case ciphertext of None \<Rightarrow> rs_op_secrets st
                | Some c \<Rightarrow> AList.update (op_id row) c (rs_op_secrets st))\<rparr>)))"

definition create_operation ::
  "instant \<Rightarrow> uuid \<Rightarrow> uuid \<Rightarrow> (dict option \<Rightarrow> provision res) \<Rightarrow> uuid \<Rightarrow> operation_kind \<Rightarrow> string
     \<Rightarrow> uuid option \<Rightarrow> uuid option \<Rightarrow> string option \<Rightarrow> dict option \<Rightarrow> string option \<Rightarrow> release_op on_store" where
  "create_operation now i fresh read_provision profile kind created_by target prior confirmation preview ciphertext st =
     (case (if kind = Op_gateway_provision
            then check_provision (read_provision preview) profile created_by target prior confirmation ciphertext
                   (rs_operations st)
            else Inr None) of
        Inl e \<Rightarrow> (Inl e, st)
      | Inr (Some previous) \<Rightarrow> (Inr previous, st)
      | Inr None \<Rightarrow>
          queue_operation fresh ciphertext
            (new_operation now i profile kind created_by target prior confirmation (opt_or preview [])) st)"

definition list_operations :: "uuid \<Rightarrow> nat \<Rightarrow> release_store \<Rightarrow> release_op list" where
  "list_operations profile limit st =
     take limit (newest_first (\<lambda>r. (op_created_at r, op_id r))
       (filter (\<lambda>r. op_profile r = profile) (rs_operations st)))"

definition op_available :: "instant \<Rightarrow> release_op \<Rightarrow> bool" where
  "op_available now r \<longleftrightarrow> \<not> op_over (op_status r)
     \<and> (case op_until r of None \<Rightarrow> True | Some t \<Rightarrow> t < now)"

definition put_operation :: "uuid \<Rightarrow> (release_op \<Rightarrow> release_op) \<Rightarrow> release_store \<Rightarrow> release_store" where
  "put_operation i f st = st\<lparr>rs_operations := alter (\<lambda>r. op_id r = i) f (rs_operations st)\<rparr>"

definition lease_operation :: "instant \<Rightarrow> string \<Rightarrow> int \<Rightarrow> release_op \<Rightarrow> release_op" where
  "lease_operation now worker n r =
     r\<lparr>op_owner := Some worker, op_until := Some (now + seconds n), op_attempts := op_attempts r + 1,
       op_updated_at := now\<rparr>"

definition claim_operation :: "instant \<Rightarrow> string \<Rightarrow> int \<Rightarrow> release_op option on_store" where
  "claim_operation now worker n st =
     (case sort_key (\<lambda>r. (op_created_at r, op_id r)) (filter (op_available now) (rs_operations st)) of
        [] \<Rightarrow> (Inr None, st)
      | r # _ \<Rightarrow> (Inr (Some (lease_operation now worker n r)), put_operation (op_id r) (lease_operation now worker n) st))"

definition holds_operation :: "instant \<Rightarrow> string \<Rightarrow> release_op \<Rightarrow> bool" where
  "holds_operation now worker r \<longleftrightarrow> op_owner r = Some worker
     \<and> (case op_until r of None \<Rightarrow> False | Some t \<Rightarrow> now < t)"

definition move_operation ::
  "instant \<Rightarrow> operation_status \<Rightarrow> operation_status \<Rightarrow> dict \<Rightarrow> bool \<Rightarrow> release_op \<Rightarrow> release_op" where
  "move_operation now expected s updates keep r =
     r\<lparr>op_columns := dputs (op_columns r) updates, op_status := s,
       op_owner := (if keep then op_owner r else None), op_until := (if keep then op_until r else None),
       op_updated_at := now,
       op_started_at := (if expected = Op_queued \<and> op_started_at r = None then Some now else op_started_at r),
       op_completed_at := (if op_over s then Some now else op_completed_at r)\<rparr>"

text \<open>\<open>sorted(set(updates) - allowed)\<close> as an f-string writes it.\<close>

definition name_list :: "string list \<Rightarrow> string" where
  "name_list ks = ''['' @ join_with '', '' (map (\<lambda>k. CHR 0x27 # k @ [CHR 0x27]) (sort (remdups ks))) @ '']''"

definition unsupported :: "dict \<Rightarrow> string list" where
  "unsupported updates =
     filter (\<lambda>k. k \<notin> {''checkpoint'', ''error_code'', ''error_message''}) (map fst updates)"

definition transition_operation ::
  "instant \<Rightarrow> uuid \<Rightarrow> uuid \<Rightarrow> operation_status \<Rightarrow> operation_status \<Rightarrow> dict \<Rightarrow> string \<Rightarrow> bool
     \<Rightarrow> release_op option on_store" where
  "transition_operation now fresh i expected s updates actor keep st =
     (if keep \<and> (s \<noteq> expected \<or> op_over s)
      then (Inl (ValueError ''Only an in-progress checkpoint can retain its release lease''), st)
      else if unsupported updates \<noteq> []
      then (Inl (ValueError (''Unsupported release operation updates: '' @ name_list (unsupported updates))), st)
      else case find_row op_id i (rs_operations st) of
        None \<Rightarrow> (Inr None, st)
      | Some r \<Rightarrow>
          if op_status r \<noteq> expected \<or> \<not> holds_operation now actor r then (Inr None, st)
          else
            let st1 = put_operation i (move_operation now expected s updates keep) st;
                st2 = (if op_over s \<and> op_kind r = Op_application_provision
                       then st1\<lparr>rs_op_secrets := AList.delete i (rs_op_secrets st1)\<rparr> else st1) in
            (Inr (Some (move_operation now expected s updates keep r)),
             audit_operation fresh i (Some expected) s actor updates now st2))"

definition reserve_operation_probe ::
  "instant \<Rightarrow> uuid \<Rightarrow> uuid \<Rightarrow> string \<Rightarrow> int \<Rightarrow> string \<Rightarrow> string \<Rightarrow> bool on_store" where
  "reserve_operation_probe now fresh i worker limit verb endpoint st =
     (if limit < 1 then (Inl (ValueError ''Release probe request limit must be positive''), st)
      else case find_row op_id i (rs_operations st) of
        None \<Rightarrow> (Inr False, st)
      | Some r \<Rightarrow>
          if op_kind r \<noteq> Op_rollback \<or> op_status r \<notin> {Op_preflight, Op_post_promotion, Op_restoring}
             \<or> \<not> holds_operation now worker r then (Inr False, st)
          else let n = length (probe_rows i (rs_op_audit st)) in
            if limit \<le> int n then (Inr False, st)
            else (Inr True, audit_operation fresh i (Some (op_status r)) (op_status r) worker
                   (probe_detail verb endpoint n limit) now st))"

definition renew_operation_lease :: "instant \<Rightarrow> uuid \<Rightarrow> string \<Rightarrow> int \<Rightarrow> bool on_store" where
  "renew_operation_lease now i worker n st =
     (case find_row op_id i (rs_operations st) of
        None \<Rightarrow> (Inr False, st)
      | Some r \<Rightarrow>
          if holds_operation now worker r
          then (Inr True, put_operation i (\<lambda>r. r\<lparr>op_until := Some (now + seconds n)\<rparr>) st)
          else (Inr False, st))"

section \<open>Integrity snapshots and plans of collection\<close>

definition save_snapshot :: "snapshot \<Rightarrow> snapshot on_store" where
  "save_snapshot row st = (Inr row, st\<lparr>rs_snapshots := rs_snapshots st @ [row]\<rparr>)"

definition checked_key :: "snapshot \<Rightarrow> instant \<times> uuid" where
  "checked_key s = (sn_checked_at s, sn_id s)"

text \<open>\<open>max(rows, key=...)\<close>: the first of the greatest.\<close>

definition latest_snapshot :: "uuid \<Rightarrow> release_store \<Rightarrow> snapshot option" where
  "latest_snapshot i st =
     (case filter (\<lambda>s. sn_publication s = i) (rs_snapshots st) of
        [] \<Rightarrow> None
      | s # rest \<Rightarrow> Some (fold (\<lambda>x best. if checked_key best < checked_key x then x else best) rest s))"

fun newest :: "uuid list \<Rightarrow> snapshot list \<Rightarrow> (uuid \<times> snapshot) list \<Rightarrow> (uuid \<times> snapshot) list" where
  "newest requested [] seen = seen"
| "newest requested (s # rows) seen =
     (if sn_publication s \<notin> set requested then newest requested rows seen
      else case map_of seen (sn_publication s) of
        Some current \<Rightarrow>
          if checked_key current < checked_key s
          then newest requested rows (AList.update (sn_publication s) s seen)
          else newest requested rows seen
      | None \<Rightarrow> newest requested rows (AList.update (sn_publication s) s seen))"

definition latest_snapshots :: "uuid list \<Rightarrow> release_store \<Rightarrow> snapshot list" where
  "latest_snapshots requested st = map snd (newest requested (rs_snapshots st) [])"

definition save_gc_plan :: "gc_plan \<Rightarrow> gc_plan on_store" where
  "save_gc_plan row st =
     (if list_ex (\<lambda>g. gc_operation g = gc_operation row) (rs_gc_plans st)
      then (Inl (ValueError ''The gateway release operation already has a GC plan''), st)
      else (Inr row, st\<lparr>rs_gc_plans := rs_gc_plans st @ [row]\<rparr>))"

definition get_gc_plan :: "uuid \<Rightarrow> release_store \<Rightarrow> gc_plan option" where
  "get_gc_plan i st = find_row gc_operation i (rs_gc_plans st)"

end
