(* ===== verification/Release_Runs.thy ===== *)
theory Release_Runs
  imports Release_Store
begin

text \<open>
  Runs of the store of publications: any sequence of calls by any workers, and the invariants they
  keep. An operation of a gateway ends once and is audited from its creation to its present status;
  a leased publication belongs to one worker.
\<close>

section \<open>Calls\<close>

datatype call =
    Claim_publication instant string int
  | Cancel_unstarted instant uuid uuid string
  | Reserve_publication_probe instant uuid uuid string int string string
  | Checkpoint_publication instant uuid checkpoint_field uuid string "dict option" dict
  | Renew_publication instant uuid string int
  | Transition_publication instant uuid uuid publication_status publication_status dict string
  | Resume_authorization instant uuid string
  | Archive_publication instant uuid uuid string
  | Set_protection instant uuid uuid bool "string option" "instant option" string
  | Create_operation instant uuid uuid "dict option \<Rightarrow> provision res" uuid operation_kind string
      "uuid option" "uuid option" "string option" "dict option" "string option"
  | Claim_operation instant string int
  | Transition_operation instant uuid uuid operation_status operation_status dict string bool
  | Reserve_operation_probe instant uuid uuid string int string string
  | Renew_operation instant uuid string int
  | Save_snapshot snapshot
  | Save_gc_plan gc_plan

fun perform :: "call \<Rightarrow> release_store \<Rightarrow> release_store" where
  "perform (Claim_publication now w n) st = snd (claim_publication now w n st)"
| "perform (Cancel_unstarted now a i actor) st = snd (cancel_unstarted now a i actor st)"
| "perform (Reserve_publication_probe now a i w l m e) st = snd (reserve_publication_probe now a i w l m e st)"
| "perform (Checkpoint_publication now a x i w e d) st = snd (checkpoint_publication now a x i w e d st)"
| "perform (Renew_publication now i w n) st = snd (renew_publication_lease now i w n st)"
| "perform (Transition_publication now a i s t u w) st = snd (transition_publication now a i s t u w st)"
| "perform (Resume_authorization now i actor) st = snd (resume_authorization now i actor st)"
| "perform (Archive_publication now a i actor) st = snd (archive_publication now a i actor st)"
| "perform (Set_protection now a i p l r actor) st = snd (set_protection now a i p l r actor st)"
| "perform (Create_operation now i a rd g k actor t p c v x) st = snd (create_operation now i a rd g k actor t p c v x st)"
| "perform (Claim_operation now w n) st = snd (claim_operation now w n st)"
| "perform (Transition_operation now a i s t u w k) st = snd (transition_operation now a i s t u w k st)"
| "perform (Reserve_operation_probe now a i w l m e) st = snd (reserve_operation_probe now a i w l m e st)"
| "perform (Renew_operation now i w n) st = snd (renew_operation_lease now i w n st)"
| "perform (Save_snapshot s) st = snd (save_snapshot s st)"
| "perform (Save_gc_plan g) st = snd (save_gc_plan g st)"

text \<open>
  What is required of a call: a new operation has a new identifier, and the updates of a publication
  name columns of its table, none of which is called \<open>probe_request\<close>.
\<close>

fun sound_call :: "call \<Rightarrow> release_store \<Rightarrow> bool" where
  "sound_call (Create_operation now i a rd g k actor t p c v x) st \<longleftrightarrow>
     i \<notin> op_id ` set (rs_operations st) \<and> i \<notin> au_subject ` set (rs_op_audit st)"
| "sound_call (Transition_publication now a i s t u w) st \<longleftrightarrow> \<not> has_key u ''probe_request''"
| "sound_call _ st \<longleftrightarrow> True"

inductive store_run :: "release_store \<Rightarrow> call list \<Rightarrow> release_store \<Rightarrow> bool" where
  start: "store_run st [] st"
| call: "store_run st cs u \<Longrightarrow> sound_call c u \<Longrightarrow> store_run st (cs @ [c]) (perform c u)"

text \<open>A run by evaluation.\<close>

fun sound_calls :: "call list \<Rightarrow> release_store \<Rightarrow> bool" where
  "sound_calls [] st \<longleftrightarrow> True"
| "sound_calls (c # cs) st \<longleftrightarrow> sound_call c st \<and> sound_calls cs (perform c st)"

lemma store_run_append: "store_run st cs u \<Longrightarrow> sound_calls ds u \<Longrightarrow> store_run st (cs @ ds) (fold perform ds u)"
proof (induction ds arbitrary: cs u)
  case (Cons d ds)
  then have "store_run st (cs @ [d]) (perform d u)" by (simp add: store_run.call)
  then show ?case using Cons.IH [of "cs @ [d]" "perform d u"] Cons.prems by simp
qed simp

lemma store_run_fold: "sound_calls cs st \<Longrightarrow> store_run st cs (fold perform cs st)"
  using store_run_append [OF store_run.start] by force

lemma run_invariant:
  assumes "store_run st cs st'" "Q st"
    and "\<And>c u. c \<in> set cs \<Longrightarrow> Q u \<Longrightarrow> sound_call c u \<Longrightarrow> Q (perform c u)"
  shows "Q st'"
  using assms by (induction rule: store_run.induct) auto

section \<open>Rows that are found and altered\<close>

lemma find_row_Some: "find_row key i rows = Some r \<Longrightarrow> r \<in> set rows \<and> key r = i"
  by (auto simp: find_row_def dest: find_Some_iff_mem)

lemma find_row_None: "find_row key i rows = None \<longleftrightarrow> i \<notin> key ` set rows"
  by (auto simp: find_row_def find_None_iff)

lemma find_row_unique: "distinct (map key rows) \<Longrightarrow> r \<in> set rows \<Longrightarrow> find_row key (key r) rows = Some r"
  by (induction rows) (auto simp: find_row_def)

lemma alter_id: "(\<And>r. r \<in> set rows \<Longrightarrow> \<not> P r) \<Longrightarrow> alter P f rows = rows"
  by (induction rows) auto

lemma alter_unique:
  "distinct (map key rows) \<Longrightarrow> alter (\<lambda>r. key r = i) f rows = map (\<lambda>r. if key r = i then f r else r) rows"
proof (induction rows)
  case (Cons r rows)
  show ?case
  proof (cases "key r = i")
    case True
    then have "i \<notin> key ` set rows" using Cons.prems by simp
    then have "map (\<lambda>r. if key r = i then f r else r) rows = rows" by (intro map_idI) (auto simp: image_iff)
    then show ?thesis using True by simp
  qed (use Cons in simp)
qed simp

lemma alter_keys: "(\<And>r. key (f r) = key r) \<Longrightarrow> map key (alter P f rows) = map key rows"
  by (induction rows) auto

lemma find_row_alter:
  "(\<And>r. key (f r) = key r) \<Longrightarrow>
   find_row key j (alter (\<lambda>r. key r = i) f rows) = (if j = i then map_option f (find_row key i rows) else find_row key j rows)"
  by (induction rows) (auto simp: find_row_def)

lemma alter_mem: "r \<in> set (alter P f rows) \<Longrightarrow> r \<in> set rows \<or> (\<exists>q \<in> set rows. P q \<and> r = f q)"
  by (induction rows) (auto split: if_splits)

text \<open>Which tables a publication call leaves alone.\<close>

lemma same_operations [simp]:
  "rs_operations (drop_secret i st) = rs_operations st" "rs_op_audit (drop_secret i st) = rs_op_audit st"
  "rs_operations (put_box i g st) = rs_operations st" "rs_op_audit (put_box i g st) = rs_op_audit st"
  "rs_operations (put_publication i h st) = rs_operations st" "rs_op_audit (put_publication i h st) = rs_op_audit st"
  "rs_operations (audit_publication a i s t w d now st) = rs_operations st"
  "rs_op_audit (audit_publication a i s t w d now st) = rs_op_audit st"
  by (simp_all add: drop_secret_def put_box_def put_publication_def audit_publication_def)

lemma alter_other: "r \<in> set rows \<Longrightarrow> \<not> P r \<Longrightarrow> r \<in> set (alter P f rows)"
  by (induction rows) auto

section \<open>Release operations\<close>

text \<open>The audit rows of an operation lead from one status to another.\<close>

fun audit_path :: "'s option \<Rightarrow> 's audit_row list \<Rightarrow> 's \<Rightarrow> bool" where
  "audit_path s [] t \<longleftrightarrow> s = Some t"
| "audit_path s (a # rows) t \<longleftrightarrow> au_from a = s \<and> audit_path (Some (au_to a)) rows t"

lemma audit_path_snoc: "audit_path s (rows @ [a]) t \<longleftrightarrow>
    (if rows = [] then au_from a = s else \<exists>u. au_from a = Some u \<and> audit_path s rows u) \<and> au_to a = t"
  by (induction rows arbitrary: s) auto

definition op_log :: "uuid \<Rightarrow> operation_status audit_row list \<Rightarrow> operation_status audit_row list" where
  "op_log i log = filter (\<lambda>a. au_subject a = i) log"

definition operation_ok :: "operation_status audit_row list \<Rightarrow> release_op \<Rightarrow> bool" where
  "operation_ok log r \<longleftrightarrow>
     (op_over (op_status r) \<longrightarrow> op_owner r = None \<and> op_until r = None \<and> op_completed_at r \<noteq> None)
     \<and> op_log (op_id r) log \<noteq> [] \<and> audit_path None (op_log (op_id r) log) (op_status r)
     \<and> (\<forall>a \<in> set (op_log (op_id r) log). \<forall>s. au_from a = Some s \<longrightarrow> \<not> op_over s)"

definition one_in_progress :: "release_op list \<Rightarrow> bool" where
  "one_in_progress rows \<longleftrightarrow> (\<forall>q \<in> set rows. \<forall>r \<in> set rows.
     op_profile q = op_profile r \<and> \<not> op_over (op_status q) \<and> \<not> op_over (op_status r) \<longrightarrow> op_id q = op_id r)"

definition operations_ok :: "release_op list \<Rightarrow> operation_status audit_row list \<Rightarrow> bool" where
  "operations_ok rows log \<longleftrightarrow> distinct (map op_id rows) \<and> one_in_progress rows \<and> (\<forall>r \<in> set rows. operation_ok log r)
     \<and> au_subject ` set log \<subseteq> op_id ` set rows"

text \<open>What a call does to the operations and their audit.\<close>

inductive op_effect ::
  "release_op list \<Rightarrow> operation_status audit_row list \<Rightarrow> release_op list \<Rightarrow> operation_status audit_row list \<Rightarrow> bool"
where
  keep: "op_effect rows log rows log"
| add: "op_id row \<notin> op_id ` set rows \<Longrightarrow> op_id row \<notin> au_subject ` set log \<Longrightarrow> op_status row = Op_queued \<Longrightarrow>
    (\<forall>q \<in> set rows. op_profile q = op_profile row \<longrightarrow> op_over (op_status q)) \<Longrightarrow>
    au_subject a = op_id row \<Longrightarrow> au_from a = None \<Longrightarrow> au_to a = Op_queued \<Longrightarrow>
    op_effect rows log (rows @ [row]) (log @ [a])"
| touch: "find_row op_id i rows = Some r \<Longrightarrow> \<not> op_over (op_status r) \<or> op_owner r \<noteq> None \<Longrightarrow>
    (\<And>q. op_id (f q) = op_id q \<and> op_profile (f q) = op_profile q \<and> op_status (f q) = op_status q) \<Longrightarrow>
    op_effect rows log (alter (\<lambda>q. op_id q = i) f rows) log"
| probe: "find_row op_id i rows = Some r \<Longrightarrow> \<not> op_over (op_status r) \<Longrightarrow> au_subject a = i \<Longrightarrow>
    au_from a = Some (op_status r) \<Longrightarrow> au_to a = op_status r \<Longrightarrow> op_effect rows log rows (log @ [a])"
| move: "find_row op_id i rows = Some r \<Longrightarrow> op_owner r \<noteq> None \<Longrightarrow> k \<longrightarrow> \<not> op_over s \<Longrightarrow> au_subject a = i \<Longrightarrow>
    au_from a = Some (op_status r) \<Longrightarrow> au_to a = s \<Longrightarrow>
    op_effect rows log (alter (\<lambda>q. op_id q = i) (move_operation now (op_status r) s u k) rows) (log @ [a])"

text \<open>Calls on publications and evidence leave the operations alone.\<close>

lemma claim_publication_operations [simp]:
  "rs_operations (snd (claim_publication now w n st)) = rs_operations st"
  "rs_op_audit (snd (claim_publication now w n st)) = rs_op_audit st"
  by (simp_all add: claim_publication_def Let_def split: option.split sum.split)

lemma cancel_unstarted_operations [simp]:
  "rs_operations (snd (cancel_unstarted now a i w st)) = rs_operations st"
  "rs_op_audit (snd (cancel_unstarted now a i w st)) = rs_op_audit st"
  by (simp_all add: cancel_unstarted_def Let_def split: option.split)

lemma reserve_publication_probe_operations [simp]:
  "rs_operations (snd (reserve_publication_probe now a i w l m e st)) = rs_operations st"
  "rs_op_audit (snd (reserve_publication_probe now a i w l m e st)) = rs_op_audit st"
  by (simp_all add: reserve_publication_probe_def Let_def split: option.split)

lemma checkpoint_publication_operations [simp]:
  "rs_operations (snd (checkpoint_publication now a x i w e d st)) = rs_operations st"
  "rs_op_audit (snd (checkpoint_publication now a x i w e d st)) = rs_op_audit st"
  by (simp_all add: checkpoint_publication_def split: option.split)

lemma renew_publication_operations [simp]:
  "rs_operations (snd (renew_publication_lease now i w n st)) = rs_operations st"
  "rs_op_audit (snd (renew_publication_lease now i w n st)) = rs_op_audit st"
  by (simp_all add: renew_publication_lease_def)

lemma transition_publication_operations [simp]:
  "rs_operations (snd (transition_publication now a i s t u w st)) = rs_operations st"
  "rs_op_audit (snd (transition_publication now a i s t u w st)) = rs_op_audit st"
  by (simp_all add: transition_publication_def Let_def split: option.split)

lemma resume_authorization_operations [simp]:
  "rs_operations (snd (resume_authorization now i w st)) = rs_operations st"
  "rs_op_audit (snd (resume_authorization now i w st)) = rs_op_audit st"
  by (simp_all add: resume_authorization_def Let_def split: option.split sum.split)

lemma archive_publication_operations [simp]:
  "rs_operations (snd (archive_publication now a i w st)) = rs_operations st"
  "rs_op_audit (snd (archive_publication now a i w st)) = rs_op_audit st"
  by (simp_all add: archive_publication_def split: option.split)

lemma set_protection_operations [simp]:
  "rs_operations (snd (set_protection now a i p l r w st)) = rs_operations st"
  "rs_op_audit (snd (set_protection now a i p l r w st)) = rs_op_audit st"
  by (simp_all add: set_protection_def Let_def split: sum.split)

lemma save_snapshot_operations [simp]:
  "rs_operations (snd (save_snapshot s st)) = rs_operations st"
  "rs_op_audit (snd (save_snapshot s st)) = rs_op_audit st"
  by (simp_all add: save_snapshot_def)

lemma save_gc_plan_operations [simp]:
  "rs_operations (snd (save_gc_plan g st)) = rs_operations st"
  "rs_op_audit (snd (save_gc_plan g st)) = rs_op_audit st"
  by (simp_all add: save_gc_plan_def)

lemma sort_key_mem: "sort_key key xs = x # ys \<Longrightarrow> x \<in> set xs"
  by (metis list.set_intros(1) set_sort)

lemma perform_effect:
  assumes "sound_call c st" "distinct (map op_id (rs_operations st))"
  shows "op_effect (rs_operations st) (rs_op_audit st) (rs_operations (perform c st)) (rs_op_audit (perform c st))"
proof (cases c)
  case (Create_operation now i a rd g k actor t p cf v x)
  consider "perform c st = st"
    | row where "row = new_operation now i g k actor t p cf (opt_or v [])" "perform c st = snd (queue_operation a x row st)"
  proof -
    define z where "z = (if k = Op_gateway_provision
      then check_provision (rd v) g actor t p cf x (rs_operations st) else Inr None)"
    have "perform c st = snd (case z of Inl e \<Rightarrow> (Inl e, st) | Inr (Some previous) \<Rightarrow> (Inr previous, st)
        | Inr None \<Rightarrow> queue_operation a x (new_operation now i g k actor t p cf (opt_or v [])) st)"
      by (simp add: Create_operation create_operation_def z_def)
    then show thesis using that by (cases z; cases "projr z") auto
  qed
  then show ?thesis
  proof cases
    case 1
    then show ?thesis by (simp add: keep)
  next
    case 2
    then have row: "op_id row = i" "op_status row = Op_queued" by (simp_all add: new_operation_def)
    show ?thesis
    proof (cases "list_ex (\<lambda>r. op_profile r = op_profile row \<and> \<not> op_over (op_status r)) (rs_operations st)")
      case True
      then show ?thesis unfolding 2(2) by (simp add: queue_operation_def keep)
    next
      case False
      have "op_effect (rs_operations st) (rs_op_audit st) (rs_operations st @ [row]) (rs_op_audit st @
          [\<lparr>au_id = a, au_subject = op_id row, au_from = None, au_to = Op_queued, au_actor = op_created_by row,
            au_detail = [], au_at = op_created_at row\<rparr>])"
        by (rule add) (use assms(1) Create_operation row False in \<open>auto simp: list_ex_iff\<close>)
      then show ?thesis using False unfolding 2(2) by (simp add: queue_operation_def audit_operation_def)
    qed
  qed
next
  case (Claim_operation now w n)
  show ?thesis
  proof (cases "sort_key (\<lambda>r. (op_created_at r, op_id r)) (filter (op_available now) (rs_operations st))")
    case Nil
    then show ?thesis using Claim_operation by (simp add: claim_operation_def keep)
  next
    case (Cons r rs)
    then have r: "r \<in> set (rs_operations st)" "\<not> op_over (op_status r)"
      using sort_key_mem [OF Cons] by (simp_all add: op_available_def)
    have "find_row op_id (op_id r) (rs_operations st) = Some r" by (rule find_row_unique [OF assms(2) r(1)])
    then have "op_effect (rs_operations st) (rs_op_audit st)
        (alter (\<lambda>q. op_id q = op_id r) (lease_operation now w n) (rs_operations st)) (rs_op_audit st)"
      by (rule touch) (simp_all add: r(2) lease_operation_def)
    then show ?thesis using Claim_operation Cons by (simp add: claim_operation_def put_operation_def)
  qed
next
  case (Transition_operation now a i e s u w k)
  show ?thesis
  proof (cases "perform c st = st")
    case False
    then obtain r where r: "find_row op_id i (rs_operations st) = Some r" "op_status r = e" "holds_operation now w r"
      and k: "\<not> (k \<and> (s \<noteq> e \<or> op_over s))" and eff:
      "rs_operations (perform c st) = alter (\<lambda>q. op_id q = i) (move_operation now e s u k) (rs_operations st)"
      "rs_op_audit (perform c st) = rs_op_audit st @ [\<lparr>au_id = a, au_subject = i, au_from = Some e, au_to = s,
         au_actor = w, au_detail = u, au_at = now\<rparr>]"
      using Transition_operation
      by (auto simp: transition_operation_def audit_operation_def put_operation_def Let_def
          split: if_splits option.splits)
    show ?thesis unfolding eff r(2) [symmetric]
      by (rule move [OF r(1)]) (use r(2,3) k in \<open>auto simp: holds_operation_def\<close>)
  qed (simp add: keep)
next
  case (Reserve_operation_probe now a i w l m e)
  show ?thesis
  proof (cases "perform c st = st")
    case False
    then obtain r where r: "find_row op_id i (rs_operations st) = Some r" "\<not> op_over (op_status r)"
      and eff: "rs_operations (perform c st) = rs_operations st"
      "\<exists>d. rs_op_audit (perform c st) = rs_op_audit st @ [\<lparr>au_id = a, au_subject = i, au_from = Some (op_status r),
         au_to = op_status r, au_actor = w, au_detail = d, au_at = now\<rparr>]"
      using Reserve_operation_probe
      by (auto simp: reserve_operation_probe_def audit_operation_def Let_def op_over_def split: if_splits option.splits)
    show ?thesis using eff(2) unfolding eff(1) by (elim exE, simp only:) (rule probe [OF r], simp_all)
  qed (simp add: keep)
next
  case (Renew_operation now i w n)
  show ?thesis
  proof (cases "perform c st = st")
    case False
    then obtain r where r: "find_row op_id i (rs_operations st) = Some r" "holds_operation now w r"
      and eff: "perform c st = put_operation i (\<lambda>r. r\<lparr>op_until := Some (now + seconds n)\<rparr>) st"
      using Renew_operation by (auto simp: renew_operation_lease_def split: if_splits option.splits)
    show ?thesis unfolding eff put_operation_def
      by simp (rule touch [OF r(1)], use r(2) in \<open>auto simp: holds_operation_def\<close>)
  qed (simp add: keep)
qed (simp_all add: keep)

section \<open>What every run keeps of the operations\<close>

lemma op_log_snoc: "op_log i (log @ [a]) = op_log i log @ (if au_subject a = i then [a] else [])"
  by (simp add: op_log_def)

lemma op_log_Nil: "i \<notin> au_subject ` set log \<Longrightarrow> op_log i log = []"
  by (induction log) (auto simp: op_log_def)

lemma operation_ok_other: "au_subject a \<noteq> op_id r \<Longrightarrow> operation_ok (log @ [a]) r = operation_ok log r"
  by (simp add: operation_ok_def op_log_snoc)

lemma operations_ok_alter:
  assumes ok: "operations_ok rows log" and r: "find_row op_id i rows = Some r"
    and f: "\<And>q. op_id (f q) = op_id q" "\<And>q. op_profile (f q) = op_profile q"
    and over: "\<not> op_over (op_status (f r)) \<Longrightarrow> \<not> op_over (op_status r)"
    and log: "operation_ok log' (f r)" "\<And>q. q \<in> set rows \<Longrightarrow> op_id q \<noteq> i \<Longrightarrow> operation_ok log' q = operation_ok log q"
      "au_subject ` set log' \<subseteq> op_id ` set rows"
  shows "operations_ok (alter (\<lambda>q. op_id q = i) f rows) log'"
proof -
  have d: "distinct (map op_id rows)" using ok by (simp add: operations_ok_def)
  have i: "r \<in> set rows" "op_id r = i" using find_row_Some [OF r] by simp_all
  have only: "q = r" if "q \<in> set rows" "op_id q = i" for q
    using that d i by (metis distinct_map inj_onD)
  have new: "alter (\<lambda>q. op_id q = i) f rows = map (\<lambda>q. if op_id q = i then f r else q) rows"
    unfolding alter_unique [OF d] using only by auto
  have rows: "set (alter (\<lambda>q. op_id q = i) f rows) = insert (f r) (set rows - {r})"
    unfolding new using i only by force
  have ids: "map op_id (alter (\<lambda>q. op_id q = i) f rows) = map op_id rows" by (rule alter_keys) (rule f(1))
  have ok': "operation_ok log q" if "q \<in> set rows" for q using ok that by (simp add: operations_ok_def)
  have "one_in_progress rows" using ok by (simp add: operations_ok_def)
  then have "one_in_progress (alter (\<lambda>q. op_id q = i) f rows)"
    unfolding one_in_progress_def rows using i(1) over f by (metis Diff_iff insert_iff)
  moreover have "\<forall>q \<in> set (alter (\<lambda>q. op_id q = i) f rows). operation_ok log' q"
    unfolding rows using log(1,2) ok' only by blast
  moreover have "op_id ` set (alter (\<lambda>q. op_id q = i) f rows) = op_id ` set rows"
    using ids by (metis list.set_map)
  ultimately show ?thesis using d log(3) by (simp add: operations_ok_def ids)
qed

lemma operations_okD:
  assumes "operations_ok rows log"
  shows "distinct (map op_id rows)" "one_in_progress rows" "r \<in> set rows \<Longrightarrow> operation_ok log r"
    "au_subject ` set log \<subseteq> op_id ` set rows"
  using assms by (simp_all add: operations_ok_def)

lemma same_id: "operations_ok rows log \<Longrightarrow> q \<in> set rows \<Longrightarrow> r \<in> set rows \<Longrightarrow> op_id q = op_id r \<Longrightarrow> q = r"
  by (metis operations_okD(1) distinct_map inj_onD)

lemma keeps_add:
  assumes ok: "operations_ok rows log" and new: "op_id row \<notin> op_id ` set rows" "op_id row \<notin> au_subject ` set log"
    "op_status row = Op_queued" "\<forall>q \<in> set rows. op_profile q = op_profile row \<longrightarrow> op_over (op_status q)"
    and a: "au_subject a = op_id row" "au_from a = None" "au_to a = Op_queued"
  shows "operations_ok (rows @ [row]) (log @ [a])"
proof -
  have logs: "op_log (op_id row) log = []" by (rule op_log_Nil [OF new(2)])
  have row: "operation_ok (log @ [a]) row"
    using new(3) a by (simp add: operation_ok_def op_log_snoc logs op_over_def)
  have old: "operation_ok (log @ [a]) q" if "q \<in> set rows" for q
  proof -
    have "au_subject a \<noteq> op_id q" using new(1) a(1) that by (metis image_eqI)
    then show ?thesis using operations_okD(3) [OF ok that] by (simp add: operation_ok_other)
  qed
  have "one_in_progress (rows @ [row])"
    using operations_okD(2) [OF ok] new(4) unfolding one_in_progress_def by (metis Un_iff empty_iff empty_set insert_iff list.simps(15) set_append)
  then show ?thesis
    using operations_okD(1,4) [OF ok] new(1) a(1) row old by (auto simp: operations_ok_def)
qed

lemma keeps_probe:
  assumes ok: "operations_ok rows log" and r: "find_row op_id i rows = Some r" "\<not> op_over (op_status r)"
    and a: "au_subject a = i" "au_from a = Some (op_status r)" "au_to a = op_status r"
  shows "operations_ok rows (log @ [a])"
proof -
  have i: "r \<in> set rows" "op_id r = i" using find_row_Some [OF r(1)] by simp_all
  have self: "operation_ok (log @ [a]) r"
    using operations_okD(3) [OF ok i(1)] r(2) a i(2) by (auto simp: operation_ok_def op_log_snoc audit_path_snoc)
  have "operation_ok (log @ [a]) q" if q: "q \<in> set rows" for q
  proof (cases "op_id q = i")
    case True
    then have "q = r" using same_id [OF ok q i(1)] i(2) by simp
    then show ?thesis using self by simp
  next
    case False
    then show ?thesis using operations_okD(3) [OF ok q] a(1) by (simp add: operation_ok_other)
  qed
  moreover have "i \<in> op_id ` set rows" using i by blast
  ultimately show ?thesis using operations_okD(1,2,4) [OF ok] a(1) by (simp add: operations_ok_def)
qed

lemma keeps_move:
  assumes ok: "operations_ok rows log" and r: "find_row op_id i rows = Some r" "op_owner r \<noteq> None"
    and k: "k \<longrightarrow> \<not> op_over s" and a: "au_subject a = i" "au_from a = Some (op_status r)" "au_to a = s"
  shows "operations_ok (alter (\<lambda>q. op_id q = i) (move_operation now (op_status r) s u k) rows) (log @ [a])"
proof -
  have i: "r \<in> set rows" "op_id r = i" using find_row_Some [OF r(1)] by simp_all
  have row: "operation_ok log r" by (rule operations_okD(3) [OF ok i(1)])
  then have run: "\<not> op_over (op_status r)" using r(2) by (auto simp: operation_ok_def)
  let ?f = "move_operation now (op_status r) s u k"
  have f: "op_id (?f q) = op_id q" "op_profile (?f q) = op_profile q" for q by (simp_all add: move_operation_def)
  have self: "operation_ok (log @ [a]) (?f r)"
    using row run k a i(2) by (auto simp: operation_ok_def move_operation_def op_log_snoc audit_path_snoc)
  have subjects: "au_subject ` set (log @ [a]) \<subseteq> op_id ` set rows"
  proof -
    have "i \<in> op_id ` set rows" using i by blast
    then show ?thesis using operations_okD(4) [OF ok] a(1) by simp
  qed
  show ?thesis
    by (rule operations_ok_alter [OF ok r(1) f run self _ subjects]) (use a(1) in \<open>simp add: operation_ok_other\<close>)
qed

lemma keeps_touch:
  assumes ok: "operations_ok rows log" and r: "find_row op_id i rows = Some r" "\<not> op_over (op_status r) \<or> op_owner r \<noteq> None"
    and f: "\<And>q. op_id (f q) = op_id q \<and> op_profile (f q) = op_profile q \<and> op_status (f q) = op_status q"
  shows "operations_ok (alter (\<lambda>q. op_id q = i) f rows) log"
proof -
  have i: "r \<in> set rows" "op_id r = i" using find_row_Some [OF r(1)] by simp_all
  have row: "operation_ok log r" by (rule operations_okD(3) [OF ok i(1)])
  then have run: "\<not> op_over (op_status r)" using r(2) by (auto simp: operation_ok_def)
  have same: "op_id (f q) = op_id q" "op_profile (f q) = op_profile q" "op_status (f q) = op_status q" for q
    using f by simp_all
  have "operation_ok log (f r)" using row run by (simp add: operation_ok_def same)
  then show ?thesis
    by (rule operations_ok_alter [OF ok r(1) same(1,2) run _ _ operations_okD(4) [OF ok]]) simp
qed

lemma effect_keeps:
  "op_effect rows log rows' log' \<Longrightarrow> operations_ok rows log \<Longrightarrow> operations_ok rows' log'"
  by (induction rule: op_effect.induct) (blast intro: keeps_add keeps_probe keeps_move keeps_touch)+

lemma run_operations:
  assumes "store_run st cs st'" "operations_ok (rs_operations st) (rs_op_audit st)"
  shows "operations_ok (rs_operations st') (rs_op_audit st')"
  using assms(1)
proof (rule run_invariant)
  show "operations_ok (rs_operations st) (rs_op_audit st)" by (rule assms(2))
next
  fix c u assume u: "operations_ok (rs_operations u) (rs_op_audit u)" "sound_call c u"
  then have "distinct (map op_id (rs_operations u))" by (simp add: operations_ok_def)
  from effect_keeps [OF perform_effect [OF u(2) this] u(1)]
  show "operations_ok (rs_operations (perform c u)) (rs_op_audit (perform c u))" .
qed

lemma operations_ok_Nil: "operations_ok [] []"
  by (simp add: operations_ok_def one_in_progress_def)

lemma effect_final:
  assumes "op_effect rows log rows' log'" "operations_ok rows log" "r \<in> set rows" "op_over (op_status r)"
  shows "r \<in> set rows' \<and> op_log (op_id r) log' = op_log (op_id r) log"
proof -
  have free: "op_owner r = None"
    using operations_okD(3) [OF assms(2,3)] assms(4) by (simp add: operation_ok_def)
  have other: "op_id r \<noteq> i" if "find_row op_id i rows = Some q" "\<not> op_over (op_status q) \<or> op_owner q \<noteq> None" for i q
  proof -
    have "q \<noteq> r" using that(2) assms(4) free by auto
    then show ?thesis using find_row_Some [OF that(1)] same_id [OF assms(2) assms(3)] by metis
  qed
  show ?thesis using assms(1)
  proof cases
    case (add row a)
    have "op_id row \<noteq> op_id r" using add(3) assms(3) by (metis image_eqI)
    then show ?thesis using assms(3) add(1,2,7) by (simp add: op_log_snoc)
  next
    case (touch i q f)
    show ?thesis using assms(3) touch(1,2) other [OF touch(3,4)] by (simp add: alter_other)
  next
    case (probe i q a)
    show ?thesis using assms(3) probe(1,2,5) other [OF probe(3)] probe(4) by (simp add: op_log_snoc)
  next
    case (move i q k s a now u)
    show ?thesis using assms(3) move(1,2,6) other [OF move(3)] move(4) by (simp add: alter_other op_log_snoc)
  qed (use assms(3) in simp)
qed

text \<open>
  C35. Over any run of calls by any workers on a store without release operations, operation
  identifiers are distinct, a gateway has at most one operation in progress, and an operation that
  ended holds no lease and has its completion time.
\<close>

theorem one_operation_in_progress:
  assumes "store_run st cs st'" "rs_operations st = []" "rs_op_audit st = []"
  shows "distinct (map op_id (rs_operations st'))
    \<and> (\<forall>q \<in> set (rs_operations st'). \<forall>r \<in> set (rs_operations st').
         op_profile q = op_profile r \<and> \<not> op_over (op_status q) \<and> \<not> op_over (op_status r) \<longrightarrow> q = r)
    \<and> (\<forall>r \<in> set (rs_operations st'). op_over (op_status r) \<longrightarrow>
         op_owner r = None \<and> op_until r = None \<and> op_completed_at r \<noteq> None)"
proof -
  have ok: "operations_ok (rs_operations st') (rs_op_audit st')"
    using run_operations [OF assms(1)] assms(2,3) operations_ok_Nil by simp
  then have "one_in_progress (rs_operations st')" by (simp add: operations_ok_def)
  then have "\<forall>q \<in> set (rs_operations st'). \<forall>r \<in> set (rs_operations st').
      op_profile q = op_profile r \<and> \<not> op_over (op_status q) \<and> \<not> op_over (op_status r) \<longrightarrow> q = r"
    using same_id [OF ok] unfolding one_in_progress_def by blast
  then show ?thesis using ok by (simp add: operations_ok_def operation_ok_def)
qed

text \<open>
  C36. The audit rows of a release operation, in the order written, lead without a gap from its
  creation to its present status, and none leaves a status in which it has ended.
\<close>

theorem operation_audited:
  assumes "store_run st cs st'" "rs_operations st = []" "rs_op_audit st = []" "r \<in> set (rs_operations st')"
  shows "audit_path None (op_log (op_id r) (rs_op_audit st')) (op_status r)
    \<and> (\<forall>a \<in> set (op_log (op_id r) (rs_op_audit st')). \<forall>s. au_from a = Some s \<longrightarrow> \<not> op_over s)"
  using run_operations [OF assms(1)] assms(2-4) operations_ok_Nil by (simp add: operations_ok_def operation_ok_def)

text \<open>
  C37. A release operation that succeeded, failed or was restored stays as it is in every later
  run, late renewals and transitions of its worker included, and nothing more is audited for it.
\<close>

theorem operation_final:
  assumes "store_run st cs st'" "operations_ok (rs_operations st) (rs_op_audit st)"
    "r \<in> set (rs_operations st)" "op_over (op_status r)"
  shows "r \<in> set (rs_operations st') \<and> op_log (op_id r) (rs_op_audit st') = op_log (op_id r) (rs_op_audit st)"
  using assms(1,2,3)
proof (induction rule: store_run.induct)
  case (call st cs u c)
  have ok: "operations_ok (rs_operations u) (rs_op_audit u)" by (rule run_operations [OF call.hyps(1) call.prems(1)])
  then have "distinct (map op_id (rs_operations u))" by (simp add: operations_ok_def)
  from effect_final [OF perform_effect [OF call.hyps(2) this] ok _ assms(4)] call.IH [OF call.prems]
  show ?case by simp
qed simp

end
