(* ===== verification/Release_Leases.thy ===== *)
theory Release_Leases
  imports Release_Runs
begin

text \<open>
  The lease of a publication: while it lasts, no other worker and no administrator changes the
  publication or its row in the queue, in any run of the store.
\<close>

section \<open>Who calls, and when\<close>

fun call_worker :: "call \<Rightarrow> string option" where
  "call_worker (Claim_publication now w n) = Some w"
| "call_worker (Checkpoint_publication now a x i w e d) = Some w"
| "call_worker (Renew_publication now i w n) = Some w"
| "call_worker (Transition_publication now a i s t u w) = Some w"
| "call_worker _ = None"

fun call_time :: "call \<Rightarrow> instant" where
  "call_time (Claim_publication now w n) = now"
| "call_time (Cancel_unstarted now a i w) = now"
| "call_time (Reserve_publication_probe now a i w l m e) = now"
| "call_time (Checkpoint_publication now a x i w e d) = now"
| "call_time (Renew_publication now i w n) = now"
| "call_time (Transition_publication now a i s t u w) = now"
| "call_time (Resume_authorization now i w) = now"
| "call_time (Archive_publication now a i w) = now"
| "call_time (Set_protection now a i p l r w) = now"
| "call_time (Create_operation now i a rd g k w t p c v x) = now"
| "call_time (Claim_operation now w n) = now"
| "call_time (Transition_operation now a i s t u w k) = now"
| "call_time (Reserve_operation_probe now a i w l m e) = now"
| "call_time (Renew_operation now i w n) = now"
| "call_time (Save_snapshot s) = sn_checked_at s"
| "call_time (Save_gc_plan g) = gc_created_at g"

section \<open>What a call does to publications and their queue\<close>

text \<open>A publication that no worker advances has no place in the queue.\<close>

definition resting :: "publication_status \<Rightarrow> bool" where
  "resting s \<longleftrightarrow> done_status s \<or> s = Pub_awaiting"

definition publications_ok :: "published list \<Rightarrow> outbox list \<Rightarrow> bool" where
  "publications_ok ps bs \<longleftrightarrow> distinct (map pu_id ps) \<and> distinct (map ob_publication bs)
     \<and> (\<forall>p \<in> set ps. \<forall>b \<in> set bs. ob_publication b = pu_id p \<and> resting (pu_status p) \<longrightarrow> ob_status b = Box_completed)"

definition leased_to_other :: "instant \<Rightarrow> string option \<Rightarrow> outbox \<Rightarrow> bool" where
  "leased_to_other now w b \<longleftrightarrow> ob_status b = Box_leased \<and> ob_owner b \<noteq> w
     \<and> (case ob_until b of None \<Rightarrow> False | Some t \<Rightarrow> now \<le> t)"

inductive pub_effect ::
  "instant \<Rightarrow> string option \<Rightarrow> published list \<Rightarrow> outbox list \<Rightarrow> published list \<Rightarrow> outbox list \<Rightarrow> bool"
  for now w ps bs where
  quiet: "pub_effect now w ps bs ps bs"
| at: "(\<And>p. pu_id (f p) = pu_id p) \<Longrightarrow> (\<And>b. ob_publication (g b) = ob_publication b) \<Longrightarrow>
    (\<And>p b. p \<in> set ps \<Longrightarrow> b \<in> set bs \<Longrightarrow> pu_id p = j \<Longrightarrow> ob_publication b = j \<Longrightarrow> resting (pu_status (f p)) \<Longrightarrow>
       ob_status (g b) = Box_completed) \<Longrightarrow>
    (\<And>b. b \<in> set bs \<Longrightarrow> ob_publication b = j \<Longrightarrow> \<not> leased_to_other now w b) \<Longrightarrow>
    pub_effect now w ps bs (alter (\<lambda>p. pu_id p = j) f ps) (alter (\<lambda>b. ob_publication b = j) g bs)"

lemma publications_okD:
  assumes "publications_ok ps bs"
  shows "distinct (map pu_id ps)" "distinct (map ob_publication bs)"
    "p \<in> set ps \<Longrightarrow> b \<in> set bs \<Longrightarrow> ob_publication b = pu_id p \<Longrightarrow> resting (pu_status p) \<Longrightarrow> ob_status b = Box_completed"
  using assms by (auto simp: publications_ok_def)

lemma same_key: "distinct (map key rows) \<Longrightarrow> q \<in> set rows \<Longrightarrow> r \<in> set rows \<Longrightarrow> key q = key r \<Longrightarrow> q = r"
  by (metis distinct_map inj_onD)

lemma alter_found:
  "distinct (map key rows) \<Longrightarrow> List.find P rows = Some r \<Longrightarrow> alter P f rows = alter (\<lambda>q. key q = key r) f rows"
proof (induction rows)
  case (Cons q rows)
  show ?case
  proof (cases "P q")
    case False
    then have "List.find P rows = Some r" using Cons.prems by simp
    then have "r \<in> set rows" by (auto dest: find_Some_iff_mem)
    then have "key q \<noteq> key r" using Cons.prems(1) by (metis distinct.simps(2) image_eqI list.simps(9) set_map)
    then show ?thesis using False Cons by simp
  qed (use Cons.prems in simp)
qed simp

lemma alter_ident: "alter P (\<lambda>r. r) rows = rows"
  by (induction rows) auto

lemma update_columns_id [simp]: "pu_id (update_columns u p) = pu_id p"
proof -
  have "pu_id (fold (\<lambda>(k, v) q. case (k = ''resource_manifest'', v) of
      (True, PDict d) \<Rightarrow> q\<lparr>pu_manifest := d\<rparr> | _ \<Rightarrow> q\<lparr>pu_columns := dput k v (pu_columns q)\<rparr>) u p) = pu_id p"
    by (induction u arbitrary: p) (auto split: pv.split bool.split)
  then show ?thesis by (simp add: update_columns_def)
qed

lemma move_publication_fields [simp]:
  "pu_id (move_publication now s u p) = pu_id p" "pu_status (move_publication now s u p) = s"
  by (simp_all add: move_publication_def Let_def)

lemma owns_not_other:
  assumes "distinct (map ob_publication bs)" "list_ex (holds_box now i w) bs" "b \<in> set bs" "ob_publication b = i"
  shows "\<not> leased_to_other t (Some w) b"
proof -
  obtain c where c: "c \<in> set bs" "holds_box now i w c" using assms(2) by (auto simp: list_ex_iff)
  then have "c = b" using same_key [OF assms(1) c(1) assms(3)] assms(4) by (simp add: holds_box_def)
  then show ?thesis using c(2) by (simp add: leased_to_other_def holds_box_def)
qed

lemma found_only:
  assumes "distinct (map key rows)" "find_row key i rows = Some r" "q \<in> set rows" "key q = i"
  shows "q = r"
  using same_key [OF assms(1) assms(3)] find_row_Some [OF assms(2)] assms(4) by simp

lemma same_publications [simp]:
  "rs_publications (drop_secret i st) = rs_publications st" "rs_outbox (drop_secret i st) = rs_outbox st"
  "rs_publications (put_box i g st) = rs_publications st" "rs_outbox (put_publication i h st) = rs_outbox st"
  "rs_publications (audit_publication a i s t w d now st) = rs_publications st"
  "rs_outbox (audit_publication a i s t w d now st) = rs_outbox st"
  "rs_outbox (put_box i g st) = alter (\<lambda>b. ob_publication b = i) g (rs_outbox st)"
  "rs_publications (put_publication i h st) = alter (\<lambda>p. pu_id p = i) h (rs_publications st)"
  by (simp_all add: drop_secret_def put_box_def put_publication_def audit_publication_def)

lemma reserve_publication_probe_queue [simp]:
  "rs_publications (snd (reserve_publication_probe now a i w l m e st)) = rs_publications st"
  "rs_outbox (snd (reserve_publication_probe now a i w l m e st)) = rs_outbox st"
  by (simp_all add: reserve_publication_probe_def Let_def split: option.split)

lemma archive_publication_queue [simp]:
  "rs_publications (snd (archive_publication now a i w st)) = rs_publications st"
  "rs_outbox (snd (archive_publication now a i w st)) = rs_outbox st"
  by (simp_all add: archive_publication_def split: option.split)

lemma set_protection_queue [simp]:
  "rs_publications (snd (set_protection now a i p l r w st)) = rs_publications st"
  "rs_outbox (snd (set_protection now a i p l r w st)) = rs_outbox st"
  by (simp_all add: set_protection_def Let_def split: sum.split)

lemma claim_operation_queue [simp]:
  "rs_publications (snd (claim_operation now w n st)) = rs_publications st"
  "rs_outbox (snd (claim_operation now w n st)) = rs_outbox st"
  by (simp_all add: claim_operation_def put_operation_def split: list.split)

lemma transition_operation_queue [simp]:
  "rs_publications (snd (transition_operation now a i s t u w k st)) = rs_publications st"
  "rs_outbox (snd (transition_operation now a i s t u w k st)) = rs_outbox st"
  by (simp_all add: transition_operation_def Let_def put_operation_def audit_operation_def split: option.split)

lemma reserve_operation_probe_queue [simp]:
  "rs_publications (snd (reserve_operation_probe now a i w l m e st)) = rs_publications st"
  "rs_outbox (snd (reserve_operation_probe now a i w l m e st)) = rs_outbox st"
  by (simp_all add: reserve_operation_probe_def Let_def audit_operation_def split: option.split)

lemma renew_operation_lease_queue [simp]:
  "rs_publications (snd (renew_operation_lease now i w n st)) = rs_publications st"
  "rs_outbox (snd (renew_operation_lease now i w n st)) = rs_outbox st"
  by (simp_all add: renew_operation_lease_def put_operation_def split: option.split)

lemma save_snapshot_queue [simp]:
  "rs_publications (snd (save_snapshot s st)) = rs_publications st"
  "rs_outbox (snd (save_snapshot s st)) = rs_outbox st"
  by (simp_all add: save_snapshot_def )

lemma save_gc_plan_queue [simp]:
  "rs_publications (snd (save_gc_plan g st)) = rs_publications st"
  "rs_outbox (snd (save_gc_plan g st)) = rs_outbox st"
  by (simp_all add: save_gc_plan_def )

lemma queue_operation_queue [simp]:
  "rs_publications (snd (queue_operation a x row st)) = rs_publications st"
  "rs_outbox (snd (queue_operation a x row st)) = rs_outbox st"
  by (simp_all add: queue_operation_def audit_operation_def)

lemma create_operation_queue [simp]:
  "rs_publications (snd (create_operation now i a rd g k w t p c v x st)) = rs_publications st"
  "rs_outbox (snd (create_operation now i a rd g k w t p c v x st)) = rs_outbox st"
  by (simp_all add: create_operation_def split: sum.split option.split)

lemma claim_effect:
  assumes ok: "publications_ok (rs_publications st) (rs_outbox st)"
  shows "pub_effect now (Some w) (rs_publications st) (rs_outbox st)
    (rs_publications (snd (claim_publication now w n st))) (rs_outbox (snd (claim_publication now w n st)))"
proof (cases "List.find (claimable now) (rs_outbox st)")
  case None
  then show ?thesis by (simp add: claim_publication_def quiet)
next
  case (Some b)
  note d = publications_okD(1,2) [OF ok]
  have b: "b \<in> set (rs_outbox st)" "claimable now b" using find_Some_iff_mem [OF Some] by simp_all
  have boxes: "alter (claimable now) (lease_box now w n) (rs_outbox st)
      = alter (\<lambda>c. ob_publication c = ob_publication b) (lease_box now w n) (rs_outbox st)"
    by (rule alter_found [OF d(2) Some])
  define f where "f = (if require_row pu_id (ob_publication b) ''publication'' (rs_publications st) \<in> range Inl
    then (\<lambda>p. p) else start_publication now)"
  have f: "pu_id (f p) = pu_id p" "pu_status (f p) = pu_status p" for p by (simp_all add: f_def start_publication_def)
  have only: "c = b" if "c \<in> set (rs_outbox st)" "ob_publication c = ob_publication b" for c
    using same_key [OF d(2) that(1) b(1)] that(2) by simp
  have "pub_effect now (Some w) (rs_publications st) (rs_outbox st)
      (alter (\<lambda>p. pu_id p = ob_publication b) f (rs_publications st))
      (alter (\<lambda>c. ob_publication c = ob_publication b) (lease_box now w n) (rs_outbox st))"
  proof (rule at)
    fix p c
    assume "p \<in> set (rs_publications st)" "c \<in> set (rs_outbox st)" "pu_id p = ob_publication b"
      "ob_publication c = ob_publication b" "resting (pu_status (f p))"
    then have "ob_status b = Box_completed" using publications_okD(3) [OF ok] b(1) f(2) by simp
    then show "ob_status (lease_box now w n c) = Box_completed" using b(2) by (simp add: claimable_def)
  next
    fix c assume "c \<in> set (rs_outbox st)" "ob_publication c = ob_publication b"
    then have "c = b" by (rule only)
    then show "\<not> leased_to_other now (Some w) c"
      using b(2) by (auto simp: leased_to_other_def claimable_def split: option.splits)
  qed (simp_all add: f lease_box_def)
  moreover have "rs_publications (snd (claim_publication now w n st)) = alter (\<lambda>p. pu_id p = ob_publication b) f (rs_publications st)"
    using Some by (auto simp: claim_publication_def Let_def f_def alter_ident require_row_def split: option.split dest: find_row_Some)
  moreover have "rs_outbox (snd (claim_publication now w n st)) = alter (claimable now) (lease_box now w n) (rs_outbox st)"
    using Some by (simp add: claim_publication_def Let_def split: sum.split)
  ultimately show ?thesis by (simp add: boxes)
qed

text \<open>Every other call changes at most the rows of one publication that it names.\<close>

definition effect_at ::
  "instant \<Rightarrow> string option \<Rightarrow> release_store \<Rightarrow> release_store \<Rightarrow> bool" where
  "effect_at now w st st' \<longleftrightarrow>
     pub_effect now w (rs_publications st) (rs_outbox st) (rs_publications st') (rs_outbox st')"

lemma effect_same: "rs_publications st' = rs_publications st \<Longrightarrow> rs_outbox st' = rs_outbox st \<Longrightarrow> effect_at now w st st'"
  by (simp add: effect_at_def quiet)

lemma cancel_effect:
  assumes ok: "publications_ok (rs_publications st) (rs_outbox st)"
  shows "effect_at now w st (snd (cancel_unstarted now a i actor st))"
proof (cases "snd (cancel_unstarted now a i actor st) = st")
  case False
  define f where "f = (\<lambda>p. update_columns [(''error_code'', PStr ''cancelled_by_owner''),
      (''error_message'', PStr ''Publication cancelled before processing'')]
    (p\<lparr>pu_status := Pub_rolled_back, pu_completed_at := Some now, pu_updated_at := now\<rparr>))"
  have f: "pu_id (f p) = pu_id p" for p by (simp add: f_def)
  obtain b where b: "find_row ob_publication i (rs_outbox st) = Some b" "ob_status b = Box_queued" and
    eff: "rs_publications (snd (cancel_unstarted now a i actor st)) = alter (\<lambda>p. pu_id p = i) f (rs_publications st)"
    "rs_outbox (snd (cancel_unstarted now a i actor st))
       = alter (\<lambda>b. ob_publication b = i) (free_box Box_completed now) (rs_outbox st)"
    using False by (auto simp: cancel_unstarted_def Let_def f_def split: option.splits if_splits)
  have "\<not> leased_to_other now w c" if "c \<in> set (rs_outbox st)" "ob_publication c = i" for c
    using found_only [OF publications_okD(2) [OF ok] b(1) that] b(2) by (simp add: leased_to_other_def)
  then show ?thesis unfolding effect_at_def eff by (intro at) (simp_all add: f free_box_def)
qed (simp add: effect_same)

lemma checkpoint_effect:
  assumes ok: "publications_ok (rs_publications st) (rs_outbox st)"
  shows "effect_at now (Some w) st (snd (checkpoint_publication now a x i w e d st))"
proof (cases "snd (checkpoint_publication now a x i w e d st) = st")
  case False
  then obtain p where p: "find_row pu_id i (rs_publications st) = Some p" "pu_status p = field_phase x"
      "owns_lease now st i w" and
    eff: "rs_publications (snd (checkpoint_publication now a x i w e d st))
       = alter (\<lambda>p. pu_id p = i) (record_checkpoint now x d) (rs_publications st)"
    "rs_outbox (snd (checkpoint_publication now a x i w e d st)) = rs_outbox st"
    by (auto simp: checkpoint_publication_def split: option.splits if_splits)
  note d = publications_okD(1,2) [OF ok]
  have "\<not> resting (pu_status p)" using p(2) by (cases x) (simp_all add: resting_def done_status_def)
  then have rest: "\<not> resting (pu_status (record_checkpoint now x d q))" if "q \<in> set (rs_publications st)" "pu_id q = i" for q
    using found_only [OF d(1) p(1) that] by (simp add: record_checkpoint_def)
  have "\<not> leased_to_other now (Some w) c" if "c \<in> set (rs_outbox st)" "ob_publication c = i" for c
    by (rule owns_not_other [OF d(2) p(3) [unfolded owns_lease_def] that])
  then have "pub_effect now (Some w) (rs_publications st) (rs_outbox st)
      (alter (\<lambda>p. pu_id p = i) (record_checkpoint now x d) (rs_publications st))
      (alter (\<lambda>b. ob_publication b = i) (\<lambda>b. b) (rs_outbox st))"
    using rest by (intro at) (auto simp: record_checkpoint_def)
  then show ?thesis by (simp add: effect_at_def eff alter_ident)
qed (simp add: effect_same)

lemma renew_effect:
  assumes ok: "publications_ok (rs_publications st) (rs_outbox st)"
  shows "effect_at now (Some w) st (snd (renew_publication_lease now i w n st))"
proof (cases "owns_lease now st i w")
  case True
  note d = publications_okD(1,2) [OF ok]
  have "pub_effect now (Some w) (rs_publications st) (rs_outbox st)
      (alter (\<lambda>p. pu_id p = i) (\<lambda>p. p) (rs_publications st))
      (alter (\<lambda>b. ob_publication b = i) (\<lambda>b. b\<lparr>ob_until := Some (now + seconds n)\<rparr>) (rs_outbox st))"
  proof (rule at)
    fix c assume "c \<in> set (rs_outbox st)" "ob_publication c = i"
    then show "\<not> leased_to_other now (Some w) c" by (rule owns_not_other [OF d(2) True [unfolded owns_lease_def]])
  next
    fix p b assume "p \<in> set (rs_publications st)" "b \<in> set (rs_outbox st)" "pu_id p = i" "ob_publication b = i"
      "resting (pu_status p)"
    then show "ob_status (b\<lparr>ob_until := Some (now + seconds n)\<rparr>) = Box_completed"
      using publications_okD(3) [OF ok] by simp
  qed simp_all
  then show ?thesis using True by (simp add: effect_at_def renew_publication_lease_def alter_ident)
qed (simp add: effect_same renew_publication_lease_def)

lemma transition_effect:
  assumes ok: "publications_ok (rs_publications st) (rs_outbox st)"
  shows "effect_at now (Some w) st (snd (transition_publication now a i e s u w st))"
proof (cases "snd (transition_publication now a i e s u w st) = st")
  case False
  note d = publications_okD(1,2) [OF ok]
  let ?g = "free_box (if done_status s \<or> s = Pub_awaiting then Box_completed else Box_queued) now"
  obtain p where p: "find_row pu_id i (rs_publications st) = Some p" "pu_status p = e"
      "e \<in> {Pub_failed, Pub_awaiting} \<or> owns_lease now st i w"
    using False by (auto simp: transition_publication_def split: option.splits if_splits)
  have eff: "rs_publications (snd (transition_publication now a i e s u w st))
       = alter (\<lambda>p. pu_id p = i) (move_publication now s u) (rs_publications st)"
    "rs_outbox (snd (transition_publication now a i e s u w st)) = alter (\<lambda>b. ob_publication b = i) ?g (rs_outbox st)"
  proof -
    have "alter (\<lambda>b. ob_publication b = i) ?g (rs_outbox st) = rs_outbox st"
      if "find_row ob_publication i (rs_outbox st) = None"
      using that by (intro alter_id) (auto simp: find_row_None)
    then show "rs_publications (snd (transition_publication now a i e s u w st))
       = alter (\<lambda>p. pu_id p = i) (move_publication now s u) (rs_publications st)"
      "rs_outbox (snd (transition_publication now a i e s u w st)) = alter (\<lambda>b. ob_publication b = i) ?g (rs_outbox st)"
      using p by (auto simp: transition_publication_def Let_def split: option.split)
  qed
  have free: "\<not> leased_to_other now (Some w) c" if c: "c \<in> set (rs_outbox st)" "ob_publication c = i" for c
  proof (cases "owns_lease now st i w")
    case True
    then show ?thesis using owns_not_other [OF d(2) _ c] by (simp add: owns_lease_def)
  next
    case False
    then have "resting (pu_status p)" using p(2,3) by (auto simp: resting_def done_status_def)
    then have "ob_status c = Box_completed"
      using publications_okD(3) [OF ok, of p c] find_row_Some [OF p(1)] c by simp
    then show ?thesis by (simp add: leased_to_other_def)
  qed
  show ?thesis unfolding effect_at_def eff
    by (rule at) (use free in \<open>auto simp: free_box_def resting_def\<close>)
qed (simp add: effect_same)

lemma resume_effect:
  assumes ok: "publications_ok (rs_publications st) (rs_outbox st)"
  shows "effect_at now w st (snd (resume_authorization now i actor st))"
proof (cases "snd (resume_authorization now i actor st) = st")
  case False
  note d = publications_okD(1,2) [OF ok]
  let ?f = "\<lambda>p. (update_columns [(''error_code'', PNone), (''error_message'', PNone)] p)
      \<lparr>pu_status := Pub_verifying, pu_created_by := actor, pu_updated_at := now\<rparr>"
  let ?g = "free_box Box_queued now"
  obtain p where p: "find_row pu_id i (rs_publications st) = Some p" "pu_status p = Pub_awaiting"
    using False by (auto simp: resume_authorization_def require_row_def split: option.splits if_splits)
  have none: "alter (\<lambda>b. ob_publication b = i) ?g (rs_outbox st) = rs_outbox st"
    if "find_row ob_publication i (rs_outbox st) = None"
    using that by (intro alter_id) (auto simp: find_row_None)
  have eff: "rs_publications (snd (resume_authorization now i actor st)) = alter (\<lambda>p. pu_id p = i) ?f (rs_publications st)"
    "rs_outbox (snd (resume_authorization now i actor st)) = alter (\<lambda>b. ob_publication b = i) ?g (rs_outbox st)"
    using p none by (auto simp: resume_authorization_def require_row_def Let_def split: option.split)
  have "\<not> leased_to_other now w c" if c: "c \<in> set (rs_outbox st)" "ob_publication c = i" for c
  proof -
    have "ob_status c = Box_completed"
      using publications_okD(3) [OF ok, of p c] find_row_Some [OF p(1)] p(2) c by (simp add: resting_def)
    then show ?thesis by (simp add: leased_to_other_def)
  qed
  then show ?thesis unfolding effect_at_def eff
    by (intro at) (auto simp: free_box_def resting_def done_status_def)
qed (simp add: effect_same)

lemma perform_pub_effect:
  assumes "publications_ok (rs_publications st) (rs_outbox st)"
  shows "effect_at (call_time c) (call_worker c) st (perform c st)"
  using claim_effect [OF assms] cancel_effect [OF assms] checkpoint_effect [OF assms] renew_effect [OF assms]
    transition_effect [OF assms] resume_effect [OF assms]
  by (cases c) (simp_all add: effect_same, simp add: effect_at_def)

section \<open>Leases are exclusive\<close>

lemma pub_effect_keeps:
  assumes "pub_effect now w ps bs ps' bs'" "publications_ok ps bs"
  shows "publications_ok ps' bs'"
  using assms(1)
proof cases
  case (at f g j)
  note d = publications_okD(1,2) [OF assms(2)]
  have "map pu_id ps' = map pu_id ps" "map ob_publication bs' = map ob_publication bs"
    unfolding at(1,2) by (simp_all add: alter_keys at(3,4))
  moreover have "ob_status b = Box_completed"
    if p: "p \<in> set ps'" and b: "b \<in> set bs'" and same: "ob_publication b = pu_id p" "resting (pu_status p)" for p b
  proof (cases "pu_id p = j")
    case True
    obtain q where q: "q \<in> set ps" "p = f q" "pu_id q = j"
      using p True at(3) unfolding at(1) alter_unique [OF d(1)] by auto
    obtain c where c: "c \<in> set bs" "b = g c" "ob_publication c = j"
      using b True same(1) at(4) unfolding at(2) alter_unique [OF d(2)] by auto
    show ?thesis using at(5) [OF q(1) c(1) q(3) c(3)] same(2) q(2) c(2) by simp
  next
    case False
    then have "p \<in> set ps" using p at(3) unfolding at(1) alter_unique [OF d(1)] by auto
    moreover have "b \<in> set bs" using b False same(1) at(4) unfolding at(2) alter_unique [OF d(2)] by auto
    ultimately show ?thesis using publications_okD(3) [OF assms(2)] same by blast
  qed
  ultimately show ?thesis using d by (auto simp: publications_ok_def)
qed (use assms(2) in simp)

lemma run_publications:
  assumes "store_run st cs st'" "publications_ok (rs_publications st) (rs_outbox st)"
  shows "publications_ok (rs_publications st') (rs_outbox st')"
  by (rule run_invariant [OF assms(1), where Q = "\<lambda>u. publications_ok (rs_publications u) (rs_outbox u)"])
    (use assms(2) pub_effect_keeps perform_pub_effect [unfolded effect_at_def] in blast)+

lemma effect_respects:
  assumes "pub_effect now w ps bs ps' bs'" "b \<in> set bs" "leased_to_other now w b"
  shows "b \<in> set bs' \<and> find_row pu_id (ob_publication b) ps' = find_row pu_id (ob_publication b) ps"
  using assms(1)
proof cases
  case (at f g j)
  have "ob_publication b \<noteq> j" using at(6) assms(2,3) by blast
  then show ?thesis using assms(2) at(1-4) by (simp add: alter_other find_row_alter)
qed (use assms(2) in simp)

text \<open>
  C38. While the lease of a publication lasts, no call of another worker and no administrator
  changes the publication or its place in the queue, in any run.
\<close>

theorem lease_exclusive:
  assumes "store_run st cs st'" "publications_ok (rs_publications st) (rs_outbox st)"
    "b \<in> set (rs_outbox st)" "ob_status b = Box_leased" "ob_owner b = Some w" "ob_until b = Some t"
    "\<forall>c \<in> set cs. call_worker c \<noteq> Some w \<and> call_time c \<le> t"
  shows "b \<in> set (rs_outbox st')
    \<and> find_row pu_id (ob_publication b) (rs_publications st') = find_row pu_id (ob_publication b) (rs_publications st)"
  using assms(1,2,3,7)
proof (induction rule: store_run.induct)
  case (call st cs u c)
  have u: "publications_ok (rs_publications u) (rs_outbox u)" by (rule run_publications [OF call.hyps(1) call.prems(1)])
  have IH: "b \<in> set (rs_outbox u)"
    "find_row pu_id (ob_publication b) (rs_publications u) = find_row pu_id (ob_publication b) (rs_publications st)"
    using call.IH call.prems by simp_all
  have "leased_to_other (call_time c) (call_worker c) b"
    using assms(4-6) call.prems(3) by (auto simp: leased_to_other_def)
  from effect_respects [OF perform_pub_effect [OF u, unfolded effect_at_def] IH(1) this] show ?case using IH(2) by simp
qed simp

end
