(* ===== verification/Release_Probes.thy ===== *)
theory Release_Probes
  imports Release_Leases Probe_Progress
begin

text \<open>
  Probes of a publication and its store together: the allowance of probe requests is never exceeded,
  and the checkpoints of a verification, persisted in the store by
  \<open>services/gateway_publication_worker.py\<close>, keep its steps from running twice.
\<close>

section \<open>The allowance of probe requests\<close>

definition probe_index :: "dict \<Rightarrow> pv" where
  "probe_index d = (case dfield d ''probe_request'' of PDict q \<Rightarrow> dfield q ''request_index'' | _ \<Rightarrow> PNone)"

lemma probe_index_detail [simp]: "probe_index (probe_detail m e n l) = PInt (int n + 1)"
  "has_key (probe_detail m e n l) ''probe_request''"
  by (simp_all add: probe_index_def probe_detail_def dfield_def has_key_def)

lemma probe_rows_snoc: "probe_rows i (rows @ [a]) = probe_rows i rows @
    (if au_subject a = i \<and> has_key (au_detail a) ''probe_request'' then [a] else [])"
  by (simp add: probe_rows_def)

text \<open>What one more call adds to the probe requests of a publication or an operation.\<close>

definition adds_probe :: "uuid \<Rightarrow> 's audit_row list \<Rightarrow> 's audit_row list \<Rightarrow> int \<Rightarrow> bool" where
  "adds_probe i rows rows' limit \<longleftrightarrow> int (length (probe_rows i rows)) < limit
     \<and> (\<exists>a. probe_rows i rows' = probe_rows i rows @ [a] \<and> probe_index (au_detail a) = PInt (int (length (probe_rows i rows)) + 1))"

fun publication_limit :: "uuid \<Rightarrow> call \<Rightarrow> int option" where
  "publication_limit i (Reserve_publication_probe now a j w l m e) = (if j = i then Some l else None)"
| "publication_limit i c = None"

fun operation_limit :: "uuid \<Rightarrow> call \<Rightarrow> int option" where
  "operation_limit i (Reserve_operation_probe now a j w l m e) = (if j = i then Some l else None)"
| "operation_limit i c = None"

lemma probe_rows_plain:
  "\<not> has_key d ''probe_request'' \<Longrightarrow> probe_rows i (rs_audit (audit_publication a j s t w d now st)) = probe_rows i (rs_audit st)"
  by (simp add: audit_publication_def probe_rows_snoc)

lemma same_audit [simp]:
  "rs_audit (drop_secret i st) = rs_audit st" "rs_audit (put_box i g st) = rs_audit st"
  "rs_audit (put_publication i h st) = rs_audit st" "rs_audit (put_operation i k st) = rs_audit st"
  "rs_audit (audit_operation a i x t w d now st) = rs_audit st"
  by (simp_all add: drop_secret_def put_box_def put_publication_def put_operation_def audit_operation_def)

lemma field_name_not_probe [simp]: "field_name x \<noteq> ''probe_request''" "''probe_request'' \<noteq> field_name x"
  by (cases x; simp)+

lemma publication_probes:
  assumes "sound_call c st"
  shows "probe_rows i (rs_audit (perform c st)) = probe_rows i (rs_audit st)
    \<or> (\<exists>l. publication_limit i c = Some l \<and> adds_probe i (rs_audit st) (rs_audit (perform c st)) l)"
proof (cases c)
  case (Reserve_publication_probe now a j w l m e)
  show ?thesis
  proof (cases "perform c st = st")
    case False
    let ?n = "length (probe_rows j (rs_audit st))"
    have eff: "perform c st = audit_publication a j Pub_verifying Pub_verifying w (probe_detail m e ?n l) now st"
      and n: "int ?n < l"
      using False Reserve_publication_probe
      by (auto simp: reserve_publication_probe_def Let_def split: option.splits if_splits)
    show ?thesis
    proof (cases "j = i")
      case True
      then have "adds_probe i (rs_audit st) (rs_audit (perform c st)) l"
        using n unfolding eff adds_probe_def by (simp add: audit_publication_def probe_rows_snoc)
      then show ?thesis using True Reserve_publication_probe by simp
    next
      case False
      then show ?thesis unfolding eff by (simp add: audit_publication_def probe_rows_snoc)
    qed
  qed simp
next
  case (Cancel_unstarted now a j actor)
  then show ?thesis
    by (auto simp: cancel_unstarted_def Let_def probe_rows_plain has_key_def split: option.split)
next
  case (Checkpoint_publication now a x j w e d)
  then show ?thesis
    by (auto simp: checkpoint_publication_def probe_rows_plain has_key_def split: option.split)
next
  case (Transition_publication now a j s t u w)
  then have "\<not> has_key u ''probe_request''" using assms by simp
  then show ?thesis using Transition_publication
    by (auto simp: transition_publication_def Let_def probe_rows_plain split: option.split)
next
  case (Archive_publication now a j actor)
  then show ?thesis
    by (auto simp: archive_publication_def probe_rows_plain has_key_def split: option.split)
next
  case (Create_operation now j a rd g k actor t p cf v x)
  have "rs_audit (snd (queue_operation a x row st)) = rs_audit st" for row by (simp add: queue_operation_def)
  then show ?thesis using Create_operation by (simp add: create_operation_def split: sum.split option.split)
qed (simp_all add: claim_publication_def renew_publication_lease_def resume_authorization_def set_protection_def
    claim_operation_def transition_operation_def reserve_operation_probe_def renew_operation_lease_def
    save_snapshot_def save_gc_plan_def Let_def split: option.split sum.split list.split)

lemma same_op_audit [simp]: "rs_op_audit (put_operation i k st) = rs_op_audit st"
  by (simp add: put_operation_def)

lemma probe_rows_quiet:
  "\<not> has_key d ''probe_request'' \<Longrightarrow> probe_rows i (rs_op_audit (audit_operation a j s t w d now st)) = probe_rows i (rs_op_audit st)"
  by (simp add: audit_operation_def probe_rows_snoc)

lemma operation_probes:
  "probe_rows i (rs_op_audit (perform c st)) = probe_rows i (rs_op_audit st)
    \<or> (\<exists>l. operation_limit i c = Some l \<and> adds_probe i (rs_op_audit st) (rs_op_audit (perform c st)) l)"
proof (cases c)
  case (Reserve_operation_probe now a j w l m e)
  show ?thesis
  proof (cases "perform c st = st")
    case False
    let ?n = "length (probe_rows j (rs_op_audit st))"
    obtain s where eff: "perform c st = audit_operation a j (Some s) s w (probe_detail m e ?n l) now st"
      and n: "int ?n < l"
      using False Reserve_operation_probe
      by (auto simp: reserve_operation_probe_def Let_def split: option.splits if_splits)
    show ?thesis
    proof (cases "j = i")
      case True
      then have "adds_probe i (rs_op_audit st) (rs_op_audit (perform c st)) l"
        using n unfolding eff adds_probe_def by (simp add: audit_operation_def probe_rows_snoc)
      then show ?thesis using True Reserve_operation_probe by simp
    next
      case False
      then show ?thesis unfolding eff by (simp add: audit_operation_def probe_rows_snoc)
    qed
  qed simp
next
  case (Create_operation now j a rd g k actor t p cf v x)
  have "probe_rows i (rs_op_audit (snd (queue_operation a x row st))) = probe_rows i (rs_op_audit st)" for row
    by (simp add: queue_operation_def audit_operation_def probe_rows_snoc has_key_def)
  then show ?thesis using Create_operation by (simp add: create_operation_def split: sum.split option.split)
next
  case (Transition_operation now a j s t u w k)
  have "\<not> has_key u ''probe_request''" if "unsupported u = []"
    using that by (auto simp: has_key_def unsupported_def filter_empty_conv)
  then show ?thesis using Transition_operation
    by (auto simp: transition_operation_def Let_def probe_rows_quiet split: option.split)
next
  case (Claim_operation now w n)
  then show ?thesis by (simp add: claim_operation_def split: list.split)
next
  case (Renew_operation now j w n)
  then show ?thesis by (simp add: renew_operation_lease_def split: option.split)
qed simp_all

text \<open>Rows numbered from one, within the allowance.\<close>

definition within_allowance :: "int \<Rightarrow> 's audit_row list \<Rightarrow> bool" where
  "within_allowance limit rows \<longleftrightarrow> int (length rows) \<le> limit
     \<and> map (\<lambda>a. probe_index (au_detail a)) rows = map (\<lambda>n. PInt (int n + 1)) [0..<length rows]"

lemma adds_within:
  "adds_probe i rows rows' l \<Longrightarrow> l \<le> limit \<Longrightarrow> within_allowance limit (probe_rows i rows) \<Longrightarrow>
   within_allowance limit (probe_rows i rows')"
  by (auto simp: adds_probe_def within_allowance_def)

text \<open>
  C39. The probe requests reserved for a publication or a release operation never exceed the
  largest allowance they were reserved under, and are numbered from one without gaps.
\<close>

theorem probe_allowance:
  assumes "store_run st cs st'" "0 \<le> limit" "probe_rows i (rs_audit st) = []" "probe_rows i (rs_op_audit st) = []"
    "\<forall>c \<in> set cs. \<forall>l. publication_limit i c = Some l \<or> operation_limit i c = Some l \<longrightarrow> l \<le> limit"
  shows "within_allowance limit (probe_rows i (rs_audit st')) \<and> within_allowance limit (probe_rows i (rs_op_audit st'))"
proof (rule run_invariant [OF assms(1)])
  show "within_allowance limit (probe_rows i (rs_audit st)) \<and> within_allowance limit (probe_rows i (rs_op_audit st))"
    using assms(2-4) by (simp add: within_allowance_def)
next
  fix c u
  assume c: "c \<in> set cs" "sound_call c u"
    and u: "within_allowance limit (probe_rows i (rs_audit u)) \<and> within_allowance limit (probe_rows i (rs_op_audit u))"
  have "within_allowance limit (probe_rows i (rs_audit (perform c u)))"
    using publication_probes [OF c(2), of i] adds_within assms(5) c(1) u by metis
  moreover have "within_allowance limit (probe_rows i (rs_op_audit (perform c u)))"
    using operation_probes [of i c u] adds_within assms(5) c(1) u by metis
  ultimately show "within_allowance limit (probe_rows i (rs_audit (perform c u)))
      \<and> within_allowance limit (probe_rows i (rs_op_audit (perform c u)))" by simp
qed

section \<open>Checkpoints in the store\<close>

text \<open>\<open>checkpoint.model_dump(mode="json")\<close>, and the checkpoint a stored document denotes.\<close>

fun step_text :: "step_state \<Rightarrow> string" where
  "step_text Step_started = ''started''"
| "step_text Step_passed = ''passed''"

definition checkpoint_dump :: "checkpoint \<Rightarrow> dict" where
  "checkpoint_dump c = [(''version'', PInt 1), (''context_sha256'', PStr (ck_context c)),
     (''steps'', PDict (map (\<lambda>(k, s). (k, PStr (step_text s))) (ck_steps c)))]"

definition read_step :: "pv \<Rightarrow> step_state" where
  "read_step v = (if v = PStr ''passed'' then Step_passed else Step_started)"

definition read_checkpoint :: "pv \<Rightarrow> checkpoint option" where
  "read_checkpoint v =
     (case v of
        PDict d \<Rightarrow> (case (dfield d ''context_sha256'', dfield d ''steps'') of
            (PStr s, PDict steps) \<Rightarrow> Some \<lparr>ck_context = s, ck_steps = map (\<lambda>(k, v). (k, read_step v)) steps\<rparr>
          | _ \<Rightarrow> None)
      | _ \<Rightarrow> None)"

definition stored_checkpoint :: "uuid \<Rightarrow> release_store \<Rightarrow> checkpoint option" where
  "stored_checkpoint i st =
     (case find_row pu_id i (rs_publications st) of
        None \<Rightarrow> None
      | Some p \<Rightarrow> read_checkpoint (dfield (pu_manifest p) ''probe_verification''))"

text \<open>\<open>persist_probe_progress\<close> of the publication worker: heartbeat, then checkpoint under the lease.\<close>

type_synonym ('c, 'l) site = "release_store \<times> 'c \<times> 'l"

definition persist_checkpoint ::
  "(('c, 'l) site, unit) step option \<Rightarrow> ('c \<Rightarrow> instant \<times> uuid \<times> 'c) \<Rightarrow> uuid \<Rightarrow> string
     \<Rightarrow> checkpoint option \<Rightarrow> checkpoint \<Rightarrow> (('c, 'l) site, unit) step" where
  "persist_checkpoint hb env i worker expected c =
     bindS (opt_or hb (doneS ())) (\<lambda>_ (st, x, l).
       case env x of (now, fresh, x') \<Rightarrow>
         (case checkpoint_publication now fresh Probe_verification i worker (map_option checkpoint_dump expected)
                 (checkpoint_dump c) st of
            (Inl e, st') \<Rightarrow> (Inl (Raised e), (st', x', l))
          | (Inr True, st') \<Rightarrow> (Inr (), (st', x', l))
          | (Inr False, st') \<Rightarrow>
              (Inl (Raised (RuntimeError ''Publication probe checkpoint or lease changed'')), (st', x', l))))"

text \<open>The renewal of the lease, which the heartbeat of \<open>WorkerLease\<close> calls.\<close>

definition renew_lease :: "('c \<Rightarrow> instant \<times> uuid \<times> 'c) \<Rightarrow> uuid \<Rightarrow> string \<Rightarrow> int \<Rightarrow> (('c, 'l) site, bool) step" where
  "renew_lease env i worker n s =
     (case s of (st, x, l) \<Rightarrow> case env x of (now, fresh, x') \<Rightarrow>
        (case renew_publication_lease now i worker n st of
           (Inl e, st') \<Rightarrow> (Inl (Raised e), (st', x', l))
         | (Inr b, st') \<Rightarrow> (Inr b, (st', x', l))))"

definition store_view :: "uuid \<Rightarrow> ('l \<Rightarrow> string list) \<Rightarrow> ('l \<Rightarrow> string set) \<Rightarrow> ('c, 'l) site probe_view" where
  "store_view i calls confirmed =
     \<lparr>pv_store = (\<lambda>(st, x, l). stored_checkpoint i st), pv_calls = (\<lambda>(st, x, l). calls l),
      pv_confirmed = (\<lambda>(st, x, l). confirmed l)\<rparr>"

lemma eq_strD: "py_eq (PStr s) v \<Longrightarrow> v = PStr s"
  by (cases v) (auto simp: scalar_eq_def)

lemma eq_dictD:
  assumes "py_eq (PDict xs) v"
  obtains ys where "v = PDict ys" "length xs = length ys"
    "\<And>k x. (k, x) \<in> set xs \<Longrightarrow> \<exists>y. map_of ys k = Some y \<and> py_eq x y"
proof (cases v)
  case (PDict ys)
  then have "\<exists>y. map_of ys k = Some y \<and> py_eq x y" if "(k, x) \<in> set xs" for k x
    using assms that by (auto simp: list_all_iff split: option.splits)
  then show thesis using that PDict assms by simp
qed (use assms in auto)

lemma same_entries:
  assumes "distinct (map fst xs)" "length xs = length ys" "\<And>k x. (k, x) \<in> set xs \<Longrightarrow> map_of ys k = Some x"
  shows "map_of ys = map_of xs"
proof
  fix k
  have sub: "fst ` set xs \<subseteq> fst ` set ys" using assms(3) by (force dest: map_of_SomeD)
  have "card (fst ` set ys) \<le> length ys" by (metis card_length length_map list.set_map)
  also have "\<dots> = card (fst ` set xs)" using assms(1,2) by (metis distinct_card length_map list.set_map)
  finally have keys: "fst ` set xs = fst ` set ys" using sub by (intro card_seteq) auto
  show "map_of ys k = map_of xs k"
  proof (cases "map_of xs k")
    case None
    then have "k \<notin> fst ` set ys" using keys by (simp add: map_of_eq_None_iff)
    then have "map_of ys k = None" by (simp only: map_of_eq_None_iff not_False_eq_True)
    then show ?thesis using None by simp
  next
    case (Some x)
    then show ?thesis using assms(3) map_of_SomeD [OF Some] by simp
  qed
qed

lemma read_step_text [simp]: "read_step (PStr (step_text s)) = s"
  by (cases s) (simp_all add: read_step_def)

lemma read_dump: "read_checkpoint (PDict (checkpoint_dump c)) = Some c"
  by (simp add: read_checkpoint_def checkpoint_dump_def dfield_def o_def case_prod_unfold)

text \<open>A stored document that equals the expected one denotes the expected checkpoint.\<close>

lemma read_expected:
  assumes eq: "py_eq (PDict (checkpoint_dump e)) v" and e: "sound_checkpoint e"
  shows "same_stored (read_checkpoint v) (Some e)"
proof -
  obtain d where d: "v = PDict d" "length (checkpoint_dump e) = length d"
    "\<And>k x. (k, x) \<in> set (checkpoint_dump e) \<Longrightarrow> \<exists>y. map_of d k = Some y \<and> py_eq x y"
    by (rule eq_dictD [OF eq]) blast
  have ctx: "dfield d ''context_sha256'' = PStr (ck_context e)"
    using d(3) [of "''context_sha256''" "PStr (ck_context e)"] eq_strD by (force simp: checkpoint_dump_def dfield_def)
  let ?steps = "map (\<lambda>(k, s). (k, PStr (step_text s))) (ck_steps e)"
  obtain y where y: "map_of d ''steps'' = Some y" "py_eq (PDict ?steps) y"
    using d(3) [of "''steps''" "PDict ?steps"] by (auto simp: checkpoint_dump_def)
  obtain ys where ys: "y = PDict ys" "length ?steps = length ys"
    "\<And>k x. (k, x) \<in> set ?steps \<Longrightarrow> \<exists>y. map_of ys k = Some y \<and> py_eq x y"
    by (rule eq_dictD [OF y(2)]) blast
  have keys: "map fst ?steps = map fst (ck_steps e)" by (simp add: o_def case_prod_unfold)
  have "map_of ys k = Some x" if "(k, x) \<in> set ?steps" for k x
    using ys(3) [OF that] that eq_strD by fastforce
  then have "map_of ys = map_of ?steps"
  proof (intro same_entries)
    show "distinct (map fst ?steps)" unfolding keys using e by (simp add: sound_checkpoint_def)
  qed (use ys(2) in simp_all)
  then have "map_of (map (\<lambda>(k, v). (k, read_step v)) ys) = map_of (ck_steps e)"
    by (simp add: map_of_map fun_eq_iff option.map_comp o_def option.map_ident)
  then show ?thesis
    using d(1) ctx y(1) ys(1) by (simp add: read_checkpoint_def same_stored_def dfield_def)
qed

section \<open>No step is verified twice over the store\<close>

lemma checkpoint_stored:
  assumes run: "checkpoint_publication now fresh Probe_verification i worker e d st = (r, st')"
  shows "\<exists>b. r = Inr b" "r = Inr False \<Longrightarrow> st' = st"
    "r = Inr True \<Longrightarrow> (\<exists>p. find_row pu_id i (rs_publications st) = Some p
       \<and> py_eq (expected_value e) (dfield (pu_manifest p) ''probe_verification''))
     \<and> stored_checkpoint i st' = read_checkpoint (PDict d)"
proof -
  show "\<exists>b. r = Inr b" "r = Inr False \<Longrightarrow> st' = st"
    using run by (auto simp: checkpoint_publication_def split: option.splits if_splits)
  assume "r = Inr True"
  then obtain p where p: "find_row pu_id i (rs_publications st) = Some p"
      "py_eq (expected_value e) (dfield (pu_manifest p) ''probe_verification'')"
    and st': "rs_publications st' = alter (\<lambda>p. pu_id p = i) (record_checkpoint now Probe_verification d) (rs_publications st)"
    using run by (auto simp: checkpoint_publication_def split: option.splits if_splits)
  have "find_row pu_id i (rs_publications st') = Some (record_checkpoint now Probe_verification d p)"
    unfolding st' by (simp add: find_row_alter record_checkpoint_def p(1))
  then show "(\<exists>p. find_row pu_id i (rs_publications st) = Some p
       \<and> py_eq (expected_value e) (dfield (pu_manifest p) ''probe_verification''))
     \<and> stored_checkpoint i st' = read_checkpoint (PDict d)"
    using p by (simp add: stored_checkpoint_def record_checkpoint_def dfield_dput)
qed

lemma expected_stored:
  assumes "find_row pu_id i (rs_publications st) = Some p"
    "py_eq (expected_value (map_option checkpoint_dump e)) (dfield (pu_manifest p) ''probe_verification'')"
    "opt_all sound_checkpoint e"
  shows "same_stored (stored_checkpoint i st) e"
proof (cases e)
  case None
  then have "dfield (pu_manifest p) ''probe_verification'' = PNone"
    using assms(2) by (cases "dfield (pu_manifest p) ''probe_verification''") (auto simp: expected_value_def scalar_eq_def)
  then show ?thesis using None assms(1) by (simp add: stored_checkpoint_def read_checkpoint_def same_stored_def)
next
  case (Some c)
  then show ?thesis
    using read_expected [of c] assms by (simp add: stored_checkpoint_def expected_value_def opt_all_def)
qed

lemma same_stored_refl: "same_stored x x"
  by (simp add: same_stored_def)

lemma persist_lawful:
  assumes hb: "\<And>h s. hb = Some h \<Longrightarrow> same_view (store_view i calls confirmed) s (snd (h s))"
    and ps: "ps_persist ps = persist_checkpoint hb env i worker"
  shows "persist_law ps (store_view i calls confirmed)"
  unfolding persist_law_def
proof (intro allI impI)
  let ?V = "store_view i calls confirmed"
  fix e c s r s'
  assume a: "ps_persist ps e c s = (r, s') \<and> opt_all sound_checkpoint e \<and> sound_checkpoint c"
  obtain q u where h: "opt_or hb (doneS ()) s = (q, u)" by (metis prod.exhaust)
  have view: "same_view ?V s u"
  proof (cases hb)
    case None
    then show ?thesis using h by (simp add: doneS_def same_view_def)
  next
    case (Some m)
    then have "m s = (q, u)" using h by simp
    then show ?thesis using hb [OF Some, of s] by simp
  qed
  obtain st x l where u: "u = (st, x, l)" by (metis prod.exhaust)
  show "pv_calls ?V s' = pv_calls ?V s \<and> pv_confirmed ?V s' = pv_confirmed ?V s
      \<and> (if r = Inr () then same_stored (pv_store ?V s) e \<and> same_stored (pv_store ?V s') (Some c)
         else pv_store ?V s' = pv_store ?V s \<or> (same_stored (pv_store ?V s) e \<and> same_stored (pv_store ?V s') (Some c)))"
  proof (cases q)
    case (Inl f)
    then have "r = Inl f" "s' = u" using a h by (simp_all add: ps persist_checkpoint_def bindS_def)
    then show ?thesis using view by (simp add: same_view_def)
  next
    case (Inr ok)
    obtain now fresh x' where env: "env x = (now, fresh, x')" by (metis prod.exhaust)
    obtain q2 st' where k: "checkpoint_publication now fresh Probe_verification i worker
        (map_option checkpoint_dump e) (checkpoint_dump c) st = (q2, st')" by force
    obtain b where b: "q2 = Inr b" using checkpoint_stored(1) [OF k] by blast
    have out: "r = (if b then Inr () else Inl (Raised (RuntimeError ''Publication probe checkpoint or lease changed'')))"
      "s' = (st', x', l)"
      using a h Inr u env k b by (auto simp: ps persist_checkpoint_def bindS_def split: bool.splits)
    show ?thesis
    proof (cases b)
      case True
      then obtain p where "find_row pu_id i (rs_publications st) = Some p"
          "py_eq (expected_value (map_option checkpoint_dump e)) (dfield (pu_manifest p) ''probe_verification'')"
        and stored: "stored_checkpoint i st' = Some c"
        using checkpoint_stored(3) [OF k] b by (auto simp: read_dump)
      then have "same_stored (stored_checkpoint i st) e" using expected_stored a by blast
      then show ?thesis
        using True out view u stored by (simp add: store_view_def same_view_def same_stored_refl split: prod.splits)
    next
      case False
      then have "st' = st" using checkpoint_stored(2) [OF k] b by simp
      then show ?thesis
        using False out view u by (simp add: store_view_def same_view_def split: prod.splits)
    qed
  qed
qed

lemma renew_lease_quiet: "same_view (store_view i calls confirmed) s (snd (renew_lease env j worker n s))"
  by (auto simp: renew_lease_def renew_publication_lease_def store_view_def same_view_def stored_checkpoint_def
      split: prod.split)

text \<open>The access of a worker to the checkpoints of publication \<open>i\<close>: its clock, and its heartbeat before each write.\<close>

definition lease_beat :: "('c \<Rightarrow> instant \<times> uuid \<times> 'c) \<Rightarrow> uuid \<Rightarrow> string \<Rightarrow> int \<Rightarrow> (('c, 'l) site, unit) step" where
  "lease_beat env i worker n = bindS (renew_lease env i worker n) (\<lambda>renewed.
     if renewed then doneS () else raiseS (Retryable ''Worker lease is no longer owned''))"

definition site_store ::
  "('c \<Rightarrow> instant \<times> uuid \<times> 'c) \<Rightarrow> ('c \<Rightarrow> int \<times> 'c) \<Rightarrow> uuid \<Rightarrow> string \<Rightarrow> int \<Rightarrow> ('c, 'l) site probe_store" where
  "site_store env tick i worker n =
     \<lparr>ps_clock = (\<lambda>(st, x, l). case tick x of (t, x') \<Rightarrow> (t, (st, x', l))),
      ps_persist = persist_checkpoint (Some (lease_beat env i worker n)) env i worker\<rparr>"

lemma lease_beat_quiet: "same_view (store_view i calls confirmed) s (snd (lease_beat env j worker n s))"
  using renew_lease_quiet [of i calls confirmed s env j worker n]
  by (auto simp: lease_beat_def bindS_def split: prod.split sum.split)

interpretation site: checkpoint_store "site_store env tick i worker n" "store_view i calls confirmed"
  for env :: "'c \<Rightarrow> instant \<times> uuid \<times> 'c" and tick :: "'c \<Rightarrow> int \<times> 'c" and i worker n
    and calls :: "'l \<Rightarrow> string list" and confirmed :: "'l \<Rightarrow> string set"
proof
  show "persist_law (site_store env tick i worker n) (store_view i calls confirmed)"
    by (rule persist_lawful [where hb = "Some (lease_beat env i worker n)"]) (auto simp: site_store_def lease_beat_quiet)
  show "clock_law (site_store env tick i worker n) (store_view i calls confirmed)"
    by (auto simp: clock_law_def site_store_def store_view_def same_view_def split: prod.split)
qed

definition store_worker :: "uuid \<Rightarrow> ('c, 'l) site probe_store \<Rightarrow> bool" where
  "store_worker i ps \<longleftrightarrow> (\<exists>env tick worker n. ps = site_store env tick i worker n)"

text \<open>
  C40. The checkpoints of a publication in the store, written under its lease by compare and set
  on the stored document, are a lawful store of checkpoints: workers that verify against it,
  however their leases pass from one to another, verify no step twice.
\<close>

theorem stored_probes_once:
  assumes "verify_law verify (store_view i calls confirmed)" "recover_law again (store_view i calls confirmed)"
    "stored_checkpoint i st = None" "calls l = []"
    "(probe_step (store_worker i) (store_view i calls confirmed) verify again)\<^sup>*\<^sup>* (st, x, l) (st', x', l')"
  shows "distinct (calls l') \<and> (\<forall>c k. stored_checkpoint i st' = Some c \<and> map_of (ck_steps c) k = Some Step_passed
    \<longrightarrow> k \<in> confirmed l')"
proof -
  let ?V = "store_view i calls confirmed"
  have laws: "probe_laws ps verify again ?V" if "store_worker i ps" for ps
    using that site.laws [OF assms(1,2)] unfolding store_worker_def by blast
  have "once ?V (st, x, l)" using assms(3,4) by (simp add: once_def steps_in_def store_view_def)
  then have "once ?V (st', x', l')" using laws by (intro steps_once [OF _ assms(5)])
  then show ?thesis by (auto simp: once_def steps_in_def store_view_def)
qed

section \<open>What is not audited\<close>

text \<open>
  The resumption of a publication that waits for an authorization moves it to the verification
  without a row in its audit, which the relational repository writes.
\<close>

theorem resume_not_audited:
  assumes "resume_authorization now i actor st = (Inr p, st')"
  shows "pu_status p = Pub_verifying \<and> rs_audit st' = rs_audit st
    \<and> (\<exists>q \<in> set (rs_publications st). pu_id q = i \<and> pu_status q = Pub_awaiting)"
  using assms find_row_Some [of pu_id i "rs_publications st"]
  by (auto simp: resume_authorization_def require_row_def Let_def split: option.splits if_splits)

section \<open>Latest snapshots\<close>

text \<open>The loop over all snapshots and the search for one publication agree.\<close>

definition later :: "snapshot \<Rightarrow> snapshot option \<Rightarrow> snapshot option" where
  "later s cur = (case cur of None \<Rightarrow> Some s | Some c \<Rightarrow> Some (if checked_key c < checked_key s then s else c))"

lemma newest_lookup:
  "map_of (newest requested rows seen) i =
     (if i \<in> set requested then fold later (filter (\<lambda>s. sn_publication s = i) rows) (map_of seen i) else map_of seen i)"
  by (induction rows arbitrary: seen) (auto simp: later_def update_conv' split: option.split)

lemma newest_distinct: "distinct (map fst seen) \<Longrightarrow> distinct (map fst (newest requested rows seen))"
  by (induction rows arbitrary: seen) (auto simp: distinct_update split: option.split)

lemma fold_later: "fold later rows (Some c) = Some (fold (\<lambda>x best. if checked_key best < checked_key x then x else best) rows c)"
  by (induction rows arbitrary: c) (auto simp: later_def)

lemma latest_snapshot_fold: "latest_snapshot i st = fold later (filter (\<lambda>s. sn_publication s = i) (rs_snapshots st)) None"
  by (cases "filter (\<lambda>s. sn_publication s = i) (rs_snapshots st)")
    (simp_all add: latest_snapshot_def fold_later later_def)

theorem latest_snapshots_agree:
  "set (latest_snapshots requested st) = {s. \<exists>i \<in> set requested. latest_snapshot i st = Some s}"
proof -
  let ?rows = "newest requested (rs_snapshots st) []"
  have look: "map_of ?rows i = (if i \<in> set requested then latest_snapshot i st else None)" for i
    by (simp add: newest_lookup latest_snapshot_fold)
  have d: "distinct (map fst ?rows)" by (simp add: newest_distinct)
  have "s \<in> snd ` set ?rows \<longleftrightarrow> (\<exists>i. map_of ?rows i = Some s)" for s
    using map_of_eq_Some_iff [OF d] by force
  then have "s \<in> set (latest_snapshots requested st) \<longleftrightarrow> (\<exists>i \<in> set requested. latest_snapshot i st = Some s)" for s
    unfolding latest_snapshots_def set_map look by (auto split: if_splits)
  then show ?thesis by blast
qed

end
