(* ===== verification/Release_Examples.thy ===== *)
theory Release_Examples
  imports Release_Probes "HOL-Library.Code_Target_Nat"
begin

text \<open>
  A store with one publication under a worker's lease, and one with the operations of a gateway: the
  runs on which the theorems about leases, operations, allowances and checkpoints apply.
\<close>

section \<open>Operations\<close>

definition bare :: release_store where
  "bare = \<lparr>rs_publications = [], rs_outbox = [], rs_audit = [], rs_secrets = [], rs_effective = [],
     rs_operations = [], rs_op_audit = [], rs_op_secrets = [], rs_protections = [], rs_protection_audit = [],
     rs_snapshots = [], rs_gc_plans = []\<rparr>"

definition no_provision :: "dict option \<Rightarrow> provision res" where
  "no_provision d = Inl (ValidationError ''SelfHostedGatewayProvisionSpec'')"

abbreviation create :: "instant \<Rightarrow> uuid \<Rightarrow> call" where
  "create now i \<equiv> Create_operation now i (''a-'' @ i) no_provision ''g-1'' Op_rollback ''ann'' (Some ''p-2'')
     (Some ''p-1'') None None None"

text \<open>A rollback that fails, while a second one is refused; then another one.\<close>

definition failing :: "call list" where
  "failing = [create 0 ''o-1'', create 1 ''o-2'', Claim_operation 2 ''w'' 60,
     Transition_operation 3 ''a-2'' ''o-1'' Op_queued Op_failed [(''error_code'', PStr ''broken'')] ''w'' False]"

definition retried :: "call list" where
  "retried = [create 4 ''o-3'', Claim_operation 5 ''v'' 60,
     Transition_operation 6 ''a-3'' ''o-3'' Op_queued Op_validating [] ''v'' False, Renew_operation 7 ''o-1'' ''w'' 60]"

lemma run_failing: "sound_calls failing bare" "sound_calls retried (fold perform failing bare)"
  "map op_status (rs_operations (fold perform failing bare)) = [Op_failed]"
  "map op_status (rs_operations (fold perform retried (fold perform failing bare))) = [Op_failed, Op_validating]"
  by code_simp+

abbreviation failed_store :: release_store where "failed_store \<equiv> fold perform failing bare"
abbreviation retried_store :: release_store where "retried_store \<equiv> fold perform retried failed_store"

lemma bare_run: "store_run bare failing failed_store" "store_run bare (failing @ retried) retried_store"
  "store_run failed_store retried retried_store"
  using store_run_append [OF store_run_fold [OF run_failing(1)] run_failing(2)]
    store_run_fold [OF run_failing(1)] store_run_fold [OF run_failing(2)] by simp_all

lemma bare_empty: "rs_operations bare = []" "rs_op_audit bare = []"
  by (simp_all add: bare_def)

lemma one_operation_in_progress_witness:
  "length (rs_operations retried_store) = 2 \<and> distinct (map op_id (rs_operations retried_store))"
  using one_operation_in_progress [OF bare_run(2) bare_empty] run_failing(4) by (metis length_Cons length_map list.size(3) numeral_2_eq_2)

lemma operation_audited_witness:
  "\<exists>r \<in> set (rs_operations failed_store). op_status r = Op_failed
     \<and> audit_path None (op_log (op_id r) (rs_op_audit failed_store)) Op_failed"
proof -
  obtain r where r: "r \<in> set (rs_operations failed_store)" "op_status r = Op_failed"
    using run_failing(3) by (metis list.set_intros(1) list.set_map image_iff)
  show ?thesis using operation_audited [OF bare_run(1) bare_empty r(1)] r by metis
qed

lemma operation_final_witness:
  "\<exists>r \<in> set (rs_operations retried_store). op_status r = Op_failed"
proof -
  obtain r where r: "r \<in> set (rs_operations failed_store)" "op_status r = Op_failed"
    using run_failing(3) by (metis list.set_intros(1) list.set_map image_iff)
  have "operations_ok (rs_operations failed_store) (rs_op_audit failed_store)"
    using run_operations [OF bare_run(1)] by (simp add: bare_empty operations_ok_Nil)
  from operation_final [OF bare_run(3) this r(1)] show ?thesis using r(2) by (auto simp: op_over_def)
qed

section \<open>A leased publication\<close>

definition verifying :: published where
  "verifying = \<lparr>pu_id = ''p-1'', pu_profile = ''g-1'', pu_status = Pub_verifying, pu_attempts = 1,
     pu_created_by = ''ann'', pu_created_at = 0, pu_started_at = Some 1, pu_completed_at = None, pu_updated_at = 1,
     pu_manifest = [], pu_columns = []\<rparr>"

definition held :: outbox where
  "held = \<lparr>ob_publication = ''p-1'', ob_status = Box_leased, ob_available_at = 0, ob_owner = Some ''w'',
     ob_until = Some 1000, ob_attempts = 1, ob_updated_at = 1\<rparr>"

definition leased_store :: release_store where
  "leased_store = bare\<lparr>rs_publications := [verifying], rs_outbox := [held]\<rparr>"

definition intruding :: "call list" where
  "intruding = [Claim_publication 5 ''v'' 60, Transition_publication 6 ''a-1'' ''p-1'' Pub_verifying Pub_failed [] ''v'',
     Checkpoint_publication 7 ''a-2'' Probe_verification ''p-1'' ''v'' None [], Cancel_unstarted 8 ''a-3'' ''p-1'' ''ann'',
     Resume_authorization 9 ''p-1'' ''ann'']"

lemma run_intruding: "sound_calls intruding leased_store" by code_simp

lemma leased_rows: "rs_publications leased_store = [verifying]" "rs_outbox leased_store = [held]"
  "rs_audit leased_store = []" "rs_op_audit leased_store = []"
  by (simp_all add: leased_store_def bare_def)

lemma lease_exclusive_witness:
  "held \<in> set (rs_outbox (fold perform intruding leased_store))
   \<and> find_row pu_id ''p-1'' (rs_publications (fold perform intruding leased_store)) = Some verifying"
proof -
  have "publications_ok (rs_publications leased_store) (rs_outbox leased_store)"
    by (simp add: publications_ok_def leased_rows verifying_def held_def resting_def done_status_def)
  moreover have "held \<in> set (rs_outbox leased_store)" "ob_status held = Box_leased" "ob_owner held = Some ''w''"
    "ob_until held = Some 1000" "\<forall>c \<in> set intruding. call_worker c \<noteq> Some ''w'' \<and> call_time c \<le> 1000"
    by (simp_all add: leased_rows held_def intruding_def)
  ultimately have "held \<in> set (rs_outbox (fold perform intruding leased_store))
    \<and> find_row pu_id (ob_publication held) (rs_publications (fold perform intruding leased_store))
      = find_row pu_id (ob_publication held) (rs_publications leased_store)"
    by (rule lease_exclusive [OF store_run_fold [OF run_intruding]])
  then show ?thesis by (simp add: leased_rows held_def find_row_def verifying_def)
qed

definition probing :: "call list" where
  "probing = [Reserve_publication_probe 5 ''a-1'' ''p-1'' ''w'' 2 ''GET'' ''e'', Reserve_publication_probe 6 ''a-2'' ''p-1'' ''w'' 2 ''GET'' ''e'',
     Reserve_publication_probe 7 ''a-3'' ''p-1'' ''w'' 2 ''GET'' ''e'']"

lemma run_probing: "sound_calls probing leased_store"
  "length (probe_rows ''p-1'' (rs_audit (fold perform probing leased_store))) = 2"
  by code_simp+

lemma probe_allowance_witness:
  "length (probe_rows ''p-1'' (rs_audit (fold perform probing leased_store))) = 2
   \<and> within_allowance 2 (probe_rows ''p-1'' (rs_audit (fold perform probing leased_store)))"
proof -
  have "probe_rows ''p-1'' (rs_audit leased_store) = []" "probe_rows ''p-1'' (rs_op_audit leased_store) = []"
    by (simp_all add: leased_rows probe_rows_def)
  moreover have "\<forall>c \<in> set probing. \<forall>l. publication_limit ''p-1'' c = Some l \<or> operation_limit ''p-1'' c = Some l \<longrightarrow> l \<le> 2"
    by (simp add: probing_def)
  ultimately show ?thesis
    using probe_allowance [OF store_run_fold [OF run_probing(1)], of 2 "''p-1''"] run_probing(2) by simp
qed

section \<open>Verification over the store\<close>

type_synonym site1 = "(int, string list \<times> string list) site"

definition env1 :: "int \<Rightarrow> instant \<times> uuid \<times> int" where "env1 x = (x, ''a-1'', x)"
definition tick1 :: "int \<Rightarrow> int \<times> int" where "tick1 x = (x, x)"

definition verify1 :: "string \<Rightarrow> (site1, unit) step" where
  "verify1 k s = (case s of (st, x, l) \<Rightarrow> (Inr (), (st, x, (fst l @ [k], k # snd l))))"

definition recover1 :: "string \<Rightarrow> (site1, unit) step" where
  "recover1 k s = (case s of (st, x, l) \<Rightarrow> (Inr (), (st, x, (fst l, k # snd l))))"

definition key1 :: string where "key1 = replicate 64 (CHR ''b'')"

definition opened :: progress where
  "opened = \<lparr>pg_checkpoint = \<lparr>ck_context = replicate 64 (CHR ''a''), ck_steps = []\<rparr>, pg_stored = None,
     pg_maximum_steps = 8, pg_completed = 0, pg_deadline = 60, pg_request_budget = 120, pg_hard_deadline = None,
     pg_step_deadline = None\<rparr>"

definition worked_by :: "string \<Rightarrow> site1 \<Rightarrow> site1" where
  "worked_by worker s = fst (snd (run_step (site_store env1 tick1 ''p-1'' worker 60) key1 (verify1 key1) None (s, opened)))"

abbreviation site_view :: "site1 probe_view" where "site_view \<equiv> store_view ''p-1'' fst (\<lambda>l. set (snd l))"

lemma worked_by_step: "probe_step (store_worker ''p-1'') site_view verify1 recover1 s (worked_by worker s)"
proof -
  obtain r u p where "run_step (site_store env1 tick1 ''p-1'' worker 60) key1 (verify1 key1) None (s, opened) = (r, (u, p))"
    by (metis prod.exhaust)
  moreover have "synced opened" by (simp add: synced_def opened_def sound_checkpoint_def)
  moreover have "store_worker ''p-1'' (site_store env1 tick1 ''p-1'' worker 60)" by (auto simp: store_worker_def)
  ultimately show ?thesis unfolding worked_by_def by (auto intro: probe_step.works)
qed

text \<open>The holder of the lease, another worker, and the holder again from an old checkpoint.\<close>

definition site_after :: site1 where
  "site_after = worked_by ''w'' (worked_by ''v'' (worked_by ''w'' (leased_store, 5, ([], []))))"

lemma run_site: "fst (snd (snd site_after)) = [key1]"
  "map_option (\<lambda>c. map_of (ck_steps c) key1) (stored_checkpoint ''p-1'' (fst site_after)) = Some (Some Step_passed)"
  by code_simp+

lemma stored_probes_once_witness: "fst (snd (snd site_after)) = [key1] \<and> key1 \<in> set (snd (snd (snd site_after)))"
proof -
  obtain st x l where s: "site_after = (st, x, l)" by (metis prod.exhaust)
  have laws: "verify_law verify1 site_view" "recover_law recover1 site_view"
    by (auto simp: verify_law_def recover_law_def verify1_def recover1_def store_view_def split: prod.splits)
  have none: "stored_checkpoint ''p-1'' leased_store = None"
    by (simp add: stored_checkpoint_def leased_rows find_row_def verifying_def dfield_def read_checkpoint_def)
  have run: "(probe_step (store_worker ''p-1'') site_view verify1 recover1)\<^sup>*\<^sup>* (leased_store, 5, ([], [])) (st, x, l)"
    unfolding s [symmetric] site_after_def
    by (rule rtranclp.rtrancl_into_rtrancl [OF rtranclp.rtrancl_into_rtrancl
      [OF rtranclp.rtrancl_into_rtrancl [OF rtranclp.rtrancl_refl]]]; rule worked_by_step)
  have "distinct (fst l) \<and> (\<forall>c k. stored_checkpoint ''p-1'' st = Some c \<and> map_of (ck_steps c) k = Some Step_passed
      \<longrightarrow> k \<in> set (snd l))"
    by (rule stored_probes_once [OF laws none _ run]) simp
  then show ?thesis using run_site by (auto simp: s)
qed

lemma resume_not_audited_witness:
  "rs_audit (snd (resume_authorization 9 ''p-1'' ''ann'' (leased_store\<lparr>rs_publications := [verifying\<lparr>pu_status := Pub_awaiting\<rparr>]\<rparr>))) = []"
proof -
  have "is_ok (fst (resume_authorization 9 ''p-1'' ''ann'' (leased_store\<lparr>rs_publications := [verifying\<lparr>pu_status := Pub_awaiting\<rparr>]\<rparr>)))"
    by code_simp
  then obtain p st' where "resume_authorization 9 ''p-1'' ''ann'' (leased_store\<lparr>rs_publications := [verifying\<lparr>pu_status := Pub_awaiting\<rparr>]\<rparr>)
      = (Inr p, st')" by (metis is_ok_iff prod.collapse)
  from resume_not_audited [OF this] this show ?thesis by (simp add: leased_rows)
qed

end
